(* ===== verification/Gateway_Prelude.thy ===== *)
theory Gateway_Prelude
  imports Main "HOL-Library.Word" "HOL-Library.Multiset"
begin

text \<open>
  Shared vocabulary of the development: the machine integers of the C sources as words,
  the saturating counters that every component keeps, and the abstraction of a ring buffer
  (an array with a head index and an element count) to the list of its elements.
\<close>

unbundle bit_operations_syntax

section \<open>Machine integers\<close>

type_synonym u8 = "8 word"
type_synonym u16 = "16 word"
type_synonym u32 = "32 word"

named_theorems saturating \<open>facts about the saturating 32-bit counters\<close>
named_theorems ring \<open>facts about the list held by a ring buffer\<close>

lemma unat_u32_less: "unat (v :: u32) < 4294967296"
proof -
  have "unat v < 2 ^ LENGTH(32)" by (rule unsigned_less)
  then show ?thesis by simp
qed

section \<open>Saturating counters\<close>

text \<open>The statistics counters stop at the largest 32-bit value instead of wrapping.\<close>

definition increment :: "u32 \<Rightarrow> u32" where
  "increment v = (if v \<noteq> 0xffffffff then v + 1 else v)"

definition add_counter :: "u32 \<Rightarrow> u32 \<Rightarrow> u32" where
  "add_counter v amount = (if NOT 0 - v < amount then NOT 0 else v + amount)"

lemma unat_increment [saturating]: "unat (increment v) = min (unat v + 1) (2 ^ 32 - 1)"
proof (cases "v = 0xffffffff")
  case True
  then show ?thesis by (simp add: increment_def)
next
  case False
  then have "unat v \<noteq> unat (0xffffffff :: u32)" by (simp only: word_unat_eq_iff not_False_eq_True)
  then have "unat v < 4294967295" using unat_u32_less [of v] by simp
  then show ?thesis using False by (simp add: increment_def unat_word_ariths)
qed

lemma increment_mono [saturating]: "v \<le> increment v"
  using unat_u32_less [of v] by (auto simp: word_le_nat_alt unat_increment min_def)

lemma increment_nonzero [saturating, simp]: "increment v \<noteq> 0"
proof -
  have "unat (increment v) \<noteq> 0" by (simp add: unat_increment)
  then show ?thesis by auto
qed

lemma unat_add_counter [saturating]:
  "unat (add_counter v a) = min (unat v + unat a) (2 ^ 32 - 1)"
proof -
  have bv: "unat v < 4294967296" by (rule unat_u32_less)
  have m: "unat (- 1 :: u32) = 4294967295" by (simp add: unsigned_minus_1_eq_mask mask_eq_exp_minus_1)
  have "unat (NOT 0 - v) = 4294967295 - unat v"
    using bv by (simp add: unat_sub_if' m)
  then show ?thesis
    using bv by (auto simp: add_counter_def word_less_nat_alt unat_word_ariths m)
qed

section \<open>Ring buffers\<close>

text \<open>
  The C code keeps bounded queues as an array with a head index and a count; slot
  \<open>(head + i) mod length\<close> holds element \<open>i\<close>.
\<close>

definition ring_list :: "'a list \<Rightarrow> nat \<Rightarrow> nat \<Rightarrow> 'a list" where
  "ring_list xs h n = map (\<lambda>i. xs ! ((h + i) mod length xs)) [0..<n]"

lemma length_ring_list [ring, simp]: "length (ring_list xs h n) = n"
  by (simp add: ring_list_def)

lemma ring_list_0 [ring, simp]: "ring_list xs h 0 = []"
  by (simp add: ring_list_def)

lemma ring_list_eq_Nil [ring, simp]: "ring_list xs h n = [] \<longleftrightarrow> n = 0"
  by (simp add: ring_list_def)

lemma nth_ring_list [ring]: "i < n \<Longrightarrow> ring_list xs h n ! i = xs ! ((h + i) mod length xs)"
  by (simp add: ring_list_def)

lemma mod_add_cancel_less:
  fixes h i j k :: nat
  assumes "(h + i) mod k = (h + j) mod k" "i < k" "j < k"
  shows "i = j"
proof -
  have "(int h + int i) mod int k = (int h + int j) mod int k"
    using assms(1) by (metis of_nat_add of_nat_mod)
  then have "int i mod int k = int j mod int k"
    by (metis mod_diff_left_eq add_diff_cancel_left')
  then show ?thesis using assms(2,3) by simp
qed

lemma ring_list_push [ring]:
  assumes "n < length xs"
  shows "ring_list (xs[(h + n) mod length xs := x]) h (Suc n) = ring_list xs h n @ [x]"
proof (rule nth_equalityI)
  show "length (ring_list (xs[(h + n) mod length xs := x]) h (Suc n)) = length (ring_list xs h n @ [x])"
    by simp
next
  fix i assume "i < length (ring_list (xs[(h + n) mod length xs := x]) h (Suc n))"
  then have i: "i < Suc n" by simp
  have pos: "(h + n) mod length xs < length xs" using assms by (intro mod_less_divisor) linarith
  show "ring_list (xs[(h + n) mod length xs := x]) h (Suc n) ! i = (ring_list xs h n @ [x]) ! i"
  proof (cases "i = n")
    case True
    then show ?thesis using pos by (simp add: nth_ring_list nth_append)
  next
    case False
    with i have "i < n" by simp
    moreover have "(h + i) mod length xs \<noteq> (h + n) mod length xs"
      using mod_add_cancel_less [of h i "length xs" n] \<open>i < n\<close> assms by auto
    ultimately show ?thesis by (simp add: nth_ring_list nth_append)
  qed
qed

lemma ring_list_drop [ring]:
  "k \<le> n \<Longrightarrow> ring_list xs ((h + k) mod length xs) (n - k) = drop k (ring_list xs h n)"
  by (rule nth_equalityI) (auto simp: nth_ring_list mod_add_left_eq add.assoc)

lemma ring_list_pop [ring]:
  "ring_list xs h (Suc n) = xs ! (h mod length xs) # ring_list xs ((h + 1) mod length xs) n"
proof -
  have "ring_list xs h (Suc n) \<noteq> []" by simp
  then have "ring_list xs h (Suc n) = hd (ring_list xs h (Suc n)) # tl (ring_list xs h (Suc n))"
    by simp
  moreover have "hd (ring_list xs h (Suc n)) = xs ! (h mod length xs)"
    by (simp add: hd_conv_nth nth_ring_list)
  moreover have "tl (ring_list xs h (Suc n)) = ring_list xs ((h + 1) mod length xs) n"
    using ring_list_drop [of 1 "Suc n" xs h] by (simp add: drop_Suc)
  ultimately show ?thesis by simp
qed

section \<open>Searching an array from its start\<close>

fun find_index :: "('a \<Rightarrow> bool) \<Rightarrow> 'a list \<Rightarrow> nat option" where
  "find_index P [] = None"
| "find_index P (x # xs) = (if P x then Some 0 else map_option Suc (find_index P xs))"

lemma find_index_None [simp]: "find_index P xs = None \<longleftrightarrow> (\<forall>x \<in> set xs. \<not> P x)"
  by (induction xs) auto

lemma find_index_Some:
  "find_index P xs = Some i \<Longrightarrow> i < length xs \<and> P (xs ! i) \<and> (\<forall>j < i. \<not> P (xs ! j))"
  by (induction xs arbitrary: i) (auto simp: less_Suc_eq_0_disj split: if_splits)

lemma find_index_length: "find_index P xs = Some i \<Longrightarrow> i < length xs"
  and find_index_holds: "find_index P xs = Some i \<Longrightarrow> P (xs ! i)"
  and find_index_first: "find_index P xs = Some i \<Longrightarrow> j < i \<Longrightarrow> \<not> P (xs ! j)"
  using find_index_Some by blast+

end
