(* ===== verification/Deadline.thy ===== *)
theory Deadline
  imports Gateway_Prelude
begin

text \<open>
  The millisecond clock of \<open>src/core/deadline.c\<close> and the tick accumulator of
  \<open>src/core/monotonic.h\<close>. A tick is a 32-bit counter that wraps; a deadline stores the tick
  at which it fires and is compared by the sign of the wrapped difference.
\<close>

type_synonym tick = u32

abbreviation CORE_TICK_HALF_RANGE :: u32 where
  "CORE_TICK_HALF_RANGE \<equiv> 0x80000000"

record core_deadline =
  at :: tick
  armed :: bool

definition core_ticks_valid_interval :: "tick \<Rightarrow> bool" where
  "core_ticks_valid_interval interval \<longleftrightarrow> interval < CORE_TICK_HALF_RANGE"

definition core_deadline_after :: "tick \<Rightarrow> tick \<Rightarrow> core_deadline" where
  "core_deadline_after now interval =
     \<lparr>at = now + interval, armed = core_ticks_valid_interval interval\<rparr>"

definition core_deadline_expired :: "core_deadline \<Rightarrow> tick \<Rightarrow> bool" where
  "core_deadline_expired d now =
     (if \<not> armed d then False else now - at d < CORE_TICK_HALF_RANGE)"

definition core_elapsed :: "tick \<Rightarrow> tick \<Rightarrow> tick" where
  "core_elapsed since now = now - since"

text \<open>The value of a zeroed \<open>core_deadline_t\<close>.\<close>

definition no_deadline :: core_deadline where
  "no_deadline = \<lparr>at = 0, armed = False\<rparr>"

lemma no_deadline_never_expires [simp]: "\<not> core_deadline_expired no_deadline now"
  by (simp add: core_deadline_expired_def no_deadline_def)

lemma core_elapsed_shift [simp]: "core_elapsed t (t + d) = d"
  by (simp add: core_elapsed_def)

lemma deadline_expired_shift:
  assumes "core_ticks_valid_interval i"
  shows "core_deadline_expired (core_deadline_after now i) (now + d) \<longleftrightarrow> unat (d - i) < 2147483648"
  using assms by (simp add: core_deadline_expired_def core_deadline_after_def word_less_nat_alt)

lemma valid_interval_unat: "core_ticks_valid_interval i \<longleftrightarrow> unat i < 2147483648"
  by (simp add: core_ticks_valid_interval_def word_less_nat_alt)

lemma deadline_not_due_at_start:
  assumes "core_ticks_valid_interval i" "i \<noteq> 0"
  shows "\<not> core_deadline_expired (core_deadline_after now i) now"
proof -
  have "unat i \<noteq> 0" using assms(2) by (simp add: unat_eq_zero)
  then have "\<not> unat (0 - i) < 2147483648"
    using assms(1) by (simp add: valid_interval_unat unat_sub_if' del: diff_0)
  then show ?thesis using deadline_expired_shift [OF assms(1), of now 0] by simp
qed

text \<open>
  A deadline set \<open>i\<close> ticks ahead (\<open>i\<close> below half the clock's range) is expired exactly
  at the ticks from \<open>i\<close> to \<open>i + 2^31 - 1\<close> after the moment it was set, whatever the clock
  reads then: the comparison is right across the wrap of the 32-bit counter.
\<close>

theorem deadline_expires_exactly:
  assumes "core_ticks_valid_interval i"
  shows "core_deadline_expired (core_deadline_after now i) (now + d) \<longleftrightarrow>
           unat i \<le> unat d \<and> unat d < unat i + 2 ^ 31"
proof -
  have "unat (d - i) =
      (if unat i \<le> unat d then unat d - unat i else unat d + 4294967296 - unat i)"
    by (simp add: unat_sub_if')
  then show ?thesis
    using assms by (auto simp: deadline_expired_shift [OF assms] valid_interval_unat)
qed

theorem deadline_expires_exactly_witness:
  "core_deadline_expired (core_deadline_after 0xfffffff0 100) (0xfffffff0 + 100) \<and>
   \<not> core_deadline_expired (core_deadline_after 0xfffffff0 100) (0xfffffff0 + 99)"
proof -
  have h: "core_ticks_valid_interval 100" by (simp add: core_ticks_valid_interval_def)
  show ?thesis
    unfolding deadline_expires_exactly [OF h] by simp
qed

section \<open>Accumulating the 32-bit tick counter\<close>

text \<open>
  The static variables of \<open>gateway_monotonic_time\<close>. The environment's answers
  (\<open>sysconf(_SC_CLK_TCK)\<close>, the width of \<open>clock_t\<close>, the result and errno of \<open>times\<close>) are
  arguments; the result is the return code and the time as seconds and nanoseconds.
\<close>

record monotonic_state =
  previous :: u32
  total :: "64 word"
  initialized :: bool

definition gateway_monotonic_time ::
  "int \<Rightarrow> nat \<Rightarrow> u32 \<Rightarrow> bool \<Rightarrow> monotonic_state \<Rightarrow> int \<times> (64 word \<times> 64 word) option \<times> monotonic_state"
where
  "gateway_monotonic_time hz clock_size current errno_set s =
     (if hz \<noteq> 100 \<or> clock_size \<noteq> 4 then (- 1, None, s)
      else if current = - 1 \<and> errno_set then (- 1, None, s)
      else
        let s = (if \<not> initialized s then s\<lparr>total := ucast current, initialized := True\<rparr>
                 else s\<lparr>total := total s + ucast (current - previous s)\<rparr>);
            s = s\<lparr>previous := current\<rparr>
        in (0, Some (total s div 100, (total s mod 100) * 10000000), s))"

definition monotonic_init :: monotonic_state where
  "monotonic_init = \<lparr>previous = 0, total = 0, initialized = False\<rparr>"

text \<open>Sampling a clock whose true tick counts are \<open>ts\<close>; the code sees each modulo \<open>2^32\<close>.\<close>

fun sample_clock :: "monotonic_state \<Rightarrow> nat list \<Rightarrow> monotonic_state" where
  "sample_clock s [] = s"
| "sample_clock s (t # ts) =
     sample_clock (snd (snd (gateway_monotonic_time 100 4 (of_nat t) False s))) ts"

fun sampled_in_time :: "nat \<Rightarrow> nat list \<Rightarrow> bool" where
  "sampled_in_time t [] = True"
| "sampled_in_time t (u # us) = (t \<le> u \<and> u - t < 2 ^ 32 \<and> sampled_in_time u us)"

lemma ucast_tick_difference:
  assumes "t \<le> u" "u - t < 2 ^ 32"
  shows "(of_nat t :: 64 word) + ucast (of_nat u - of_nat t :: u32) = of_nat u"
proof -
  have "(of_nat u - of_nat t :: u32) = of_nat (u - t)" using assms(1) by simp
  then have "ucast (of_nat u - of_nat t :: u32) = (of_nat (u - t) :: 64 word)"
    using assms(2) by (simp add: unsigned_of_nat take_bit_nat_eq_self)
  then show ?thesis using assms(1) by simp
qed

lemma sample_clock_from:
  assumes "initialized s" "previous s = of_nat t" "total s = of_nat t" "sampled_in_time t ts"
  shows "total (sample_clock s ts) = of_nat (last (t # ts))"
  using assms
proof (induction ts arbitrary: s t)
  case (Cons u us)
  then show ?case
    by (simp add: gateway_monotonic_time_def Let_def ucast_tick_difference)
qed simp

text \<open>
  The 64-bit total follows the true tick count through any number of 32-bit wraps, provided
  consecutive samples are less than \<open>2^32\<close> ticks apart (the condition stated in the source).
\<close>

theorem monotonic_total_tracks_clock:
  assumes "t < 2 ^ 32" "sampled_in_time t ts"
  shows "total (sample_clock monotonic_init (t # ts)) = of_nat (last (t # ts))"
proof -
  have "ucast (of_nat t :: u32) = (of_nat t :: 64 word)"
    using assms(1) by (simp add: unsigned_of_nat take_bit_nat_eq_self)
  then show ?thesis
    using sample_clock_from [of "\<lparr>previous = of_nat t, total = of_nat t, initialized = True\<rparr>" t ts] assms(2)
    by (simp add: gateway_monotonic_time_def Let_def monotonic_init_def)
qed

theorem monotonic_total_tracks_clock_witness:
  "total (sample_clock monotonic_init [4294967290, 4294967300, 8589934592]) = 8589934592"
proof -
  have "sampled_in_time 4294967290 [4294967300, 8589934592]" by simp
  then show ?thesis
    using monotonic_total_tracks_clock [of 4294967290 "[4294967300, 8589934592]"] by simp
qed

end
