(* ===== verification/Fifo.thy ===== *)
theory Fifo
  imports Gateway_Prelude
begin

text \<open>
  The interface of the bounded first-in first-out buffers of the code: the transaction queue of
  a port, the request queue of a Modbus client, the output queue of a TCP connection. Each
  component interprets the locale on its own push and pop; the consequences about arbitrary
  sequences of operations are proved once here.
\<close>

datatype 'a fifo_op = Push 'a | Pop

text \<open>
  Running a sequence of operations: the elements accepted, the elements taken out, and the
  final buffer. A refused push and a pop of an empty buffer change nothing.
\<close>

fun fifo_run ::
  "('q \<Rightarrow> 'a \<Rightarrow> 'q option) \<Rightarrow> ('q \<Rightarrow> ('a \<times> 'q) option) \<Rightarrow> 'q \<Rightarrow> 'a fifo_op list \<Rightarrow>
   'a list \<times> 'a list \<times> 'q"
where
  "fifo_run push pop q [] = ([], [], q)"
| "fifo_run push pop q (Push x # ops) =
     (case push q x of
        None \<Rightarrow> fifo_run push pop q ops
      | Some q' \<Rightarrow> (let (acc, out, r) = fifo_run push pop q' ops in (x # acc, out, r)))"
| "fifo_run push pop q (Pop # ops) =
     (case pop q of
        None \<Rightarrow> fifo_run push pop q ops
      | Some (x, q') \<Rightarrow> (let (acc, out, r) = fifo_run push pop q' ops in (acc, x # out, r)))"

locale bounded_fifo =
  fixes push :: "'q \<Rightarrow> 'a \<Rightarrow> 'q option"
    and pop :: "'q \<Rightarrow> ('a \<times> 'q) option"
    and items :: "'q \<Rightarrow> 'a list"
    and wf :: "'q \<Rightarrow> bool"
    and fits :: "'a list \<Rightarrow> 'a \<Rightarrow> bool"
    and capacity :: nat
  assumes push_refused: "wf q \<Longrightarrow> push q x = None \<longleftrightarrow> \<not> fits (items q) x"
    and push_items: "wf q \<Longrightarrow> push q x = Some q' \<Longrightarrow> items q' = items q @ [x]"
    and push_wf: "wf q \<Longrightarrow> push q x = Some q' \<Longrightarrow> wf q'"
    and pop_empty: "wf q \<Longrightarrow> pop q = None \<longleftrightarrow> items q = []"
    and pop_items: "wf q \<Longrightarrow> pop q = Some (x, q') \<Longrightarrow> items q = x # items q'"
    and pop_wf: "wf q \<Longrightarrow> pop q = Some (x, q') \<Longrightarrow> wf q'"
    and within: "wf q \<Longrightarrow> length (items q) \<le> capacity"
begin

lemma pop_Some: "wf q \<Longrightarrow> items q \<noteq> [] \<Longrightarrow> \<exists>q'. pop q = Some (hd (items q), q')"
  using pop_empty [of q] pop_items [of q] by (cases "pop q") auto

lemma push_Some: "wf q \<Longrightarrow> fits (items q) x \<Longrightarrow> \<exists>q'. push q x = Some q'"
  using push_refused [of q x] by auto

lemma pop_shorter: "wf q \<Longrightarrow> pop q = Some (x, q') \<Longrightarrow> length (items q') < length (items q)"
  using pop_items by fastforce

text \<open>In any run, what went in comes out in the same order: nothing lost, duplicated or reordered.\<close>

lemma run_fifo:
  assumes "wf q" "fifo_run push pop q ops = (acc, out, r)"
  shows "wf r \<and> items q @ acc = out @ items r"
  using assms
proof (induction ops arbitrary: q acc out)
  case Nil
  then show ?case by simp
next
  case (Cons op ops)
  show ?case
  proof (cases op)
    case (Push x)
    show ?thesis
    proof (cases "push q x")
      case None
      with Cons Push show ?thesis by simp
    next
      case (Some q')
      then obtain acc' where "fifo_run push pop q' ops = (acc', out, r)" "acc = x # acc'"
        using Cons.prems Push by (auto split: prod.splits)
      then show ?thesis
        using Cons.IH [of q' acc' out] Some Cons.prems(1) push_items push_wf by auto
    qed
  next
    case Pop
    show ?thesis
    proof (cases "pop q")
      case None
      with Cons Pop show ?thesis by simp
    next
      case (Some y)
      obtain x q' where y: "y = (x, q')" by (cases y)
      then obtain out' where "fifo_run push pop q' ops = (acc, out', r)" "out = x # out'"
        using Cons.prems Pop Some by (auto split: prod.splits)
      then show ?thesis
        using Cons.IH [of q' acc out'] Some y Cons.prems(1) pop_items pop_wf by auto
    qed
  qed
qed

lemma run_within: "wf q \<Longrightarrow> fifo_run push pop q ops = (acc, out, r) \<Longrightarrow> length (items r) \<le> capacity"
  using run_fifo within by blast

end

end
