(* ===== verification/Transaction.thy ===== *)
theory Transaction
  imports Deadline Fifo
begin

text \<open>
  The data of \<open>src/core/transaction.h\<close> and of \<open>src/core/port_runtime.h\<close>: transactions, port
  configurations, backend events, the backend's operation table and the port statistics.
  A C buffer with a length (\<open>payload\<close> and \<open>payload_length\<close>) is the list of its valid bytes.
\<close>

abbreviation CORE_TRANSACTION_PAYLOAD_MAX :: nat where "CORE_TRANSACTION_PAYLOAD_MAX \<equiv> 256"
abbreviation CORE_TRANSPORT_METADATA_WORDS :: nat where "CORE_TRANSPORT_METADATA_WORDS \<equiv> 4"
abbreviation CORE_QUEUE_CAPACITY :: nat where "CORE_QUEUE_CAPACITY \<equiv> 8"
abbreviation CORE_QUEUE_BYTES_MAX :: nat where "CORE_QUEUE_BYTES_MAX \<equiv> 1024"
abbreviation CORE_RECOVERY_MAX_ATTEMPTS :: u32 where "CORE_RECOVERY_MAX_ATTEMPTS \<equiv> 3"
abbreviation CORE_ERROR_LENGTH :: nat where "CORE_ERROR_LENGTH \<equiv> 32"

datatype core_transaction_status =
  CORE_TX_QUEUED | CORE_TX_ACTIVE | CORE_TX_COMPLETED | CORE_TX_TIMED_OUT
| CORE_TX_CANCELLED | CORE_TX_FAILED | CORE_TX_MALFORMED

datatype core_operation_direction =
  CORE_OPERATION_TX_ONLY | CORE_OPERATION_RX_ONLY | CORE_OPERATION_TX_THEN_RX

datatype core_response_policy =
  CORE_RESPONSE_NONE | CORE_RESPONSE_FIXED_LENGTH | CORE_RESPONSE_BACKEND_FRAMED

record core_operation =
  direction :: core_operation_direction
  response_policy :: core_response_policy
  expected_response_length :: nat

record core_transaction =
  tx_id :: u32
  tx_generation :: u32
  owner_kind :: u32
  owner_id :: u32
  transport_metadata :: "u32 list"
  tx_operation :: core_operation
  enqueued_at :: tick
  started_at :: tick
  queue_deadline :: core_deadline
  response_deadline :: core_deadline
  response_timeout :: tick
  payload :: "u8 list"
  tx_status :: core_transaction_status
  tx_cancelled :: bool
  request_transmitted :: bool

abbreviation payload_length :: "core_transaction \<Rightarrow> nat" where
  "payload_length t \<equiv> length (payload t)"

text \<open>The all-zero operation and transaction (\<open>memset\<close>).\<close>

definition zero_operation :: core_operation where
  "zero_operation = \<lparr>direction = CORE_OPERATION_TX_ONLY, response_policy = CORE_RESPONSE_NONE,
     expected_response_length = 0\<rparr>"

definition zero_transaction :: core_transaction where
  "zero_transaction = \<lparr>tx_id = 0, tx_generation = 0, owner_kind = 0, owner_id = 0,
     transport_metadata = replicate CORE_TRANSPORT_METADATA_WORDS 0, tx_operation = zero_operation,
     enqueued_at = 0, started_at = 0, queue_deadline = no_deadline, response_deadline = no_deadline,
     response_timeout = 0, payload = [], tx_status = CORE_TX_QUEUED, tx_cancelled = False,
     request_transmitted = False\<rparr>"

datatype port_state =
  PORT_DISABLED | PORT_STARTING | PORT_READY | PORT_ACTIVE | PORT_WAITING | PORT_RECOVERING
| PORT_DEGRADED | PORT_RECONFIGURING | PORT_STOPPING | PORT_ERROR

datatype core_submit_result =
  CORE_ACCEPTED | CORE_QUEUE_FULL | CORE_PORT_DISABLED | CORE_PORT_RECOVERING
| CORE_INVALID_REQUEST | CORE_RECONFIGURING

datatype backend_event_type =
  BACKEND_EVENT_NONE | BACKEND_EVENT_RESPONSE | BACKEND_EVENT_MALFORMED | BACKEND_EVENT_FAILURE
| BACKEND_EVENT_TRANSMITTED

record backend_event =
  ev_type :: backend_event_type
  ev_generation :: u32
  ev_data :: "u8 list"

definition zero_event :: backend_event where
  "zero_event = \<lparr>ev_type = BACKEND_EVENT_NONE, ev_generation = 0, ev_data = []\<rparr>"

record core_port_config =
  cc_revision :: u32
  cc_mode :: u32
  cc_baud :: u32
  cc_data_bits :: u32
  cc_parity :: u32
  cc_stop_bits :: u32
  cc_special_baud_enabled :: u32
  cc_special_baud :: u32
  cc_transport :: u32
  cc_endpoint_port :: u32

text \<open>
  The table of function pointers of a backend, over the type \<open>'b\<close> of the state its context
  points to. Every operation returns its result code and the new state; \<open>poll\<close> also returns
  the event it stored through its last argument.
\<close>

record 'b core_backend_ops =
  be_open :: "'b \<Rightarrow> tick \<Rightarrow> int \<times> 'b"
  be_start :: "'b \<Rightarrow> core_transaction \<Rightarrow> tick \<Rightarrow> int \<times> 'b"
  be_poll :: "'b \<Rightarrow> tick \<Rightarrow> int \<times> backend_event \<times> 'b"
  be_cancel :: "'b \<Rightarrow> u32 \<Rightarrow> 'b"
  be_recover :: "'b \<Rightarrow> tick \<Rightarrow> int \<times> 'b"
  be_reconfigure :: "'b \<Rightarrow> core_port_config \<Rightarrow> tick \<Rightarrow> int \<times> 'b"
  be_stop :: "'b \<Rightarrow> tick \<Rightarrow> int \<times> 'b"

record port_statistics =
  accepted :: u32
  completed :: u32
  timeouts :: u32
  cancelled :: u32
  queue_full :: u32
  invalid :: u32
  recoveries :: u32
  recovery_failures :: u32
  stale_responses :: u32
  backend_failures :: u32
  reconfigurations :: u32
  rollbacks :: u32
  illegal_transitions :: u32
  queue_depth :: u32
  queue_high_water :: u32
  last_success_at :: tick

definition zero_statistics :: port_statistics where
  "zero_statistics = \<lparr>accepted = 0, completed = 0, timeouts = 0, cancelled = 0, queue_full = 0,
     invalid = 0, recoveries = 0, recovery_failures = 0, stale_responses = 0, backend_failures = 0,
     reconfigurations = 0, rollbacks = 0, illegal_transitions = 0, queue_depth = 0,
     queue_high_water = 0, last_success_at = 0\<rparr>"

text \<open>A configuration used by the witnesses: RS-232 mode, 9600 baud, 8N1.\<close>

definition sample_config :: core_port_config where
  "sample_config = \<lparr>cc_revision = 1, cc_mode = 0, cc_baud = 9600, cc_data_bits = 8, cc_parity = 0,
     cc_stop_bits = 1, cc_special_baud_enabled = 0, cc_special_baud = 0, cc_transport = 0,
     cc_endpoint_port = 4001\<rparr>"

section \<open>The transaction queue\<close>

record transaction_queue =
  q_entries :: "core_transaction list"
  q_head :: nat
  q_count :: nat
  q_bytes :: nat

definition zero_queue :: transaction_queue where
  "zero_queue = \<lparr>q_entries = replicate CORE_QUEUE_CAPACITY zero_transaction,
     q_head = 0, q_count = 0, q_bytes = 0\<rparr>"

definition queue_push :: "transaction_queue \<Rightarrow> core_transaction \<Rightarrow> transaction_queue option" where
  "queue_push q t =
     (if q_count q \<ge> CORE_QUEUE_CAPACITY \<or> q_bytes q + payload_length t > CORE_QUEUE_BYTES_MAX
      then None
      else let tail = (q_head q + q_count q) mod CORE_QUEUE_CAPACITY in
        Some (q\<lparr>q_entries := (q_entries q)[tail := t], q_count := q_count q + 1,
                q_bytes := q_bytes q + payload_length t\<rparr>))"

definition queue_pop :: "transaction_queue \<Rightarrow> (core_transaction \<times> transaction_queue) option" where
  "queue_pop q =
     (if q_count q = 0 then None
      else let t = q_entries q ! q_head q in
        Some (t, q\<lparr>q_bytes := q_bytes q - payload_length t,
                   q_head := (q_head q + 1) mod CORE_QUEUE_CAPACITY, q_count := q_count q - 1\<rparr>))"

text \<open>The queue as the list of waiting transactions, oldest first, and its well-formedness.\<close>

definition queue_items :: "transaction_queue \<Rightarrow> core_transaction list" where
  "queue_items q = ring_list (q_entries q) (q_head q) (q_count q)"

definition payload_total :: "core_transaction list \<Rightarrow> nat" where
  "payload_total ts = sum_list (map payload_length ts)"

definition queue_wf :: "transaction_queue \<Rightarrow> bool" where
  "queue_wf q \<longleftrightarrow> length (q_entries q) = CORE_QUEUE_CAPACITY \<and> q_head q < CORE_QUEUE_CAPACITY \<and>
     q_count q \<le> CORE_QUEUE_CAPACITY \<and> q_bytes q = payload_total (queue_items q) \<and>
     q_bytes q \<le> CORE_QUEUE_BYTES_MAX"

definition queue_fits :: "core_transaction list \<Rightarrow> core_transaction \<Rightarrow> bool" where
  "queue_fits ts t \<longleftrightarrow> length ts < CORE_QUEUE_CAPACITY \<and>
     payload_total ts + payload_length t \<le> CORE_QUEUE_BYTES_MAX"

lemma payload_total_simps [simp]:
  "payload_total [] = 0"
  "payload_total (t # ts) = payload_length t + payload_total ts"
  "payload_total (ts @ us) = payload_total ts + payload_total us"
  by (simp_all add: payload_total_def)

lemma length_queue_items [simp]: "length (queue_items q) = q_count q"
  by (simp add: queue_items_def)

lemma queue_items_eq_Nil [simp]: "queue_items q = [] \<longleftrightarrow> q_count q = 0"
  by (simp add: queue_items_def)

lemma queue_pop_items:
  "queue_wf q \<Longrightarrow> queue_pop q = Some (t, q') \<Longrightarrow> queue_items q = t # queue_items q'"
  using ring_list_pop [of "q_entries q" "q_head q" "q_count q - 1"]
  by (auto simp: queue_pop_def queue_items_def queue_wf_def Let_def split: if_splits)

lemma queue_push_items:
  "queue_wf q \<Longrightarrow> queue_push q t = Some q' \<Longrightarrow> queue_items q' = queue_items q @ [t]"
  using ring_list_push [of "q_count q" "q_entries q" "q_head q" t]
  by (auto simp: queue_push_def queue_items_def queue_wf_def Let_def split: if_splits)

lemma queue_pop_fields:
  assumes "queue_pop q = Some (t, q')"
  shows "q_entries q' = q_entries q" "q_bytes q' = q_bytes q - payload_length t"
    "q_head q' = (q_head q + 1) mod CORE_QUEUE_CAPACITY" "q_count q = Suc (q_count q')"
  using assms by (auto simp: queue_pop_def Let_def split: if_splits)

lemma queue_push_fields:
  assumes "queue_push q t = Some q'"
  shows "length (q_entries q') = length (q_entries q)" "q_bytes q' = q_bytes q + payload_length t"
    "q_head q' = q_head q" "q_count q' = Suc (q_count q)" "q_count q < CORE_QUEUE_CAPACITY"
    "q_bytes q + payload_length t \<le> CORE_QUEUE_BYTES_MAX"
  using assms by (auto simp: queue_push_def Let_def split: if_splits)

lemma queue_pop_wf: "queue_wf q \<Longrightarrow> queue_pop q = Some (t, q') \<Longrightarrow> queue_wf q'"
  using queue_pop_items [of q t q'] by (simp add: queue_wf_def queue_pop_fields)

lemma queue_push_wf: "queue_wf q \<Longrightarrow> queue_push q t = Some q' \<Longrightarrow> queue_wf q'"
  using queue_push_items [of q t q'] queue_push_fields [of q t q'] by (simp add: queue_wf_def)

lemma queue_pop_count: "queue_pop q = Some (t, q') \<Longrightarrow> q_count q' < q_count q"
  by (auto simp: queue_pop_def Let_def split: if_splits)

lemma zero_queue_wf [simp]: "queue_wf zero_queue" and zero_queue_items [simp]: "queue_items zero_queue = []"
  by (simp_all add: zero_queue_def queue_wf_def queue_items_def)

interpretation txq: bounded_fifo queue_push queue_pop queue_items queue_wf queue_fits 8
proof unfold_locales
  fix q x assume "queue_wf q"
  then show "queue_push q x = None \<longleftrightarrow> \<not> queue_fits (queue_items q) x"
    by (auto simp: queue_push_def queue_fits_def queue_wf_def Let_def)
next
  fix q assume "queue_wf q"
  then show "queue_pop q = None \<longleftrightarrow> queue_items q = []"
    by (simp add: queue_pop_def Let_def)
next
  fix q assume "queue_wf q"
  then show "length (queue_items q) \<le> 8" by (simp add: queue_wf_def)
qed (blast intro: queue_push_items queue_push_wf queue_pop_items queue_pop_wf)+

text \<open>
  The transaction queue of a port is a bounded FIFO: over any sequence of pushes and pops
  from the empty queue, the accepted transactions leave in the order they arrived, at most eight
  wait at once and their payloads never exceed 1024 bytes together.
\<close>

theorem transaction_queue_fifo:
  "case fifo_run queue_push queue_pop zero_queue ops of
     (acc, out, q) \<Rightarrow> acc = out @ queue_items q \<and> q_count q \<le> 8 \<and>
                     payload_total (queue_items q) \<le> 1024"
proof -
  obtain acc out q where r: "fifo_run queue_push queue_pop zero_queue ops = (acc, out, q)"
    by (cases "fifo_run queue_push queue_pop zero_queue ops") auto
  then show ?thesis
    using txq.run_fifo [OF zero_queue_wf r] by (auto simp: queue_wf_def)
qed

end
