(* ===== verification/Port_Runtime.thy ===== *)
theory Port_Runtime
  imports Transaction
begin

text \<open>
  The state machine of one serial port, \<open>src/core/port_runtime.c\<close>: its state, every operation
  of its interface, and the step function the scheduler calls. \<open>'b\<close> is the state behind the
  backend's context pointer and \<open>'c\<close> the state behind the completion context; both live in the
  port record, since the port is the only path by which they are reached here.
\<close>

section \<open>State\<close>

text \<open>
  The completion callback gets the transaction, its final status and the response bytes. Its
  first argument is the port's generation counter at the moment of the call: the listeners read
  it through their own pointer to the port. No callback changes the port.
\<close>

type_synonym 'c core_completion_fn =
  "u32 \<Rightarrow> 'c \<Rightarrow> core_transaction \<Rightarrow> core_transaction_status \<Rightarrow> u8 list \<Rightarrow> 'c"

record ('b, 'c) port_runtime =
  port_index :: u32
  pr_state :: port_state
  current_config :: core_port_config
  staged_config :: core_port_config
  known_good_config :: core_port_config
  pr_queue :: transaction_queue
  pr_active :: core_transaction
  has_active :: bool
  next_transaction_id :: u32
  pr_generation :: u32
  response_barrier_generation :: u32
  state_deadline :: core_deadline
  recovery_delay :: tick
  recovery_attempts :: u32
  last_error :: string
  stats :: port_statistics
  backend :: "'b core_backend_ops option"
  backend_context :: 'b
  completion :: "'c core_completion_fn option"
  completion_context :: 'c

section \<open>Small helpers\<close>

text \<open>\<open>strncpy\<close> into a 32-byte field that is then terminated.\<close>

definition set_error :: "('b, 'c) port_runtime \<Rightarrow> string \<Rightarrow> ('b, 'c) port_runtime" where
  "set_error p message = p\<lparr>last_error := take (CORE_ERROR_LENGTH - 1) message\<rparr>"

definition config_valid :: "core_port_config \<Rightarrow> bool" where
  "config_valid c \<longleftrightarrow> cc_mode c \<le> 3 \<and> cc_baud c > 0 \<and>
     cc_data_bits c \<ge> 5 \<and> cc_data_bits c \<le> 8 \<and> cc_parity c \<le> 2 \<and>
     (cc_stop_bits c = 1 \<or> cc_stop_bits c = 2) \<and>
     cc_endpoint_port c \<ge> 1 \<and> cc_endpoint_port c \<le> 65535"

text \<open>
  A table pointer that is null, or a table with a null entry, is \<open>None\<close>: the code tests all
  seven entries before it relies on any.
\<close>

definition backend_valid :: "'b core_backend_ops option \<Rightarrow> bool" where
  "backend_valid b \<longleftrightarrow> b \<noteq> None"

fun transition_allowed :: "port_state \<Rightarrow> port_state \<Rightarrow> bool" where
  "transition_allowed PORT_DISABLED to = (to = PORT_STARTING)"
| "transition_allowed PORT_STARTING to =
     (to = PORT_READY \<or> to = PORT_RECOVERING \<or> to = PORT_STOPPING \<or> to = PORT_ERROR)"
| "transition_allowed PORT_READY to =
     (to = PORT_ACTIVE \<or> to = PORT_RECOVERING \<or> to = PORT_RECONFIGURING \<or> to = PORT_STOPPING)"
| "transition_allowed PORT_ACTIVE to =
     (to = PORT_WAITING \<or> to = PORT_RECOVERING \<or> to = PORT_RECONFIGURING \<or> to = PORT_STOPPING)"
| "transition_allowed PORT_WAITING to =
     (to = PORT_READY \<or> to = PORT_RECOVERING \<or> to = PORT_RECONFIGURING \<or> to = PORT_STOPPING)"
| "transition_allowed PORT_RECOVERING to =
     (to = PORT_READY \<or> to = PORT_DEGRADED \<or> to = PORT_RECONFIGURING \<or> to = PORT_STOPPING \<or>
      to = PORT_ERROR)"
| "transition_allowed PORT_DEGRADED to =
     (to = PORT_RECOVERING \<or> to = PORT_RECONFIGURING \<or> to = PORT_STOPPING \<or> to = PORT_ERROR)"
| "transition_allowed PORT_RECONFIGURING to =
     (to = PORT_READY \<or> to = PORT_STOPPING \<or> to = PORT_ERROR)"
| "transition_allowed PORT_STOPPING to = (to = PORT_DISABLED \<or> to = PORT_ERROR)"
| "transition_allowed PORT_ERROR to =
     (to = PORT_STARTING \<or> to = PORT_STOPPING \<or> to = PORT_DISABLED)"

definition port_runtime_transition ::
  "('b, 'c) port_runtime \<Rightarrow> port_state \<Rightarrow> int \<times> ('b, 'c) port_runtime"
where
  "port_runtime_transition p next =
     (if \<not> transition_allowed (pr_state p) next
      then (- 1, set_error (p\<lparr>stats := (stats p)\<lparr>illegal_transitions :=
                    increment (illegal_transitions (stats p))\<rparr>\<rparr>) ''illegal transition'')
      else (0, p\<lparr>pr_state := next\<rparr>))"

text \<open>A transition whose result code the caller ignores.\<close>

abbreviation goto :: "('b, 'c) port_runtime \<Rightarrow> port_state \<Rightarrow> ('b, 'c) port_runtime" where
  "goto p next \<equiv> snd (port_runtime_transition p next)"

definition port_runtime_init ::
  "u32 \<Rightarrow> core_port_config \<Rightarrow> 'b core_backend_ops option \<Rightarrow> 'b \<Rightarrow> 'c \<Rightarrow> ('b, 'c) port_runtime"
where
  "port_runtime_init index config bops bctx cctx =
     \<lparr>port_index = index, pr_state = PORT_DISABLED, current_config = config,
      staged_config = \<lparr>cc_revision = 0, cc_mode = 0, cc_baud = 0, cc_data_bits = 0, cc_parity = 0,
        cc_stop_bits = 0, cc_special_baud_enabled = 0, cc_special_baud = 0, cc_transport = 0,
        cc_endpoint_port = 0\<rparr>,
      known_good_config = config, pr_queue = zero_queue, pr_active = zero_transaction,
      has_active = False, next_transaction_id = 1, pr_generation = 0,
      response_barrier_generation = 0, state_deadline = no_deadline, recovery_delay = 5,
      recovery_attempts = 0, last_error = [], stats = zero_statistics, backend = bops,
      backend_context = bctx, completion = None, completion_context = cctx\<rparr>"

definition port_runtime_set_completion ::
  "('b, 'c) port_runtime \<Rightarrow> 'c core_completion_fn option \<Rightarrow> 'c \<Rightarrow> ('b, 'c) port_runtime"
where
  "port_runtime_set_completion p f ctx = p\<lparr>completion := f, completion_context := ctx\<rparr>"

definition notify_completion ::
  "('b, 'c) port_runtime \<Rightarrow> core_transaction \<Rightarrow> core_transaction_status \<Rightarrow> u8 list \<Rightarrow>
   ('b, 'c) port_runtime"
where
  "notify_completion p t status response =
     p\<lparr>completion_context :=
        (case completion p of None \<Rightarrow> completion_context p
         | Some f \<Rightarrow> f (pr_generation p) (completion_context p) t status response)\<rparr>"

definition port_runtime_start ::
  "('b, 'c) port_runtime \<Rightarrow> tick \<Rightarrow> tick \<Rightarrow> int \<times> ('b, 'c) port_runtime"
where
  "port_runtime_start p now start_timeout =
     (if \<not> backend_valid (backend p) \<or> \<not> core_ticks_valid_interval start_timeout then (- 1, p)
      else let (r, p) = port_runtime_transition p PORT_STARTING in
        if r < 0 then (- 1, p)
        else (0, p\<lparr>state_deadline := core_deadline_after now start_timeout\<rparr>))"

definition update_depth :: "('b, 'c) port_runtime \<Rightarrow> ('b, 'c) port_runtime" where
  "update_depth p =
     (let d = of_nat (q_count (pr_queue p)) in
      p\<lparr>stats := (stats p)\<lparr>queue_depth := d,
         queue_high_water := (if d > queue_high_water (stats p) then d
                              else queue_high_water (stats p))\<rparr>\<rparr>)"

section \<open>Submitting a transaction\<close>

text \<open>
  Range checks on the two enumerations are the type's; what remains are the combinations.
  \<open>None\<close> is the null pointer.
\<close>

definition operation_valid :: "core_operation option \<Rightarrow> bool" where
  "operation_valid op =
     (case op of None \<Rightarrow> False
      | Some v \<Rightarrow>
         if direction v = CORE_OPERATION_TX_ONLY
         then response_policy v = CORE_RESPONSE_NONE \<and> expected_response_length v = 0
         else if response_policy v = CORE_RESPONSE_FIXED_LENGTH
         then expected_response_length v > 0 \<and>
              expected_response_length v \<le> CORE_TRANSACTION_PAYLOAD_MAX
         else response_policy v = CORE_RESPONSE_BACKEND_FRAMED \<and> expected_response_length v = 0)"

definition new_transaction ::
  "('b, 'c) port_runtime \<Rightarrow> u8 list \<Rightarrow> u32 \<Rightarrow> u32 \<Rightarrow> u32 list option \<Rightarrow> core_operation \<Rightarrow>
   tick \<Rightarrow> tick \<Rightarrow> tick \<Rightarrow> core_transaction"
where
  "new_transaction p data kind owner metadata op now queue_timeout rsp_timeout =
     zero_transaction\<lparr>tx_id := next_transaction_id p, owner_kind := kind, owner_id := owner,
       transport_metadata := (case metadata of
          None \<Rightarrow> replicate CORE_TRANSPORT_METADATA_WORDS 0
        | Some m \<Rightarrow> take CORE_TRANSPORT_METADATA_WORDS m),
       tx_operation := op, enqueued_at := now,
       queue_deadline := core_deadline_after now queue_timeout,
       response_timeout := rsp_timeout, payload := data, tx_status := CORE_TX_QUEUED\<rparr>"

definition port_runtime_submit_operation ::
  "('b, 'c) port_runtime \<Rightarrow> u8 list option \<Rightarrow> u32 \<Rightarrow> u32 \<Rightarrow> u32 list option \<Rightarrow>
   core_operation option \<Rightarrow> tick \<Rightarrow> tick \<Rightarrow> tick \<Rightarrow>
   core_submit_result \<times> u32 option \<times> ('b, 'c) port_runtime"
where
  "port_runtime_submit_operation p data kind owner metadata op now queue_timeout rsp_timeout =
     (if data = None \<or> the data = [] \<or> length (the data) > CORE_TRANSACTION_PAYLOAD_MAX \<or>
         \<not> core_ticks_valid_interval queue_timeout \<or> queue_timeout = 0 \<or>
         \<not> core_ticks_valid_interval rsp_timeout \<or> rsp_timeout = 0 \<or> \<not> operation_valid op
      then (CORE_INVALID_REQUEST, None,
            p\<lparr>stats := (stats p)\<lparr>invalid := increment (invalid (stats p))\<rparr>\<rparr>)
      else if pr_state p = PORT_DISABLED \<or> pr_state p = PORT_STOPPING \<or> pr_state p = PORT_ERROR
      then (CORE_PORT_DISABLED, None, p)
      else if pr_state p = PORT_RECOVERING \<or> pr_state p = PORT_DEGRADED \<or> pr_state p = PORT_STARTING
      then (CORE_PORT_RECOVERING, None, p)
      else if pr_state p = PORT_RECONFIGURING then (CORE_RECONFIGURING, None, p)
      else
        let t = new_transaction p (the data) kind owner metadata (the op) now queue_timeout rsp_timeout;
            n = next_transaction_id p + 1;
            p = p\<lparr>next_transaction_id := (if n = 0 then 1 else n)\<rparr>
        in case queue_push (pr_queue p) t of
             None \<Rightarrow> (CORE_QUEUE_FULL, None,
                      p\<lparr>stats := (stats p)\<lparr>queue_full := increment (queue_full (stats p))\<rparr>\<rparr>)
           | Some q \<Rightarrow> (CORE_ACCEPTED, Some (tx_id t),
                      update_depth (p\<lparr>pr_queue := q,
                        stats := (stats p)\<lparr>accepted := increment (accepted (stats p))\<rparr>\<rparr>)))"

definition framed_operation :: core_operation where
  "framed_operation = \<lparr>direction = CORE_OPERATION_TX_THEN_RX,
     response_policy = CORE_RESPONSE_BACKEND_FRAMED, expected_response_length = 0\<rparr>"

definition port_runtime_submit_with_metadata ::
  "('b, 'c) port_runtime \<Rightarrow> u8 list option \<Rightarrow> u32 \<Rightarrow> u32 \<Rightarrow> u32 list option \<Rightarrow>
   tick \<Rightarrow> tick \<Rightarrow> tick \<Rightarrow> core_submit_result \<times> u32 option \<times> ('b, 'c) port_runtime"
where
  "port_runtime_submit_with_metadata p data kind owner metadata now queue_timeout rsp_timeout =
     port_runtime_submit_operation p data kind owner metadata (Some framed_operation)
       now queue_timeout rsp_timeout"

definition port_runtime_submit ::
  "('b, 'c) port_runtime \<Rightarrow> u8 list option \<Rightarrow> u32 \<Rightarrow> u32 \<Rightarrow>
   tick \<Rightarrow> tick \<Rightarrow> tick \<Rightarrow> core_submit_result \<times> u32 option \<times> ('b, 'c) port_runtime"
where
  "port_runtime_submit p data kind owner now queue_timeout rsp_timeout =
     port_runtime_submit_with_metadata p data kind owner None now queue_timeout rsp_timeout"

section \<open>Calls of the backend\<close>

text \<open>The result of \<open>None\<close> is never used: the callers have tested \<open>backend_valid\<close>, or a
  transaction is active, which only a valid backend can bring about.\<close>

definition call_open :: "('b, 'c) port_runtime \<Rightarrow> tick \<Rightarrow> int \<times> ('b, 'c) port_runtime" where
  "call_open p now = (case backend p of None \<Rightarrow> (- 1, p)
     | Some ops \<Rightarrow> (let (r, b) = be_open ops (backend_context p) now in (r, p\<lparr>backend_context := b\<rparr>)))"

definition call_start :: "('b, 'c) port_runtime \<Rightarrow> tick \<Rightarrow> int \<times> ('b, 'c) port_runtime" where
  "call_start p now = (case backend p of None \<Rightarrow> (- 1, p)
     | Some ops \<Rightarrow> (let (r, b) = be_start ops (backend_context p) (pr_active p) now
                    in (r, p\<lparr>backend_context := b\<rparr>)))"

definition call_poll ::
  "('b, 'c) port_runtime \<Rightarrow> tick \<Rightarrow> int \<times> backend_event \<times> ('b, 'c) port_runtime" where
  "call_poll p now = (case backend p of None \<Rightarrow> (- 1, zero_event, p)
     | Some ops \<Rightarrow> (let (r, e, b) = be_poll ops (backend_context p) now
                    in (r, e, p\<lparr>backend_context := b\<rparr>)))"

definition call_cancel :: "('b, 'c) port_runtime \<Rightarrow> u32 \<Rightarrow> ('b, 'c) port_runtime" where
  "call_cancel p g = p\<lparr>backend_context :=
     (case backend p of None \<Rightarrow> backend_context p | Some ops \<Rightarrow> be_cancel ops (backend_context p) g)\<rparr>"

definition call_recover :: "('b, 'c) port_runtime \<Rightarrow> tick \<Rightarrow> int \<times> ('b, 'c) port_runtime" where
  "call_recover p now = (case backend p of None \<Rightarrow> (- 1, p)
     | Some ops \<Rightarrow> (let (r, b) = be_recover ops (backend_context p) now in (r, p\<lparr>backend_context := b\<rparr>)))"

definition call_reconfigure ::
  "('b, 'c) port_runtime \<Rightarrow> core_port_config \<Rightarrow> tick \<Rightarrow> int \<times> ('b, 'c) port_runtime" where
  "call_reconfigure p c now = (case backend p of None \<Rightarrow> (- 1, p)
     | Some ops \<Rightarrow> (let (r, b) = be_reconfigure ops (backend_context p) c now
                    in (r, p\<lparr>backend_context := b\<rparr>)))"

definition call_stop :: "('b, 'c) port_runtime \<Rightarrow> tick \<Rightarrow> int \<times> ('b, 'c) port_runtime" where
  "call_stop p now = (case backend p of None \<Rightarrow> (- 1, p)
     | Some ops \<Rightarrow> (let (r, b) = be_stop ops (backend_context p) now in (r, p\<lparr>backend_context := b\<rparr>)))"

section \<open>Recovery and flushing\<close>

definition clear_active :: "('b, 'c) port_runtime \<Rightarrow> ('b, 'c) port_runtime" where
  "clear_active p = p\<lparr>pr_active := zero_transaction, has_active := False\<rparr>"

definition begin_recovery ::
  "('b, 'c) port_runtime \<Rightarrow> tick \<Rightarrow> string \<Rightarrow> ('b, 'c) port_runtime"
where
  "begin_recovery p now error =
     (let p = (if has_active p
               then clear_active (call_cancel
                 (p\<lparr>response_barrier_generation := tx_generation (pr_active p)\<rparr>)
                 (tx_generation (pr_active p)))
               else p);
          p = set_error p error;
          p = p\<lparr>recovery_attempts := 0,
                state_deadline := core_deadline_after now (recovery_delay p)\<rparr>
      in goto p PORT_RECOVERING)"

definition port_runtime_report_io_failure ::
  "('b, 'c) port_runtime \<Rightarrow> tick \<Rightarrow> string option \<Rightarrow> int \<times> ('b, 'c) port_runtime"
where
  "port_runtime_report_io_failure p now message =
     (if message = None \<or> pr_state p \<noteq> PORT_READY \<or> has_active p \<or> q_count (pr_queue p) \<noteq> 0
      then (- 1, p)
      else (0, begin_recovery (p\<lparr>stats := (stats p)\<lparr>backend_failures :=
                 increment (backend_failures (stats p))\<rparr>\<rparr>) now (the message)))"

text \<open>The loop of \<open>flush_queue\<close>, then its final \<open>update_depth\<close>.\<close>

function flush_loop :: "('b, 'c) port_runtime \<Rightarrow> ('b, 'c) port_runtime" where
  "flush_loop p =
     (case queue_pop (pr_queue p) of
        None \<Rightarrow> p
      | Some (t, q) \<Rightarrow>
          let p = p\<lparr>pr_queue := q\<rparr>;
              t = t\<lparr>tx_status := CORE_TX_CANCELLED, tx_cancelled := True\<rparr>;
              p = notify_completion p t CORE_TX_CANCELLED []
          in flush_loop (p\<lparr>stats := (stats p)\<lparr>cancelled := increment (cancelled (stats p))\<rparr>\<rparr>))"
  by pat_completeness auto
termination
  by (relation "measure (\<lambda>p. q_count (pr_queue p))")
    (auto simp: notify_completion_def dest: queue_pop_count)

declare flush_loop.simps [simp del]

definition flush_queue :: "('b, 'c) port_runtime \<Rightarrow> ('b, 'c) port_runtime" where
  "flush_queue p = update_depth (flush_loop p)"

section \<open>The step function\<close>

definition set_active_status ::
  "('b, 'c) port_runtime \<Rightarrow> core_transaction_status \<Rightarrow> ('b, 'c) port_runtime" where
  "set_active_status p s = p\<lparr>pr_active := (pr_active p)\<lparr>tx_status := s\<rparr>\<rparr>"

definition mark_transmitted :: "('b, 'c) port_runtime \<Rightarrow> ('b, 'c) port_runtime" where
  "mark_transmitted p = p\<lparr>pr_active := (pr_active p)\<lparr>request_transmitted := True\<rparr>\<rparr>"

text \<open>\<open>step_waiting\<close>: what one poll of the backend does to the active transaction.\<close>

definition step_waiting :: "('b, 'c) port_runtime \<Rightarrow> tick \<Rightarrow> ('b, 'c) port_runtime" where
  "step_waiting p now =
     (let (result, event, p) = call_poll p now in
      if result > 0 \<and> ev_type event \<noteq> BACKEND_EVENT_NONE then
        if \<not> has_active p \<or> ev_generation event \<noteq> tx_generation (pr_active p)
        then p\<lparr>stats := (stats p)\<lparr>stale_responses := increment (stale_responses (stats p))\<rparr>\<rparr>
        else if ev_type event = BACKEND_EVENT_TRANSMITTED then mark_transmitted p
        else if ev_type event = BACKEND_EVENT_RESPONSE then
          let p = set_active_status (mark_transmitted p) CORE_TX_COMPLETED;
              p = p\<lparr>stats := (stats p)\<lparr>completed := increment (completed (stats p)),
                                       last_success_at := now\<rparr>\<rparr>;
              p = notify_completion p (pr_active p) CORE_TX_COMPLETED (ev_data event)
          in goto (clear_active p) PORT_READY
        else if ev_type event = BACKEND_EVENT_MALFORMED then
          let p = set_active_status (mark_transmitted p) CORE_TX_MALFORMED;
              p = p\<lparr>stats := (stats p)\<lparr>invalid := increment (invalid (stats p))\<rparr>\<rparr>;
              p = notify_completion p (pr_active p) CORE_TX_MALFORMED (ev_data event)
          in begin_recovery p now ''malformed response''
        else
          let p = p\<lparr>stats := (stats p)\<lparr>backend_failures := increment (backend_failures (stats p))\<rparr>\<rparr>;
              p = set_active_status p CORE_TX_FAILED;
              p = notify_completion p (pr_active p) CORE_TX_FAILED []
          in begin_recovery p now ''backend failure''
      else if has_active p \<and> core_deadline_expired (response_deadline (pr_active p)) now then
        let p = set_active_status p CORE_TX_TIMED_OUT;
            p = p\<lparr>stats := (stats p)\<lparr>timeouts := increment (timeouts (stats p))\<rparr>\<rparr>;
            p = notify_completion p (pr_active p) CORE_TX_TIMED_OUT []
        in begin_recovery p now ''response timeout''
      else p)"

text \<open>The loop of the READY state: drop what waited too long, activate the first that did not.\<close>

definition activate :: "('b, 'c) port_runtime \<Rightarrow> tick \<Rightarrow> ('b, 'c) port_runtime" where
  "activate p now =
     (let g = pr_generation p + 1;
          g = (if g = 0 then g + 1 else g);
          p = p\<lparr>has_active := True, pr_generation := g,
                pr_active := (pr_active p)\<lparr>tx_generation := g, started_at := now,
                  response_deadline := core_deadline_after now (response_timeout (pr_active p)),
                  tx_status := CORE_TX_ACTIVE\<rparr>\<rparr>
      in goto p PORT_ACTIVE)"

definition expire_queued :: "('b, 'c) port_runtime \<Rightarrow> ('b, 'c) port_runtime" where
  "expire_queued p =
     (let p = p\<lparr>stats := (stats p)\<lparr>timeouts := increment (timeouts (stats p))\<rparr>\<rparr>;
          p = set_active_status p CORE_TX_TIMED_OUT;
          p = notify_completion p (pr_active p) CORE_TX_TIMED_OUT []
      in clear_active p)"

lemma expire_queued_queue [simp]: "pr_queue (expire_queued p) = pr_queue p"
  by (simp add: expire_queued_def Let_def set_active_status_def notify_completion_def clear_active_def)

function ready_loop :: "('b, 'c) port_runtime \<Rightarrow> tick \<Rightarrow> ('b, 'c) port_runtime" where
  "ready_loop p now =
     (case queue_pop (pr_queue p) of
        None \<Rightarrow> p
      | Some (t, q) \<Rightarrow>
          let p = update_depth (p\<lparr>pr_queue := q, pr_active := t\<rparr>) in
          if core_deadline_expired (queue_deadline (pr_active p)) now
          then ready_loop (expire_queued p) now
          else activate p now)"
  by pat_completeness auto
termination
  by (relation "measure (\<lambda>(p, now). q_count (pr_queue p))")
    (auto simp: update_depth_def Let_def dest: queue_pop_count)

declare ready_loop.simps [simp del]

definition step_starting :: "('b, 'c) port_runtime \<Rightarrow> tick \<Rightarrow> ('b, 'c) port_runtime" where
  "step_starting p now =
     (let (result, p) = call_open p now in
      if result = 0 then goto (p\<lparr>recovery_attempts := 0\<rparr>) PORT_READY
      else if core_deadline_expired (state_deadline p) now
      then begin_recovery p now ''backend open failed''
      else p)"

definition step_active :: "('b, 'c) port_runtime \<Rightarrow> tick \<Rightarrow> ('b, 'c) port_runtime" where
  "step_active p now =
     (let (result, p) = call_start p now in
      if result = 0 then goto p PORT_WAITING
      else
        let p = p\<lparr>stats := (stats p)\<lparr>backend_failures := increment (backend_failures (stats p))\<rparr>\<rparr>;
            p = set_active_status p CORE_TX_FAILED;
            p = notify_completion p (pr_active p) CORE_TX_FAILED []
        in begin_recovery p now ''backend start failed'')"

definition step_recovering :: "('b, 'c) port_runtime \<Rightarrow> tick \<Rightarrow> ('b, 'c) port_runtime" where
  "step_recovering p now =
     (let (result, event, p) = call_poll p now;
          p = (if result > 0 \<and> ev_type event \<noteq> BACKEND_EVENT_NONE
               then p\<lparr>stats := (stats p)\<lparr>stale_responses := increment (stale_responses (stats p))\<rparr>\<rparr>
               else p)
      in if core_deadline_expired (state_deadline p) now then
           let (result, p) = call_recover p now in
           if result = 0 then
             goto (p\<lparr>stats := (stats p)\<lparr>recoveries := increment (recoveries (stats p))\<rparr>,
                     recovery_attempts := 0\<rparr>) PORT_READY
           else
             let p = p\<lparr>stats := (stats p)\<lparr>recovery_failures := increment (recovery_failures (stats p))\<rparr>,
                       recovery_attempts := recovery_attempts p + 1\<rparr> in
             if recovery_attempts p \<ge> CORE_RECOVERY_MAX_ATTEMPTS then goto p PORT_DEGRADED
             else p\<lparr>state_deadline := core_deadline_after now (recovery_delay p)\<rparr>
         else p)"

definition step_reconfiguring :: "('b, 'c) port_runtime \<Rightarrow> tick \<Rightarrow> ('b, 'c) port_runtime" where
  "step_reconfiguring p now =
     (if core_deadline_expired (state_deadline p) now then
        let p = set_error p ''reconfigure timeout'';
            (r, p) = call_reconfigure p (known_good_config p) now in
        if r = 0 then
          goto (p\<lparr>stats := (stats p)\<lparr>rollbacks := increment (rollbacks (stats p))\<rparr>\<rparr>) PORT_READY
        else goto p PORT_ERROR
      else
        let (r, p) = call_reconfigure p (staged_config p) now in
        if r = 0 then
          goto (p\<lparr>current_config := staged_config p, known_good_config := staged_config p,
                  stats := (stats p)\<lparr>reconfigurations := increment (reconfigurations (stats p))\<rparr>\<rparr>)
               PORT_READY
        else
          let (r, p) = call_reconfigure p (known_good_config p) now in
          if r = 0 then
            let p = set_error p ''reconfigure rolled back'' in
            goto (p\<lparr>stats := (stats p)\<lparr>rollbacks := increment (rollbacks (stats p))\<rparr>\<rparr>) PORT_READY
          else goto (set_error p ''rollback failed'') PORT_ERROR)"

definition step_stopping :: "('b, 'c) port_runtime \<Rightarrow> tick \<Rightarrow> ('b, 'c) port_runtime" where
  "step_stopping p now =
     (let (result, p) = call_stop p now in
      if result = 0 then goto p PORT_DISABLED
      else if core_deadline_expired (state_deadline p) now
      then goto (set_error p ''stop timeout'') PORT_ERROR
      else p)"

definition port_runtime_step :: "('b, 'c) port_runtime \<Rightarrow> tick \<Rightarrow> ('b, 'c) port_runtime" where
  "port_runtime_step p now =
     (if \<not> backend_valid (backend p) then p
      else case pr_state p of
        PORT_STARTING \<Rightarrow> step_starting p now
      | PORT_READY \<Rightarrow> ready_loop p now
      | PORT_ACTIVE \<Rightarrow> step_active p now
      | PORT_WAITING \<Rightarrow> step_waiting p now
      | PORT_RECOVERING \<Rightarrow> step_recovering p now
      | PORT_RECONFIGURING \<Rightarrow> step_reconfiguring p now
      | PORT_STOPPING \<Rightarrow> step_stopping p now
      | _ \<Rightarrow> p)"

section \<open>Requests of the owner\<close>

definition port_runtime_cancel_active ::
  "('b, 'c) port_runtime \<Rightarrow> tick \<Rightarrow> int \<times> ('b, 'c) port_runtime"
where
  "port_runtime_cancel_active p now =
     (if \<not> has_active p then (- 1, p)
      else
        let p = p\<lparr>pr_active := (pr_active p)\<lparr>tx_cancelled := True, tx_status := CORE_TX_CANCELLED\<rparr>\<rparr>;
            p = p\<lparr>response_barrier_generation := tx_generation (pr_active p)\<rparr>;
            p = call_cancel p (tx_generation (pr_active p));
            p = p\<lparr>stats := (stats p)\<lparr>cancelled := increment (cancelled (stats p))\<rparr>\<rparr>;
            p = notify_completion p (pr_active p) CORE_TX_CANCELLED [];
            p = clear_active p;
            p = p\<lparr>recovery_attempts := 0,
                  state_deadline := core_deadline_after now (recovery_delay p)\<rparr>
        in port_runtime_transition p PORT_RECOVERING)"

definition port_runtime_detach_listener ::
  "('b, 'c) port_runtime \<Rightarrow> tick \<Rightarrow> int \<times> ('b, 'c) port_runtime"
where
  "port_runtime_detach_listener p now =
     (let p = flush_queue p in
      if has_active p then port_runtime_cancel_active p now else (0, p))"

text \<open>The part that \<open>request_reconfigure\<close> and \<open>request_stop\<close> share: give up the active transaction.\<close>

definition abandon_active :: "('b, 'c) port_runtime \<Rightarrow> ('b, 'c) port_runtime" where
  "abandon_active p =
     (if has_active p then
        let p = call_cancel p (tx_generation (pr_active p));
            p = p\<lparr>stats := (stats p)\<lparr>cancelled := increment (cancelled (stats p))\<rparr>\<rparr>;
            p = set_active_status p CORE_TX_CANCELLED;
            p = notify_completion p (pr_active p) CORE_TX_CANCELLED []
        in clear_active p
      else p)"

definition port_runtime_request_reconfigure ::
  "('b, 'c) port_runtime \<Rightarrow> core_port_config option \<Rightarrow> tick \<Rightarrow> tick \<Rightarrow>
   int \<times> ('b, 'c) port_runtime"
where
  "port_runtime_request_reconfigure p config now timeout =
     (if config = None \<or> \<not> config_valid (the config) \<or> timeout = 0 \<or>
         \<not> core_ticks_valid_interval timeout
      then (- 1, p)
      else if pr_state p \<noteq> PORT_READY \<and> pr_state p \<noteq> PORT_ACTIVE \<and> pr_state p \<noteq> PORT_WAITING \<and>
         pr_state p \<noteq> PORT_RECOVERING \<and> pr_state p \<noteq> PORT_DEGRADED
      then (- 1, p)
      else
        let p = flush_queue (abandon_active p);
            p = p\<lparr>known_good_config := current_config p, staged_config := the config,
                  state_deadline := core_deadline_after now timeout\<rparr>
        in port_runtime_transition p PORT_RECONFIGURING)"

definition port_runtime_request_stop ::
  "('b, 'c) port_runtime \<Rightarrow> tick \<Rightarrow> tick \<Rightarrow> int \<times> ('b, 'c) port_runtime"
where
  "port_runtime_request_stop p now timeout =
     (if timeout = 0 \<or> \<not> core_ticks_valid_interval timeout \<or>
         pr_state p = PORT_DISABLED \<or> pr_state p = PORT_STOPPING
      then (- 1, p)
      else
        let p = flush_queue (abandon_active p);
            p = p\<lparr>state_deadline := core_deadline_after now timeout\<rparr>
        in port_runtime_transition p PORT_STOPPING)"

definition port_runtime_active_age :: "('b, 'c) port_runtime \<Rightarrow> tick \<Rightarrow> tick" where
  "port_runtime_active_age p now = (if has_active p then core_elapsed (started_at (pr_active p)) now else 0)"

end
