(* ===== verification/Port_Invariant.thy ===== *)
theory Port_Invariant
  imports Port_Runtime
begin

text \<open>
  The well-formedness invariant of a port and its preservation by every operation of
  \<open>port_runtime.c\<close>: the queue is a well-formed ring of well-formed transactions, a transaction
  is active exactly in the states ACTIVE and WAITING and carries the current generation, nothing
  is queued in the states that accept no work, and the counters of the queue agree with it.
\<close>

section \<open>The invariant\<close>

definition queued_ok :: "core_transaction \<Rightarrow> bool" where
  "queued_ok t \<longleftrightarrow> payload t \<noteq> [] \<and> payload_length t \<le> CORE_TRANSACTION_PAYLOAD_MAX \<and>
     operation_valid (Some (tx_operation t))"

definition queue_ok :: "transaction_queue \<Rightarrow> bool" where
  "queue_ok q \<longleftrightarrow> queue_wf q \<and> (\<forall>t \<in> set (queue_items q). queued_ok t)"

definition depth_ok :: "transaction_queue \<Rightarrow> port_statistics \<Rightarrow> bool" where
  "depth_ok q s \<longleftrightarrow> unat (queue_depth s) = q_count q \<and>
     unat (queue_depth s) \<le> unat (queue_high_water s) \<and> unat (queue_high_water s) \<le> CORE_QUEUE_CAPACITY"

fun busy_state :: "port_state \<Rightarrow> bool" where
  "busy_state PORT_ACTIVE = True" | "busy_state PORT_WAITING = True" | "busy_state _ = False"

fun queueing_state :: "port_state \<Rightarrow> bool" where
  "queueing_state PORT_READY = True" | "queueing_state PORT_ACTIVE = True"
| "queueing_state PORT_WAITING = True" | "queueing_state PORT_RECOVERING = True"
| "queueing_state PORT_DEGRADED = True" | "queueing_state _ = False"

definition active_ok :: "u32 \<Rightarrow> core_transaction \<Rightarrow> bool" where
  "active_ok g t \<longleftrightarrow> queued_ok t \<and> tx_generation t = g \<and> g \<noteq> 0"

definition port_inv :: "('b, 'c) port_runtime \<Rightarrow> bool" where
  "port_inv p \<longleftrightarrow>
     queue_ok (pr_queue p) \<and> depth_ok (pr_queue p) (stats p) \<and>
     has_active p = busy_state (pr_state p) \<and>
     (has_active p \<longrightarrow> backend_valid (backend p) \<and> active_ok (pr_generation p) (pr_active p)) \<and>
     (\<not> queueing_state (pr_state p) \<longrightarrow> q_count (pr_queue p) = 0) \<and>
     next_transaction_id p \<noteq> 0 \<and>
     recovery_attempts p \<le> CORE_RECOVERY_MAX_ATTEMPTS \<and>
     (pr_state p = PORT_RECOVERING \<longrightarrow> recovery_attempts p < CORE_RECOVERY_MAX_ATTEMPTS)"

section \<open>Frame facts of the helpers\<close>

lemma depth_ok_simps [simp]:
  "depth_ok q (s\<lparr>accepted := n\<rparr>) = depth_ok q s"
  "depth_ok q (s\<lparr>completed := n\<rparr>) = depth_ok q s"
  "depth_ok q (s\<lparr>timeouts := n\<rparr>) = depth_ok q s"
  "depth_ok q (s\<lparr>cancelled := n\<rparr>) = depth_ok q s"
  "depth_ok q (s\<lparr>queue_full := n\<rparr>) = depth_ok q s"
  "depth_ok q (s\<lparr>invalid := n\<rparr>) = depth_ok q s"
  "depth_ok q (s\<lparr>recoveries := n\<rparr>) = depth_ok q s"
  "depth_ok q (s\<lparr>recovery_failures := n\<rparr>) = depth_ok q s"
  "depth_ok q (s\<lparr>stale_responses := n\<rparr>) = depth_ok q s"
  "depth_ok q (s\<lparr>backend_failures := n\<rparr>) = depth_ok q s"
  "depth_ok q (s\<lparr>reconfigurations := n\<rparr>) = depth_ok q s"
  "depth_ok q (s\<lparr>rollbacks := n\<rparr>) = depth_ok q s"
  "depth_ok q (s\<lparr>illegal_transitions := n\<rparr>) = depth_ok q s"
  "depth_ok q (s\<lparr>last_success_at := n\<rparr>) = depth_ok q s"
  by (simp_all add: depth_ok_def)

lemma active_ok_simps [simp]:
  "active_ok g (t\<lparr>tx_status := s\<rparr>) = active_ok g t"
  "active_ok g (t\<lparr>request_transmitted := b\<rparr>) = active_ok g t"
  by (simp_all add: active_ok_def queued_ok_def)

lemmas port_steps_defs =
  set_error_def notify_completion_def clear_active_def port_runtime_transition_def
  set_active_status_def mark_transmitted_def call_cancel_def begin_recovery_def Let_def

lemma flush_loop_shape:
  assumes "queue_wf (pr_queue p)"
  shows "\<exists>q c x. flush_loop p = p\<lparr>pr_queue := q, stats := (stats p)\<lparr>cancelled := c\<rparr>, completion_context := x\<rparr> \<and>
           queue_wf q \<and> q_count q = 0"
  using assms
proof (induction p rule: flush_loop.induct)
  case (1 p)
  show ?case
  proof (cases "queue_pop (pr_queue p)")
    case None
    have "q_count (pr_queue p) = 0" using None by (simp add: queue_pop_def Let_def split: if_splits)
    then show ?thesis using None 1(2)
      by (intro exI [of _ "pr_queue p"] exI [of _ "cancelled (stats p)"] exI [of _ "completion_context p"])
        (simp add: flush_loop.simps [of p])
  next
    case (Some a)
    obtain t q where a: "a = (t, q)" by (cases a)
    have wf: "queue_wf q" using Some a 1(2) queue_pop_wf by blast
    let ?p = "notify_completion (p\<lparr>pr_queue := q\<rparr>)
      (t\<lparr>tx_status := CORE_TX_CANCELLED, tx_cancelled := True\<rparr>) CORE_TX_CANCELLED []"
    let ?r = "?p\<lparr>stats := (stats ?p)\<lparr>cancelled := increment (cancelled (stats ?p))\<rparr>\<rparr>"
    have step: "flush_loop p = flush_loop ?r"
      by (simp add: flush_loop.simps [of p] Some a Let_def)
    have "queue_wf (pr_queue ?r)" using wf by (simp add: notify_completion_def)
    from 1(1) [OF Some a [symmetric] refl refl refl this]
    obtain q' c x where "flush_loop ?r = ?r\<lparr>pr_queue := q', stats := (stats ?r)\<lparr>cancelled := c\<rparr>,
        completion_context := x\<rparr> \<and> queue_wf q' \<and> q_count q' = 0" by blast
    then show ?thesis
      unfolding step by (intro exI [of _ q'] exI [of _ c] exI [of _ x]) (simp add: notify_completion_def)
  qed
qed

lemma depth_ok_update: "queue_wf (pr_queue p) \<Longrightarrow> depth_ok q (stats p) \<Longrightarrow> depth_ok (pr_queue p) (stats (update_depth p))"
  by (auto simp: depth_ok_def update_depth_def Let_def queue_wf_def word_less_nat_alt unsigned_of_nat take_bit_nat_eq_self)

lemma queue_ok_empty: "queue_wf q \<Longrightarrow> q_count q = 0 \<Longrightarrow> queue_ok q"
  by (simp add: queue_ok_def) (metis empty_iff list.set(1) queue_items_eq_Nil)

section \<open>Preservation by each operation\<close>

lemma inv_init: "port_inv (port_runtime_init i c b x y)"
  by (simp add: port_inv_def port_runtime_init_def zero_statistics_def depth_ok_def queue_ok_def) (simp add: zero_queue_def)

lemma inv_start: "port_inv p \<Longrightarrow> port_inv (snd (port_runtime_start p now timeout))"
  by (cases "pr_state p") (auto simp: port_inv_def port_runtime_start_def port_steps_defs)

lemma keep_state [simp]:
  "pr_state (notify_completion p t st r) = pr_state p"
  "pr_state (set_active_status p st) = pr_state p"
  "pr_state (mark_transmitted p) = pr_state p"
  "pr_state (set_error p m) = pr_state p"
  "pr_state (call_cancel p g) = pr_state p"
  "pr_state (clear_active p) = pr_state p"
  "pr_state (update_depth p) = pr_state p"
  by (simp_all add: port_steps_defs update_depth_def)

lemma keep_queue [simp]:
  "pr_queue (notify_completion p t st r) = pr_queue p"
  "pr_queue (set_active_status p st) = pr_queue p"
  "pr_queue (mark_transmitted p) = pr_queue p"
  "pr_queue (set_error p m) = pr_queue p"
  "pr_queue (call_cancel p g) = pr_queue p"
  "pr_queue (clear_active p) = pr_queue p"
  "pr_queue (update_depth p) = pr_queue p"
  by (simp_all add: port_steps_defs update_depth_def)

lemma keep_stats [simp]:
  "stats (notify_completion p t st r) = stats p"
  "stats (set_active_status p st) = stats p"
  "stats (mark_transmitted p) = stats p"
  "stats (set_error p m) = stats p"
  "stats (call_cancel p g) = stats p"
  "stats (clear_active p) = stats p"
  by (simp_all add: port_steps_defs)

lemma inv_keep [simp]:
  "port_inv (notify_completion p t st r) = port_inv p"
  "port_inv (set_active_status p st) = port_inv p"
  "port_inv (mark_transmitted p) = port_inv p"
  "port_inv (set_error p m) = port_inv p"
  "port_inv (call_cancel p g) = port_inv p"
  "port_inv (p\<lparr>backend_context := b\<rparr>) = port_inv p"
  "port_inv (p\<lparr>state_deadline := d\<rparr>) = port_inv p"
  by (simp_all add: port_inv_def port_steps_defs)

lemma inv_stats: "port_inv p \<Longrightarrow> depth_ok (pr_queue p) s \<Longrightarrow> port_inv (p\<lparr>stats := s\<rparr>)"
  by (simp add: port_inv_def)

lemma inv_depth: "port_inv p \<Longrightarrow> depth_ok (pr_queue p) (stats p)"
  by (simp add: port_inv_def)

lemma inv_finish: "port_inv p \<Longrightarrow> pr_state p = PORT_WAITING \<Longrightarrow> port_inv (goto (clear_active p) PORT_READY)"
  by (simp add: port_inv_def port_steps_defs)

lemma inv_begin_recovery: "port_inv p \<Longrightarrow> transition_allowed (pr_state p) PORT_RECOVERING \<Longrightarrow> port_inv (begin_recovery p now e)"
  by (cases "pr_state p") (auto simp: port_inv_def port_steps_defs)

lemma call_poll_keep:
  assumes "call_poll p now = (r, e, p')"
  obtains b where "p' = p\<lparr>backend_context := b\<rparr>"
proof (cases "backend p")
  case None
  then have "p' = p\<lparr>backend_context := backend_context p\<rparr>" using assms by (simp add: call_poll_def)
  then show ?thesis by (rule that)
next
  case (Some ops)
  with assms show ?thesis by (auto simp: call_poll_def split: prod.splits intro: that)
qed

lemma inv_step_starting: "port_inv p \<Longrightarrow> pr_state p = PORT_STARTING \<Longrightarrow> port_inv (step_starting p now)"
  by (auto simp: port_inv_def step_starting_def call_open_def port_steps_defs split: option.splits prod.splits)

lemma inv_step_active: "port_inv p \<Longrightarrow> pr_state p = PORT_ACTIVE \<Longrightarrow> port_inv (step_active p now)"
  by (auto simp: port_inv_def step_active_def call_start_def port_steps_defs split: option.splits prod.splits)

lemma inv_step_waiting:
  assumes "port_inv p" "pr_state p = PORT_WAITING" shows "port_inv (step_waiting p now)"
proof -
  obtain r e p' where c: "call_poll p now = (r, e, p')" by (cases "call_poll p now") auto
  then obtain b where p': "p' = p\<lparr>backend_context := b\<rparr>" by (rule call_poll_keep)
  have i: "port_inv p'" "pr_state p' = PORT_WAITING" using assms p' by simp_all
  show ?thesis
    using i inv_depth [OF i(1)]
    by (auto simp: step_waiting_def c Let_def simp del: surjective_pairing intro!: inv_finish inv_begin_recovery inv_stats)
qed

lemma flush_queue_frame:
  assumes "queue_wf (pr_queue p)" "depth_ok (pr_queue p) (stats p)"
  shows "queue_ok (pr_queue (flush_queue p))" "q_count (pr_queue (flush_queue p)) = 0"
    "depth_ok (pr_queue (flush_queue p)) (stats (flush_queue p))"
    "pr_state (flush_queue p) = pr_state p" "has_active (flush_queue p) = has_active p"
    "next_transaction_id (flush_queue p) = next_transaction_id p"
    "recovery_attempts (flush_queue p) = recovery_attempts p"
    "backend (flush_queue p) = backend p" "pr_active (flush_queue p) = pr_active p"
    "pr_generation (flush_queue p) = pr_generation p"
    "current_config (flush_queue p) = current_config p"
proof -
  from flush_loop_shape [OF assms(1)] obtain q c x where s:
    "flush_loop p = p\<lparr>pr_queue := q, stats := (stats p)\<lparr>cancelled := c\<rparr>, completion_context := x\<rparr>"
    "queue_wf q" "q_count q = 0" by auto
  then show "depth_ok (pr_queue (flush_queue p)) (stats (flush_queue p))"
    using depth_ok_update [of "p\<lparr>pr_queue := q, stats := (stats p)\<lparr>cancelled := c\<rparr>, completion_context := x\<rparr>" "pr_queue p"]
      assms(2) by (simp add: flush_queue_def)
  show "queue_ok (pr_queue (flush_queue p))" "q_count (pr_queue (flush_queue p)) = 0"
    "pr_state (flush_queue p) = pr_state p" "has_active (flush_queue p) = has_active p"
    "next_transaction_id (flush_queue p) = next_transaction_id p"
    "recovery_attempts (flush_queue p) = recovery_attempts p"
    "backend (flush_queue p) = backend p" "pr_active (flush_queue p) = pr_active p"
    "pr_generation (flush_queue p) = pr_generation p"
    "current_config (flush_queue p) = current_config p"
    using s queue_ok_empty [OF s(2,3)] by (simp_all add: flush_queue_def update_depth_def Let_def)
qed

lemma inv_flush: "port_inv p \<Longrightarrow> port_inv (flush_queue p)"
  using flush_queue_frame [of p] by (simp add: port_inv_def queue_ok_def)

lemma inv_goto:
  assumes "port_inv p" "transition_allowed (pr_state p) s" "\<not> has_active p" "\<not> busy_state s"
    "queueing_state s \<or> q_count (pr_queue p) = 0" "s \<noteq> PORT_RECOVERING"
  shows "port_inv (goto p s)"
  using assms by (auto simp: port_inv_def port_runtime_transition_def)

lemma inv_attempts:
  "port_inv p \<Longrightarrow> n < CORE_RECOVERY_MAX_ATTEMPTS \<Longrightarrow> port_inv (p\<lparr>recovery_attempts := n\<rparr>)"
  by (simp add: port_inv_def)

lemma inv_configs: "port_inv (p\<lparr>current_config := c\<rparr>) = port_inv p"
  "port_inv (p\<lparr>known_good_config := c\<rparr>) = port_inv p" "port_inv (p\<lparr>staged_config := c\<rparr>) = port_inv p"
  by (simp_all add: port_inv_def)

lemma inv_degraded:
  "port_inv p \<Longrightarrow> pr_state p = PORT_RECOVERING \<Longrightarrow> n \<le> CORE_RECOVERY_MAX_ATTEMPTS \<Longrightarrow>
   port_inv (goto (p\<lparr>recovery_attempts := n\<rparr>) PORT_DEGRADED)"
  by (simp add: port_inv_def port_runtime_transition_def)

lemma call_keep:
  "snd (call_open p now) = p\<lparr>backend_context := backend_context (snd (call_open p now))\<rparr>"
  "snd (call_start p now) = p\<lparr>backend_context := backend_context (snd (call_start p now))\<rparr>"
  "snd (call_recover p now) = p\<lparr>backend_context := backend_context (snd (call_recover p now))\<rparr>"
  "snd (call_reconfigure p c now) = p\<lparr>backend_context := backend_context (snd (call_reconfigure p c now))\<rparr>"
  "snd (call_stop p now) = p\<lparr>backend_context := backend_context (snd (call_stop p now))\<rparr>"
  by (simp_all add: call_open_def call_start_def call_recover_def call_reconfigure_def call_stop_def
      split: option.splits prod.splits)

lemma call_recover_keep: "call_recover p now = (r, p') \<Longrightarrow> \<exists>b. p' = p\<lparr>backend_context := b\<rparr>"
  using call_keep(3) [of p now] by (metis snd_conv)
lemma call_reconfigure_keep: "call_reconfigure p c now = (r, p') \<Longrightarrow> \<exists>b. p' = p\<lparr>backend_context := b\<rparr>"
  using call_keep(4) [of p c now] by (metis snd_conv)
lemma call_stop_keep: "call_stop p now = (r, p') \<Longrightarrow> \<exists>b. p' = p\<lparr>backend_context := b\<rparr>"
  using call_keep(5) [of p now] by (metis snd_conv)

lemma next_attempt: "(n :: u32) < 3 \<Longrightarrow> n + 1 \<le> 3" "(n :: u32) < 3 \<Longrightarrow> \<not> 3 \<le> n + 1 \<Longrightarrow> n + 1 < 3"
  by (auto simp: word_less_nat_alt word_le_nat_alt unat_word_ariths)

lemma inv_step_recovering:
  assumes "port_inv p" "pr_state p = PORT_RECOVERING" shows "port_inv (step_recovering p now)"
proof -
  obtain r e p1 where c: "call_poll p now = (r, e, p1)" by (cases "call_poll p now") auto
  let ?p2 = "if r > 0 \<and> ev_type e \<noteq> BACKEND_EVENT_NONE
     then p1\<lparr>stats := (stats p1)\<lparr>stale_responses := increment (stale_responses (stats p1))\<rparr>\<rparr> else p1"
  obtain r' p3 where c': "call_recover ?p2 now = (r', p3)" by (cases "call_recover ?p2 now")
  obtain b where "p1 = p\<lparr>backend_context := b\<rparr>" using c by (rule call_poll_keep)
  then have i2: "port_inv ?p2" "pr_state ?p2 = PORT_RECOVERING"
    using assms inv_depth [OF assms(1)] by (auto intro!: inv_stats)
  moreover obtain b' where "p3 = ?p2\<lparr>backend_context := b'\<rparr>" using call_recover_keep [OF c'] by blast
  ultimately have i3: "port_inv p3" "pr_state p3 = PORT_RECOVERING" by simp_all
  then have "recovery_attempts p3 < 3" "\<not> has_active p3" by (simp_all add: port_inv_def)
  then show ?thesis
    using i2 i3 inv_depth [OF i3(1)] next_attempt [of "recovery_attempts p3"]
    by (simp add: step_recovering_def c Let_def c' inv_goto inv_stats inv_attempts inv_degraded)
qed

lemma inv_step_reconfiguring:
  fixes p :: "('b, 'c) port_runtime"
  assumes "port_inv p" "pr_state p = PORT_RECONFIGURING" shows "port_inv (step_reconfiguring p now)"
proof -
  define R :: "('b, 'c) port_runtime \<Rightarrow> bool" where
    "R q \<longleftrightarrow> port_inv q \<and> pr_state q = PORT_RECONFIGURING" for q
  have k: "R q \<Longrightarrow> call_reconfigure q c now = (r, q') \<Longrightarrow> R q'" for q q' c r
    using call_reconfigure_keep [of q c now r q'] by (auto simp: R_def)
  have g: "R q \<Longrightarrow> s = PORT_READY \<or> s = PORT_ERROR \<Longrightarrow> port_inv (goto q s)" for q s
    unfolding R_def by (rule inv_goto) (auto simp: port_inv_def)
  have keep: "R (set_error q m) = R q" "R (q\<lparr>current_config := c\<rparr>) = R q"
    "R (q\<lparr>known_good_config := c\<rparr>) = R q" for q m c
    by (simp_all add: R_def inv_configs)
  have st: "R q \<Longrightarrow> R (q\<lparr>stats := (stats q)\<lparr>reconfigurations := n\<rparr>\<rparr>)"
    "R q \<Longrightarrow> R (q\<lparr>stats := (stats q)\<lparr>rollbacks := n\<rparr>\<rparr>)" for q n
    by (simp_all add: R_def inv_stats inv_depth)
  have R: "R p" "R (set_error p m)" for m using assms by (simp_all add: R_def)
  obtain r1 p1 where 1: "call_reconfigure (set_error p ''reconfigure timeout'')
      (known_good_config (set_error p ''reconfigure timeout'')) now = (r1, p1)" by fastforce
  obtain r2 p2 where 2: "call_reconfigure p (staged_config p) now = (r2, p2)" by fastforce
  obtain r3 p3 where 3: "call_reconfigure p2 (known_good_config p2) now = (r3, p3)" by fastforce
  have "R p1" "R p2" using k [OF R(2) 1] k [OF R(1) 2] by simp_all
  moreover then have "R p3" using k [OF _ 3] by simp
  moreover have "R (p2\<lparr>current_config := a, known_good_config := b, stats := (stats p2)\<lparr>reconfigurations := n\<rparr>\<rparr>)"
    for a b n using st(1) [of "p2\<lparr>current_config := a, known_good_config := b\<rparr>" n] \<open>R p2\<close>
    by (simp add: keep)
  ultimately show ?thesis
    using st(2) [of p1] st(2) [of "set_error p3 ''reconfigure rolled back''"]
    by (simp add: step_reconfiguring_def 1 2 3 Let_def g keep)
qed

lemma inv_step_stopping:
  assumes "port_inv p" "pr_state p = PORT_STOPPING" shows "port_inv (step_stopping p now)"
proof -
  obtain r p' where c: "call_stop p now = (r, p')" by (cases "call_stop p now")
  obtain b where "p' = p\<lparr>backend_context := b\<rparr>" using call_stop_keep [OF c] by blast
  then have "port_inv p'" "pr_state p' = PORT_STOPPING" using assms by simp_all
  moreover then have "\<not> has_active p'" "q_count (pr_queue p') = 0" by (simp_all add: port_inv_def)
  moreover then have "\<not> has_active (set_error p' m)" for m by (simp add: set_error_def)
  ultimately show ?thesis by (simp add: step_stopping_def c inv_goto)
qed

lemma inv_idle_transition:
  assumes "queue_ok (pr_queue p)" "depth_ok (pr_queue p) (stats p)" "\<not> has_active p" "\<not> busy_state s"
    "queueing_state s \<or> q_count (pr_queue p) = 0" "next_transaction_id p \<noteq> 0"
    "recovery_attempts p \<le> 3" "s = PORT_RECOVERING \<longrightarrow> recovery_attempts p < 3" "transition_allowed (pr_state p) s"
  shows "port_inv (snd (port_runtime_transition p s))"
  using assms by (auto simp: port_inv_def port_runtime_transition_def)

lemma abandon_frame:
  "has_active (abandon_active p) = False" "pr_state (abandon_active p) = pr_state p"
  "pr_queue (abandon_active p) = pr_queue p" "next_transaction_id (abandon_active p) = next_transaction_id p"
  "recovery_attempts (abandon_active p) = recovery_attempts p"
  "depth_ok q (stats (abandon_active p)) = depth_ok q (stats p)"
  "current_config (abandon_active p) = current_config p"
  by (simp_all add: abandon_active_def port_steps_defs)

lemma inv_request_stop:
  assumes "port_inv p" shows "port_inv (snd (port_runtime_request_stop p now timeout))"
proof (cases "timeout = 0 \<or> \<not> core_ticks_valid_interval timeout \<or> pr_state p = PORT_DISABLED \<or> pr_state p = PORT_STOPPING")
  case True
  then show ?thesis using assms by (auto simp: port_runtime_request_stop_def)
next
  case False
  have q: "queue_wf (pr_queue (abandon_active p))" "depth_ok (pr_queue (abandon_active p)) (stats (abandon_active p))"
    using assms by (simp_all add: abandon_frame port_inv_def queue_ok_def)
  have t: "transition_allowed (pr_state p) PORT_STOPPING" using False by (cases "pr_state p") simp_all
  show ?thesis
    unfolding port_runtime_request_stop_def if_not_P [OF False] Let_def
    by (rule inv_idle_transition)
      (use flush_queue_frame [OF q] assms t in \<open>simp_all add: abandon_frame port_inv_def\<close>)
qed

lemma inv_request_reconfigure:
  assumes "port_inv p" shows "port_inv (snd (port_runtime_request_reconfigure p c now timeout))"
proof (cases "(c = None \<or> \<not> config_valid (the c) \<or> timeout = 0 \<or> \<not> core_ticks_valid_interval timeout) \<or>
    pr_state p \<noteq> PORT_READY \<and> pr_state p \<noteq> PORT_ACTIVE \<and> pr_state p \<noteq> PORT_WAITING \<and>
         pr_state p \<noteq> PORT_RECOVERING \<and> pr_state p \<noteq> PORT_DEGRADED")
  case True
  then show ?thesis using assms by (auto simp: port_runtime_request_reconfigure_def)
next
  case False
  have q: "queue_wf (pr_queue (abandon_active p))" "depth_ok (pr_queue (abandon_active p)) (stats (abandon_active p))"
    using assms by (simp_all add: abandon_frame port_inv_def queue_ok_def)
  have t: "transition_allowed (pr_state p) PORT_RECONFIGURING" using False by (cases "pr_state p") simp_all
  let ?a = "flush_queue (abandon_active p)"
  have "port_inv (snd (port_runtime_transition (?a\<lparr>known_good_config := current_config ?a,
      staged_config := the c, state_deadline := core_deadline_after now timeout\<rparr>) PORT_RECONFIGURING))"
    by (rule inv_idle_transition)
      (use flush_queue_frame [OF q] assms t in \<open>simp_all add: abandon_frame port_inv_def\<close>)
  then show ?thesis using False by (auto simp: port_runtime_request_reconfigure_def Let_def)
qed

lemma inv_cancel_active:
  assumes "port_inv p" shows "port_inv (snd (port_runtime_cancel_active p now))"
  using assms by (cases "pr_state p") (auto simp: port_runtime_cancel_active_def port_inv_def port_steps_defs)

lemma inv_detach: "port_inv p \<Longrightarrow> port_inv (snd (port_runtime_detach_listener p now))"
  by (simp add: port_runtime_detach_listener_def Let_def inv_flush inv_cancel_active)

lemma inv_report: "port_inv p \<Longrightarrow> port_inv (snd (port_runtime_report_io_failure p now m))"
  by (auto simp: port_runtime_report_io_failure_def intro!: inv_begin_recovery inv_stats dest: inv_depth)

lemma inv_set_completion: "port_inv (port_runtime_set_completion p f x) = port_inv p"
  by (simp add: port_runtime_set_completion_def port_inv_def)

lemma new_transaction_ok:
  "d \<noteq> [] \<Longrightarrow> length d \<le> CORE_TRANSACTION_PAYLOAD_MAX \<Longrightarrow> operation_valid (Some op) \<Longrightarrow>
   queued_ok (new_transaction p d k ow m op now qt rt)"
  by (simp add: queued_ok_def new_transaction_def)

lemma submit_cases:
  obtains (invalid) n where "port_runtime_submit_operation p d k ow m op now qt rt =
      (CORE_INVALID_REQUEST, None, p\<lparr>stats := (stats p)\<lparr>invalid := n\<rparr>\<rparr>)"
  | (refused) r where "port_runtime_submit_operation p d k ow m op now qt rt = (r, None, p)" "r \<noteq> CORE_ACCEPTED"
  | (full) i n where "port_runtime_submit_operation p d k ow m op now qt rt =
      (CORE_QUEUE_FULL, None, p\<lparr>next_transaction_id := i, stats := (stats p)\<lparr>queue_full := n\<rparr>\<rparr>)" "i \<noteq> 0"
  | (accepted) t i n q where "port_runtime_submit_operation p d k ow m op now qt rt =
      (CORE_ACCEPTED, Some (tx_id t), update_depth (p\<lparr>next_transaction_id := i, pr_queue := q,
         stats := (stats p)\<lparr>accepted := n\<rparr>\<rparr>))" "i \<noteq> 0" "queue_push (pr_queue p) t = Some q"
      "queued_ok t" "queueing_state (pr_state p)"
      "t = new_transaction p (the d) k ow m (the op) now qt rt"
proof -
  let ?i = "if next_transaction_id p + 1 = 0 then 1 else next_transaction_id p + 1"
  let ?t = "new_transaction p (the d) k ow m (the op) now qt rt"
  consider (bad) "d = None \<or> the d = [] \<or> length (the d) > CORE_TRANSACTION_PAYLOAD_MAX \<or>
         \<not> core_ticks_valid_interval qt \<or> qt = 0 \<or>
         \<not> core_ticks_valid_interval rt \<or> rt = 0 \<or> \<not> operation_valid op"
    | (good) "\<not> (d = None \<or> the d = [] \<or> length (the d) > CORE_TRANSACTION_PAYLOAD_MAX \<or>
         \<not> core_ticks_valid_interval qt \<or> qt = 0 \<or>
         \<not> core_ticks_valid_interval rt \<or> rt = 0 \<or> \<not> operation_valid op)" by blast
  then show ?thesis
  proof cases
    case bad
    show ?thesis by (rule invalid) (simp only: port_runtime_submit_operation_def if_P [OF bad])
  next
    case good
    note step = port_runtime_submit_operation_def [of p d k ow m op now qt rt, unfolded if_not_P [OF good]]
    have "op = Some (the op)" using good by (cases op) (auto simp: operation_valid_def)
    then have ok: "queued_ok ?t" using good by (intro new_transaction_ok) auto
    show ?thesis
    proof (cases "queueing_state (pr_state p) \<and> pr_state p \<noteq> PORT_RECOVERING \<and> pr_state p \<noteq> PORT_DEGRADED")
      case False
      then show ?thesis by (cases "pr_state p") (auto simp: step intro: refused)
    next
      case True
      then have f1: "\<not> (pr_state p = PORT_DISABLED \<or> pr_state p = PORT_STOPPING \<or> pr_state p = PORT_ERROR)"
        and f2: "\<not> (pr_state p = PORT_RECOVERING \<or> pr_state p = PORT_DEGRADED \<or> pr_state p = PORT_STARTING)"
        and f3: "pr_state p \<noteq> PORT_RECONFIGURING"
        by (cases "pr_state p"; simp)+
      note eq = step [unfolded if_not_P [OF f1] if_not_P [OF f2] if_not_P [OF f3] Let_def]
      show ?thesis
      proof (cases "queue_push (pr_queue p) ?t")
        case None
        then show ?thesis by (intro full [where i = ?i and n = "increment (queue_full (stats p))"]) (simp_all add: eq)
      next
        case (Some q)
        then show ?thesis using True ok 
            by (intro accepted [where t = ?t and i = ?i and n = "increment (port_statistics.accepted (stats p))" and q = q])
              (simp_all add: eq)
      qed
    qed
  qed
qed

lemma queue_ok_push: "queue_ok q \<Longrightarrow> queued_ok t \<Longrightarrow> queue_push q t = Some q' \<Longrightarrow> queue_ok q'"
  using queue_push_wf [of q t q'] queue_push_items [of q t q'] by (auto simp: queue_ok_def)

lemma queue_ok_pop: "queue_ok q \<Longrightarrow> queue_pop q = Some (t, q') \<Longrightarrow> queue_ok q' \<and> queued_ok t"
  using queue_pop_wf [of q t q'] queue_pop_items [of q t q'] by (auto simp: queue_ok_def)

lemma inv_submit:
  assumes "port_inv p"
  shows "port_inv (snd (snd (port_runtime_submit_operation p d k ow m op now qt rt)))"
proof (cases rule: submit_cases [of p d k ow m op now qt rt])
  case (accepted t i n q)
  let ?p = "p\<lparr>next_transaction_id := i, pr_queue := q, stats := (stats p)\<lparr>accepted := n\<rparr>\<rparr>"
  have "queue_ok q" using assms accepted queue_ok_push by (auto simp: port_inv_def)
  moreover then have "depth_ok q (stats (update_depth ?p))"
    using depth_ok_update [of ?p "pr_queue p"] assms by (simp add: port_inv_def queue_ok_def)
  ultimately show ?thesis
    using assms accepted by (simp add: port_inv_def update_depth_def Let_def)
qed (use assms in \<open>simp_all add: port_inv_def\<close>)

lemma activate_inv:
  assumes "port_inv p" "pr_state p = PORT_READY" "queue_ok q" "queued_ok t" "backend_valid (backend p)"
    "p' = update_depth (p\<lparr>pr_queue := q, pr_active := t\<rparr>)"
  shows "port_inv (activate p' now)"
proof -
  have "depth_ok q (stats p')"
    using depth_ok_update [of "p\<lparr>pr_queue := q, pr_active := t\<rparr>" "pr_queue p"] assms
    by (simp add: port_inv_def queue_ok_def)
  then show ?thesis
    using assms by (simp add: activate_def update_depth_def port_inv_def active_ok_def queued_ok_def Let_def port_runtime_transition_def)
qed

lemma expire_inv:
  assumes "port_inv p" "pr_state p = PORT_READY" "queue_ok q"
    "p' = update_depth (p\<lparr>pr_queue := q, pr_active := t\<rparr>)"
  shows "port_inv (expire_queued p')" "pr_state (expire_queued p') = PORT_READY"
    "backend (expire_queued p') = backend p"
proof -
  have "depth_ok q (stats p')"
    using depth_ok_update [of "p\<lparr>pr_queue := q, pr_active := t\<rparr>" "pr_queue p"] assms
    by (simp add: port_inv_def queue_ok_def)
  then show "port_inv (expire_queued p')" "pr_state (expire_queued p') = PORT_READY"
    "backend (expire_queued p') = backend p"
    using assms by (simp_all add: expire_queued_def update_depth_def port_inv_def port_steps_defs)
qed

lemma inv_ready_loop:
  assumes "port_inv p" "pr_state p = PORT_READY" "backend_valid (backend p)"
  shows "port_inv (ready_loop p now)"
  using assms
proof (induction p now rule: ready_loop.induct)
  case (1 p now)
  show ?case
  proof (cases "queue_pop (pr_queue p)")
    case None
    with 1 show ?thesis by (simp add: ready_loop.simps [of p])
  next
    case (Some a)
    obtain t q where a: "a = (t, q)" by (cases a)
    let ?p = "update_depth (p\<lparr>pr_queue := q, pr_active := t\<rparr>)"
    have q: "queue_ok q" "queued_ok t" using queue_ok_pop [of "pr_queue p" t q] 1(2) Some a by (auto simp: port_inv_def)
    show ?thesis
    proof (cases "core_deadline_expired (queue_deadline (pr_active ?p)) now")
      case True
      have "port_inv (ready_loop (expire_queued ?p) now)"
        by (rule 1(1) [OF Some a [symmetric] refl True])
          (use expire_inv [OF 1(2,3) q(1) refl, of t] 1(4) in simp_all)
      then show ?thesis using True by (simp add: ready_loop.simps [of p] Some a Let_def)
    next
      case False
      then show ?thesis
        using activate_inv [OF 1(2,3) q 1(4) refl] by (simp add: ready_loop.simps [of p] Some a Let_def)
    qed
  qed
qed

lemma inv_step: "port_inv p \<Longrightarrow> port_inv (port_runtime_step p now)"
  by (simp add: port_runtime_step_def inv_step_starting inv_ready_loop inv_step_active inv_step_waiting
      inv_step_recovering inv_step_reconfiguring inv_step_stopping split: port_state.split)

end
