(* ===== verification/Port_Trail.thy ===== *)
theory Port_Trail
  imports Port_Invariant
begin

text \<open>
  Bookkeeping of transactions. With a completion callback that records its calls, the trail of a
  port is the sequence of identifiers completed so far, then the active one, then those queued.
  Every operation of the port leaves the trail as it is (submission appends the accepted
  identifier; detaching a listener permutes it): no transaction is lost, none completes twice.
\<close>

section \<open>A recording completion callback\<close>

type_synonym completion_log = "(u32 \<times> core_transaction_status) list"

definition record_completion :: "completion_log core_completion_fn" where
  "record_completion g log t st rsp = log @ [(tx_id t, st)]"

definition in_flight :: "('b, 'c) port_runtime \<Rightarrow> u32 list" where
  "in_flight p = (if has_active p then [tx_id (pr_active p)] else []) @ map tx_id (queue_items (pr_queue p))"

definition trail :: "('b, completion_log) port_runtime \<Rightarrow> u32 list" where
  "trail p = map fst (completion_context p) @ in_flight p"

definition recording :: "('b, completion_log) port_runtime \<Rightarrow> bool" where
  "recording p \<longleftrightarrow> completion p = Some record_completion"

section \<open>Frame facts\<close>

lemma trail_keep [simp]:
  "trail (p\<lparr>stats := s\<rparr>) = trail p"
  "trail (p\<lparr>backend_context := b\<rparr>) = trail p"
  "trail (p\<lparr>state_deadline := d\<rparr>) = trail p"
  "trail (p\<lparr>recovery_attempts := n\<rparr>) = trail p"
  "trail (p\<lparr>current_config := c\<rparr>) = trail p"
  "trail (p\<lparr>known_good_config := c\<rparr>) = trail p"
  "trail (p\<lparr>staged_config := c\<rparr>) = trail p"
  "trail (p\<lparr>next_transaction_id := n\<rparr>) = trail p"
  "trail (set_error p m) = trail p"
  "trail (set_active_status p st) = trail p"
  "trail (mark_transmitted p) = trail p"
  "trail (call_cancel p g) = trail p"
  "trail (update_depth p) = trail p"
  "trail (goto p nx) = trail p"
  by (simp_all add: trail_def in_flight_def port_steps_defs update_depth_def)

lemma recording_keep [simp]:
  "recording (p\<lparr>stats := s\<rparr>) = recording p"
  "recording (p\<lparr>backend_context := b\<rparr>) = recording p"
  "recording (p\<lparr>state_deadline := d\<rparr>) = recording p"
  "recording (p\<lparr>recovery_attempts := n\<rparr>) = recording p"
  "recording (p\<lparr>current_config := c\<rparr>) = recording p"
  "recording (p\<lparr>known_good_config := c\<rparr>) = recording p"
  "recording (p\<lparr>staged_config := c\<rparr>) = recording p"
  "recording (p\<lparr>next_transaction_id := n\<rparr>) = recording p"
  "recording (p\<lparr>pr_queue := q\<rparr>) = recording p"
  "recording (p\<lparr>pr_active := t\<rparr>) = recording p"
  "recording (p\<lparr>completion_context := x\<rparr>) = recording p"
  "recording (set_error p m) = recording p"
  "recording (set_active_status p st) = recording p"
  "recording (mark_transmitted p) = recording p"
  "recording (call_cancel p g) = recording p"
  "recording (update_depth p) = recording p"
  "recording (goto p nx) = recording p"
  "recording (notify_completion p t st r) = recording p"
  "recording (clear_active p) = recording p"
  "recording (begin_recovery p now e) = recording p"
  "recording (expire_queued p) = recording p"
  "recording (activate p now) = recording p"
  "recording (abandon_active p) = recording p"
  by (simp_all add: recording_def port_steps_defs update_depth_def expire_queued_def activate_def abandon_active_def)

lemma keep_active [simp]:
  "has_active (notify_completion p t st r) = has_active p"
  "has_active (set_active_status p st) = has_active p"
  "has_active (mark_transmitted p) = has_active p"
  "has_active (set_error p m) = has_active p"
  "has_active (call_cancel p g) = has_active p"
  "has_active (update_depth p) = has_active p"
  "has_active (goto p nx) = has_active p"
  "\<not> has_active (clear_active p)"
  by (simp_all add: port_steps_defs update_depth_def)

lemma active_id_keep [simp]:
  "tx_id (pr_active (set_active_status p st)) = tx_id (pr_active p)"
  "tx_id (pr_active (mark_transmitted p)) = tx_id (pr_active p)"
  by (simp_all add: port_steps_defs)

lemma trail_finish [simp]:
  "recording p \<Longrightarrow> has_active p \<Longrightarrow> tx_id t = tx_id (pr_active p) \<Longrightarrow>
   trail (clear_active (notify_completion p t st r)) = trail p"
  by (simp add: trail_def in_flight_def port_steps_defs recording_def record_completion_def)

lemma trail_recover_idle [simp]: "\<not> has_active p \<Longrightarrow> trail (begin_recovery p now e) = trail p"
  by (simp add: begin_recovery_def Let_def)

lemma trail_recover [simp]:
  "recording p \<Longrightarrow> has_active p \<Longrightarrow> tx_id t = tx_id (pr_active p) \<Longrightarrow>
   trail (begin_recovery (notify_completion p t st r) now e) = trail p"
  by (simp add: trail_def in_flight_def port_steps_defs recording_def record_completion_def)

section \<open>The operations\<close>

text \<open>Flushing reports every queued transaction as cancelled, oldest first.\<close>

lemma flush_loop_log:
  assumes "queue_wf (pr_queue p)" "recording p"
  shows "completion_context (flush_loop p) = completion_context p @
           map (\<lambda>t. (tx_id t, CORE_TX_CANCELLED)) (queue_items (pr_queue p)) \<and> recording (flush_loop p)"
  using assms
proof (induction p rule: flush_loop.induct)
  case (1 p)
  show ?case
  proof (cases "queue_pop (pr_queue p)")
    case None
    then have "queue_items (pr_queue p) = []" using txq.pop_empty [OF 1(2)] by simp
    then show ?thesis using 1(3) None by (simp add: flush_loop.simps [of p])
  next
    case (Some a)
    obtain t q where a: "a = (t, q)" by (cases a)
    let ?p = "notify_completion (p\<lparr>pr_queue := q\<rparr>)
      (t\<lparr>tx_status := CORE_TX_CANCELLED, tx_cancelled := True\<rparr>) CORE_TX_CANCELLED []"
    let ?r = "?p\<lparr>stats := (stats ?p)\<lparr>cancelled := increment (cancelled (stats ?p))\<rparr>\<rparr>"
    have step: "flush_loop p = flush_loop ?r"
      by (simp add: flush_loop.simps [of p] Some a Let_def)
    have "queue_wf (pr_queue ?r)" using queue_pop_wf 1(2) Some a by simp
    note ih = 1(1) [OF Some a [symmetric] refl refl refl this]
    have "recording ?r" using 1(3) by simp
    then show ?thesis
      unfolding step using ih queue_pop_items [OF 1(2)] Some a 1(3)
      by (simp add: notify_completion_def recording_def record_completion_def)
  qed
qed

lemma flush_queue_log:
  assumes "queue_wf (pr_queue p)" "recording p" "depth_ok (pr_queue p) (stats p)"
  shows "completion_context (flush_queue p) = completion_context p @
           map (\<lambda>t. (tx_id t, CORE_TX_CANCELLED)) (queue_items (pr_queue p))"
    "recording (flush_queue p)" "in_flight (flush_queue p) = (if has_active p then [tx_id (pr_active p)] else [])"
  using flush_loop_log [OF assms(1,2)] flush_queue_frame [OF assms(1,3)]
  by (simp_all add: flush_queue_def in_flight_def update_depth_def Let_def)

lemma trail_step_waiting:
  assumes "port_inv p" "pr_state p = PORT_WAITING" "recording p"
  shows "trail (step_waiting p now) = trail p \<and> recording (step_waiting p now)"
proof -
  obtain r e p' where c: "call_poll p now = (r, e, p')" by (cases "call_poll p now") auto
  then obtain b where p': "p' = p\<lparr>backend_context := b\<rparr>" by (rule call_poll_keep)
  have "has_active p'" "recording p'" "trail p' = trail p" using assms p' by (simp_all add: port_inv_def)
  then show ?thesis by (simp add: step_waiting_def c Let_def)
qed


lemma call_trail:
  "trail (snd (call_open p now)) = trail p" "recording (snd (call_open p now)) = recording p" "has_active (snd (call_open p now)) = has_active p"
  "trail (snd (call_start p now)) = trail p" "recording (snd (call_start p now)) = recording p" "has_active (snd (call_start p now)) = has_active p"
  "trail (snd (snd (call_poll p now))) = trail p" "recording (snd (snd (call_poll p now))) = recording p"
  "trail (snd (call_recover p now)) = trail p" "recording (snd (call_recover p now)) = recording p"
  "trail (snd (call_reconfigure p c now)) = trail p" "recording (snd (call_reconfigure p c now)) = recording p"
  "trail (snd (call_stop p now)) = trail p" "recording (snd (call_stop p now)) = recording p"
  by (simp_all add: call_open_def call_start_def call_poll_def call_recover_def call_reconfigure_def call_stop_def
      split: option.split prod.split)

lemma trail_step_starting:
  assumes "port_inv p" "pr_state p = PORT_STARTING" "recording p"
  shows "trail (step_starting p now) = trail p \<and> recording (step_starting p now)"
  using assms by (simp add: step_starting_def split_beta Let_def call_trail port_inv_def)

lemma trail_step_active:
  assumes "port_inv p" "pr_state p = PORT_ACTIVE" "recording p"
  shows "trail (step_active p now) = trail p \<and> recording (step_active p now)"
  using assms by (simp add: step_active_def split_beta Let_def call_trail port_inv_def)

lemma trail_step_recovering: "trail (step_recovering p now) = trail p" "recording (step_recovering p now) = recording p"
  by (simp_all add: step_recovering_def split_beta Let_def call_trail)

lemma trail_step_reconfiguring: "trail (step_reconfiguring p now) = trail p" "recording (step_reconfiguring p now) = recording p"
  by (simp_all add: step_reconfiguring_def split_beta Let_def call_trail)

lemma trail_step_stopping: "trail (step_stopping p now) = trail p" "recording (step_stopping p now) = recording p"
  by (simp_all add: step_stopping_def split_beta Let_def call_trail)

lemma trail_ready_loop:
  assumes "port_inv p" "pr_state p = PORT_READY" "backend_valid (backend p)" "recording p"
  shows "trail (ready_loop p now) = trail p \<and> recording (ready_loop p now)"
  using assms
proof (induction p now rule: ready_loop.induct)
  case (1 p now)
  show ?case
  proof (cases "queue_pop (pr_queue p)")
    case None
    with 1 show ?thesis by (simp add: ready_loop.simps [of p])
  next
    case (Some a)
    obtain t q where a: "a = (t, q)" by (cases a)
    let ?p = "update_depth (p\<lparr>pr_queue := q, pr_active := t\<rparr>)"
    have q: "queue_ok q" "queued_ok t" using queue_ok_pop [of "pr_queue p" t q] 1(2) Some a by (auto simp: port_inv_def)
    have pop: "queue_items (pr_queue p) = t # queue_items q" "\<not> has_active p"
      using queue_pop_items [of "pr_queue p" t q] 1(2,3) Some a by (auto simp: port_inv_def queue_ok_def)
    show ?thesis
    proof (cases "core_deadline_expired (queue_deadline (pr_active ?p)) now")
      case True
      have "trail (ready_loop (expire_queued ?p) now) = trail (expire_queued ?p) \<and> recording (ready_loop (expire_queued ?p) now)"
        by (rule 1(1) [OF Some a [symmetric] refl True])
          (use expire_inv [OF 1(2,3) q(1) refl, of t] 1(4,5) in simp_all)
      moreover have "trail (expire_queued ?p) = trail p"
        using pop 1(5) by (simp add: expire_queued_def trail_def in_flight_def port_steps_defs update_depth_def
            recording_def record_completion_def)
      ultimately show ?thesis using True by (simp add: ready_loop.simps [of p] Some a Let_def)
    next
      case False
      then show ?thesis
        using pop 1(5) by (simp add: ready_loop.simps [of p] Some a Let_def activate_def trail_def in_flight_def
            port_runtime_transition_def update_depth_def set_error_def)
          (simp add: recording_def)
    qed
  qed
qed

lemma trail_step:
  assumes "port_inv p" "recording p"
  shows "trail (port_runtime_step p now) = trail p \<and> recording (port_runtime_step p now)"
  using assms by (simp add: port_runtime_step_def trail_step_starting trail_ready_loop trail_step_active
      trail_step_waiting trail_step_recovering trail_step_reconfiguring trail_step_stopping split: port_state.split)

lemma trail_submit:
  assumes "port_inv p"
  shows "case port_runtime_submit_operation p d k ow m op now qt rt of (r, i, p') \<Rightarrow>
     trail p' = trail p @ (case i of None \<Rightarrow> [] | Some n \<Rightarrow> [n]) \<and> recording p' = recording p"
proof (cases rule: submit_cases [of p d k ow m op now qt rt])
  case (accepted t i n q)
  have "queue_items q = queue_items (pr_queue p) @ [t]"
    using accepted queue_push_items [of "pr_queue p" t q] assms by (simp add: port_inv_def queue_ok_def)
  then show ?thesis by (simp add: accepted) (simp add: trail_def in_flight_def)
qed simp_all

lemma trail_abandon:
  "recording p \<Longrightarrow> trail (abandon_active p) = trail p"
  by (simp add: abandon_active_def Let_def)

lemma trail_flush_queue:
  assumes "queue_wf (pr_queue p)" "recording p" "depth_ok (pr_queue p) (stats p)"
  shows "\<not> has_active p \<Longrightarrow> trail (flush_queue p) = trail p"
    "mset (trail (flush_queue p)) = mset (trail p)" "recording (flush_queue p)"
  using flush_queue_log [OF assms] by (simp_all add: trail_def in_flight_def comp_def)

lemma trail_request_stop:
  assumes "port_inv p" "recording p"
  shows "trail (snd (port_runtime_request_stop p now timeout)) = trail p \<and>
    recording (snd (port_runtime_request_stop p now timeout))"
  using trail_flush_queue [of "abandon_active p"] trail_abandon [OF assms(2)] assms
  by (simp add: port_runtime_request_stop_def Let_def abandon_frame port_inv_def queue_ok_def)

lemma trail_request_reconfigure:
  assumes "port_inv p" "recording p"
  shows "trail (snd (port_runtime_request_reconfigure p c now timeout)) = trail p \<and>
    recording (snd (port_runtime_request_reconfigure p c now timeout))"
  using trail_flush_queue [of "abandon_active p"] trail_abandon [OF assms(2)] assms
  by (simp add: port_runtime_request_reconfigure_def Let_def abandon_frame port_inv_def queue_ok_def)

lemma trail_cancel_active:
  assumes "recording p"
  shows "trail (snd (port_runtime_cancel_active p now)) = trail p \<and>
    recording (snd (port_runtime_cancel_active p now))"
  using assms by (simp add: port_runtime_cancel_active_def port_steps_defs)
   (simp add: trail_def in_flight_def recording_def record_completion_def)

lemma trail_report:
  "trail (snd (port_runtime_report_io_failure p now m)) = trail p"
  "recording (snd (port_runtime_report_io_failure p now m)) = recording p"
  by (simp_all add: port_runtime_report_io_failure_def)

lemma trail_start:
  "trail (snd (port_runtime_start p now timeout)) = trail p"
  "recording (snd (port_runtime_start p now timeout)) = recording p"
  by (simp_all add: port_runtime_start_def split_beta Let_def)

lemma trail_detach:
  assumes "port_inv p" "recording p"
  shows "mset (trail (snd (port_runtime_detach_listener p now))) = mset (trail p) \<and>
    recording (snd (port_runtime_detach_listener p now))"
proof -
  have "recording (flush_queue p) \<and> mset (trail (flush_queue p)) = mset (trail p)"
    using trail_flush_queue [of p] assms by (simp add: port_inv_def queue_ok_def)
  then show ?thesis using trail_cancel_active [of "flush_queue p" now]
    by (simp add: port_runtime_detach_listener_def Let_def)
qed

end
