(* ===== verification/Port_Legal.thy ===== *)
theory Port_Legal
  imports Port_Trail
begin

text \<open>
  Every operation of a port moves along an edge of the state diagram \<open>transition_allowed\<close>, and
  none of them, apart from a start request in the wrong state, asks for a transition that the
  diagram refuses: the counter of illegal transitions stays where it was.
\<close>

definition legal :: "('b, 'c) port_runtime \<Rightarrow> ('b, 'c) port_runtime \<Rightarrow> bool" where
  "legal p p' \<longleftrightarrow> illegal_transitions (stats p') = illegal_transitions (stats p) \<and>
     (pr_state p' = pr_state p \<or> transition_allowed (pr_state p) (pr_state p'))"

lemma legal_refl [simp]: "legal p p"
  by (simp add: legal_def)

lemma legal_goto: "transition_allowed (pr_state p) s \<Longrightarrow> pr_state p = pr_state p0 \<Longrightarrow>
   illegal_transitions (stats p) = illegal_transitions (stats p0) \<Longrightarrow> legal p0 (goto p s)"
  by (simp add: legal_def port_runtime_transition_def)

lemma legal_same: "pr_state p = pr_state p0 \<Longrightarrow>
   illegal_transitions (stats p) = illegal_transitions (stats p0) \<Longrightarrow> legal p0 p"
  by (simp add: legal_def)

lemma legal_recovery: "transition_allowed (pr_state p) PORT_RECOVERING \<Longrightarrow> pr_state p = pr_state p0 \<Longrightarrow>
   illegal_transitions (stats p) = illegal_transitions (stats p0) \<Longrightarrow> legal p0 (begin_recovery p now e)"
  by (simp add: begin_recovery_def Let_def legal_goto)

lemma call_state [simp]:
  "pr_state (snd (call_open p now)) = pr_state p" "stats (snd (call_open p now)) = stats p"
  "pr_state (snd (call_start p now)) = pr_state p" "stats (snd (call_start p now)) = stats p"
  "pr_state (snd (snd (call_poll p now))) = pr_state p" "stats (snd (snd (call_poll p now))) = stats p"
  "pr_state (snd (call_recover p now)) = pr_state p" "stats (snd (call_recover p now)) = stats p"
  "pr_state (snd (call_reconfigure p c now)) = pr_state p" "stats (snd (call_reconfigure p c now)) = stats p"
  "pr_state (snd (call_stop p now)) = pr_state p" "stats (snd (call_stop p now)) = stats p"
  by (simp_all add: call_open_def call_start_def call_poll_def call_recover_def call_reconfigure_def call_stop_def
      split: option.split prod.split)

lemma legal_step_starting: "pr_state p = PORT_STARTING \<Longrightarrow> legal p (step_starting p now)"
  by (simp add: step_starting_def split_beta Let_def legal_goto legal_recovery legal_same)

lemma legal_step_active: "pr_state p = PORT_ACTIVE \<Longrightarrow> legal p (step_active p now)"
  by (simp add: step_active_def split_beta Let_def legal_goto legal_recovery legal_same)

lemma legal_step_waiting: "pr_state p = PORT_WAITING \<Longrightarrow> legal p (step_waiting p now)"
  by (simp add: step_waiting_def split_beta Let_def legal_goto legal_recovery legal_same)

lemma legal_step_recovering: "pr_state p = PORT_RECOVERING \<Longrightarrow> legal p (step_recovering p now)"
  by (simp add: step_recovering_def split_beta Let_def legal_goto legal_recovery legal_same)

lemma legal_step_reconfiguring: "pr_state p = PORT_RECONFIGURING \<Longrightarrow> legal p (step_reconfiguring p now)"
  by (simp add: step_reconfiguring_def split_beta Let_def legal_goto legal_recovery legal_same)

lemma legal_step_stopping: "pr_state p = PORT_STOPPING \<Longrightarrow> legal p (step_stopping p now)"
  by (simp add: step_stopping_def split_beta Let_def legal_goto legal_recovery legal_same)

lemma update_depth_faults [simp]: "illegal_transitions (stats (update_depth p)) = illegal_transitions (stats p)"
  by (simp add: update_depth_def Let_def)

lemma expire_state [simp]: "pr_state (expire_queued p) = pr_state p"
  "illegal_transitions (stats (expire_queued p)) = illegal_transitions (stats p)"
  by (simp_all add: expire_queued_def Let_def)

lemma legal_activate: "pr_state p = PORT_READY \<Longrightarrow> legal p (activate p now)"
  by (simp add: activate_def Let_def legal_goto)

lemma legal_ready_loop: "pr_state p = PORT_READY \<Longrightarrow> legal p (ready_loop p now)"
proof (induction p now rule: ready_loop.induct)
  case (1 p now)
  show ?case
  proof (cases "queue_pop (pr_queue p)")
    case None
    with 1 show ?thesis by (simp add: ready_loop.simps [of p])
  next
    case (Some a)
    obtain t q where a: "a = (t, q)" by (cases a)
    let ?p = "update_depth (p\<lparr>pr_queue := q, pr_active := t\<rparr>)"
    have e: "core_deadline_expired (queue_deadline (pr_active ?p)) now \<Longrightarrow> legal (expire_queued ?p) (ready_loop (expire_queued ?p) now)"
      using 1(1) [OF Some a [symmetric] refl] 1(2) by simp
    show ?thesis
      using e legal_activate [of ?p now] 1(2)
      by (simp add: ready_loop.simps [of p] Some a Let_def legal_def)
  qed
qed

lemma legal_step: "legal p (port_runtime_step p now)"
  by (simp add: port_runtime_step_def legal_step_starting legal_ready_loop legal_step_active legal_step_waiting
      legal_step_recovering legal_step_reconfiguring legal_step_stopping split: port_state.split)

lemma flush_faults [simp]:
  assumes "queue_wf (pr_queue p)"
  shows "illegal_transitions (stats (flush_queue p)) = illegal_transitions (stats p)" "pr_state (flush_queue p) = pr_state p"
  using flush_loop_shape [OF assms] by (auto simp: flush_queue_def)

lemma abandon_faults [simp]: "illegal_transitions (stats (abandon_active p)) = illegal_transitions (stats p)"
  by (simp add: abandon_active_def Let_def)

lemma legal_cancel_active: "port_inv p \<Longrightarrow> legal p (snd (port_runtime_cancel_active p now))"
  by (cases "pr_state p") (auto simp: port_runtime_cancel_active_def port_inv_def Let_def intro!: legal_goto)

lemma legal_request_stop: "port_inv p \<Longrightarrow> legal p (snd (port_runtime_request_stop p now timeout))"
  by (cases "pr_state p") (auto simp: port_runtime_request_stop_def port_inv_def queue_ok_def Let_def abandon_frame intro!: legal_goto)

lemma legal_request_reconfigure: "port_inv p \<Longrightarrow> legal p (snd (port_runtime_request_reconfigure p c now timeout))"
  by (cases "pr_state p") (auto simp: port_runtime_request_reconfigure_def port_inv_def queue_ok_def Let_def abandon_frame intro!: legal_goto)

lemma legal_detach: "port_inv p \<Longrightarrow> legal p (snd (port_runtime_detach_listener p now))"
  using legal_cancel_active [OF inv_flush, of p now]
  by (auto simp: port_runtime_detach_listener_def Let_def legal_def port_inv_def queue_ok_def)

lemma legal_report: "legal p (snd (port_runtime_report_io_failure p now m))"
  by (auto simp: port_runtime_report_io_failure_def intro!: legal_recovery)

lemma legal_submit: "legal p (snd (snd (port_runtime_submit_operation p d k ow m op now qt rt)))"
  by (cases rule: submit_cases [of p d k ow m op now qt rt]) (simp_all add: legal_def)

end
