(* ===== verification/Backend_Contract.thy ===== *)
theory Backend_Contract
  imports Port_Legal
begin

text \<open>
  What a port relies on from the backend behind its operation table, as a locale: a
  well-formedness predicate that every entry of the table keeps, and response data that fits a
  transaction buffer. The lemmas of the port runtime that need these laws are proved here once;
  the scripted backend and the UART backend interpret the locale in their own theories.
\<close>

locale backend_contract =
  fixes ops :: "'b core_backend_ops"
    and wf :: "'b \<Rightarrow> bool"
  assumes open_wf: "wf b \<Longrightarrow> be_open ops b now = (r, b') \<Longrightarrow> wf b'"
    and start_wf: "wf b \<Longrightarrow> be_start ops b t now = (r, b') \<Longrightarrow> wf b'"
    and poll_wf: "wf b \<Longrightarrow> be_poll ops b now = (r, e, b') \<Longrightarrow> wf b'"
    and poll_data: "wf b \<Longrightarrow> be_poll ops b now = (r, e, b') \<Longrightarrow>
           length (ev_data e) \<le> CORE_TRANSACTION_PAYLOAD_MAX"
    and cancel_wf: "wf b \<Longrightarrow> wf (be_cancel ops b g)"
    and recover_wf: "wf b \<Longrightarrow> be_recover ops b now = (r, b') \<Longrightarrow> wf b'"
    and reconfigure_wf: "wf b \<Longrightarrow> be_reconfigure ops b c now = (r, b') \<Longrightarrow> wf b'"
    and stop_wf: "wf b \<Longrightarrow> be_stop ops b now = (r, b') \<Longrightarrow> wf b'"
begin

text \<open>A port driving this backend, in a well-formed state.\<close>

definition driven :: "('b, 'c) port_runtime \<Rightarrow> bool" where
  "driven p \<longleftrightarrow> backend p = Some ops \<and> wf (backend_context p)"

lemma driven_keep [simp]:
  "driven (p\<lparr>stats := s\<rparr>) = driven p"
  "driven (p\<lparr>state_deadline := d\<rparr>) = driven p"
  "driven (p\<lparr>recovery_attempts := n\<rparr>) = driven p"
  "driven (p\<lparr>current_config := c\<rparr>) = driven p"
  "driven (p\<lparr>known_good_config := c\<rparr>) = driven p"
  "driven (p\<lparr>staged_config := c\<rparr>) = driven p"
  "driven (p\<lparr>next_transaction_id := i\<rparr>) = driven p"
  "driven (p\<lparr>response_barrier_generation := i\<rparr>) = driven p"
  "driven (p\<lparr>pr_queue := q\<rparr>) = driven p"
  "driven (p\<lparr>pr_active := t\<rparr>) = driven p"
  "driven (p\<lparr>has_active := h\<rparr>) = driven p"
  "driven (p\<lparr>pr_generation := i\<rparr>) = driven p"
  "driven (notify_completion p t st rsp) = driven p"
  "driven (set_active_status p st) = driven p"
  "driven (mark_transmitted p) = driven p"
  "driven (set_error p m) = driven p"
  "driven (clear_active p) = driven p"
  "driven (update_depth p) = driven p"
  "driven (goto p nx) = driven p"
  "driven (expire_queued p) = driven p"
  "driven (activate p now) = driven p"
  by (simp_all add: driven_def port_steps_defs update_depth_def expire_queued_def activate_def)

lemma driven_call [simp]:
  assumes "driven p"
  shows "driven (snd (call_open p now))" "driven (snd (call_start p now))"
    "driven (snd (snd (call_poll p now)))" "driven (call_cancel p g)"
    "driven (snd (call_recover p now))" "driven (snd (call_reconfigure p c now))"
    "driven (snd (call_stop p now))"
  using assms
  by (auto simp: driven_def call_open_def call_start_def call_poll_def call_cancel_def call_recover_def
      call_reconfigure_def call_stop_def
      intro: open_wf start_wf poll_wf cancel_wf recover_wf reconfigure_wf stop_wf split: prod.split)

lemma poll_event_fits:
  "driven p \<Longrightarrow> call_poll p now = (r, e, p') \<Longrightarrow> length (ev_data e) \<le> CORE_TRANSACTION_PAYLOAD_MAX"
  by (auto simp: driven_def call_poll_def split: prod.splits dest: poll_data)

lemma driven_recovery [simp]: "driven p \<Longrightarrow> driven (begin_recovery p now m)"
  by (simp add: begin_recovery_def Let_def)

lemma driven_flush_loop: "driven p \<Longrightarrow> driven (flush_loop p)"
proof (induction p rule: flush_loop.induct)
  case (1 p)
  show ?case
  proof (cases "queue_pop (pr_queue p)")
    case None
    with 1 show ?thesis by (simp add: flush_loop.simps [of p])
  next
    case (Some a)
    obtain t q where a: "a = (t, q)" by (cases a)
    show ?thesis using 1(1) [OF Some a [symmetric] refl refl refl] 1(2)
      by (simp add: flush_loop.simps [of p] Some a Let_def)
  qed
qed

lemma driven_ready_loop: "driven p \<Longrightarrow> driven (ready_loop p now)"
proof (induction p now rule: ready_loop.induct)
  case (1 p now)
  show ?case
  proof (cases "queue_pop (pr_queue p)")
    case None
    with 1 show ?thesis by (simp add: ready_loop.simps [of p])
  next
    case (Some a)
    obtain t q where a: "a = (t, q)" by (cases a)
    show ?thesis using 1(1) [OF Some a [symmetric] refl] 1(2)
      by (simp add: ready_loop.simps [of p] Some a Let_def)
  qed
qed

lemma driven_step: "driven p \<Longrightarrow> driven (port_runtime_step p now)"
  by (simp add: port_runtime_step_def driven_ready_loop step_starting_def step_active_def
      step_waiting_def step_recovering_def step_reconfiguring_def step_stopping_def
      split_beta Let_def split: port_state.split)

lemma driven_flush [simp]: "driven p \<Longrightarrow> driven (flush_queue p)"
  by (simp add: flush_queue_def driven_flush_loop)

lemma driven_abandon [simp]: "driven p \<Longrightarrow> driven (abandon_active p)"
  by (simp add: abandon_active_def Let_def)

lemma driven_request:
  assumes "driven p"
  shows "driven (snd (port_runtime_request_stop p now timeout))"
    "driven (snd (port_runtime_request_reconfigure p c now timeout))"
    "driven (snd (port_runtime_cancel_active p now))"
    "driven (snd (port_runtime_detach_listener p now))"
    "driven (snd (port_runtime_report_io_failure p now m))"
    "driven (snd (port_runtime_start p now timeout))"
    "driven (snd (snd (port_runtime_submit_operation p d k ow md op now qt rt)))"
proof -
  have c: "driven (snd (port_runtime_cancel_active q now))" if "driven q" for q :: "('b, 'c) port_runtime"
    using that by (simp add: port_runtime_cancel_active_def Let_def)
  show "driven (snd (port_runtime_cancel_active p now))" using c assms .
  show "driven (snd (port_runtime_request_stop p now timeout))"
    using assms by (simp add: port_runtime_request_stop_def Let_def)
  show "driven (snd (port_runtime_request_reconfigure p c now timeout))"
    using assms by (simp add: port_runtime_request_reconfigure_def Let_def)
  show "driven (snd (port_runtime_detach_listener p now))"
    using assms by (simp add: port_runtime_detach_listener_def Let_def c)
  show "driven (snd (port_runtime_report_io_failure p now m))"
    using assms by (simp add: port_runtime_report_io_failure_def)
  show "driven (snd (port_runtime_start p now timeout))"
    using assms by (simp add: port_runtime_start_def split_beta Let_def)
  show "driven (snd (snd (port_runtime_submit_operation p d k ow md op now qt rt)))"
    by (cases rule: submit_cases [of p d k ow md op now qt rt]) (use assms in simp_all)
qed

end

end
