(* ===== verification/Mock_Backend.thy ===== *)
theory Mock_Backend
  imports Backend_Contract
begin

text \<open>
  The scripted backend of \<open>src/core/mock_backend.c\<close>: a plan says how each started transaction
  behaves, and the events it schedules are delivered when they fall due.
\<close>

abbreviation MOCK_PLAN_CAPACITY :: nat where "MOCK_PLAN_CAPACITY \<equiv> 32"
abbreviation MOCK_EVENT_CAPACITY :: nat where "MOCK_EVENT_CAPACITY \<equiv> 16"

datatype mock_behavior =
  MOCK_IMMEDIATE_SUCCESS | MOCK_DELAYED_SUCCESS | MOCK_NO_RESPONSE | MOCK_MALFORMED_RESPONSE
| MOCK_LATE_RESPONSE | MOCK_START_FAILURE | MOCK_ACTIVE_FAILURE

record mock_plan =
  behavior :: mock_behavior
  plan_delay :: tick

record mock_event_slot =
  slot_used :: bool
  slot_event :: backend_event
  slot_due :: core_deadline

record mock_backend =
  mk_plans :: "mock_plan list"
  plan_count :: nat
  plan_next :: nat
  mk_events :: "mock_event_slot list"
  open_failures_remaining :: int
  recovery_failures_remaining :: int
  reconfigure_failures_remaining :: int
  rollback_failures_remaining :: int
  stop_failures_remaining :: int
  mk_starts :: u32
  mk_cancels :: u32
  mk_opens :: u32
  mk_recovers :: u32
  mk_reconfigures :: u32
  mk_stops :: u32
  last_cancelled_generation :: u32
  active_revision :: u32

definition zero_plan :: mock_plan where
  "zero_plan = \<lparr>behavior = MOCK_IMMEDIATE_SUCCESS, plan_delay = 0\<rparr>"

definition zero_slot :: mock_event_slot where
  "zero_slot = \<lparr>slot_used = False, slot_event = zero_event, slot_due = no_deadline\<rparr>"

definition mock_backend_init :: mock_backend where
  "mock_backend_init = \<lparr>mk_plans = replicate MOCK_PLAN_CAPACITY zero_plan, plan_count = 0,
     plan_next = 0, mk_events = replicate MOCK_EVENT_CAPACITY zero_slot,
     open_failures_remaining = 0, recovery_failures_remaining = 0,
     reconfigure_failures_remaining = 0, rollback_failures_remaining = 0,
     stop_failures_remaining = 0, mk_starts = 0, mk_cancels = 0, mk_opens = 0, mk_recovers = 0,
     mk_reconfigures = 0, mk_stops = 0, last_cancelled_generation = 0, active_revision = 0\<rparr>"

definition mock_open :: "mock_backend \<Rightarrow> tick \<Rightarrow> int \<times> mock_backend" where
  "mock_open m now =
     (let m = m\<lparr>mk_opens := mk_opens m + 1\<rparr> in
      if open_failures_remaining m > 0
      then (- 1, m\<lparr>open_failures_remaining := open_failures_remaining m - 1\<rparr>)
      else (0, m))"

text \<open>The first free slot takes the event; with no free slot the event is lost and -1 returned.\<close>

definition schedule_event ::
  "mock_backend \<Rightarrow> backend_event_type \<Rightarrow> u32 \<Rightarrow> tick \<Rightarrow> tick \<Rightarrow> int \<times> mock_backend"
where
  "schedule_event m ty g now delay =
     (case find_index (\<lambda>s. \<not> slot_used s) (mk_events m) of
        None \<Rightarrow> (- 1, m)
      | Some i \<Rightarrow> (0, m\<lparr>mk_events := (mk_events m)[i :=
          \<lparr>slot_used = True,
           slot_event = \<lparr>ev_type = ty, ev_generation = g, ev_data = [0x55]\<rparr>,
           slot_due = core_deadline_after now delay\<rparr>]\<rparr>))"

definition mock_start ::
  "mock_backend \<Rightarrow> core_transaction \<Rightarrow> tick \<Rightarrow> int \<times> mock_backend"
where
  "mock_start m t now =
     (let m = m\<lparr>mk_starts := mk_starts m + 1\<rparr>;
          (plan, m) = (if plan_next m < plan_count m
                       then (mk_plans m ! plan_next m, m\<lparr>plan_next := plan_next m + 1\<rparr>)
                       else (zero_plan, m))
      in case behavior plan of
           MOCK_START_FAILURE \<Rightarrow> (- 1, m)
         | MOCK_NO_RESPONSE \<Rightarrow> (0, m)
         | MOCK_MALFORMED_RESPONSE \<Rightarrow>
             schedule_event m BACKEND_EVENT_MALFORMED (tx_generation t) now (plan_delay plan)
         | MOCK_ACTIVE_FAILURE \<Rightarrow>
             schedule_event m BACKEND_EVENT_FAILURE (tx_generation t) now (plan_delay plan)
         | _ \<Rightarrow> schedule_event m BACKEND_EVENT_RESPONSE (tx_generation t) now (plan_delay plan))"

definition mock_poll :: "mock_backend \<Rightarrow> tick \<Rightarrow> int \<times> backend_event \<times> mock_backend" where
  "mock_poll m now =
     (case find_index (\<lambda>s. slot_used s \<and> core_deadline_expired (slot_due s) now) (mk_events m) of
        Some i \<Rightarrow> (1, slot_event (mk_events m ! i),
          m\<lparr>mk_events := (mk_events m)[i := (mk_events m ! i)\<lparr>slot_used := False\<rparr>]\<rparr>)
      | None \<Rightarrow> (0, zero_event, m))"

definition mock_cancel :: "mock_backend \<Rightarrow> u32 \<Rightarrow> mock_backend" where
  "mock_cancel m g = m\<lparr>mk_cancels := mk_cancels m + 1, last_cancelled_generation := g\<rparr>"

definition mock_recover :: "mock_backend \<Rightarrow> tick \<Rightarrow> int \<times> mock_backend" where
  "mock_recover m now =
     (let m = m\<lparr>mk_recovers := mk_recovers m + 1\<rparr> in
      if recovery_failures_remaining m > 0
      then (- 1, m\<lparr>recovery_failures_remaining := recovery_failures_remaining m - 1\<rparr>)
      else (0, m))"

definition mock_reconfigure ::
  "mock_backend \<Rightarrow> core_port_config \<Rightarrow> tick \<Rightarrow> int \<times> mock_backend"
where
  "mock_reconfigure m c now =
     (let m = m\<lparr>mk_reconfigures := mk_reconfigures m + 1\<rparr> in
      if cc_revision c < active_revision m then
        if rollback_failures_remaining m > 0
        then (- 1, m\<lparr>rollback_failures_remaining := rollback_failures_remaining m - 1\<rparr>)
        else (0, m\<lparr>active_revision := cc_revision c\<rparr>)
      else if reconfigure_failures_remaining m > 0
      then (- 1, m\<lparr>reconfigure_failures_remaining := reconfigure_failures_remaining m - 1\<rparr>)
      else (0, m\<lparr>active_revision := cc_revision c\<rparr>))"

definition mock_stop :: "mock_backend \<Rightarrow> tick \<Rightarrow> int \<times> mock_backend" where
  "mock_stop m now =
     (let m = m\<lparr>mk_stops := mk_stops m + 1\<rparr> in
      if stop_failures_remaining m > 0
      then (- 1, m\<lparr>stop_failures_remaining := stop_failures_remaining m - 1\<rparr>)
      else (0, m))"

definition mock_backend_ops :: "mock_backend core_backend_ops" where
  "mock_backend_ops = \<lparr>be_open = mock_open, be_start = mock_start, be_poll = mock_poll,
     be_cancel = mock_cancel, be_recover = mock_recover, be_reconfigure = mock_reconfigure,
     be_stop = mock_stop\<rparr>"

definition mock_backend_add_plan ::
  "mock_backend \<Rightarrow> mock_behavior \<Rightarrow> tick \<Rightarrow> int \<times> mock_backend"
where
  "mock_backend_add_plan m b delay =
     (if plan_count m \<ge> MOCK_PLAN_CAPACITY \<or> \<not> core_ticks_valid_interval delay then (- 1, m)
      else (0, m\<lparr>mk_plans := (mk_plans m)[plan_count m := \<lparr>behavior = b, plan_delay = delay\<rparr>],
                 plan_count := plan_count m + 1\<rparr>))"

definition mock_backend_pending_events :: "mock_backend \<Rightarrow> nat" where
  "mock_backend_pending_events m = length (filter slot_used (mk_events m))"

section \<open>Invariant of the mock\<close>

definition mock_wf :: "mock_backend \<Rightarrow> bool" where
  "mock_wf m \<longleftrightarrow> length (mk_plans m) = MOCK_PLAN_CAPACITY \<and>
     length (mk_events m) = MOCK_EVENT_CAPACITY \<and> plan_next m \<le> plan_count m \<and>
     plan_count m \<le> MOCK_PLAN_CAPACITY \<and>
     (\<forall>s \<in> set (mk_events m). length (ev_data (slot_event s)) \<le> 1)"

lemma mock_wf_init: "mock_wf mock_backend_init"
  by (simp add: mock_wf_def mock_backend_init_def zero_slot_def zero_event_def)

lemma mock_wf_schedule: "mock_wf m \<Longrightarrow> mock_wf (snd (schedule_event m ty g now d))"
  by (auto simp: mock_wf_def schedule_event_def split: option.splits dest!: set_update_subset_insert [THEN subsetD])

lemma mock_wf_start:
  assumes "mock_wf m"
  shows "mock_wf (snd (mock_start m t now))"
proof -
  let ?m = "m\<lparr>mk_starts := mk_starts m + 1\<rparr>"
  have w: "mock_wf ?m" using assms by (simp add: mock_wf_def)
  show ?thesis
  proof (cases "plan_next m < plan_count m")
    case True
    then have "mock_wf (?m\<lparr>plan_next := plan_next m + 1\<rparr>)" using assms by (simp add: mock_wf_def)
    then show ?thesis using True
      by (simp add: mock_start_def Let_def mock_wf_schedule split: mock_behavior.split)
  next
    case False
    then show ?thesis using w
      by (simp add: mock_start_def Let_def mock_wf_schedule split: mock_behavior.split)
  qed
qed

lemma mock_slot:
  assumes "mock_wf m" "i < length (mk_events m)"
  shows "length (ev_data (slot_event (mk_events m ! i))) \<le> 1"
  using assms by (simp add: mock_wf_def)

lemma mock_wf_poll:
  assumes "mock_wf m"
  shows "mock_wf (snd (snd (mock_poll m now)))"
proof (cases "find_index (\<lambda>s. slot_used s \<and> core_deadline_expired (slot_due s) now) (mk_events m)")
  case None
  then show ?thesis using assms by (simp add: mock_poll_def del: find_index_None)
next
  case (Some i)
  let ?es = "(mk_events m)[i := (mk_events m ! i)\<lparr>slot_used := False\<rparr>]"
  have "set ?es \<subseteq> insert ((mk_events m ! i)\<lparr>slot_used := False\<rparr>) (set (mk_events m))"
    by (rule set_update_subset_insert)
  moreover have "length (ev_data (slot_event (mk_events m ! i))) \<le> 1"
    using mock_slot [OF assms find_index_length [OF Some]] .
  ultimately have "\<forall>s \<in> set ?es. length (ev_data (slot_event s)) \<le> 1"
    using assms by (fastforce simp: mock_wf_def)
  then show ?thesis using assms Some by (simp add: mock_poll_def mock_wf_def)
qed

lemma mock_poll_data:
  assumes "mock_wf m" "mock_poll m now = (r, e, m')"
  shows "length (ev_data e) \<le> CORE_TRANSACTION_PAYLOAD_MAX"
proof (cases "find_index (\<lambda>s. slot_used s \<and> core_deadline_expired (slot_due s) now) (mk_events m)")
  case None
  then show ?thesis using assms by (auto simp: mock_poll_def zero_event_def simp del: find_index_None)
next
  case (Some i)
  then show ?thesis
    using assms(2) mock_slot [OF assms(1) find_index_length [OF Some]] by (auto simp: mock_poll_def)
qed

lemma mock_wf_others:
  "mock_wf m \<Longrightarrow> mock_wf (snd (mock_open m now))"
  "mock_wf m \<Longrightarrow> mock_wf (mock_cancel m g)"
  "mock_wf m \<Longrightarrow> mock_wf (snd (mock_recover m now))"
  "mock_wf m \<Longrightarrow> mock_wf (snd (mock_reconfigure m c now))"
  "mock_wf m \<Longrightarrow> mock_wf (snd (mock_stop m now))"
  "mock_wf m \<Longrightarrow> mock_wf (snd (mock_backend_add_plan m b d))"
  by (auto simp: mock_wf_def mock_open_def mock_cancel_def mock_recover_def mock_reconfigure_def
      mock_stop_def mock_backend_add_plan_def Let_def)

text \<open>The mock honours the contract of a backend.\<close>

interpretation mock: backend_contract mock_backend_ops mock_wf
proof unfold_locales
  fix b b' r e now t g c
  assume w: "mock_wf b"
  show "mock_wf b'" if "be_open mock_backend_ops b now = (r, b')"
    using mock_wf_others(1) [OF w, of now] that by (simp add: mock_backend_ops_def)
  show "mock_wf b'" if "be_start mock_backend_ops b t now = (r, b')"
    using mock_wf_start [OF w, of t now] that by (simp add: mock_backend_ops_def)
  show "mock_wf b'" if "be_poll mock_backend_ops b now = (r, e, b')"
    using mock_wf_poll [OF w, of now] that by (simp add: mock_backend_ops_def)
  show "length (ev_data e) \<le> CORE_TRANSACTION_PAYLOAD_MAX" if "be_poll mock_backend_ops b now = (r, e, b')"
    using mock_poll_data [OF w] that by (simp add: mock_backend_ops_def)
  show "mock_wf (be_cancel mock_backend_ops b g)"
    using mock_wf_others(2) [OF w] by (simp add: mock_backend_ops_def)
  show "mock_wf b'" if "be_recover mock_backend_ops b now = (r, b')"
    using mock_wf_others(3) [OF w, of now] that by (simp add: mock_backend_ops_def)
  show "mock_wf b'" if "be_reconfigure mock_backend_ops b c now = (r, b')"
    using mock_wf_others(4) [OF w, of c now] that by (simp add: mock_backend_ops_def)
  show "mock_wf b'" if "be_stop mock_backend_ops b now = (r, b')"
    using mock_wf_others(5) [OF w, of now] that by (simp add: mock_backend_ops_def)
qed

end
