(* ===== verification/Port_Properties.thy ===== *)
theory Port_Properties
  imports Mock_Backend
begin

text \<open>
  The behaviour of a port over arbitrary sequences of the operations of \<open>port_runtime.h\<close>, and
  the outcome of each kind of step: what completes, what recovers, what is rolled back. The
  statements hold for every backend; the witnesses run the scripted one.
\<close>

section \<open>Runs of a port\<close>

datatype port_op =
  Start tick tick
| Submit "u8 list option" u32 u32 "u32 list option" "core_operation option" tick tick tick
| Step tick
| Cancel tick
| Detach tick
| Reconfigure "core_port_config option" tick tick
| Stop tick tick
| Report tick "string option"

text \<open>One operation and the identifiers of the transactions it accepted.\<close>

fun port_exec :: "port_op \<Rightarrow> ('b, 'c) port_runtime \<Rightarrow> u32 list \<times> ('b, 'c) port_runtime" where
  "port_exec (Start now timeout) p = ([], snd (port_runtime_start p now timeout))"
| "port_exec (Submit d k ow m op now qt rt) p =
     (let (r, i, p) = port_runtime_submit_operation p d k ow m op now qt rt
      in (case i of None \<Rightarrow> [] | Some n \<Rightarrow> [n], p))"
| "port_exec (Step now) p = ([], port_runtime_step p now)"
| "port_exec (Cancel now) p = ([], snd (port_runtime_cancel_active p now))"
| "port_exec (Detach now) p = ([], snd (port_runtime_detach_listener p now))"
| "port_exec (Reconfigure c now timeout) p = ([], snd (port_runtime_request_reconfigure p c now timeout))"
| "port_exec (Stop now timeout) p = ([], snd (port_runtime_request_stop p now timeout))"
| "port_exec (Report now m) p = ([], snd (port_runtime_report_io_failure p now m))"

text \<open>A sequence of operations, oldest first, with all the identifiers accepted on the way.\<close>

fun port_next ::
  "u32 list \<times> ('b, 'c) port_runtime \<Rightarrow> port_op \<Rightarrow> u32 list \<times> ('b, 'c) port_runtime"
where
  "port_next (ids, p) op = (case port_exec op p of (new, p') \<Rightarrow> (ids @ new, p'))"

definition port_run :: "port_op list \<Rightarrow> ('b, 'c) port_runtime \<Rightarrow> u32 list \<times> ('b, 'c) port_runtime" where
  "port_run ops p = foldl port_next ([], p) ops"

lemma port_run_Nil [simp]: "port_run [] p = ([], p)"
  by (simp add: port_run_def)

lemma port_run_snoc [simp]:
  "port_run (ops @ [op]) p =
     (fst (port_run ops p) @ fst (port_exec op (snd (port_run ops p))), snd (port_exec op (snd (port_run ops p))))"
  by (cases "foldl port_next ([], p) ops") (simp add: port_run_def split_beta)

fun is_detach :: "port_op \<Rightarrow> bool" where
  "is_detach (Detach _) = True" | "is_detach _ = False"

fun is_start :: "port_op \<Rightarrow> bool" where
  "is_start (Start _ _) = True" | "is_start _ = False"

text \<open>A port as it leaves \<open>port_runtime_init\<close>, with a completion callback that keeps a log.\<close>

definition fresh_port ::
  "u32 \<Rightarrow> core_port_config \<Rightarrow> 'b core_backend_ops option \<Rightarrow> 'b \<Rightarrow> ('b, completion_log) port_runtime"
where
  "fresh_port i c ops b =
     port_runtime_set_completion (port_runtime_init i c ops b []) (Some record_completion) []"

lemma fresh_port_ok [simp]:
  "port_inv (fresh_port i c ops b)" "recording (fresh_port i c ops b)" "trail (fresh_port i c ops b) = []"
  by (simp_all add: fresh_port_def inv_set_completion inv_init)
    (simp_all add: port_runtime_set_completion_def recording_def trail_def in_flight_def port_runtime_init_def)

lemma exec_inv: "port_inv p \<Longrightarrow> port_inv (snd (port_exec op p))"
  by (cases op) (simp_all add: inv_start inv_submit inv_step inv_cancel_active inv_detach
      inv_request_reconfigure inv_request_stop inv_report split_beta Let_def)

lemma run_inv: "port_inv p \<Longrightarrow> port_inv (snd (port_run ops p))"
  by (induction ops rule: rev_induct) (simp_all add: exec_inv)

lemma exec_trail:
  assumes "port_inv p" "recording p"
  shows "recording (snd (port_exec op p)) \<and>
     mset (trail (snd (port_exec op p))) = mset (trail p @ fst (port_exec op p)) \<and>
     (\<not> is_detach op \<longrightarrow> trail (snd (port_exec op p)) = trail p @ fst (port_exec op p))"
proof (cases op)
  case (Submit d k ow m oper now qt rt)
  then show ?thesis using trail_submit [OF assms(1), of d k ow m oper now qt rt] assms(2)
    by (auto split: prod.splits option.splits)
qed (use assms in \<open>simp_all add: trail_start trail_step trail_cancel_active trail_detach
   trail_request_reconfigure trail_request_stop trail_report\<close>)

lemma run_trail:
  assumes "port_inv p" "recording p"
  shows "recording (snd (port_run ops p)) \<and>
     mset (trail (snd (port_run ops p))) = mset (trail p @ fst (port_run ops p)) \<and>
     (list_all (\<lambda>op. \<not> is_detach op) ops \<longrightarrow> trail (snd (port_run ops p)) = trail p @ fst (port_run ops p))"
proof (induction ops rule: rev_induct)
  case Nil
  then show ?case using assms by simp
next
  case (snoc op ops)
  then show ?case using exec_trail [OF run_inv [OF assms(1), of ops], of op] by simp
qed

lemma run_fresh:
  "mset (trail (snd (port_run ops (fresh_port i c bops b)))) = mset (fst (port_run ops (fresh_port i c bops b)))"
  "list_all (\<lambda>op. \<not> is_detach op) ops \<Longrightarrow>
   trail (snd (port_run ops (fresh_port i c bops b))) = fst (port_run ops (fresh_port i c bops b))"
  using run_trail [of "fresh_port i c bops b" ops] by simp_all

text \<open>A run keeps the contract of the backend behind the port.\<close>

context backend_contract
begin

lemma driven_exec: "driven p \<Longrightarrow> driven (snd (port_exec op p))"
  by (cases op) (simp_all add: driven_request driven_step split_beta Let_def)

lemma driven_run: "driven p \<Longrightarrow> driven (snd (port_run os p))"
  by (induction os rule: rev_induct) (simp_all add: driven_exec)

lemma driven_fresh: "wf b \<Longrightarrow> driven (fresh_port i c (Some ops) b)"
  by (simp add: driven_def fresh_port_def port_runtime_set_completion_def port_runtime_init_def)

end

section \<open>Invariant and conservation\<close>

text \<open>
  Every state a port can reach from \<open>port_runtime_init\<close> by any sequence of operations is well
  formed: a transaction is active exactly in ACTIVE and WAITING and carries the current
  generation, the queue ring is intact with valid requests and agrees with the depth counters,
  nothing is queued while the port is disabled, starting, reconfiguring, stopping or in error,
  and recovery never counts past three attempts.
\<close>

theorem port_reachable_inv: "port_inv (snd (port_run ops (fresh_port i c bops b)))"
  by (simp add: run_inv)

text \<open>
  C2. Every accepted transaction is accounted for exactly once: at any moment the identifiers
  reported through the completion callback, the active one and the queued ones are together
  the accepted ones, none lost and none completed twice.
\<close>

theorem port_conserves_transactions:
  "let (accepted_ids, p) = port_run ops (fresh_port i c bops b)
   in mset accepted_ids = mset (map fst (completion_context p)) + mset (in_flight p)"
  using run_fresh(1) [of ops i c bops b] by (simp add: split_beta Let_def trail_def)

text \<open>
  C1. Completion order is acceptance order: as long as no listener is detached, the completions
  reported so far, followed by the active transaction and the queue, read exactly as the
  sequence of accepted requests, whatever timeouts, failures, recoveries or reconfigurations
  happened in between.
\<close>

theorem port_completes_in_order:
  assumes "list_all (\<lambda>op. \<not> is_detach op) ops"
  shows "let (accepted_ids, p) = port_run ops (fresh_port i c bops b)
         in accepted_ids = map fst (completion_context p) @ in_flight p"
  using run_fresh(2) [of ops i c bops b, OF assms] by (simp add: split_beta Let_def trail_def)

definition sample_submit :: "tick \<Rightarrow> port_op" where
  "sample_submit now = Submit (Some [1, 3]) 7 9 None (Some framed_operation) now 100 50"

definition sample_ops :: "port_op list" where
  "sample_ops = [Start 0 100, Step 1, sample_submit 2, sample_submit 2, sample_submit 2,
     Step 3, Step 4, Step 5, Step 6, Step 7, Step 60, Step 70]"

definition sample_mock :: "mock_behavior list \<Rightarrow> mock_backend" where
  "sample_mock bs = foldl (\<lambda>m b. snd (mock_backend_add_plan m b 0)) mock_backend_init bs"

definition sample_port :: "mock_behavior list \<Rightarrow> (mock_backend, completion_log) port_runtime" where
  "sample_port bs = fresh_port 0 sample_config (Some mock_backend_ops) (sample_mock bs)"

theorem port_completes_in_order_witness:
  "let (ids, p) = port_run sample_ops (sample_port [MOCK_IMMEDIATE_SUCCESS, MOCK_NO_RESPONSE])
   in ids = map fst (completion_context p) @ in_flight p"
  unfolding sample_port_def
  by (rule port_completes_in_order) (simp add: sample_ops_def sample_submit_def)

section \<open>The state diagram\<close>

lemma legal_exec: "port_inv p \<Longrightarrow> is_start op \<or> legal p (snd (port_exec op p))"
  by (cases op) (simp_all add: legal_submit legal_step legal_cancel_active legal_detach
      legal_request_reconfigure legal_request_stop legal_report split_beta Let_def)

lemma start_edge: "pr_state (snd (port_runtime_start p now timeout)) = pr_state p \<or>
   transition_allowed (pr_state p) (pr_state (snd (port_runtime_start p now timeout)))"
  by (auto simp: port_runtime_start_def port_runtime_transition_def Let_def)

lemma exec_edge:
  assumes "port_inv p"
  shows "pr_state (snd (port_exec op p)) = pr_state p \<or>
    transition_allowed (pr_state p) (pr_state (snd (port_exec op p)))"
proof (cases "is_start op")
  case True
  then show ?thesis using start_edge by (cases op) auto
next
  case False
  then show ?thesis using legal_exec [OF assms, of op] by (simp add: legal_def)
qed

text \<open>
  C3. The port never leaves its state diagram: from every reachable state each operation either
  stays or follows an edge of \<open>transition_allowed\<close>, and apart from a start request no operation
  even attempts a transition the diagram refuses, so the illegal-transition counter never moves.
\<close>

theorem port_follows_diagram:
  "let p = snd (port_run ops (fresh_port i c bops b)); p' = snd (port_exec op p)
   in (pr_state p' = pr_state p \<or> transition_allowed (pr_state p) (pr_state p')) \<and>
      (is_start op \<or> illegal_transitions (stats p') = illegal_transitions (stats p))"
  using exec_edge [OF run_inv [OF fresh_port_ok(1)]] legal_exec [OF run_inv [OF fresh_port_ok(1)]]
  by (fastforce simp: Let_def legal_def)

section \<open>Submitting\<close>

definition request_ok :: "u8 list \<Rightarrow> core_operation \<Rightarrow> tick \<Rightarrow> tick \<Rightarrow> bool" where
  "request_ok d op qt rt \<longleftrightarrow> d \<noteq> [] \<and> length d \<le> CORE_TRANSACTION_PAYLOAD_MAX \<and>
     core_ticks_valid_interval qt \<and> qt \<noteq> 0 \<and> core_ticks_valid_interval rt \<and> rt \<noteq> 0 \<and>
     operation_valid (Some op)"

text \<open>What a port answers to a valid request in each state, \<open>ok\<close> saying whether the queue has room.\<close>

fun submit_answer :: "bool \<Rightarrow> port_state \<Rightarrow> core_submit_result" where
  "submit_answer ok PORT_READY = (if ok then CORE_ACCEPTED else CORE_QUEUE_FULL)"
| "submit_answer ok PORT_ACTIVE = (if ok then CORE_ACCEPTED else CORE_QUEUE_FULL)"
| "submit_answer ok PORT_WAITING = (if ok then CORE_ACCEPTED else CORE_QUEUE_FULL)"
| "submit_answer ok PORT_STARTING = CORE_PORT_RECOVERING"
| "submit_answer ok PORT_RECOVERING = CORE_PORT_RECOVERING"
| "submit_answer ok PORT_DEGRADED = CORE_PORT_RECOVERING"
| "submit_answer ok PORT_RECONFIGURING = CORE_RECONFIGURING"
| "submit_answer ok _ = CORE_PORT_DISABLED"

lemma submit_frame:
  "tx_id (new_transaction p d k ow m op now qt rt) = next_transaction_id p"
  "payload (new_transaction p d k ow m op now qt rt) = d"
  by (simp_all add: new_transaction_def)

text \<open>
  The answer to a valid request is determined by the state and by the room in the queue:
  only READY, ACTIVE and WAITING accept, exactly when fewer than eight requests wait and the
  payloads stay within 1024 bytes; an accepted request is appended at the end with its
  identifier reported, a refused one leaves the queue, the state and the active transaction alone.
\<close>

theorem submit_outcome:
  assumes "port_inv p" "request_ok d op qt rt"
  shows "let t = new_transaction p d k ow m op now qt rt;
             answer = submit_answer (queue_fits (queue_items (pr_queue p)) t) (pr_state p);
             (r, i, p') = port_runtime_submit_operation p (Some d) k ow m (Some op) now qt rt
         in r = answer \<and>
            i = (if r = CORE_ACCEPTED then Some (next_transaction_id p) else None) \<and>
            queue_items (pr_queue p') = queue_items (pr_queue p) @ (if r = CORE_ACCEPTED then [t] else []) \<and>
            pr_state p' = pr_state p \<and> has_active p' = has_active p \<and> pr_active p' = pr_active p"
proof -
  let ?t = "new_transaction p d k ow m op now qt rt"
  have wf: "queue_wf (pr_queue p)" using assms(1) by (simp add: port_inv_def queue_ok_def)
  have frame: "has_active (update_depth q) = has_active q" "pr_active (update_depth q) = pr_active q"
    for q :: "('a, 'b) port_runtime" by (simp_all add: update_depth_def Let_def)
  show ?thesis
  proof (cases "queue_push (pr_queue p) ?t")
    case None
    then show ?thesis using assms(2) txq.push_refused [OF wf, of ?t]
      by (cases "pr_state p")
        (simp_all add: request_ok_def port_runtime_submit_operation_def Let_def new_transaction_def)
  next
    case (Some q)
    then show ?thesis using assms(2) txq.push_refused [OF wf, of ?t] queue_push_items [OF wf Some] frame
      by (cases "pr_state p")
        (simp_all add: request_ok_def port_runtime_submit_operation_def Let_def submit_frame)
  qed
qed

theorem submit_outcome_witness:
  "let p = snd (port_run (take 5 sample_ops) (sample_port []));
       t = new_transaction p [1, 3] 7 9 None framed_operation 2 100 50;
       answer = submit_answer (queue_fits (queue_items (pr_queue p)) t) (pr_state p);
       (r, i, p') = port_runtime_submit_operation p (Some [1, 3]) 7 9 None (Some framed_operation) 2 100 50
   in r = answer \<and>
      i = (if r = CORE_ACCEPTED then Some (next_transaction_id p) else None) \<and>
      queue_items (pr_queue p') = queue_items (pr_queue p) @ (if r = CORE_ACCEPTED then [t] else []) \<and>
      pr_state p' = pr_state p \<and> has_active p' = has_active p \<and> pr_active p' = pr_active p"
proof -
  have "port_inv (snd (port_run (take 5 sample_ops) (sample_port [])))"
    by (simp add: sample_port_def run_inv)
  moreover have "request_ok [1, 3] framed_operation 100 50" by code_simp
  ultimately show ?thesis
    using submit_outcome [of "snd (port_run (take 5 sample_ops) (sample_port []))" "[1, 3]" framed_operation 100 50 7 9 None 2]
    by (simp only: Let_def)
qed

section \<open>Activation and queue deadlines\<close>

definition overdue :: "tick \<Rightarrow> core_transaction \<Rightarrow> bool" where
  "overdue now t \<longleftrightarrow> core_deadline_expired (queue_deadline t) now"

text \<open>The generation after \<open>g\<close>: zero is skipped.\<close>

definition next_generation :: "u32 \<Rightarrow> u32" where
  "next_generation g = (if g + 1 = 0 then 1 else g + 1)"

lemma next_generation_fresh: "next_generation g \<noteq> g \<and> next_generation g \<noteq> 0"
  by (auto simp: next_generation_def)

text \<open>The transaction a port starts: stamped with a fresh generation and its response deadline.\<close>

definition started :: "u32 \<Rightarrow> tick \<Rightarrow> core_transaction \<Rightarrow> core_transaction" where
  "started g now t = t\<lparr>tx_generation := g, started_at := now,
     response_deadline := core_deadline_after now (response_timeout t), tx_status := CORE_TX_ACTIVE\<rparr>"

lemma activate_fields:
  assumes "pr_state p = PORT_READY"
  shows "pr_state (activate p now) = PORT_ACTIVE" "pr_queue (activate p now) = pr_queue p"
    "has_active (activate p now)" "completion_context (activate p now) = completion_context p"
    "pr_active (activate p now) = started (next_generation (pr_generation p)) now (pr_active p)"
  using assms by (simp_all add: activate_def port_runtime_transition_def Let_def started_def next_generation_def)

lemma expire_fields:
  assumes "recording p"
  shows "completion_context (expire_queued p) = completion_context p @ [(tx_id (pr_active p), CORE_TX_TIMED_OUT)]"
    "recording (expire_queued p)"
  using assms by (simp_all add: expire_queued_def port_steps_defs recording_def record_completion_def)

lemma expire_generation [simp]: "pr_generation (expire_queued p) = pr_generation p"
  by (simp add: expire_queued_def port_steps_defs)

lemma depth_fields [simp]:
  "pr_active (update_depth p) = pr_active p" "completion_context (update_depth p) = completion_context p"
  "pr_generation (update_depth p) = pr_generation p"
  by (simp_all add: update_depth_def Let_def)

fun launched :: "u32 \<Rightarrow> tick \<Rightarrow> core_transaction list \<Rightarrow> ('b, 'c) port_runtime \<Rightarrow> bool" where
  "launched g now [] p \<longleftrightarrow> pr_state p = PORT_READY"
| "launched g now (t # ts) p \<longleftrightarrow> pr_state p = PORT_ACTIVE \<and> pr_active p = started g now t"

definition activation_outcome ::
  "('b, completion_log) port_runtime \<Rightarrow> tick \<Rightarrow> ('b, completion_log) port_runtime \<Rightarrow> bool"
where
  "activation_outcome p now p' \<longleftrightarrow>
     (let late = takeWhile (overdue now) (queue_items (pr_queue p));
          rest = dropWhile (overdue now) (queue_items (pr_queue p))
      in completion_context p' = completion_context p @ map (\<lambda>t. (tx_id t, CORE_TX_TIMED_OUT)) late \<and>
         queue_items (pr_queue p') = tl rest \<and>
         launched (next_generation (pr_generation p)) now rest p')"

lemma ready_loop_outcome:
  assumes "queue_wf (pr_queue p)" "recording p" "pr_state p = PORT_READY"
  shows "activation_outcome p now (ready_loop p now)"
  using assms
proof (induction p now rule: ready_loop.induct)
  case (1 p now)
  show ?case
  proof (cases "queue_pop (pr_queue p)")
    case None
    then have "queue_items (pr_queue p) = []" using txq.pop_empty [OF 1(2)] by simp
    then show ?thesis using None 1(4)
      by (simp add: ready_loop.simps [of p] activation_outcome_def Let_def del: queue_items_eq_Nil)
  next
    case (Some a)
    obtain t q where a: "a = (t, q)" by (cases a)
    let ?p = "update_depth (p\<lparr>pr_queue := q, pr_active := t\<rparr>)"
    have items: "queue_items (pr_queue p) = t # queue_items q" and wf: "queue_wf q"
      using txq.pop_items [OF 1(2)] txq.pop_wf [OF 1(2)] Some a by auto
    have rec: "recording ?p" and st: "pr_state ?p = PORT_READY" using 1(3,4) by simp_all
    show ?thesis
    proof (cases "core_deadline_expired (queue_deadline (pr_active ?p)) now")
      case True
      have "activation_outcome (expire_queued ?p) now (ready_loop (expire_queued ?p) now)"
        using 1(1) [OF Some a [symmetric] refl True] wf rec st expire_fields(2) [OF rec] by simp
      then show ?thesis using True expire_fields [OF rec]
        by (simp add: activation_outcome_def ready_loop.simps [of p] Some a items overdue_def Let_def)
    next
      case False
      then show ?thesis using activate_fields [OF st]
        by (simp add: activation_outcome_def ready_loop.simps [of p] Some a items overdue_def Let_def)
    qed
  qed
qed

text \<open>
  C5. A step of a READY port starts the first request whose queue deadline has not passed: the
  overdue requests before it are reported as timed out, in order, and never reach the line; the
  one that starts gets a fresh non-zero generation and its own response deadline.
\<close>

theorem ready_step_starts_first_in_time:
  assumes "port_inv p" "recording p" "pr_state p = PORT_READY" "backend_valid (backend p)"
  shows "activation_outcome p now (port_runtime_step p now)"
  using ready_loop_outcome [of p now] assms
  by (simp add: port_runtime_step_def port_inv_def queue_ok_def)

theorem ready_step_starts_first_in_time_witness:
  "let p = snd (port_run (take 5 sample_ops) (sample_port []))
   in activation_outcome p 200 (port_runtime_step p 200)"
proof -
  let ?p = "snd (port_run (take 5 sample_ops) (sample_port []))"
  have "port_inv ?p" "recording ?p"
    using run_inv [of "sample_port []"] run_trail [of "sample_port []"] by (simp_all add: sample_port_def)
  moreover have "pr_state ?p = PORT_READY" "backend_valid (backend ?p)" by code_simp+
  ultimately show ?thesis using ready_step_starts_first_in_time [of ?p 200] by (simp only: Let_def)
qed

section \<open>Responses\<close>

text \<open>
  C4. The generation barrier: a port that waits for generation \<open>g\<close> ignores every event that
  belongs to another generation, whatever its kind; only the stale counter moves. A late answer to
  a cancelled or timed-out request can therefore not complete its successor.
\<close>

theorem stale_event_ignored:
  assumes "port_inv p" "pr_state p = PORT_WAITING" "backend p = Some ops"
    "be_poll ops (backend_context p) now = (r, e, b)" "r > 0" "ev_type e \<noteq> BACKEND_EVENT_NONE"
    "ev_generation e \<noteq> pr_generation p"
  shows "port_runtime_step p now =
     p\<lparr>backend_context := b, stats := (stats p)\<lparr>stale_responses := increment (stale_responses (stats p))\<rparr>\<rparr>"
proof -
  have "tx_generation (pr_active p) = pr_generation p" "has_active p"
    using assms(1,2) by (simp_all add: port_inv_def active_ok_def)
  then show ?thesis using assms
    by (simp add: port_runtime_step_def backend_valid_def step_waiting_def call_poll_def)
qed

text \<open>A mock with an event of generation 9 due at once, in front of a port that waits for generation 1.\<close>

definition waiting_port :: "mock_behavior list \<Rightarrow> (mock_backend, completion_log) port_runtime" where
  "waiting_port bs = snd (port_run (take 7 sample_ops) (sample_port bs))"

definition stale_port :: "(mock_backend, completion_log) port_runtime" where
  "stale_port = (let p = waiting_port [MOCK_NO_RESPONSE]
     in p\<lparr>backend_context := snd (schedule_event (backend_context p) BACKEND_EVENT_RESPONSE 9 4 0)\<rparr>)"

lemma waiting_port_ok: "port_inv (waiting_port bs)" "recording (waiting_port bs)"
  using run_inv [of "sample_port bs"] run_trail [of "sample_port bs"]
  by (simp_all add: waiting_port_def sample_port_def)

lemma sample_mock_wf: "mock_wf (sample_mock bs)"
  by (induction bs rule: rev_induct) (simp_all add: sample_mock_def mock_wf_init mock_wf_others)

lemma waiting_port_driven: "mock.driven (waiting_port bs)"
  using sample_mock_wf by (simp add: waiting_port_def sample_port_def mock.driven_run mock.driven_fresh)

theorem stale_event_ignored_witness:
  "port_runtime_step stale_port 5 =
     stale_port\<lparr>backend_context := snd (snd (mock_poll (backend_context stale_port) 5)),
       stats := (stats stale_port)\<lparr>stale_responses := increment (stale_responses (stats stale_port))\<rparr>\<rparr>"
proof -
  have "port_inv stale_port" using waiting_port_ok by (simp add: stale_port_def Let_def)
  moreover have "pr_state stale_port = PORT_WAITING" by code_simp
  moreover have "backend stale_port = Some mock_backend_ops"
    using waiting_port_driven by (simp add: stale_port_def mock.driven_def Let_def)
  moreover have "fst (mock_poll (backend_context stale_port) 5) = 1"
    "ev_type (fst (snd (mock_poll (backend_context stale_port) 5))) = BACKEND_EVENT_RESPONSE"
    "ev_generation (fst (snd (mock_poll (backend_context stale_port) 5))) = 9"
    "pr_generation stale_port = 1" by code_simp+
  ultimately show ?thesis
    by (intro stale_event_ignored [where r = 1 and e = "fst (snd (mock_poll (backend_context stale_port) 5))" and ops = mock_backend_ops])
      (simp_all add: mock_backend_ops_def prod_eq_iff)
qed

section \<open>Timeouts and recovery\<close>

lemma keep_backend [simp]:
  "backend (notify_completion p t st rsp) = backend p" "backend (set_active_status p st) = backend p"
  "backend (set_error p m) = backend p" "backend (clear_active p) = backend p"
  "backend_context (notify_completion p t st rsp) = backend_context p"
  "backend_context (set_active_status p st) = backend_context p"
  "backend_context (set_error p m) = backend_context p"
  "backend_context (clear_active p) = backend_context p"
  "backend (goto p nx) = backend p" "backend_context (goto p nx) = backend_context p"
  by (simp_all add: port_steps_defs)

text \<open>
  A request without a response is bounded by its response timeout: the first poll after the
  deadline that brings no event completes it as timed out, tells the backend to cancel exactly
  its generation, raises the barrier to that generation, and schedules recovery after the
  recovery delay; the waiting requests stay queued.
\<close>

theorem response_timeout_recovers:
  assumes "port_inv p" "recording p" "pr_state p = PORT_WAITING" "backend p = Some ops"
    "be_poll ops (backend_context p) now = (r, e, b)" "r \<le> 0"
    "core_deadline_expired (response_deadline (pr_active p)) now"
  shows "let p' = port_runtime_step p now
         in completion_context p' = completion_context p @ [(tx_id (pr_active p), CORE_TX_TIMED_OUT)] \<and>
            pr_state p' = PORT_RECOVERING \<and> \<not> has_active p' \<and> pr_queue p' = pr_queue p \<and>
            backend_context p' = be_cancel ops b (pr_generation p) \<and>
            response_barrier_generation p' = pr_generation p \<and>
            state_deadline p' = core_deadline_after now (recovery_delay p)"
proof -
  have "tx_generation (pr_active p) = pr_generation p" "has_active p"
    using assms(1,3) by (simp_all add: port_inv_def active_ok_def)
  then show ?thesis using assms
    by (simp add: port_runtime_step_def backend_valid_def step_waiting_def call_poll_def port_steps_defs
        recording_def record_completion_def)
qed

theorem response_timeout_recovers_witness:
  "let p = waiting_port [MOCK_NO_RESPONSE]; p' = port_runtime_step p 60
   in completion_context p' = completion_context p @ [(tx_id (pr_active p), CORE_TX_TIMED_OUT)] \<and>
      pr_state p' = PORT_RECOVERING \<and> \<not> has_active p' \<and> pr_queue p' = pr_queue p \<and>
      backend_context p' = be_cancel mock_backend_ops (backend_context p) (pr_generation p) \<and>
      response_barrier_generation p' = pr_generation p \<and>
      state_deadline p' = core_deadline_after 60 (recovery_delay p)"
proof -
  let ?p = "waiting_port [MOCK_NO_RESPONSE]"
  have b: "backend ?p = Some mock_backend_ops" using waiting_port_driven by (simp add: mock.driven_def)
  have "find_index (\<lambda>s. slot_used s \<and> core_deadline_expired (slot_due s) 60)
      (mk_events (backend_context ?p)) = None" by code_simp
  then have e: "be_poll mock_backend_ops (backend_context ?p) 60 = (0, zero_event, backend_context ?p)"
    by (simp add: mock_backend_ops_def mock_poll_def del: find_index_None)
  have s: "pr_state ?p = PORT_WAITING" and d: "core_deadline_expired (response_deadline (pr_active ?p)) 60"
    by code_simp+
  show ?thesis
    unfolding Let_def
    by (rule response_timeout_recovers [OF waiting_port_ok(1,2) s b e order_refl d, unfolded Let_def])
qed

lemma call_frame [simp]:
  "recovery_attempts (snd (call_recover p now)) = recovery_attempts p"
  "recovery_attempts (snd (snd (call_poll p now))) = recovery_attempts p"
  "recovery_delay (snd (call_recover p now)) = recovery_delay p"
  "recovery_delay (snd (snd (call_poll p now))) = recovery_delay p"
  "state_deadline (snd (snd (call_poll p now))) = state_deadline p"
  "backend (snd (call_recover p now)) = backend p"
  "backend (snd (snd (call_poll p now))) = backend p"
  by (simp_all add: call_recover_def call_poll_def split: option.split prod.split)

text \<open>One due attempt: back to READY, given up as DEGRADED, or one more attempt scheduled.\<close>

definition after_attempt :: "('b, 'c) port_runtime \<Rightarrow> tick \<Rightarrow> ('b, 'c) port_runtime \<Rightarrow> bool" where
  "after_attempt p now p' \<longleftrightarrow>
     pr_state p' = PORT_READY \<and> recovery_attempts p' = 0 \<or>
     pr_state p' = PORT_DEGRADED \<and> recovery_attempts p' = CORE_RECOVERY_MAX_ATTEMPTS \<or>
     pr_state p' = PORT_RECOVERING \<and> recovery_attempts p' = recovery_attempts p + 1 \<and>
     recovery_delay p' = recovery_delay p \<and> backend p' = backend p \<and>
     state_deadline p' = core_deadline_after now (recovery_delay p)"

lemma transition_fields:
  "transition_allowed (pr_state p) s \<Longrightarrow> pr_state (goto p s) = s"
  "recovery_attempts (goto p s) = recovery_attempts p"
  by (simp_all add: port_runtime_transition_def set_error_def)

lemma attempts_limit: "n < (3 :: u32) \<Longrightarrow> 3 \<le> n + 1 \<Longrightarrow> n + 1 = 3"
  using next_attempt(1) [of n] by (simp add: order_antisym)

lemma recovery_attempt:
  assumes "port_inv p" "pr_state p = PORT_RECOVERING" "backend_valid (backend p)"
    "core_deadline_expired (state_deadline p) now"
  shows "after_attempt p now (port_runtime_step p now)"
  using assms attempts_limit [of "recovery_attempts p"]
  by (auto simp: port_runtime_step_def step_recovering_def split_beta Let_def after_attempt_def
      transition_fields port_inv_def)

lemma attempts_bound: "port_inv p \<Longrightarrow> pr_state p = PORT_RECOVERING \<Longrightarrow> unat (recovery_attempts p) < 3"
  by (simp add: port_inv_def word_less_nat_alt)

lemma recovery_due:
  assumes "after_attempt p now p'" "pr_state p' = PORT_RECOVERING" "core_ticks_valid_interval (recovery_delay p)"
  shows "core_deadline_expired (state_deadline p') (now + recovery_delay p)"
  using assms deadline_expired_shift [OF assms(3), of now "recovery_delay p"] by (auto simp: after_attempt_def)

text \<open>
  C6. Recovery is bounded: stepped at its deadline and then once per recovery delay, a port that
  starts to recover is READY again, or given up as DEGRADED, after at most three attempts,
  whatever the backend answers.
\<close>

theorem recovery_settles:
  assumes "port_inv p" "pr_state p = PORT_RECOVERING" "backend_valid (backend p)"
    "core_deadline_expired (state_deadline p) t" "core_ticks_valid_interval (recovery_delay p)"
  shows "\<exists>k. 1 \<le> k \<and> k \<le> 3 \<and>
     pr_state (foldl port_runtime_step p (take k [t, t + recovery_delay p, t + 2 * recovery_delay p]))
       \<in> {PORT_READY, PORT_DEGRADED}"
proof -
  let ?d = "recovery_delay p"
  let ?p1 = "port_runtime_step p t"
  let ?p2 = "port_runtime_step ?p1 (t + ?d)"
  let ?p3 = "port_runtime_step ?p2 (t + 2 * ?d)"
  have a1: "after_attempt p t ?p1" using recovery_attempt assms by blast
  show ?thesis
  proof (cases "pr_state ?p1 = PORT_RECOVERING")
    case False
    then show ?thesis using a1 by (intro exI [of _ 1]) (auto simp: after_attempt_def)
  next
    case r1: True
    have d1: "core_deadline_expired (state_deadline ?p1) (t + ?d)" "recovery_delay ?p1 = ?d"
      "backend ?p1 = backend p" "recovery_attempts ?p1 = recovery_attempts p + 1"
      using recovery_due [OF a1 r1 assms(5)] a1 r1 by (auto simp: after_attempt_def)
    have a2: "after_attempt ?p1 (t + ?d) ?p2"
      using recovery_attempt [OF inv_step [OF assms(1)] r1] d1 assms(3) by simp
    show ?thesis
    proof (cases "pr_state ?p2 = PORT_RECOVERING")
      case False
      then show ?thesis using a2 by (intro exI [of _ 2]) (auto simp: after_attempt_def numeral_2_eq_2)
    next
      case r2: True
      have d2: "core_deadline_expired (state_deadline ?p2) (t + 2 * ?d)" "backend ?p2 = backend p"
        "recovery_attempts ?p2 = recovery_attempts p + 2"
        using recovery_due [OF a2 r2] a2 r2 d1 assms(5) by (auto simp: after_attempt_def algebra_simps)
      have a3: "after_attempt ?p2 (t + 2 * ?d) ?p3"
        using recovery_attempt [OF inv_step [OF inv_step [OF assms(1)]] r2] d2 assms(3) by simp
      have "pr_state ?p3 \<noteq> PORT_RECOVERING"
      proof
        assume r3: "pr_state ?p3 = PORT_RECOVERING"
        then have "recovery_attempts ?p3 = recovery_attempts p + 3"
          using a3 d2(3) by (auto simp: after_attempt_def algebra_simps)
        moreover have "port_inv ?p3" using inv_step assms(1) by blast
        ultimately show False using attempts_bound [OF assms(1,2)] attempts_bound [OF _ r3]
          by (simp add: unat_word_ariths)
      qed
      then show ?thesis using a3 by (intro exI [of _ 3]) (auto simp: after_attempt_def numeral_3_eq_3)
    qed
  qed
qed

text \<open>A port whose only request timed out at tick 60 in front of a mock that cannot recover.\<close>

definition broken_port :: "(mock_backend, completion_log) port_runtime" where
  "broken_port = port_runtime_step ((waiting_port [MOCK_NO_RESPONSE])\<lparr>backend_context :=
     (backend_context (waiting_port [MOCK_NO_RESPONSE]))\<lparr>recovery_failures_remaining := 9\<rparr>\<rparr>) 60"

theorem recovery_settles_witness:
  "\<exists>k. 1 \<le> k \<and> k \<le> 3 \<and>
     pr_state (foldl port_runtime_step broken_port
       (take k [65, 65 + recovery_delay broken_port, 65 + 2 * recovery_delay broken_port]))
       \<in> {PORT_READY, PORT_DEGRADED}"
proof -
  have "port_inv broken_port" by (simp add: broken_port_def inv_step waiting_port_ok)
  moreover have "pr_state broken_port = PORT_RECOVERING" "backend_valid (backend broken_port)"
    "core_deadline_expired (state_deadline broken_port) 65"
    "core_ticks_valid_interval (recovery_delay broken_port)" by code_simp+
  ultimately show ?thesis by (rule recovery_settles)
qed

section \<open>Reconfiguration\<close>

text \<open>
  The outcome of an accepted reconfiguration: the requested configuration in force, the old one
  put back, or an error with the old one still on record.
\<close>

definition reconfigured ::
  "'b core_backend_ops \<Rightarrow> ('b, 'c) port_runtime \<Rightarrow> core_port_config \<Rightarrow> tick \<Rightarrow>
   ('b, 'c) port_runtime \<Rightarrow> bool"
where
  "reconfigured ops p c now p' \<longleftrightarrow>
     pr_state p' = PORT_READY \<and> current_config p' = c \<and> known_good_config p' = c \<and>
       (\<exists>b. be_reconfigure ops b c now = (0, backend_context p')) \<or>
     pr_state p' = PORT_READY \<and> current_config p' = current_config p \<and>
       known_good_config p' = current_config p \<and>
       (\<exists>b. be_reconfigure ops b (current_config p) now = (0, backend_context p')) \<or>
     pr_state p' = PORT_ERROR \<and> current_config p' = current_config p"

lemma config_keep [simp]:
  "current_config (goto p nx) = current_config p" "known_good_config (goto p nx) = known_good_config p"
  "current_config (set_error p m) = current_config p" "known_good_config (set_error p m) = known_good_config p"
  by (simp_all add: port_steps_defs)

lemma reconfigure_request:
  assumes "port_inv p" "port_runtime_request_reconfigure p (Some c) now timeout = (0, p')"
  shows "pr_state p' = PORT_RECONFIGURING" "staged_config p' = c" "known_good_config p' = current_config p"
    "current_config p' = current_config p" "backend p' = backend p"
proof -
  let ?q = "flush_queue (abandon_active p)"
  have wf: "queue_wf (pr_queue (abandon_active p))" using assms(1) by (simp add: abandon_frame port_inv_def queue_ok_def)
  obtain q n x where "flush_loop (abandon_active p) = (abandon_active p)\<lparr>pr_queue := q,
      stats := (stats (abandon_active p))\<lparr>cancelled := n\<rparr>, completion_context := x\<rparr>"
    using flush_loop_shape [OF wf] by blast
  then have q: "current_config ?q = current_config p" "pr_state ?q = pr_state p" "backend ?q = backend p"
    by (simp_all add: flush_queue_def update_depth_def Let_def abandon_frame)
      (simp_all add: abandon_active_def port_steps_defs)
  show "pr_state p' = PORT_RECONFIGURING" "staged_config p' = c" "known_good_config p' = current_config p"
    "current_config p' = current_config p" "backend p' = backend p"
    using assms(2) q by (auto simp: port_runtime_request_reconfigure_def port_runtime_transition_def Let_def split: if_splits)
qed

lemma reconfigure_frame [simp]:
  "pr_state (snd (call_reconfigure p c now)) = pr_state p"
  "current_config (snd (call_reconfigure p c now)) = current_config p"
  "known_good_config (snd (call_reconfigure p c now)) = known_good_config p"
  "staged_config (snd (call_reconfigure p c now)) = staged_config p"
  "backend (snd (call_reconfigure p c now)) = backend p"
  by (simp_all add: call_reconfigure_def split: option.split prod.split)

lemma set_error_frame [simp]:
  "staged_config (set_error p m) = staged_config p" "pr_state (set_error p m) = pr_state p"
  by (simp_all add: set_error_def)

lemmas reconfigure_simps = port_runtime_step_def backend_valid_def step_reconfiguring_def split_beta Let_def
  transition_fields

lemma reconfigure_applied:
  "backend p = Some ops \<Longrightarrow> fst (call_reconfigure p c now) = 0 \<Longrightarrow>
   be_reconfigure ops (backend_context p) c now = (0, backend_context (snd (call_reconfigure p c now)))"
  by (simp add: call_reconfigure_def split: prod.splits)

lemma reconfigured_by:
  "pr_state p' = PORT_READY \<Longrightarrow> current_config p' = c \<Longrightarrow> known_good_config p' = c \<Longrightarrow>
     be_reconfigure ops b c now = (0, backend_context p') \<Longrightarrow> reconfigured ops p c now p'"
  "pr_state p' = PORT_READY \<Longrightarrow> current_config p' = current_config p \<Longrightarrow>
     known_good_config p' = current_config p \<Longrightarrow>
     be_reconfigure ops b (current_config p) now = (0, backend_context p') \<Longrightarrow> reconfigured ops p c now p'"
  "pr_state p' = PORT_ERROR \<Longrightarrow> current_config p' = current_config p \<Longrightarrow> reconfigured ops p c now p'"
  by (auto simp: reconfigured_def)

lemma reconfigure_step:
  assumes "pr_state p = PORT_RECONFIGURING" "backend p = Some ops" "known_good_config p = current_config p"
  shows "reconfigured ops p (staged_config p) now (port_runtime_step p now)"
proof -
  let ?e = "set_error p ''reconfigure timeout''"
  let ?n = "snd (call_reconfigure p (staged_config p) now)"
  note timeout = reconfigure_applied [of ?e ops "current_config p" now]
  note new = reconfigure_applied [of p ops "staged_config p" now]
  note old = reconfigure_applied [of ?n ops "current_config p" now]
  show ?thesis
  proof (cases "core_deadline_expired (state_deadline p) now")
    case True
    show ?thesis
    proof (cases "fst (call_reconfigure ?e (current_config p) now) = 0")
      case ok: True
      show ?thesis using True ok assms timeout
        by (intro reconfigured_by(2) [where b = "backend_context ?e"])
          (simp_all add: reconfigure_simps)
    next
      case False
      then show ?thesis using True assms
        by (intro reconfigured_by(3))
          (simp_all add: reconfigure_simps)
    qed
  next
    case early: False
    show ?thesis
    proof (cases "fst (call_reconfigure p (staged_config p) now) = 0")
      case True
      then show ?thesis using early assms new
        by (intro reconfigured_by(1) [where b = "backend_context p"])
          (simp_all add: reconfigure_simps)
    next
      case refused: False
      show ?thesis
      proof (cases "fst (call_reconfigure ?n (current_config p) now) = 0")
        case True
        then show ?thesis using early refused assms old
          by (intro reconfigured_by(2) [where b = "backend_context ?n"])
            (simp_all add: reconfigure_simps)
      next
        case False
        then show ?thesis using early refused assms
          by (intro reconfigured_by(3))
            (simp_all add: reconfigure_simps)
      qed
    qed
  qed
qed

text \<open>
  C7. Reconfiguration is all or nothing and takes one step: after an accepted request the next
  step leaves RECONFIGURING. The port is READY with the new configuration, which the backend has
  just accepted, or READY with the previous one, which the backend has just been put back to, or
  in ERROR with the previous one still recorded as current.
\<close>

theorem reconfigure_all_or_nothing:
  assumes "port_inv p" "backend p = Some ops"
    "port_runtime_request_reconfigure p (Some c) now timeout = (0, p')"
  shows "reconfigured ops p c later (port_runtime_step p' later)"
  using reconfigure_request [OF assms(1,3)] reconfigure_step [of p' ops later] assms(2)
  by (simp add: reconfigured_def)

theorem reconfigure_all_or_nothing_witness:
  "let p = waiting_port [MOCK_NO_RESPONSE];
       p' = snd (port_runtime_request_reconfigure p (Some sample_config) 5 100)
   in reconfigured mock_backend_ops p sample_config 6 (port_runtime_step p' 6)"
proof -
  let ?p = "waiting_port [MOCK_NO_RESPONSE]"
  have "backend ?p = Some mock_backend_ops" using waiting_port_driven by (simp add: mock.driven_def)
  moreover have "fst (port_runtime_request_reconfigure ?p (Some sample_config) 5 100) = 0" by code_simp
  then have "port_runtime_request_reconfigure ?p (Some sample_config) 5 100 =
      (0, snd (port_runtime_request_reconfigure ?p (Some sample_config) 5 100))" by (simp add: prod_eq_iff)
  ultimately show ?thesis
    unfolding Let_def by (rule reconfigure_all_or_nothing [OF waiting_port_ok(1)])
qed

section \<open>Stopping\<close>

lemma abandon_log:
  assumes "recording p"
  shows "completion_context (abandon_active p) =
      completion_context p @ (if has_active p then [(tx_id (pr_active p), CORE_TX_CANCELLED)] else [])"
    "recording (abandon_active p)"
  using assms by (simp_all add: abandon_active_def port_steps_defs recording_def record_completion_def)

lemma abandon_backend: "backend (abandon_active p) = backend p"
  by (simp add: abandon_active_def port_steps_defs)

text \<open>
  Stopping loses no request silently and ends: an accepted stop reports the active
  transaction and then every queued one as cancelled, in order, leaves nothing in flight, and the
  first step at or after the stop deadline leaves STOPPING for DISABLED or ERROR whatever the
  backend answers.
\<close>

theorem stop_cancels_and_ends:
  assumes "port_inv p" "recording p" "backend_valid (backend p)"
    "port_runtime_request_stop p now timeout = (0, p')" "core_deadline_expired (state_deadline p') later"
  shows "completion_context p' = completion_context p @ map (\<lambda>i. (i, CORE_TX_CANCELLED)) (in_flight p) \<and>
     in_flight p' = [] \<and> pr_state p' = PORT_STOPPING \<and>
     pr_state (port_runtime_step p' later) \<in> {PORT_DISABLED, PORT_ERROR}"
proof -
  let ?a = "abandon_active p"
  let ?q = "flush_queue ?a"
  have wf: "queue_wf (pr_queue ?a)" and d: "depth_ok (pr_queue ?a) (stats ?a)"
    using assms(1) by (simp_all add: abandon_frame port_inv_def queue_ok_def)
  note log = flush_queue_log [OF wf abandon_log(2) [OF assms(2)] d]
  have p': "pr_state p' = PORT_STOPPING" "completion_context p' = completion_context ?q"
    "in_flight p' = in_flight ?q" "backend p' = backend ?q"
    using assms(4) by (auto simp: port_runtime_request_stop_def port_runtime_transition_def Let_def in_flight_def split: if_splits)
  have "backend p' = backend p" using p'(4) flush_queue_frame(8) [OF wf d] by (simp add: abandon_backend)
  then have "pr_state (port_runtime_step p' later) \<in> {PORT_DISABLED, PORT_ERROR}"
    using assms(3,5) p'(1)
    by (simp add: port_runtime_step_def step_stopping_def split_beta Let_def transition_fields)
      (simp add: call_stop_def split: option.split prod.split)
  then show ?thesis
    using p' log abandon_log(1) [OF assms(2)] by (simp add: abandon_frame in_flight_def)
qed

theorem stop_cancels_and_ends_witness:
  "let p = waiting_port [MOCK_NO_RESPONSE]; p' = snd (port_runtime_request_stop p 5 100)
   in completion_context p' = completion_context p @ map (\<lambda>i. (i, CORE_TX_CANCELLED)) (in_flight p) \<and>
     in_flight p' = [] \<and> pr_state p' = PORT_STOPPING \<and>
     pr_state (port_runtime_step p' 105) \<in> {PORT_DISABLED, PORT_ERROR}"
proof -
  let ?p = "waiting_port [MOCK_NO_RESPONSE]"
  have "backend_valid (backend ?p)" using waiting_port_driven by (simp add: mock.driven_def backend_valid_def)
  moreover have "fst (port_runtime_request_stop ?p 5 100) = 0" by code_simp
  then have "port_runtime_request_stop ?p 5 100 = (0, snd (port_runtime_request_stop ?p 5 100))"
    by (simp add: prod_eq_iff)
  moreover have "core_deadline_expired (state_deadline (snd (port_runtime_request_stop ?p 5 100))) 105"
    by code_simp
  ultimately show ?thesis
    unfolding Let_def by (rule stop_cancels_and_ends [OF waiting_port_ok])
qed

end
