(* ===== verification/Uart_Backend.thy ===== *)
theory Uart_Backend
  imports Backend_Contract
begin

text \<open>
  The serial-line backend of \<open>src/uart/uart_backend.c\<close>: configuring the device through termios and
  the vendor's ioctls, writing a request in bounded pieces, collecting the answer, and draining
  the line on recovery. The system calls are the table of functions the code itself takes
  (\<open>uart_syscalls_t\<close>), over a type \<open>'w\<close> of the state behind the call, trace and clock contexts. The
  printing of trace lines to stderr is left out. The constants are those of Linux.
\<close>

section \<open>Constants of the system headers\<close>

abbreviation UART_PORT_COUNT :: nat where "UART_PORT_COUNT \<equiv> 8"
abbreviation UART_IO_BUDGET :: nat where "UART_IO_BUDGET \<equiv> 64"
abbreviation UART_RX_CAPACITY :: nat where "UART_RX_CAPACITY \<equiv> 256"
abbreviation UART_RECOVERY_DRAIN_LIMIT :: nat where "UART_RECOVERY_DRAIN_LIMIT \<equiv> 512"
abbreviation UART_TRACE_BYTES_MAX :: nat where "UART_TRACE_BYTES_MAX \<equiv> 64"

abbreviation FOURVRS_MOXA_SET_OP_MODE :: u32 where "FOURVRS_MOXA_SET_OP_MODE \<equiv> 0x442"
abbreviation FOURVRS_MOXA_GET_OP_MODE :: u32 where "FOURVRS_MOXA_GET_OP_MODE \<equiv> 0x443"
abbreviation FOURVRS_MOXA_SET_SPECIAL_BAUD_RATE :: u32 where "FOURVRS_MOXA_SET_SPECIAL_BAUD_RATE \<equiv> 0x444"
abbreviation FOURVRS_MOXA_GET_SPECIAL_BAUD_RATE :: u32 where "FOURVRS_MOXA_GET_SPECIAL_BAUD_RATE \<equiv> 0x445"

abbreviation EINTR :: int where "EINTR \<equiv> 4"
abbreviation EAGAIN :: int where "EAGAIN \<equiv> 11"
abbreviation EWOULDBLOCK :: int where "EWOULDBLOCK \<equiv> 11"
abbreviation OPEN_FLAGS :: u32 where "OPEN_FLAGS \<equiv> 0x902" \<comment> \<open>O_RDWR, O_NOCTTY, O_NONBLOCK\<close>
abbreviation TCSANOW :: int where "TCSANOW \<equiv> 0"
abbreviation TCIFLUSH :: int where "TCIFLUSH \<equiv> 0"
abbreviation CS6 :: u32 where "CS6 \<equiv> 0x10"
abbreviation CS7 :: u32 where "CS7 \<equiv> 0x20"
abbreviation CS8 :: u32 where "CS8 \<equiv> 0x30"
abbreviation CSTOPB :: u32 where "CSTOPB \<equiv> 0x40"
abbreviation CREAD :: u32 where "CREAD \<equiv> 0x80"
abbreviation PARENB :: u32 where "PARENB \<equiv> 0x100"
abbreviation PARODD :: u32 where "PARODD \<equiv> 0x200"
abbreviation CLOCAL :: u32 where "CLOCAL \<equiv> 0x800"
abbreviation INPCK :: u32 where "INPCK \<equiv> 0x10"
abbreviation VTIME :: nat where "VTIME \<equiv> 5"
abbreviation VMIN :: nat where "VMIN \<equiv> 6"
abbreviation B4000000 :: u32 where "B4000000 \<equiv> 0x100f"

section \<open>Data\<close>

record termios =
  c_iflag :: u32
  c_oflag :: u32
  c_cflag :: u32
  c_lflag :: u32
  c_cc :: "u8 list"
  c_ispeed :: u32
  c_ospeed :: u32

text \<open>\<open>cfsetispeed\<close> and \<open>cfsetospeed\<close> succeed on the speeds the code passes and record them.\<close>

definition cfsetispeed :: "termios \<Rightarrow> u32 \<Rightarrow> int \<times> termios" where
  "cfsetispeed v speed = (0, v\<lparr>c_ispeed := speed\<rparr>)"

definition cfsetospeed :: "termios \<Rightarrow> u32 \<Rightarrow> int \<times> termios" where
  "cfsetospeed v speed = (0, v\<lparr>c_ospeed := speed\<rparr>)"

text \<open>
  The system calls. \<open>read_fn\<close> also returns the bytes it stored, \<open>ioctl_fn\<close> and \<open>tcgetattr_fn\<close> the
  memory behind their pointer after the call.
\<close>

record 'w uart_syscalls =
  open_fn :: "'w \<Rightarrow> string \<Rightarrow> u32 \<Rightarrow> int \<times> 'w"
  close_fn :: "'w \<Rightarrow> int \<Rightarrow> int \<times> 'w"
  read_fn :: "'w \<Rightarrow> int \<Rightarrow> nat \<Rightarrow> int \<times> u8 list \<times> 'w"
  write_fn :: "'w \<Rightarrow> int \<Rightarrow> u8 list \<Rightarrow> int \<times> 'w"
  ioctl_fn :: "'w \<Rightarrow> int \<Rightarrow> u32 \<Rightarrow> u32 \<Rightarrow> int \<times> u32 \<times> 'w"
  tcgetattr_fn :: "'w \<Rightarrow> int \<Rightarrow> termios \<Rightarrow> int \<times> termios \<times> 'w"
  tcsetattr_fn :: "'w \<Rightarrow> int \<Rightarrow> int \<Rightarrow> termios \<Rightarrow> int \<times> 'w"
  tcflush_fn :: "'w \<Rightarrow> int \<Rightarrow> int \<Rightarrow> int \<times> 'w"
  last_error_fn :: "'w \<Rightarrow> int \<times> 'w"

record uart_backend_stats =
  bytes_read :: u32
  bytes_written :: u32
  short_writes :: u32
  partial_reads :: u32
  read_calls :: u32
  write_calls :: u32
  temporary_errors :: u32
  hard_errors :: u32
  rx_overflows :: u32
  recovery_drained :: u32
  uart_opens :: u32
  uart_closes :: u32

datatype uart_frame_result = UART_FRAME_INCOMPLETE | UART_FRAME_COMPLETE | UART_FRAME_MALFORMED

text \<open>A frame probe looks at request and response and may report the length of the frame.\<close>

type_synonym uart_frame_probe_fn = "u8 list \<Rightarrow> u8 list \<Rightarrow> uart_frame_result \<times> nat option"

datatype uart_read_phase = UART_READ_RESPONSE | UART_READ_RECOVERY

record uart_read_trace_event =
  monotonic_us :: u32
  ev_tx_completed_us :: u32
  elapsed_since_tx_us :: u32
  ev_now :: tick
  ev_tx_completed_at :: tick
  elapsed_since_tx :: tick
  ev_transaction_id :: u32
  ev_active_generation :: u32
  rx_length_before :: nat
  rx_length_after :: nat
  byte_count :: nat
  tx_complete :: bool
  ev_recovery_since :: bool
  phase :: uart_read_phase
  ev_result :: int
  ev_error :: int
  ev_bytes :: "u8 list"

record 'w uart_backend =
  ub_port_index :: u32
  device_path :: string
  fd :: int
  configured :: bool
  ub_config :: core_port_config
  saved_termios :: termios
  saved_termios_valid :: bool
  saved_mode :: u32
  saved_mode_valid :: bool
  saved_special_baud :: u32
  saved_special_baud_valid :: bool
  tx :: "u8 list"
  tx_length :: nat
  tx_offset :: nat
  rx :: "u8 list"
  ub_expected_length :: nat
  active_generation :: u32
  active_transaction_id :: u32
  transmit_reported :: bool
  tx_completed_at :: tick
  tx_completed_us :: u32
  recovery_sequence :: u32
  recovery_at_previous_start :: u32
  recovery_since_previous :: bool
  ub_operation :: core_operation
  frame_probe :: "uart_frame_probe_fn option"
  ub_stats :: uart_backend_stats
  sys :: "'w uart_syscalls"
  world :: 'w
  trace_enabled :: bool
  read_trace :: "('w \<Rightarrow> uart_read_trace_event \<Rightarrow> 'w) option"
  trace_clock :: "('w \<Rightarrow> u32 \<times> 'w) option"

abbreviation rx_length :: "'w uart_backend \<Rightarrow> nat" where "rx_length u \<equiv> length (rx u)"

abbreviation count_stat ::
  "((u32 \<Rightarrow> u32) \<Rightarrow> uart_backend_stats \<Rightarrow> uart_backend_stats) \<Rightarrow> 'w uart_backend \<Rightarrow> 'w uart_backend" where
  "count_stat field u \<equiv> u\<lparr>ub_stats := field increment (ub_stats u)\<rparr>"

definition standard_speed :: "u32 \<Rightarrow> u32" where
  "standard_speed baud = (case map_of [(50, 1), (75, 2), (110, 3), (134, 4), (150, 5), (200, 6), (300, 7),
     (600, 8), (1200, 9), (1800, 10), (2400, 11), (4800, 12), (9600, 13), (19200, 14), (38400, 15),
     (57600, 0x1001), (115200, 0x1002), (230400, 0x1003), (460800, 0x1004), (500000, 0x1005),
     (576000, 0x1006), (921600, 0x1007)] baud of Some s \<Rightarrow> s | None \<Rightarrow> 0)"

text \<open>\<open>None\<close> is the null pointer.\<close>

definition uart_config_validate :: "core_port_config option \<Rightarrow> int" where
  "uart_config_validate config =
     (case config of None \<Rightarrow> - 1
      | Some c \<Rightarrow>
         if cc_mode c > 3 \<or> cc_data_bits c < 5 \<or> cc_data_bits c > 8 \<or> cc_parity c > 2 \<or>
            (cc_stop_bits c \<noteq> 1 \<and> cc_stop_bits c \<noteq> 2) then - 1
         else if cc_special_baud_enabled c \<noteq> 0 then (if cc_special_baud c > 0 then 0 else - 1)
         else (if standard_speed (cc_baud c) \<noteq> 0 then 0 else - 1))"

definition temporary_error :: "int \<Rightarrow> bool" where
  "temporary_error error \<longleftrightarrow> error = EAGAIN \<or> error = EWOULDBLOCK \<or> error = EINTR"

section \<open>System calls on a backend\<close>

definition sys_open :: "'w uart_backend \<Rightarrow> int \<times> 'w uart_backend" where
  "sys_open u = (let (r, w) = open_fn (sys u) (world u) (device_path u) OPEN_FLAGS in (r, u\<lparr>world := w\<rparr>))"

definition sys_close :: "'w uart_backend \<Rightarrow> int \<times> 'w uart_backend" where
  "sys_close u = (let (r, w) = close_fn (sys u) (world u) (fd u) in (r, u\<lparr>world := w\<rparr>))"

definition sys_read :: "'w uart_backend \<Rightarrow> nat \<Rightarrow> int \<times> u8 list \<times> 'w uart_backend" where
  "sys_read u n = (let (r, bs, w) = read_fn (sys u) (world u) (fd u) n in (r, bs, u\<lparr>world := w\<rparr>))"

definition sys_write :: "'w uart_backend \<Rightarrow> u8 list \<Rightarrow> int \<times> 'w uart_backend" where
  "sys_write u bs = (let (r, w) = write_fn (sys u) (world u) (fd u) bs in (r, u\<lparr>world := w\<rparr>))"

definition sys_ioctl :: "'w uart_backend \<Rightarrow> u32 \<Rightarrow> u32 \<Rightarrow> int \<times> u32 \<times> 'w uart_backend" where
  "sys_ioctl u request v = (let (r, v, w) = ioctl_fn (sys u) (world u) (fd u) request v in (r, v, u\<lparr>world := w\<rparr>))"

definition sys_tcgetattr :: "'w uart_backend \<Rightarrow> termios \<Rightarrow> int \<times> termios \<times> 'w uart_backend" where
  "sys_tcgetattr u v = (let (r, v, w) = tcgetattr_fn (sys u) (world u) (fd u) v in (r, v, u\<lparr>world := w\<rparr>))"

definition sys_tcsetattr :: "'w uart_backend \<Rightarrow> termios \<Rightarrow> int \<times> 'w uart_backend" where
  "sys_tcsetattr u v = (let (r, w) = tcsetattr_fn (sys u) (world u) (fd u) TCSANOW v in (r, u\<lparr>world := w\<rparr>))"

definition sys_tcflush :: "'w uart_backend \<Rightarrow> int \<times> 'w uart_backend" where
  "sys_tcflush u = (let (r, w) = tcflush_fn (sys u) (world u) (fd u) TCIFLUSH in (r, u\<lparr>world := w\<rparr>))"

definition sys_last_error :: "'w uart_backend \<Rightarrow> int \<times> 'w uart_backend" where
  "sys_last_error u = (let (r, w) = last_error_fn (sys u) (world u) in (r, u\<lparr>world := w\<rparr>))"

text \<open>\<open>result < 0 ? last_error() : 0\<close> after a read.\<close>

definition read_error :: "'w uart_backend \<Rightarrow> int \<Rightarrow> int \<times> 'w uart_backend" where
  "read_error u result = (if result < 0 then sys_last_error u else (0, u))"

definition trace_read ::
  "'w uart_backend \<Rightarrow> tick \<Rightarrow> uart_read_phase \<Rightarrow> int \<Rightarrow> int \<Rightarrow> nat \<Rightarrow> u8 list \<Rightarrow> 'w uart_backend"
where
  "trace_read u now ph result error before bytes =
     (case read_trace u of None \<Rightarrow> u
      | Some trace \<Rightarrow>
         let (us, w) = (case trace_clock u of None \<Rightarrow> (0, world u) | Some clock \<Rightarrow> clock (world u));
             traced = (trace_clock u \<noteq> None);
             count = (if result > 0 then min (nat result) UART_TRACE_BYTES_MAX else 0);
             event =
               \<lparr>monotonic_us = us,
                ev_tx_completed_us = (if traced then tx_completed_us u else 0),
                elapsed_since_tx_us = (if traced then us - tx_completed_us u else 0),
                ev_now = now, ev_tx_completed_at = tx_completed_at u,
                elapsed_since_tx = (if tx_completed_at u = 0 then 0 else core_elapsed (tx_completed_at u) now),
                ev_transaction_id = active_transaction_id u,
                ev_active_generation = active_generation u,
                rx_length_before = before,
                rx_length_after = (if result > 0 \<and> ph = UART_READ_RESPONSE then before + nat result else before),
                byte_count = count, tx_complete = (tx_offset u = tx_length u),
                ev_recovery_since = recovery_since_previous u, phase = ph,
                ev_result = result, ev_error = error, ev_bytes = take count bytes\<rparr>
         in u\<lparr>world := trace w event\<rparr>)"

section \<open>Configuration\<close>

text \<open>The line settings written into the attributes read from the device.\<close>

definition line_attributes :: "core_port_config \<Rightarrow> termios \<Rightarrow> termios" where
  "line_attributes c v =
     (let size = (if cc_data_bits c = 5 then 0 else if cc_data_bits c = 6 then CS6
                  else if cc_data_bits c = 7 then CS7 else CS8);
          parity = (if cc_parity c \<noteq> 0 then PARENB OR (if cc_parity c = 2 then PARODD else 0) else 0);
          stop = (if cc_stop_bits c = 2 then CSTOPB else 0)
      in v\<lparr>c_iflag := (if cc_parity c \<noteq> 0 then INPCK else 0), c_oflag := 0, c_lflag := 0,
           c_cflag := CREAD OR CLOCAL OR size OR parity OR stop,
           c_cc := (c_cc v)[VMIN := 0, VTIME := 0]\<rparr>)"

definition zero_termios :: termios where
  "zero_termios = \<lparr>c_iflag = 0, c_oflag = 0, c_cflag = 0, c_lflag = 0, c_cc = replicate 32 0,
     c_ispeed = 0, c_ospeed = 0\<rparr>"

definition apply_config :: "'w uart_backend \<Rightarrow> core_port_config option \<Rightarrow> int \<times> 'w uart_backend" where
  "apply_config u config =
     (if uart_config_validate config \<noteq> 0 \<or> fd u < 0 then (- 1, u)
      else let c = the config; (r, v, u) = sys_tcgetattr u zero_termios in
      if r \<noteq> 0 then (- 1, u)
      else
        let v = line_attributes c v;
            speed = (if cc_special_baud_enabled c \<noteq> 0 then B4000000 else standard_speed (cc_baud c));
            (ri, v) = cfsetispeed v speed in
        if ri \<noteq> 0 then (- 1, u)
        else let (ro, v) = cfsetospeed v speed in
        if ro \<noteq> 0 then (- 1, u)
        else let (r, u) = sys_tcsetattr u v in
        if r \<noteq> 0 then (- 1, u)
        else let (r, mode, u) = sys_ioctl u FOURVRS_MOXA_SET_OP_MODE (cc_mode c) in
        if r \<noteq> 0 then (- 1, u)
        else let (r, readback, u) = sys_ioctl u FOURVRS_MOXA_GET_OP_MODE (NOT 0) in
        if r \<noteq> 0 \<or> readback \<noteq> mode then (- 1, u)
        else if cc_special_baud_enabled c \<noteq> 0 then
          let (r, special, u) = sys_ioctl u FOURVRS_MOXA_SET_SPECIAL_BAUD_RATE (cc_special_baud c) in
          if r \<noteq> 0 then (- 1, u)
          else let (r, readback, u) = sys_ioctl u FOURVRS_MOXA_GET_SPECIAL_BAUD_RATE 0 in
          if r \<noteq> 0 \<or> readback \<noteq> special then (- 1, u)
          else (0, u\<lparr>ub_config := c, configured := True\<rparr>)
        else (0, u\<lparr>ub_config := c, configured := True\<rparr>))"

text \<open>\<open>close\<close> on a failure path of \<open>open\<close>: its result is ignored.\<close>

definition abort_open :: "'w uart_backend \<Rightarrow> int \<times> 'w uart_backend" where
  "abort_open u = (let (r, u) = sys_close u in
     (- 1, (count_stat uart_closes_update u)\<lparr>fd := - 1\<rparr>))"

definition uart_open :: "'w uart_backend \<Rightarrow> tick \<Rightarrow> int \<times> 'w uart_backend" where
  "uart_open u now =
     (if fd u \<ge> 0 then (0, u)
      else
        let (f, u) = sys_open u; u = u\<lparr>fd := f\<rparr> in
        if f < 0 then (- 1, u)
        else
          let u = count_stat uart_opens_update u;
              (r, v, u) = sys_tcgetattr u (saved_termios u);
              u = u\<lparr>saved_termios := v, saved_termios_valid := (r = 0)\<rparr>;
              (r, mode, u) = sys_ioctl u FOURVRS_MOXA_GET_OP_MODE (saved_mode u);
              u = u\<lparr>saved_mode := mode, saved_mode_valid := (r = 0)\<rparr>;
              u = (if saved_termios_valid u \<and> c_ispeed (saved_termios u) = B4000000
                   then let (r, special, u) = sys_ioctl u FOURVRS_MOXA_GET_SPECIAL_BAUD_RATE (saved_special_baud u)
                        in u\<lparr>saved_special_baud := special, saved_special_baud_valid := (r = 0)\<rparr>
                   else u) in
          if \<not> saved_termios_valid u \<or> \<not> saved_mode_valid u then abort_open u
          else if c_ispeed (saved_termios u) = B4000000 \<and> \<not> saved_special_baud_valid u then abort_open u
          else
            let (r, u) = apply_config u (Some (ub_config u)) in
            if r \<noteq> 0 then
              let u = (if saved_termios_valid u then snd (sys_tcsetattr u (saved_termios u)) else u);
                  u = (if saved_mode_valid u
                       then let (r, mode, u) = sys_ioctl u FOURVRS_MOXA_SET_OP_MODE (saved_mode u)
                            in u\<lparr>saved_mode := mode\<rparr>
                       else u)
              in abort_open u
            else (0, u))"

section \<open>Transactions\<close>

definition uart_start :: "'w uart_backend \<Rightarrow> core_transaction \<Rightarrow> tick \<Rightarrow> int \<times> 'w uart_backend" where
  "uart_start u t now =
     (if fd u < 0 \<or> payload_length t = 0 \<or>
         expected_response_length (tx_operation t) > UART_RX_CAPACITY then (- 1, u)
      else
        let u = u\<lparr>ub_operation := tx_operation t\<rparr> in
        if response_policy (ub_operation u) = CORE_RESPONSE_BACKEND_FRAMED \<and> frame_probe u = None
        then (- 1, u)
        else (0, u\<lparr>tx := payload t,
            tx_length := (if direction (ub_operation u) = CORE_OPERATION_RX_ONLY then 0 else payload_length t),
            tx_offset := 0, rx := [],
            ub_expected_length := expected_response_length (ub_operation u),
            active_generation := tx_generation t, active_transaction_id := tx_id t,
            transmit_reported := False, tx_completed_at := 0, tx_completed_us := 0,
            recovery_since_previous := (recovery_sequence u \<noteq> recovery_at_previous_start u),
            recovery_at_previous_start := recovery_sequence u\<rparr>))"

definition uart_event :: "'w uart_backend \<Rightarrow> backend_event_type \<Rightarrow> u8 list \<Rightarrow> backend_event" where
  "uart_event u ty bytes = \<lparr>ev_type = ty, ev_generation = active_generation u, ev_data = bytes\<rparr>"

text \<open>An error of \<open>read\<close> or \<open>write\<close>: retried later when temporary, else a failure event.\<close>

definition io_error :: "'w uart_backend \<Rightarrow> int \<Rightarrow> int \<times> backend_event \<times> 'w uart_backend" where
  "io_error u error =
     (if temporary_error error then (0, zero_event, count_stat temporary_errors_update u)
      else let u = count_stat hard_errors_update u in (1, uart_event u BACKEND_EVENT_FAILURE [], u))"

text \<open>The bookkeeping after \<open>k\<close> bytes were written.\<close>

definition account_sent :: "'w uart_backend \<Rightarrow> tick \<Rightarrow> nat \<Rightarrow> nat \<Rightarrow> 'w uart_backend" where
  "account_sent u now budget k =
     (let u = (if k < budget then count_stat short_writes_update u else u);
          u = u\<lparr>tx_offset := tx_offset u + k,
                ub_stats := bytes_written_update (\<lambda>v. add_counter v (of_nat k)) (ub_stats u)\<rparr>;
          u = (if tx_offset u = tx_length u then u\<lparr>tx_completed_at := now\<rparr> else u)
      in if tx_offset u = tx_length u
         then (case trace_clock u of None \<Rightarrow> u
               | Some clock \<Rightarrow> (let (us, w) = clock (world u) in u\<lparr>tx_completed_us := us, world := w\<rparr>))
         else u)"

text \<open>The transmitting half of \<open>poll\<close>.\<close>

definition poll_transmit :: "'w uart_backend \<Rightarrow> tick \<Rightarrow> int \<times> backend_event \<times> 'w uart_backend" where
  "poll_transmit u now =
     (let remaining = tx_length u - tx_offset u;
          budget = (if remaining < UART_IO_BUDGET then remaining else UART_IO_BUDGET)
      in case sys_write (count_stat write_calls_update u) (take budget (drop (tx_offset u) (tx u))) of
           (result, u) \<Rightarrow>
             if result > 0 then (0, zero_event, account_sent u now budget (nat result))
             else if result < 0 then (case sys_last_error u of (error, u) \<Rightarrow> io_error u error)
             else (0, zero_event, u))"

text \<open>What the bytes collected so far mean for the operation: an event, or nothing yet.\<close>

definition received_event :: "'w uart_backend \<Rightarrow> backend_event option" where
  "received_event u =
     (if response_policy (ub_operation u) = CORE_RESPONSE_FIXED_LENGTH \<and> rx_length u \<ge> ub_expected_length u
      then Some (uart_event u (if rx_length u = ub_expected_length u then BACKEND_EVENT_RESPONSE
                               else BACKEND_EVENT_MALFORMED) (rx u))
      else if response_policy (ub_operation u) = CORE_RESPONSE_BACKEND_FRAMED then
        let (framed, len) = (case frame_probe u of None \<Rightarrow> (UART_FRAME_INCOMPLETE, None)
                             | Some probe \<Rightarrow> probe (take (tx_length u) (tx u)) (rx u));
            frame_length = (case len of None \<Rightarrow> 0 | Some n \<Rightarrow> n)
        in if framed \<noteq> UART_FRAME_INCOMPLETE
           then Some (uart_event u (if framed = UART_FRAME_COMPLETE \<and> frame_length = rx_length u
                                    then BACKEND_EVENT_RESPONSE else BACKEND_EVENT_MALFORMED) (rx u))
           else None
      else None)"

text \<open>The read of one poll, with its error and its trace.\<close>

definition receive_read ::
  "'w uart_backend \<Rightarrow> tick \<Rightarrow> nat \<Rightarrow> int \<times> int \<times> u8 list \<times> 'w uart_backend"
where
  "receive_read u now budget =
     (let (result, bytes, v) = sys_read (count_stat read_calls_update u) budget;
          (error, v) = read_error v result
      in (result, error, bytes, trace_read v now UART_READ_RESPONSE result error (rx_length u) bytes))"

definition store_bytes :: "'w uart_backend \<Rightarrow> nat \<Rightarrow> nat \<Rightarrow> u8 list \<Rightarrow> 'w uart_backend" where
  "store_bytes u budget k bytes =
     (let u = (if k < budget then count_stat partial_reads_update u else u)
      in u\<lparr>rx := rx u @ take k bytes,
           ub_stats := bytes_read_update (\<lambda>v. add_counter v (of_nat k)) (ub_stats u)\<rparr>)"

text \<open>The receiving half of \<open>poll\<close>.\<close>

definition poll_receive :: "'w uart_backend \<Rightarrow> tick \<Rightarrow> int \<times> backend_event \<times> 'w uart_backend" where
  "poll_receive u now =
     (let remaining = UART_RX_CAPACITY - rx_length u;
          budget = (if remaining < UART_IO_BUDGET then remaining else UART_IO_BUDGET)
      in if budget = 0 then
           (1, uart_event u BACKEND_EVENT_MALFORMED [], count_stat rx_overflows_update u)
         else case receive_read u now budget of (result, error, bytes, u) \<Rightarrow>
           if result > 0 then
             let u = store_bytes u budget (nat result) bytes
             in (case received_event u of None \<Rightarrow> (0, zero_event, u) | Some e \<Rightarrow> (1, e, u))
           else if result < 0 then io_error u error
           else (0, zero_event, u))"

definition uart_poll :: "'w uart_backend \<Rightarrow> tick \<Rightarrow> int \<times> backend_event \<times> 'w uart_backend" where
  "uart_poll u now =
     (if fd u < 0 then (- 1, zero_event, u)
      else if active_generation u = 0 then (0, zero_event, u)
      else if tx_offset u < tx_length u then poll_transmit u now
      else if direction (ub_operation u) = CORE_OPERATION_TX_THEN_RX \<and> \<not> transmit_reported u
      then let u = u\<lparr>transmit_reported := True\<rparr> in (1, uart_event u BACKEND_EVENT_TRANSMITTED [], u)
      else if direction (ub_operation u) = CORE_OPERATION_TX_ONLY
      then (1, uart_event u BACKEND_EVENT_RESPONSE [], u)
      else poll_receive u now)"

text \<open>Forgetting the transaction in progress.\<close>

definition clear_transaction :: "'w uart_backend \<Rightarrow> 'w uart_backend" where
  "clear_transaction u = u\<lparr>tx_length := 0, tx_offset := 0, rx := [], ub_expected_length := 0,
     active_generation := 0, active_transaction_id := 0, transmit_reported := False,
     ub_operation := zero_operation\<rparr>"

definition uart_cancel :: "'w uart_backend \<Rightarrow> u32 \<Rightarrow> 'w uart_backend" where
  "uart_cancel u g = (if active_generation u = g then clear_transaction u else u)"

text \<open>
  The draining loop of \<open>recover\<close>: how much it drained, and whether it met a hard error. Each round
  that goes on has read at least one byte.
\<close>

definition drain_round :: "'w uart_backend \<Rightarrow> tick \<Rightarrow> nat \<Rightarrow> int \<times> int \<times> 'w uart_backend" where
  "drain_round u now drained =
     (let (result, bytes, u) = sys_read u UART_IO_BUDGET;
          (error, u) = read_error u result
      in (result, error, trace_read u now UART_READ_RECOVERY result error drained bytes))"

function drain_loop :: "'w uart_backend \<Rightarrow> tick \<Rightarrow> nat \<Rightarrow> nat \<times> bool \<times> 'w uart_backend" where
  "drain_loop u now drained =
     (if drained < UART_RECOVERY_DRAIN_LIMIT then
        case drain_round u now drained of (result, error, u) \<Rightarrow>
          if result > 0 then drain_loop u now (drained + nat result)
          else if result < 0 then
            if temporary_error error then (drained, False, u)
            else (drained, True, count_stat hard_errors_update u)
          else (drained, False, u)
      else (drained, False, u))"
  by pat_completeness auto
termination
  by (relation "measure (\<lambda>(u, now, drained). UART_RECOVERY_DRAIN_LIMIT - drained)") auto

declare drain_loop.simps [simp del]

definition uart_recover :: "'w uart_backend \<Rightarrow> tick \<Rightarrow> int \<times> 'w uart_backend" where
  "uart_recover u now =
     (if fd u < 0 then (- 1, u)
      else
        let (drained, failed, u) = drain_loop u now 0 in
        if failed then (- 1, u)
        else
          let u = u\<lparr>ub_stats := recovery_drained_update (\<lambda>v. add_counter v (of_nat drained)) (ub_stats u),
                    recovery_sequence := increment (recovery_sequence u)\<rparr> in
          if drained \<ge> UART_RECOVERY_DRAIN_LIMIT then (- 1, u)
          else let (r, u) = sys_tcflush u in
            if r \<noteq> 0 then (- 1, u) else (0, clear_transaction u))"

definition uart_reconfigure :: "'w uart_backend \<Rightarrow> core_port_config \<Rightarrow> tick \<Rightarrow> int \<times> 'w uart_backend" where
  "uart_reconfigure u c now = apply_config u (Some c)"

definition uart_stop :: "'w uart_backend \<Rightarrow> tick \<Rightarrow> int \<times> 'w uart_backend" where
  "uart_stop u now =
     (if fd u < 0 then (0, u)
      else
        let (r1, u) = (if saved_termios_valid u then sys_tcsetattr u (saved_termios u) else (0, u));
            (r2, u) = (if saved_mode_valid u
                       then let (r, mode, u) = sys_ioctl u FOURVRS_MOXA_SET_OP_MODE (saved_mode u)
                            in (r, u\<lparr>saved_mode := mode\<rparr>)
                       else (0, u));
            (r3, u) = (if saved_special_baud_valid u
                       then let (r, special, u) = sys_ioctl u FOURVRS_MOXA_SET_SPECIAL_BAUD_RATE (saved_special_baud u)
                            in (r, u\<lparr>saved_special_baud := special\<rparr>)
                       else (0, u));
            (rc, u) = sys_close u;
            result = (if r1 \<noteq> 0 \<or> r2 \<noteq> 0 \<or> r3 \<noteq> 0 \<or> rc \<noteq> 0 then - 1 else 0)
        in (result, if rc \<noteq> 0 then u
                    else (count_stat uart_closes_update u)\<lparr>fd := - 1, configured := False\<rparr>))"

definition uart_backend_ops :: "'w uart_backend core_backend_ops" where
  "uart_backend_ops = \<lparr>be_open = uart_open, be_start = uart_start, be_poll = uart_poll,
     be_cancel = uart_cancel, be_recover = uart_recover, be_reconfigure = uart_reconfigure,
     be_stop = uart_stop\<rparr>"

definition zero_uart_stats :: uart_backend_stats where
  "zero_uart_stats = \<lparr>bytes_read = 0, bytes_written = 0, short_writes = 0, partial_reads = 0,
     read_calls = 0, write_calls = 0, temporary_errors = 0, hard_errors = 0, rx_overflows = 0,
     recovery_drained = 0, uart_opens = 0, uart_closes = 0\<rparr>"

text \<open>
  \<open>None\<close> for the table of system calls is a null table or one with a null entry. On failure
  nothing is written.
\<close>

definition uart_backend_init ::
  "u32 \<Rightarrow> core_port_config option \<Rightarrow> 'w uart_syscalls option \<Rightarrow> 'w \<Rightarrow> int \<times> 'w uart_backend option"
where
  "uart_backend_init index config syscalls w =
     (if unat index \<ge> UART_PORT_COUNT \<or> uart_config_validate config \<noteq> 0 \<or> syscalls = None then (- 1, None)
      else (0, Some
        \<lparr>ub_port_index = index, device_path = ''/dev/ttyM'' @ [char_of (48 + unat index)],
         fd = - 1, configured = False, ub_config = the config, saved_termios = zero_termios,
         saved_termios_valid = False, saved_mode = 0, saved_mode_valid = False,
         saved_special_baud = 0, saved_special_baud_valid = False, tx = [], tx_length = 0,
         tx_offset = 0, rx = [], ub_expected_length = 0, active_generation = 0,
         active_transaction_id = 0, transmit_reported = False, tx_completed_at = 0,
         tx_completed_us = 0, recovery_sequence = 0, recovery_at_previous_start = 0,
         recovery_since_previous = False, ub_operation = zero_operation, frame_probe = None,
         ub_stats = zero_uart_stats, sys = the syscalls, world = w, trace_enabled = False,
         read_trace = None, trace_clock = None\<rparr>))"

definition uart_backend_set_trace :: "'w uart_backend \<Rightarrow> int \<Rightarrow> 'w uart_backend" where
  "uart_backend_set_trace u enabled = u\<lparr>trace_enabled := (enabled \<noteq> 0)\<rparr>"

definition uart_backend_set_read_trace ::
  "'w uart_backend \<Rightarrow> ('w \<Rightarrow> uart_read_trace_event \<Rightarrow> 'w) option \<Rightarrow> 'w uart_backend" where
  "uart_backend_set_read_trace u trace = u\<lparr>read_trace := trace\<rparr>"

definition uart_backend_set_trace_clock ::
  "'w uart_backend \<Rightarrow> ('w \<Rightarrow> u32 \<times> 'w) option \<Rightarrow> 'w uart_backend" where
  "uart_backend_set_trace_clock u clock = u\<lparr>trace_clock := clock\<rparr>"

definition uart_backend_set_frame_probe ::
  "'w uart_backend \<Rightarrow> uart_frame_probe_fn option \<Rightarrow> 'w uart_backend" where
  "uart_backend_set_frame_probe u probe = u\<lparr>frame_probe := probe\<rparr>"

end
