(* ===== verification/Uart_Properties.thy ===== *)
theory Uart_Properties
  imports Uart_Backend
begin

text \<open>
  What the serial backend guarantees to the port above it and to the device below: the contract
  of a backend, the order of the bytes on the line, the meaning of a response event, the bound of
  a recovery, and the pairing of open and close.
\<close>

section \<open>Well-formedness\<close>

text \<open>The documented bound of \<open>read\<close> and \<open>write\<close>: never more than was asked for.\<close>

definition syscalls_bounded :: "'w uart_syscalls \<Rightarrow> bool" where
  "syscalls_bounded s \<longleftrightarrow>
     (\<forall>w f n. fst (read_fn s w f n) \<le> int n) \<and> (\<forall>w f bs. fst (write_fn s w f bs) \<le> int (length bs))"

definition uart_wf :: "'w uart_backend \<Rightarrow> bool" where
  "uart_wf u \<longleftrightarrow> syscalls_bounded (sys u) \<and> rx_length u \<le> UART_RX_CAPACITY \<and>
     tx_offset u \<le> tx_length u \<and> tx_length u \<le> length (tx u)"

lemma uart_wf_update [simp]:
  "uart_wf (u\<lparr>world := w\<rparr>) = uart_wf u"
  "uart_wf (u\<lparr>fd := f\<rparr>) = uart_wf u"
  "uart_wf (u\<lparr>configured := b\<rparr>) = uart_wf u"
  "uart_wf (u\<lparr>ub_config := c\<rparr>) = uart_wf u"
  "uart_wf (u\<lparr>saved_termios := v\<rparr>) = uart_wf u"
  "uart_wf (u\<lparr>saved_termios_valid := b\<rparr>) = uart_wf u"
  "uart_wf (u\<lparr>saved_mode := m\<rparr>) = uart_wf u"
  "uart_wf (u\<lparr>saved_mode_valid := b\<rparr>) = uart_wf u"
  "uart_wf (u\<lparr>saved_special_baud := m\<rparr>) = uart_wf u"
  "uart_wf (u\<lparr>saved_special_baud_valid := b\<rparr>) = uart_wf u"
  "uart_wf (u\<lparr>transmit_reported := b\<rparr>) = uart_wf u"
  "uart_wf (u\<lparr>tx_completed_at := t\<rparr>) = uart_wf u"
  "uart_wf (u\<lparr>tx_completed_us := us\<rparr>) = uart_wf u"
  "uart_wf (u\<lparr>recovery_sequence := n\<rparr>) = uart_wf u"
  "uart_wf (u\<lparr>ub_operation := oper\<rparr>) = uart_wf u"
  "uart_wf (u\<lparr>ub_stats := s\<rparr>) = uart_wf u"
  by (simp_all add: uart_wf_def)

lemmas sys_defs = sys_open_def sys_close_def sys_read_def sys_write_def sys_ioctl_def sys_tcgetattr_def
  sys_tcsetattr_def sys_tcflush_def sys_last_error_def

lemma uart_wf_sys [simp]:
  "uart_wf (snd (sys_open u)) = uart_wf u" "uart_wf (snd (sys_close u)) = uart_wf u"
  "uart_wf (snd (snd (sys_read u n))) = uart_wf u" "uart_wf (snd (sys_write u bs)) = uart_wf u"
  "uart_wf (snd (snd (sys_ioctl u rq v))) = uart_wf u"
  "uart_wf (snd (snd (sys_tcgetattr u t))) = uart_wf u" "uart_wf (snd (sys_tcsetattr u t)) = uart_wf u"
  "uart_wf (snd (sys_tcflush u)) = uart_wf u" "uart_wf (snd (sys_last_error u)) = uart_wf u"
  "uart_wf (snd (read_error u r)) = uart_wf u" "uart_wf (trace_read u now ph r e n bs) = uart_wf u"
  by (simp_all add: sys_defs read_error_def trace_read_def split_beta Let_def split: option.split)

lemma uart_wf_apply_config [simp]: "uart_wf (snd (apply_config u c)) = uart_wf u"
  by (simp add: apply_config_def split_beta Let_def)

lemma uart_wf_abort [simp]: "uart_wf (snd (abort_open u)) = uart_wf u"
  by (simp add: abort_open_def split_beta Let_def)

lemma uart_wf_open [simp]: "uart_wf (snd (uart_open u now)) = uart_wf u"
  by (simp add: uart_open_def split_beta Let_def)

lemma uart_wf_clear [simp]: "uart_wf u \<Longrightarrow> uart_wf (clear_transaction u)"
  by (simp add: uart_wf_def clear_transaction_def)

lemma uart_wf_start: "uart_wf u \<Longrightarrow> uart_wf (snd (uart_start u t now))"
  by (simp add: uart_start_def Let_def uart_wf_def)

lemma uart_wf_stop: "uart_wf (snd (uart_stop u now)) = uart_wf u"
  by (simp add: uart_stop_def split_beta Let_def)

lemma uart_wf_round [simp]: "uart_wf (snd (snd (drain_round u now n))) = uart_wf u"
  by (simp add: drain_round_def split_beta Let_def)

lemma drain_induct [case_names stop more]:
  assumes stop: "\<And>u n. UART_RECOVERY_DRAIN_LIMIT \<le> n \<or> fst (drain_round u now n) \<le> 0 \<Longrightarrow> P u n"
    and more: "\<And>u n r e u'. n < UART_RECOVERY_DRAIN_LIMIT \<Longrightarrow> drain_round u now n = (r, e, u') \<Longrightarrow> 0 < r \<Longrightarrow>
       drain_loop u now n = drain_loop u' now (n + nat r) \<Longrightarrow> P u' (n + nat r) \<Longrightarrow> P u n"
  shows "P u n"
proof (induction "UART_RECOVERY_DRAIN_LIMIT - n" arbitrary: u n rule: less_induct)
  case less
  obtain r e u' where d: "drain_round u now n = (r, e, u')" by (cases "drain_round u now n") auto
  show ?case
  proof (cases "n < UART_RECOVERY_DRAIN_LIMIT \<and> 0 < r")
    case True
    then have "P u' (n + nat r)" by (intro less) auto
    moreover have "drain_loop u now n = drain_loop u' now (n + nat r)"
      using True d by (subst drain_loop.simps) simp
    ultimately show ?thesis using more [OF _ d] True by blast
  next
    case False
    then show ?thesis using d by (intro stop) auto
  qed
qed

lemma drain_stop:
  assumes "UART_RECOVERY_DRAIN_LIMIT \<le> n \<or> fst (drain_round u now n) \<le> 0"
  shows "drain_loop u now n =
    (if UART_RECOVERY_DRAIN_LIMIT \<le> n then (n, False, u)
     else if fst (drain_round u now n) < 0 \<and> \<not> temporary_error (fst (snd (drain_round u now n)))
     then (n, True, count_stat hard_errors_update (snd (snd (drain_round u now n))))
     else (n, False, snd (snd (drain_round u now n))))"
  using assms by (subst drain_loop.simps) (auto simp: split_beta)

lemma uart_wf_drain [simp]: "uart_wf (snd (snd (drain_loop u now n))) = uart_wf u"
proof (induction u n rule: drain_induct [where now = now])
  case (stop u n)
  then show ?case by (simp add: drain_stop)
next
  case (more u n r e u')
  then show ?case using uart_wf_round [of u now n] by simp
qed

lemma uart_wf_recover: "uart_wf u \<Longrightarrow> uart_wf (snd (uart_recover u now))"
  by (simp add: uart_recover_def split_beta Let_def)

section \<open>Polling\<close>

lemma sys_write_bound:
  "uart_wf u \<Longrightarrow> fst (sys_write u bs) \<le> int (length bs)"
  by (simp add: sys_write_def uart_wf_def syscalls_bounded_def split_beta)

lemma sys_read_bound:
  "uart_wf u \<Longrightarrow> fst (sys_read u n) \<le> int n"
  by (simp add: sys_read_def uart_wf_def syscalls_bounded_def split_beta)

text \<open>A system call or a trace changes the world only.\<close>

lemma sys_write_keep: "sys_write u bs = (r, u') \<Longrightarrow> \<exists>w. u' = u\<lparr>world := w\<rparr>"
  by (auto simp: sys_write_def split: prod.splits)

lemma sys_read_keep: "sys_read u n = (r, bs, u') \<Longrightarrow> \<exists>w. u' = u\<lparr>world := w\<rparr>"
  by (auto simp: sys_read_def split: prod.splits)

lemma sys_last_error_keep: "sys_last_error u = (r, u') \<Longrightarrow> \<exists>w. u' = u\<lparr>world := w\<rparr>"
  by (auto simp: sys_last_error_def split: prod.splits)

lemma read_error_keep: "read_error u r = (e, u') \<Longrightarrow> \<exists>w. u' = u\<lparr>world := w\<rparr>"
proof (cases "r < 0")
  case False
  then show "read_error u r = (e, u') \<Longrightarrow> \<exists>w. u' = u\<lparr>world := w\<rparr>"
    by (intro exI [of _ "world u"]) (simp add: read_error_def)
qed (simp add: read_error_def sys_last_error_keep)

lemma trace_read_keep: "\<exists>w. trace_read u now ph r e n bs = u\<lparr>world := w\<rparr>"
proof (cases "read_trace u")
  case None
  then show ?thesis by (intro exI [of _ "world u"]) (simp add: trace_read_def)
next
  case (Some f)
  then show ?thesis by (auto simp: trace_read_def Let_def split_beta)
qed

lemma receive_read_keep:
  "receive_read u now b = (k, err, bytes, u') \<Longrightarrow> \<exists>s w. u' = u\<lparr>ub_stats := s, world := w\<rparr>"
proof -
  assume a: "receive_read u now b = (k, err, bytes, u')"
  let ?u = "count_stat read_calls_update u"
  obtain k' bs u1 where r1: "sys_read ?u b = (k', bs, u1)" by (cases "sys_read ?u b") auto
  obtain err' u2 where r2: "read_error u1 k' = (err', u2)" by (cases "read_error u1 k'")
  obtain w1 where u1: "u1 = ?u\<lparr>world := w1\<rparr>" using sys_read_keep [OF r1] by blast
  obtain w2 where u2: "u2 = u1\<lparr>world := w2\<rparr>" using read_error_keep [OF r2] by blast
  obtain w3 where "u' = u2\<lparr>world := w3\<rparr>"
    using a trace_read_keep [of u2 now UART_READ_RESPONSE k err "rx_length u" bytes]
    by (auto simp: receive_read_def r1 r2)
  then show ?thesis by (intro exI [of _ "ub_stats ?u"] exI [of _ w3]) (simp add: u1 u2)
qed

lemma receive_read_bound: "uart_wf u \<Longrightarrow> fst (receive_read u now b) \<le> int b"
  using sys_read_bound [of "count_stat read_calls_update u" b]
  by (simp add: receive_read_def split_beta Let_def)

lemma store_bytes_keep: "\<exists>s. store_bytes u b k bytes = u\<lparr>ub_stats := s, rx := rx u @ take k bytes\<rparr>"
  by (rule exI [of _ "ub_stats (store_bytes u b k bytes)"]) (simp add: store_bytes_def Let_def)

lemma account_sent_keep:
  "\<exists>s w c us. account_sent u now b k = u\<lparr>ub_stats := s, world := w, tx_offset := tx_offset u + k,
      tx_completed_at := c, tx_completed_us := us\<rparr> \<and> (trace_clock u = None \<longrightarrow> w = world u)"
proof -
  let ?s = "ub_stats (account_sent u now b k)" and ?w = "world (account_sent u now b k)"
  have "account_sent u now b k = u\<lparr>ub_stats := ?s, world := ?w, tx_offset := tx_offset u + k,
      tx_completed_at := tx_completed_at (account_sent u now b k),
      tx_completed_us := tx_completed_us (account_sent u now b k)\<rparr>"
    by (simp add: account_sent_def Let_def split_beta split: option.split)
  moreover have "trace_clock u = None \<longrightarrow> ?w = world u"
    by (simp add: account_sent_def Let_def)
  ultimately show ?thesis by (intro exI conjI) assumption+
qed

lemma io_error_cases:
  assumes "io_error u err = (r, e, u')"
  shows "\<exists>s. u' = u\<lparr>ub_stats := s\<rparr>"
    "r = 0 \<and> e = zero_event \<or> ev_type e = BACKEND_EVENT_FAILURE \<and> ev_data e = [] \<and> ev_generation e = active_generation u"
  using assms by (auto simp: io_error_def uart_event_def split: if_splits)

text \<open>One receiving poll: the world moves on, counters apart, and the bytes read are appended.\<close>

lemma poll_receive_cases:
  assumes "poll_receive u now = (r, e, u')"
  obtains (quiet) s w where "u' = u\<lparr>ub_stats := s, world := w\<rparr>"
      "r = 0 \<and> e = zero_event \<or>
       (ev_type e = BACKEND_EVENT_FAILURE \<or> ev_type e = BACKEND_EVENT_MALFORMED) \<and> ev_data e = [] \<and>
       ev_generation e = active_generation u"
  | (data) k b err bytes v s where
      "receive_read u now b = (int k, err, bytes, v)" "b \<le> UART_RX_CAPACITY - rx_length u"
      "u' = v\<lparr>ub_stats := s, rx := rx v @ take k bytes\<rparr>"
      "(r, e) = (case received_event u' of None \<Rightarrow> (0, zero_event) | Some e \<Rightarrow> (1, e))"
proof -
  let ?b = "if UART_RX_CAPACITY - rx_length u < UART_IO_BUDGET then UART_RX_CAPACITY - rx_length u else UART_IO_BUDGET"
  obtain k err bytes v where rd: "receive_read u now ?b = (k, err, bytes, v)" by (cases "receive_read u now ?b") auto
  obtain s w where v: "v = u\<lparr>ub_stats := s, world := w\<rparr>" using receive_read_keep [OF rd] by blast
  show ?thesis
  proof (cases "?b = 0")
    case True
    then have eq: "u' = u\<lparr>ub_stats := rx_overflows_update increment (ub_stats u), world := world u\<rparr>"
      and m: "ev_type e = BACKEND_EVENT_MALFORMED" "ev_data e = []" "ev_generation e = active_generation u"
      using assms unfolding poll_receive_def Let_def by (auto simp: uart_event_def)
    show ?thesis by (rule quiet [OF eq]) (use m in simp)
  next
    case False
    then have p: "poll_receive u now =
       (if k > 0 then
          let u = store_bytes v ?b (nat k) bytes
          in (case received_event u of None \<Rightarrow> (0, zero_event, u) | Some e \<Rightarrow> (1, e, u))
        else if k < 0 then io_error v err else (0, zero_event, v))"
      unfolding poll_receive_def Let_def by (simp only: rd if_False prod.case)
    consider "k > 0" | "k < 0" | "k = 0" by linarith
    then show ?thesis
    proof cases
      case 1
      obtain s' where st: "store_bytes v ?b (nat k) bytes = v\<lparr>ub_stats := s', rx := rx v @ take (nat k) bytes\<rparr>"
        using store_bytes_keep [of v] by blast
      then have "u' = v\<lparr>ub_stats := s', rx := rx v @ take (nat k) bytes\<rparr>"
          "(r, e) = (case received_event u' of None \<Rightarrow> (0, zero_event) | Some e \<Rightarrow> (1, e))"
        using assms 1 unfolding p st Let_def by (auto split: option.splits)
      then show ?thesis using rd 1 by (intro data [of ?b "nat k"]) auto
    next
      case 2
      then have "io_error v err = (r, e, u')" using assms unfolding p by simp
      note c = io_error_cases [OF this]
      obtain s' where "u' = v\<lparr>ub_stats := s'\<rparr>" using c(1) by blast
      then have eq: "u' = u\<lparr>ub_stats := s', world := w\<rparr>" by (simp add: v)
      show ?thesis by (rule quiet [OF eq]) (use c(2) v in auto)
    next
      case 3
      then show ?thesis using assms unfolding p by (intro quiet) (auto simp: v)
    qed
  qed
qed

text \<open>One transmitting poll.\<close>

lemma poll_transmit_cases:
  assumes "poll_transmit u now = (r, e, u')"
  obtains b k v where "b \<le> tx_length u - tx_offset u"
      "sys_write (count_stat write_calls_update u) (take b (drop (tx_offset u) (tx u))) = (k, v)"
      "k > 0 \<Longrightarrow> r = 0 \<and> e = zero_event \<and> u' = account_sent v now b (nat k)"
      "k \<le> 0 \<Longrightarrow> (\<exists>s w. u' = v\<lparr>ub_stats := s, world := w\<rparr> \<and> (w = world v \<or> w = world (snd (sys_last_error v)))) \<and>
         (r = 0 \<and> e = zero_event \<or>
          ev_type e = BACKEND_EVENT_FAILURE \<and> ev_data e = [] \<and> ev_generation e = active_generation u)"
proof -
  let ?b = "if tx_length u - tx_offset u < UART_IO_BUDGET then tx_length u - tx_offset u else UART_IO_BUDGET"
  let ?bs = "take ?b (drop (tx_offset u) (tx u))"
  obtain k v where w: "sys_write (count_stat write_calls_update u) ?bs = (k, v)"
    by (cases "sys_write (count_stat write_calls_update u) ?bs")
  obtain wd where v: "v = (count_stat write_calls_update u)\<lparr>world := wd\<rparr>" using sys_write_keep [OF w] by blast
  have p: "poll_transmit u now =
      (if k > 0 then (0, zero_event, account_sent v now ?b (nat k))
       else if k < 0 then (case sys_last_error v of (error, u) \<Rightarrow> io_error u error) else (0, zero_event, v))"
    unfolding poll_transmit_def Let_def by (simp only: w prod.case)
  have neg: "(\<exists>s w. u' = v\<lparr>ub_stats := s, world := w\<rparr> \<and> (w = world v \<or> w = world (snd (sys_last_error v)))) \<and>
         (r = 0 \<and> e = zero_event \<or>
          ev_type e = BACKEND_EVENT_FAILURE \<and> ev_data e = [] \<and> ev_generation e = active_generation u)" if "k \<le> 0"
  proof (cases "k < 0")
    case True
    obtain err v2 where l: "sys_last_error v = (err, v2)" by (cases "sys_last_error v")
    obtain w2 where v2: "v2 = v\<lparr>world := w2\<rparr>" using sys_last_error_keep [OF l] by blast
    have io: "io_error v2 err = (r, e, u')" using assms True that unfolding p by (simp add: l)
    obtain s where "u' = v2\<lparr>ub_stats := s\<rparr>" using io_error_cases(1) [OF io] by blast
    then have "u' = v\<lparr>ub_stats := s, world := w2\<rparr> \<and> w2 = world (snd (sys_last_error v))" using l v2 by simp
    then show ?thesis using io_error_cases(2) [OF io] v v2 by auto
  next
    case False
    then have "u' = v\<lparr>ub_stats := ub_stats v, world := world v\<rparr>" "r = 0" "e = zero_event"
      using assms that unfolding p by auto
    then show ?thesis by blast
  qed
  show ?thesis
    by (rule that [OF _ w _ neg]) (use assms in \<open>auto simp: p\<close>)
qed

section \<open>The contract of a backend\<close>

lemma uart_wf_transmit:
  assumes "uart_wf u" "tx_offset u < tx_length u" "poll_transmit u now = (r, e, u')"
  shows "uart_wf u' \<and> ev_data e = []"
  using assms(3)
proof (cases rule: poll_transmit_cases)
  case (1 b k v)
  obtain w where v: "v = (count_stat write_calls_update u)\<lparr>world := w\<rparr>" using sys_write_keep [OF 1(2)] by blast
  then have wf: "uart_wf v" using assms(1) by simp
  show ?thesis
  proof (cases "k > 0")
    case True
    have "k \<le> int (length (take b (drop (tx_offset u) (tx u))))"
      using sys_write_bound [of "count_stat write_calls_update u"] 1(2) assms(1) by (metis fst_conv uart_wf_update(16))
    then have "nat k \<le> b" by simp
    then have "tx_offset u + nat k \<le> tx_length u" using 1(1) assms(2) by linarith
    moreover obtain s w' c us where "account_sent v now b (nat k) = v\<lparr>ub_stats := s, world := w',
        tx_offset := tx_offset v + nat k, tx_completed_at := c, tx_completed_us := us\<rparr>"
      using account_sent_keep [of v] by blast
    ultimately show ?thesis using wf v 1(3) True by (simp add: uart_wf_def zero_event_def)
  next
    case False
    then show ?thesis using 1(4) wf by (auto simp: zero_event_def)
  qed
qed

lemma received_event_data:
  "received_event u = Some e \<Longrightarrow> ev_data e = rx u \<and> ev_generation e = active_generation u"
  by (auto simp: received_event_def uart_event_def Let_def split: if_splits prod.splits)

lemma uart_wf_receive:
  assumes "uart_wf u" "poll_receive u now = (r, e, u')"
  shows "uart_wf u' \<and> length (ev_data e) \<le> UART_RX_CAPACITY"
  using assms(2)
proof (cases rule: poll_receive_cases)
  case (quiet s w)
  then show ?thesis using assms(1) by (auto simp: zero_event_def)
next
  case (data k b err bytes v s)
  obtain s' w where v: "v = u\<lparr>ub_stats := s', world := w\<rparr>" using receive_read_keep [OF data(1)] by blast
  have "int k \<le> int b" using receive_read_bound [OF assms(1), of now b] data(1) by simp
  then have len: "length (rx u @ take k bytes) \<le> UART_RX_CAPACITY"
    using data(2) assms(1) by (simp add: uart_wf_def) linarith
  then have wf: "uart_wf u'" using data(3) v assms(1) by (simp add: uart_wf_def)
  show ?thesis
  proof (cases "received_event u'")
    case None
    then show ?thesis using wf data(4) by (simp add: zero_event_def)
  next
    case (Some e')
    then show ?thesis using wf data(3,4) v len received_event_data [OF Some] by simp
  qed
qed

text \<open>The four things a poll can be.\<close>

lemma uart_poll_cases:
  assumes "uart_poll u now = (r, e, u')"
  obtains (nothing) "r \<le> 0" "e = zero_event" "u' = u"
  | (transmit) "0 \<le> fd u" "tx_offset u < tx_length u" "poll_transmit u now = (r, e, u')"
  | (report) "tx_length u \<le> tx_offset u" "direction (ub_operation u) = CORE_OPERATION_TX_THEN_RX"
      "e = uart_event u BACKEND_EVENT_TRANSMITTED []" "u' = u\<lparr>transmit_reported := True\<rparr>"
  | (sent) "tx_length u \<le> tx_offset u" "direction (ub_operation u) = CORE_OPERATION_TX_ONLY"
      "e = uart_event u BACKEND_EVENT_RESPONSE []" "u' = u"
  | (receive) "0 \<le> fd u" "tx_length u \<le> tx_offset u" "direction (ub_operation u) \<noteq> CORE_OPERATION_TX_ONLY"
      "poll_receive u now = (r, e, u')"
proof -
  consider "fd u < 0" | "0 \<le> fd u" "active_generation u = 0"
    | "0 \<le> fd u" "active_generation u \<noteq> 0" "tx_offset u < tx_length u"
    | "0 \<le> fd u" "active_generation u \<noteq> 0" "\<not> tx_offset u < tx_length u"
        "direction (ub_operation u) = CORE_OPERATION_TX_THEN_RX" "\<not> transmit_reported u"
    | "0 \<le> fd u" "active_generation u \<noteq> 0" "\<not> tx_offset u < tx_length u"
        "\<not> (direction (ub_operation u) = CORE_OPERATION_TX_THEN_RX \<and> \<not> transmit_reported u)"
    by linarith
  then show ?thesis
  proof cases
    case 5
    show ?thesis
    proof (cases "direction (ub_operation u) = CORE_OPERATION_TX_ONLY")
      case True
      then show ?thesis using 5 assms by (intro sent) (auto simp: uart_poll_def uart_event_def)
    next
      case False
      then show ?thesis using 5 assms by (intro receive) (auto simp: uart_poll_def)
    qed
  next
    case 4
    then show ?thesis using assms by (intro report) (simp_all add: uart_poll_def uart_event_def Let_def)
  next
    case 3
    then show ?thesis using assms by (intro transmit) (simp_all add: uart_poll_def)
  next
    case 2
    show ?thesis by (rule nothing) (use 2 assms in \<open>auto simp: uart_poll_def\<close>)
  next
    case 1
    show ?thesis by (rule nothing) (use 1 assms in \<open>auto simp: uart_poll_def\<close>)
  qed
qed

lemma uart_wf_poll:
  assumes "uart_wf u" "uart_poll u now = (r, e, u')"
  shows "uart_wf u' \<and> length (ev_data e) \<le> UART_RX_CAPACITY"
  using assms(2)
proof (cases rule: uart_poll_cases)
  case transmit
  then show ?thesis using uart_wf_transmit [OF assms(1)] by simp
next
  case receive
  then show ?thesis using uart_wf_receive [OF assms(1)] by simp
qed (use assms(1) in \<open>simp_all add: uart_event_def zero_event_def\<close>)

text \<open>The serial backend honours the contract of a backend.\<close>

interpretation uart: backend_contract uart_backend_ops uart_wf
proof unfold_locales
  fix b b' :: "'w uart_backend" and now :: tick and r e t g c
  assume w: "uart_wf b"
  show "uart_wf b'" if "be_open uart_backend_ops b now = (r, b')"
  proof -
    have "b' = snd (uart_open b now)" using that by (simp add: uart_backend_ops_def)
    then show ?thesis using w by simp
  qed
  show "uart_wf b'" if "be_start uart_backend_ops b t now = (r, b')"
    using uart_wf_start [OF w, of t now] that by (simp add: uart_backend_ops_def)
  show "uart_wf b'" if "be_poll uart_backend_ops b now = (r, e, b')"
    using uart_wf_poll [OF w] that by (simp add: uart_backend_ops_def)
  show "length (ev_data e) \<le> CORE_TRANSACTION_PAYLOAD_MAX" if "be_poll uart_backend_ops b now = (r, e, b')"
    using uart_wf_poll [OF w] that by (simp add: uart_backend_ops_def)
  show "uart_wf (be_cancel uart_backend_ops b g)"
    using w by (simp add: uart_backend_ops_def uart_cancel_def)
  show "uart_wf b'" if "be_recover uart_backend_ops b now = (r, b')"
    using uart_wf_recover [OF w, of now] that by (simp add: uart_backend_ops_def)
  show "uart_wf b'" if "be_reconfigure uart_backend_ops b c now = (r, b')"
  proof -
    have "b' = snd (apply_config b (Some c))" using that by (simp add: uart_backend_ops_def uart_reconfigure_def)
    then show ?thesis using w by simp
  qed
  show "uart_wf b'" if "be_stop uart_backend_ops b now = (r, b')"
    using w uart_wf_stop [of b now] that by (simp add: uart_backend_ops_def)
qed

section \<open>What a response event means\<close>

text \<open>The answer the operation asked for: nothing, so many bytes, or a frame the probe accepts.\<close>

definition answers_operation :: "'w uart_backend \<Rightarrow> u8 list \<Rightarrow> bool" where
  "answers_operation u bytes \<longleftrightarrow>
     (if direction (ub_operation u) = CORE_OPERATION_TX_ONLY then bytes = []
      else if response_policy (ub_operation u) = CORE_RESPONSE_FIXED_LENGTH
      then length bytes = ub_expected_length u
      else response_policy (ub_operation u) = CORE_RESPONSE_BACKEND_FRAMED \<and>
           (\<exists>probe l. frame_probe u = Some probe \<and>
              probe (take (tx_length u) (tx u)) bytes = (UART_FRAME_COMPLETE, l) \<and>
              (case l of None \<Rightarrow> 0 | Some n \<Rightarrow> n) = length bytes))"

lemma received_response:
  assumes "received_event u = Some e" "ev_type e = BACKEND_EVENT_RESPONSE"
    "direction (ub_operation u) \<noteq> CORE_OPERATION_TX_ONLY"
  shows "answers_operation u (ev_data e)"
  using assms
  by (auto simp: received_event_def uart_event_def answers_operation_def Let_def
      split: if_splits prod.splits option.splits)

lemma receive_response:
  assumes "poll_receive u now = (r, e, u')" "ev_type e = BACKEND_EVENT_RESPONSE"
    "direction (ub_operation u) \<noteq> CORE_OPERATION_TX_ONLY"
  shows "ev_generation e = active_generation u \<and> answers_operation u (ev_data e)"
  using assms(1)
proof (cases rule: poll_receive_cases)
  case (quiet s w)
  then show ?thesis using assms(2) by (auto simp: zero_event_def)
next
  case (data k b err bytes v s)
  obtain s' w where v: "v = u\<lparr>ub_stats := s', world := w\<rparr>" using receive_read_keep [OF data(1)] by blast
  then have e: "received_event u' = Some e" using data(4) assms(2) by (auto simp: zero_event_def split: option.splits)
  have same: "active_generation u' = active_generation u" "ub_operation u' = ub_operation u"
    "answers_operation u' = answers_operation u"
    unfolding data(3) v answers_operation_def by simp_all
  show ?thesis using received_response [OF e assms(2)] received_event_data [OF e] same assms(3) by simp
qed

lemma transmit_no_response:
  assumes "poll_transmit u now = (r, e, u')"
  shows "ev_type e \<noteq> BACKEND_EVENT_RESPONSE"
  using assms
proof (cases rule: poll_transmit_cases)
  case (1 b k v)
  then show ?thesis by (cases "k > 0") (auto simp: zero_event_def)
qed

lemma response_after_request:
  assumes "uart_poll u now = (r, e, u')" "ev_type e = BACKEND_EVENT_RESPONSE"
  shows "tx_length u \<le> tx_offset u"
  using assms(1)
proof (cases rule: uart_poll_cases)
  case transmit
  then show ?thesis using transmit_no_response assms(2) by blast
qed (use assms(2) in \<open>auto simp: zero_event_def\<close>)

text \<open>
  A response event is what it says: when a poll of the serial backend reports a response, the
  whole request has been written, the event carries the generation of the transaction in
  progress, and its bytes answer the operation: none for a transmit-only one, exactly the
  expected number for a fixed-length one, a frame the probe accepted in full for a framed one.
\<close>

theorem uart_response_answers_operation:
  assumes "uart_poll u now = (r, e, u')" "ev_type e = BACKEND_EVENT_RESPONSE"
  shows "tx_length u \<le> tx_offset u \<and> ev_generation e = active_generation u \<and> answers_operation u (ev_data e)"
  using assms(1)
proof (cases rule: uart_poll_cases)
  case transmit
  then show ?thesis using transmit_no_response assms(2) by blast
next
  case receive
  then show ?thesis using receive_response [OF receive(4) assms(2)] by simp
qed (use assms(2) in \<open>auto simp: zero_event_def uart_event_def answers_operation_def\<close>)

section \<open>The order of the bytes on the line\<close>

text \<open>
  A tape beside the world: the system calls of a table, with the bytes each \<open>write\<close> accepted
  recorded at the end of the tape.
\<close>

definition taped :: "'w uart_syscalls \<Rightarrow> ('w \<times> u8 list) uart_syscalls" where
  "taped s =
     \<lparr>open_fn = (\<lambda>(w, tape) path flags. let (r, w) = open_fn s w path flags in (r, w, tape)),
      close_fn = (\<lambda>(w, tape) f. let (r, w) = close_fn s w f in (r, w, tape)),
      read_fn = (\<lambda>(w, tape) f n. let (r, bs, w) = read_fn s w f n in (r, bs, w, tape)),
      write_fn = (\<lambda>(w, tape) f bs. let (r, w) = write_fn s w f bs in (r, w, tape @ take (nat r) bs)),
      ioctl_fn = (\<lambda>(w, tape) f rq v. let (r, v, w) = ioctl_fn s w f rq v in (r, v, w, tape)),
      tcgetattr_fn = (\<lambda>(w, tape) f v. let (r, v, w) = tcgetattr_fn s w f v in (r, v, w, tape)),
      tcsetattr_fn = (\<lambda>(w, tape) f act v. let (r, w) = tcsetattr_fn s w f act v in (r, w, tape)),
      tcflush_fn = (\<lambda>(w, tape) f sel. let (r, w) = tcflush_fn s w f sel in (r, w, tape)),
      last_error_fn = (\<lambda>(w, tape). let (r, w) = last_error_fn s w in (r, w, tape))\<rparr>"

lemma taped_bounded: "syscalls_bounded (taped s) \<longleftrightarrow> syscalls_bounded s"
  by (auto simp: syscalls_bounded_def taped_def split_beta Let_def)

definition on_tape :: "'w uart_syscalls \<Rightarrow> u8 list \<Rightarrow> ('w \<times> u8 list) uart_backend \<Rightarrow> bool" where
  "on_tape s old u \<longleftrightarrow> sys u = taped s \<and> uart_wf u \<and> read_trace u = None \<and> trace_clock u = None \<and>
     snd (world u) = old @ take (tx_offset u) (tx u)"

lemma taped_write:
  "sys u = taped s \<Longrightarrow> sys_write u bs = (k, v) \<Longrightarrow>
   v = u\<lparr>world := (fst (world v), snd (world u) @ take (nat k) bs)\<rparr>"
  by (auto simp: sys_write_def taped_def split_beta Let_def)

lemma taped_error:
  "sys u = taped s \<Longrightarrow> snd (world (snd (sys_last_error u))) = snd (world u)"
  by (simp add: sys_last_error_def taped_def split_beta Let_def)

lemma taped_receive:
  "sys u = taped s \<Longrightarrow> read_trace u = None \<Longrightarrow> receive_read u now b = (k, err, bytes, v) \<Longrightarrow>
   snd (world v) = snd (world u)"
  by (auto simp: receive_read_def read_error_def trace_read_def sys_read_def sys_last_error_def taped_def
      split_beta Let_def split: if_splits)

lemma take_more: "o' + k \<le> length xs \<Longrightarrow> k \<le> b \<Longrightarrow> take o' xs @ take k (take b (drop o' xs)) = take (o' + k) xs"
  by (simp add: take_add min_def)

lemma on_tape_transmit:
  assumes "on_tape s old u" "tx_offset u < tx_length u" "poll_transmit u now = (r, e, u')"
  shows "on_tape s old u' \<and> tx u' = tx u \<and> tx_length u' = tx_length u"
proof -
  have wf: "uart_wf u'" using uart_wf_transmit [OF _ assms(2,3)] assms(1) by (simp add: on_tape_def)
  have s: "sys u = taped s" "trace_clock u = None" "read_trace u = None" using assms(1) by (simp_all add: on_tape_def)
  from assms(3) show ?thesis
  proof (cases rule: poll_transmit_cases)
    case (1 b k v)
    let ?bs = "take b (drop (tx_offset u) (tx u))"
    have v: "v = (count_stat write_calls_update u)\<lparr>world := (fst (world v), snd (world u) @ take (nat k) ?bs)\<rparr>"
      using taped_write [OF _ 1(2), of s] s by simp
    have keep: "tx v = tx u" "tx_offset v = tx_offset u" "tx_length v = tx_length u" "sys v = taped s"
      "trace_clock v = None" "read_trace v = None" "snd (world v) = snd (world u) @ take (nat k) ?bs"
      using s by (subst v, simp)+
    show ?thesis
    proof (cases "k > 0")
      case True
      obtain st w c us where a: "u' = v\<lparr>ub_stats := st, world := w, tx_offset := tx_offset v + nat k,
          tx_completed_at := c, tx_completed_us := us\<rparr>" "w = world v"
        using account_sent_keep [of v now b "nat k"] 1(3) True keep(5) by auto
      have "tx_offset u + nat k \<le> length (tx u)" using wf a(1) keep by (simp add: uart_wf_def)
      moreover have "nat k \<le> b"
      proof -
        have "k \<le> int (length ?bs)"
          using sys_write_bound [of "count_stat write_calls_update u" ?bs] 1(2) assms(1) by (simp add: on_tape_def)
        then show ?thesis by simp
      qed
      ultimately have "snd (world u') = old @ take (tx_offset u') (tx u')"
        using assms(1) a keep take_more [of "tx_offset u" "nat k" "tx u" b] by (simp add: on_tape_def)
      then show ?thesis using wf a(1) keep by (simp add: on_tape_def)
    next
      case False
      then obtain st w where a: "u' = v\<lparr>ub_stats := st, world := w\<rparr>" "w = world v \<or> w = world (snd (sys_last_error v))"
        using 1(4) by auto
      then have "snd w = snd (world v)" using taped_error [OF keep(4)] by auto
      then show ?thesis using wf a(1) keep False assms(1) by (simp add: on_tape_def)
    qed
  qed
qed

lemma on_tape_receive:
  assumes "on_tape s old u" "poll_receive u now = (r, e, u')"
  shows "on_tape s old u' \<and> tx u' = tx u \<and> tx_length u' = tx_length u"
proof -
  have wf: "uart_wf u'" using uart_wf_receive [OF _ assms(2)] assms(1) by (simp add: on_tape_def)
  from assms(2) have keep: "tx u' = tx u \<and> tx_offset u' = tx_offset u \<and> tx_length u' = tx_length u \<and> sys u' = sys u \<and>
      read_trace u' = read_trace u \<and> trace_clock u' = trace_clock u \<and> snd (world u') = snd (world u)"
  proof (cases rule: poll_receive_cases)
    case (data k b err bytes v st)
    obtain s' w where v: "v = u\<lparr>ub_stats := s', world := w\<rparr>" using receive_read_keep [OF data(1)] by blast
    have "snd (world v) = snd (world u)" using taped_receive [OF _ _ data(1)] assms(1) by (auto simp: on_tape_def)
    then show ?thesis unfolding data(3) by (simp add: v)
  next
    case (quiet st w)
    have "snd (world (snd (snd (poll_receive u now)))) = snd (world u)"
    proof -
      have e: "snd (world (snd (sys_last_error x))) = snd (world x)" if "sys x = taped s" for x :: "('a \<times> u8 list) uart_backend"
        using taped_error that by blast
      obtain k err bytes v where rd: "receive_read u now (if UART_RX_CAPACITY - rx_length u < UART_IO_BUDGET
          then UART_RX_CAPACITY - rx_length u else UART_IO_BUDGET) = (k, err, bytes, v)"
        by (cases "receive_read u now (if UART_RX_CAPACITY - rx_length u < UART_IO_BUDGET
          then UART_RX_CAPACITY - rx_length u else UART_IO_BUDGET)") auto
      have "snd (world v) = snd (world u)" using taped_receive [OF _ _ rd] assms(1) by (auto simp: on_tape_def)
      then show ?thesis unfolding poll_receive_def Let_def rd
        by (auto simp: store_bytes_def io_error_def Let_def split: option.split)
    qed
    then show ?thesis using quiet(1) assms(2) by simp
  qed
  then show ?thesis using wf assms(1) by (simp add: on_tape_def)
qed

lemma on_tape_poll:
  assumes "on_tape s old u" "uart_poll u now = (r, e, u')"
  shows "on_tape s old u' \<and> tx u' = tx u \<and> tx_length u' = tx_length u"
  using assms(2)
proof (cases rule: uart_poll_cases)
  case transmit
  then show ?thesis using on_tape_transmit [OF assms(1)] by blast
next
  case receive
  then show ?thesis using on_tape_receive [OF assms(1)] by blast
qed (use assms(1) in \<open>auto simp: on_tape_def\<close>)

definition uart_polls :: "'w uart_backend \<Rightarrow> tick list \<Rightarrow> 'w uart_backend" where
  "uart_polls u ts = foldl (\<lambda>u now. snd (snd (uart_poll u now))) u ts"

lemma on_tape_polls:
  "on_tape s old u \<Longrightarrow> on_tape s old (uart_polls u ts) \<and> tx (uart_polls u ts) = tx u \<and> tx_length (uart_polls u ts) = tx_length u"
proof (induction ts rule: rev_induct)
  case (snoc now ts)
  obtain r e u' where "uart_poll (uart_polls u ts) now = (r, e, u')" by (cases "uart_poll (uart_polls u ts) now") auto
  then show ?case using on_tape_poll [of s old "uart_polls u ts" now r e u'] snoc by (simp add: uart_polls_def)
qed (simp add: uart_polls_def)

lemma on_tape_start:
  assumes "uart_start u t now = (0, u0)" "uart_wf u" "sys u = taped s" "read_trace u = None" "trace_clock u = None"
  shows "on_tape s (snd (world u)) u0 \<and> tx u0 = payload t \<and>
     tx_length u0 = (if direction (tx_operation t) = CORE_OPERATION_RX_ONLY then 0 else payload_length t)"
proof -
  have "uart_wf u0" using uart_wf_start [OF assms(2), of t now] assms(1) by simp
  then show ?thesis using assms by (auto simp: uart_start_def on_tape_def Let_def split: if_splits)
qed

text \<open>
  The request goes out once and in order: after a start and any number of polls, with whatever
  short writes and errors the device produces, the bytes the device has accepted since the start
  are the first \<open>tx_offset\<close> bytes of the payload; and when a poll then reports a response, they are the
  whole payload.
\<close>

theorem uart_transmits_in_order:
  assumes "uart_wf u" "sys u = taped s" "read_trace u = None" "trace_clock u = None"
    "uart_start u t now = (0, u0)"
  shows "let u' = uart_polls u0 ts
         in snd (world u') = snd (world u) @ take (tx_offset u') (payload t) \<and>
            tx_offset u' \<le> length (payload t) \<and>
            (ev_type (fst (snd (uart_poll u' later))) = BACKEND_EVENT_RESPONSE \<and>
             direction (tx_operation t) \<noteq> CORE_OPERATION_RX_ONLY \<longrightarrow>
             snd (world u') = snd (world u) @ payload t)"
proof -
  let ?u = "uart_polls u0 ts"
  have st: "on_tape s (snd (world u)) ?u \<and> tx ?u = payload t \<and>
      tx_length ?u = (if direction (tx_operation t) = CORE_OPERATION_RX_ONLY then 0 else payload_length t)"
    using on_tape_start [OF assms(5,1-4)] on_tape_polls [of s "snd (world u)" u0 ts] by simp
  obtain r e u2 where p: "uart_poll ?u later = (r, e, u2)" by (cases "uart_poll ?u later") auto
  have "tx_length ?u \<le> tx_offset ?u" if "ev_type e = BACKEND_EVENT_RESPONSE"
    using response_after_request [OF p that] .
  then show ?thesis using st p by (auto simp: Let_def on_tape_def uart_wf_def)
qed

section \<open>A scripted device\<close>

text \<open>
  A device for the witnesses: it accepts at most three bytes per write, answers reads with the
  scripted chunks and with EAGAIN when there are none left, and remembers the operation mode.
\<close>

definition scripted :: "(u32 \<times> u8 list list) uart_syscalls" where
  "scripted =
     \<lparr>open_fn = (\<lambda>w path flags. (3, w)), close_fn = (\<lambda>w f. (0, w)),
      read_fn = (\<lambda>w f n. case snd w of [] \<Rightarrow> (- 1, [], w)
        | c # cs \<Rightarrow> if length c \<le> n then (int (length c), c, fst w, cs) else (0, [], w)),
      write_fn = (\<lambda>w f bs. (int (min 3 (length bs)), w)),
      ioctl_fn = (\<lambda>w f rq v. if rq = FOURVRS_MOXA_SET_OP_MODE then (0, v, v, snd w)
        else if rq = FOURVRS_MOXA_GET_OP_MODE then (0, fst w, w) else (0, v, w)),
      tcgetattr_fn = (\<lambda>w f v. (0, v, w)), tcsetattr_fn = (\<lambda>w f act v. (0, w)),
      tcflush_fn = (\<lambda>w f sel. (0, w)), last_error_fn = (\<lambda>w. (EAGAIN, w))\<rparr>"

lemma scripted_bounded: "syscalls_bounded scripted"
  by (auto simp: syscalls_bounded_def scripted_def split: list.split)

text \<open>A fixed-length exchange: four bytes out, two bytes back.\<close>

definition fixed_transaction :: core_transaction where
  "fixed_transaction = zero_transaction\<lparr>tx_id := 5, tx_generation := 7, payload := [1, 2, 3, 4],
     tx_operation := \<lparr>direction = CORE_OPERATION_TX_THEN_RX, response_policy = CORE_RESPONSE_FIXED_LENGTH,
       expected_response_length = 2\<rparr>\<rparr>"

definition opened_uart :: "'w uart_syscalls \<Rightarrow> 'w \<Rightarrow> 'w uart_backend" where
  "opened_uart s w = snd (uart_open (the (snd (uart_backend_init 0 (Some sample_config) (Some s) w))) 0)"

definition exchange_uart :: "'w uart_syscalls \<Rightarrow> 'w \<Rightarrow> 'w uart_backend" where
  "exchange_uart s w = snd (uart_start (opened_uart s w) fixed_transaction 0)"

text \<open>Two writes, the report of the transmission and the first byte of the answer.\<close>

definition half_answered :: "(u32 \<times> u8 list list) uart_backend" where
  "half_answered = uart_polls (exchange_uart scripted (0, [[9], [8]])) [1, 2, 3, 4]"

lemma half_answered_poll: "ev_type (fst (snd (uart_poll half_answered 5))) = BACKEND_EVENT_RESPONSE"
  by code_simp

theorem uart_response_answers_operation_witness:
  "let (r, e, u') = uart_poll half_answered 5
   in tx_length half_answered \<le> tx_offset half_answered \<and> ev_generation e = active_generation half_answered \<and>
      answers_operation half_answered (ev_data e)"
proof -
  obtain r e u' where p: "uart_poll half_answered 5 = (r, e, u')" by (cases "uart_poll half_answered 5") auto
  then have "ev_type e = BACKEND_EVENT_RESPONSE" using half_answered_poll by simp
  from uart_response_answers_operation [OF p this] show ?thesis using p by simp
qed

lemma opened_uart_ok:
  assumes "syscalls_bounded s"
  shows "uart_wf (opened_uart s w)"
  using assms by (simp add: opened_uart_def uart_backend_init_def uart_config_validate_def sample_config_def
      standard_speed_def) (simp add: uart_wf_def)

text \<open>What no operation changes: the system calls and the trace hooks.\<close>

definition hooks :: "'w uart_backend \<Rightarrow>
    'w uart_syscalls \<times> ('w \<Rightarrow> uart_read_trace_event \<Rightarrow> 'w) option \<times> ('w \<Rightarrow> u32 \<times> 'w) option" where
  "hooks u = (sys u, read_trace u, trace_clock u)"

lemma hooks_keep [simp]:
  "hooks (u\<lparr>world := w\<rparr>) = hooks u" "hooks (u\<lparr>fd := f\<rparr>) = hooks u" "hooks (u\<lparr>configured := b\<rparr>) = hooks u"
  "hooks (u\<lparr>ub_config := c\<rparr>) = hooks u" "hooks (u\<lparr>saved_termios := v\<rparr>) = hooks u"
  "hooks (u\<lparr>saved_termios_valid := b\<rparr>) = hooks u" "hooks (u\<lparr>saved_mode := m\<rparr>) = hooks u"
  "hooks (u\<lparr>saved_mode_valid := b\<rparr>) = hooks u" "hooks (u\<lparr>saved_special_baud := m\<rparr>) = hooks u"
  "hooks (u\<lparr>saved_special_baud_valid := b\<rparr>) = hooks u" "hooks (u\<lparr>ub_stats := s\<rparr>) = hooks u"
  by (simp_all add: hooks_def)

lemma hooks_sys [simp]:
  "hooks (snd (sys_open u)) = hooks u" "hooks (snd (sys_close u)) = hooks u"
  "hooks (snd (snd (sys_ioctl u rq v))) = hooks u"
  "hooks (snd (snd (sys_tcgetattr u t))) = hooks u" "hooks (snd (sys_tcsetattr u t)) = hooks u"
  by (simp_all add: sys_defs split_beta Let_def)

lemma hooks_open [simp]: "hooks (snd (uart_open u now)) = hooks u"
proof -
  have a: "hooks (snd (apply_config v c)) = hooks v" for v :: "'w uart_backend" and c
    by (simp add: apply_config_def split_beta Let_def)
  have b: "hooks (snd (abort_open v)) = hooks v" for v :: "'w uart_backend"
    by (simp add: abort_open_def split_beta Let_def)
  show ?thesis by (simp add: uart_open_def split_beta Let_def a b)
qed

lemma opened_uart_keep:
  "sys (opened_uart s w) = s" "read_trace (opened_uart s w) = None" "trace_clock (opened_uart s w) = None"
proof -
  have "hooks (opened_uart s w) = (s, None, None)"
    unfolding opened_uart_def hooks_open
    by (simp add: uart_backend_init_def uart_config_validate_def sample_config_def standard_speed_def hooks_def)
  then show "sys (opened_uart s w) = s" "read_trace (opened_uart s w) = None" "trace_clock (opened_uart s w) = None"
    by (simp_all add: hooks_def)
qed

theorem uart_transmits_in_order_witness:
  "let u = opened_uart (taped scripted) ((0, [[9], [8]]), []);
       u' = uart_polls (snd (uart_start u fixed_transaction 0)) [1, 2]
   in snd (world u') = snd (world u) @ take (tx_offset u') (payload fixed_transaction) \<and>
      tx_offset u' \<le> length (payload fixed_transaction) \<and>
      (ev_type (fst (snd (uart_poll u' 3))) = BACKEND_EVENT_RESPONSE \<and>
       direction (tx_operation fixed_transaction) \<noteq> CORE_OPERATION_RX_ONLY \<longrightarrow>
       snd (world u') = snd (world u) @ payload fixed_transaction)"
proof -
  let ?u = "opened_uart (taped scripted) ((0, [[9], [8]]), [])"
  have wf: "uart_wf ?u" using opened_uart_ok [of "taped scripted"] by (simp add: taped_bounded scripted_bounded)
  have keep: "sys ?u = taped scripted" "read_trace ?u = None" "trace_clock ?u = None"
    by (rule opened_uart_keep)+
  have "fst (uart_start ?u fixed_transaction 0) = 0" by code_simp
  then have "uart_start ?u fixed_transaction 0 = (0, snd (uart_start ?u fixed_transaction 0))" by (simp add: prod_eq_iff)
  note start = this
  show ?thesis unfolding Let_def by (rule uart_transmits_in_order [OF wf keep start, unfolded Let_def])
qed

section \<open>Recovery and cancellation\<close>

lemma drain_bound:
  "uart_wf u \<Longrightarrow> n \<le> UART_RECOVERY_DRAIN_LIMIT + UART_IO_BUDGET \<Longrightarrow>
   fst (drain_loop u now n) \<le> UART_RECOVERY_DRAIN_LIMIT + UART_IO_BUDGET"
proof (induction u n rule: drain_induct [where now = now])
  case (stop u n)
  then show ?case by (simp add: drain_stop)
next
  case (more u n r e u')
  have "r \<le> int UART_IO_BUDGET"
    using more.hyps(2) sys_read_bound [OF more.prems(1), of UART_IO_BUDGET]
    by (auto simp: drain_round_def split_beta Let_def)
  then have "n + nat r \<le> UART_RECOVERY_DRAIN_LIMIT + UART_IO_BUDGET" using more.hyps(1) by linarith
  moreover have "uart_wf u'" using more.prems(1) more.hyps(2) uart_wf_round [of u now n] by simp
  ultimately show ?case using more.IH more.hyps(4) by simp
qed

lemma cleared_polls_nothing:
  "active_generation u = 0 \<Longrightarrow> snd (snd (uart_poll u now)) = u \<and> fst (snd (uart_poll u now)) = zero_event \<and> fst (uart_poll u now) \<le> 0"
  by (simp add: uart_poll_def)

text \<open>
  C10. After a successful recovery, or after the cancellation of the generation in progress, the
  backend has forgotten the transaction: no poll reports anything, and none touches the device,
  until the next start. A recovery reads at most 576 bytes before it gives up.
\<close>

theorem uart_forgets_transaction:
  assumes "uart_wf u"
    "uart_recover u now = (0, u') \<or> uart_cancel u (active_generation u) = u'"
  shows "fst (drain_loop u now 0) \<le> 576 \<and> uart_polls u' ts = u' \<and>
     fst (snd (uart_poll u' later)) = zero_event \<and> fst (uart_poll u' later) \<le> 0"
proof -
  have "active_generation u' = 0"
    using assms(2) by (auto simp: uart_recover_def uart_cancel_def clear_transaction_def split_beta Let_def split: if_splits)
  moreover have "fst (drain_loop u now 0) \<le> 576" using drain_bound [OF assms(1), of 0 now] by simp
  moreover have "uart_polls u' ts = u'" if "active_generation u' = 0"
    using that by (induction ts rule: rev_induct) (simp_all add: uart_polls_def cleared_polls_nothing)
  ultimately show ?thesis using cleared_polls_nothing by blast
qed

theorem uart_forgets_transaction_witness:
  "let u = half_answered; u' = uart_cancel u (active_generation u)
   in fst (drain_loop u 5 0) \<le> 576 \<and> uart_polls u' [6, 7] = u' \<and>
      fst (snd (uart_poll u' 8)) = zero_event \<and> fst (uart_poll u' 8) \<le> 0"
proof -
  have wf: "uart_wf half_answered"
  proof -
    have "uart_wf (exchange_uart scripted (0, [[9], [8]]))"
      unfolding exchange_uart_def by (intro uart_wf_start opened_uart_ok scripted_bounded)
    moreover have "uart_wf u \<Longrightarrow> uart_wf (uart_polls u ts)" for u :: "(u32 \<times> u8 list list) uart_backend" and ts
    proof (induction ts rule: rev_induct)
      case (snoc t ts)
      then show ?case
        using uart_wf_poll [of "uart_polls u ts" t "fst (uart_poll (uart_polls u ts) t)"
            "fst (snd (uart_poll (uart_polls u ts) t))" "snd (snd (uart_poll (uart_polls u ts) t))"]
        by (simp add: uart_polls_def)
    qed (simp add: uart_polls_def)
    ultimately show ?thesis by (simp add: half_answered_def)
  qed
  show ?thesis unfolding Let_def by (rule uart_forgets_transaction [OF wf disjI2 [OF refl]])
qed

section \<open>Opening and configuring\<close>

lemma record_sys [simp]:
  "ub_config (snd (snd (sys_ioctl u rq v))) = ub_config u" "configured (snd (snd (sys_ioctl u rq v))) = configured u"
  "fd (snd (snd (sys_ioctl u rq v))) = fd u"
  "ub_config (snd (snd (sys_tcgetattr u t))) = ub_config u" "configured (snd (snd (sys_tcgetattr u t))) = configured u"
  "fd (snd (snd (sys_tcgetattr u t))) = fd u"
  "ub_config (snd (sys_tcsetattr u t)) = ub_config u" "configured (snd (sys_tcsetattr u t)) = configured u"
  "fd (snd (sys_tcsetattr u t)) = fd u"
  by (simp_all add: sys_defs split_beta Let_def)

definition config_outcome :: "'w uart_backend \<Rightarrow> core_port_config \<Rightarrow> int \<times> 'w uart_backend \<Rightarrow> bool" where
  "config_outcome u c x \<longleftrightarrow>
     fst x = 0 \<and> ub_config (snd x) = c \<and> configured (snd x) \<and> uart_config_validate (Some c) = 0 \<or>
     fst x = - 1 \<and> ub_config (snd x) = ub_config u \<and> configured (snd x) = configured u"

lemma config_outcome_intros:
  "ub_config v = ub_config u \<Longrightarrow> configured v = configured u \<Longrightarrow> config_outcome u c (- 1, v)"
  "uart_config_validate (Some c) = 0 \<Longrightarrow> config_outcome u c (0, v\<lparr>ub_config := c, configured := True\<rparr>)"
  by (simp_all add: config_outcome_def)

lemma apply_config_outcome: "config_outcome u c (apply_config u (Some c))"
  by (simp add: apply_config_def split_beta Let_def config_outcome_intros)

lemma apply_config_fd: "fd (snd (apply_config u c)) = fd u"
  by (simp add: apply_config_def split_beta Let_def)

lemma abort_open_outcome: "fst (abort_open u) = - 1 \<and> fd (snd (abort_open u)) = - 1"
  by (simp add: abort_open_def split_beta Let_def)

text \<open>
  A configuration is taken over as a whole or not at all: \<open>apply_config\<close> succeeds only for a
  valid configuration whose operation mode the device has read back, and only then becomes the
  configuration on record; on any failure the record keeps the previous one.
\<close>

theorem uart_config_all_or_nothing:
  "let (r, u') = uart_reconfigure u c now
   in fd u' = fd u \<and>
      (r = 0 \<and> ub_config u' = c \<and> configured u' \<and> uart_config_validate (Some c) = 0 \<or>
       r = - 1 \<and> ub_config u' = ub_config u \<and> configured u' = configured u)"
  using apply_config_outcome [of u c]
  by (simp add: uart_reconfigure_def config_outcome_def split_beta Let_def apply_config_fd)

end
