(* ===== verification/Modbus_Crc.thy ===== *)
theory Modbus_Crc
  imports Gateway_Prelude
begin

text \<open>
  The CRC-16 of \<open>src/modbus/modbus_crc.c\<close>: the bitwise loop as it is written, the residue of a
  frame that carries its own checksum, and the detection of a corrupted byte.
\<close>

definition crc_bit :: "u16 \<Rightarrow> u16" where
  "crc_bit crc = (if crc AND 1 \<noteq> 0 then drop_bit 1 crc XOR 0xa001 else drop_bit 1 crc)"

definition crc_byte :: "u16 \<Rightarrow> u8 \<Rightarrow> u16" where
  "crc_byte crc d = (crc_bit ^^ 8) (crc XOR ucast d)"

definition modbus_crc16 :: "u8 list \<Rightarrow> u16" where
  "modbus_crc16 data = foldl crc_byte 0xffff data"

text \<open>The checksum as the two bytes that follow a frame, low byte first.\<close>

definition crc_trailer :: "u16 \<Rightarrow> u8 list" where
  "crc_trailer crc = [ucast crc, ucast (drop_bit 8 crc)]"

definition crc_of_trailer :: "u8 \<Rightarrow> u8 \<Rightarrow> u16" where
  "crc_of_trailer lo hi = ucast lo OR push_bit 8 (ucast hi)"

section \<open>The bit step is injective\<close>

lemma crc_bit_high: "bit (crc_bit c) 15 \<longleftrightarrow> bit c 0"
  using bit_imp_le_length [of c 16]
  by (auto simp: crc_bit_def bit_simps and_one_eq odd_iff_mod_2_eq_one [symmetric] bit_0)

lemma drop_bit_1_inject:
  fixes c d :: u16
  assumes "drop_bit 1 c = drop_bit 1 d" "bit c 0 = bit d 0"
  shows "c = d"
proof (rule bit_eqI)
  fix n assume "possible_bit TYPE(u16) n"
  show "bit c n = bit d n"
  proof (cases n)
    case 0
    then show ?thesis using assms(2) by simp
  next
    case (Suc m)
    have "bit (drop_bit 1 c) m = bit (drop_bit 1 d) m" using assms(1) by simp
    then show ?thesis using Suc by (simp add: bit_simps)
  qed
qed

lemma crc_bit_inject: "crc_bit c = crc_bit d \<longleftrightarrow> c = d"
proof
  assume e: "crc_bit c = crc_bit d"
  then have b: "bit c 0 = bit d 0" using crc_bit_high by metis
  have p: "(x AND 1 \<noteq> 0) = bit x 0" for x :: u16 by (simp add: and_one_eq odd_iff_mod_2_eq_one [symmetric] bit_0)
  have x: "(u XOR k = v XOR k) = (u = v)" for u v k :: u16 by (metis xor.assoc xor_self_eq xor.right_neutral)
  have "drop_bit 1 c = drop_bit 1 d"
    using e b x by (auto simp: crc_bit_def p split: if_splits)
  then show "c = d" using b by (rule drop_bit_1_inject)
qed simp

lemma crc_bits_inject: "(crc_bit ^^ n) c = (crc_bit ^^ n) d \<longleftrightarrow> c = d"
  by (induction n) (simp_all add: crc_bit_inject)

lemma xor_cancel: "(a XOR b = a XOR c) = (b = (c :: 'a :: ring_bit_operations))"
  by (metis xor.assoc xor_self_eq xor.left_neutral)

lemma crc_byte_state_inject: "crc_byte c d = crc_byte c' d \<longleftrightarrow> c = c'"
  using xor_cancel [of "ucast d" c c'] by (simp add: crc_byte_def crc_bits_inject xor.commute)

lemma ucast_u8_inject: "(ucast (d :: u8) :: u16) = ucast d' \<longleftrightarrow> d = d'"
proof
  assume "(ucast d :: u16) = ucast d'"
  then have "(ucast (ucast d :: u16) :: u8) = ucast (ucast d' :: u16)" by simp
  then show "d = d'" by (simp add: ucast_up_ucast_id is_up.rep_eq)
qed simp

lemma crc_byte_data_inject: "crc_byte c d = crc_byte c d' \<longleftrightarrow> d = d'"
  by (simp add: crc_byte_def crc_bits_inject xor_cancel ucast_u8_inject)

lemma crc_fold_inject: "foldl crc_byte c ds = foldl crc_byte c' ds \<longleftrightarrow> c = c'"
  by (induction ds arbitrary: c c') (simp_all add: crc_byte_state_inject)

text \<open>
  A corrupted byte never goes unnoticed: two messages of the same length that differ in exactly one
  byte, at any position, always have different checksums.
\<close>

theorem crc_detects_byte_error:
  "modbus_crc16 (front @ d # rear) = modbus_crc16 (front @ d' # rear) \<longleftrightarrow> d = d'"
  by (simp add: modbus_crc16_def crc_fold_inject crc_byte_data_inject)

section \<open>The residue\<close>

lemma crc_bits_shift:
  assumes "\<forall>i < n. \<not> bit c i"
  shows "(crc_bit ^^ n) c = drop_bit n (c :: u16)"
  using assms
proof (induction n arbitrary: c)
  case (Suc n)
  then have z: "\<not> bit c 0" by simp
  then have b: "crc_bit c = drop_bit 1 c"
    by (simp add: crc_bit_def and_one_eq odd_iff_mod_2_eq_one [symmetric] bit_0)
  have "(crc_bit ^^ n) (drop_bit 1 c) = drop_bit n (drop_bit 1 c)"
    by (rule Suc.IH) (use Suc.prems in \<open>simp add: bit_simps\<close>)
  then show ?case by (simp add: funpow_Suc_right b del: funpow.simps)
qed simp

lemma crc_byte_low: "crc_byte c (ucast c) = drop_bit 8 c"
proof -
  have "(crc_bit ^^ 8) (c XOR ucast (ucast c :: u8)) = drop_bit 8 (c XOR ucast (ucast c :: u8))"
    by (rule crc_bits_shift) (simp add: bit_simps)
  also have "\<dots> = drop_bit 8 c"
    by (rule bit_eqI) (auto simp: bit_simps)
  finally show ?thesis by (simp add: crc_byte_def)
qed

lemma crc_byte_high: "crc_byte (drop_bit 8 c) (ucast (drop_bit 8 c)) = 0"
proof -
  have "drop_bit 8 (drop_bit 8 c) = (0 :: u16)"
    by (rule bit_eqI) (auto simp: bit_simps)
  then show ?thesis using crc_byte_low [of "drop_bit 8 c"] by simp
qed

lemma crc_of_crc_trailer:
  "crc_of_trailer (ucast c) (ucast (drop_bit 8 c)) = c"
  by (rule bit_eqI) (auto simp: crc_of_trailer_def bit_simps)

text \<open>
  The checksum of a frame that carries its own checksum is zero: appending the two bytes the code
  appends, low byte first, drives the register to zero, and the 16-bit value read back from
  those two bytes is the checksum itself.
\<close>

theorem crc_residue:
  "modbus_crc16 (data @ crc_trailer (modbus_crc16 data)) = 0 \<and>
   crc_of_trailer (crc_trailer (modbus_crc16 data) ! 0) (crc_trailer (modbus_crc16 data) ! 1) =
     modbus_crc16 data"
  by (simp add: crc_trailer_def crc_of_crc_trailer)
    (simp add: modbus_crc16_def crc_byte_low crc_byte_high)

end
