(* ===== verification/Mbap_Stream.thy ===== *)
theory Mbap_Stream
  imports Gateway_Prelude
begin

text \<open>
  The Modbus/TCP deframer of \<open>src/modbus/mbap_stream.c\<close>: a ring of received bytes, the loop that
  hands complete ADUs to a callback, and the poisoning of the stream after a malformed header or
  an overflow. A specification on byte lists, and the refinement of the ring to it, follow.
\<close>

abbreviation MBAP_HEADER_SIZE :: nat where "MBAP_HEADER_SIZE \<equiv> 7"
abbreviation MBAP_PDU_MAX :: nat where "MBAP_PDU_MAX \<equiv> 253"
abbreviation MBAP_ADU_MAX :: nat where "MBAP_ADU_MAX \<equiv> 260"
abbreviation MBAP_LENGTH_MIN :: nat where "MBAP_LENGTH_MIN \<equiv> 2"
abbreviation MBAP_LENGTH_MAX :: nat where "MBAP_LENGTH_MAX \<equiv> 254"
abbreviation MBAP_RX_CAPACITY :: nat where "MBAP_RX_CAPACITY \<equiv> 1040"

datatype mbap_result = MBAP_OK | MBAP_OVERFLOW | MBAP_MALFORMED | MBAP_STOPPED

record mbap_adu =
  adu_transaction_id :: u16
  unit_id :: u8
  pdu :: "u8 list"

text \<open>The callback changes the state behind its context and returns zero to go on.\<close>

type_synonym 'c mbap_adu_fn = "'c \<Rightarrow> mbap_adu \<Rightarrow> int \<times> 'c"

record mbap_stream =
  ms_bytes :: "u8 list"
  ms_head :: nat
  ms_count :: nat
  ms_frames :: u32
  ms_malformed :: u32
  ms_overflows :: u32
  poisoned :: bool

definition mbap_stream_init :: mbap_stream where
  "mbap_stream_init = \<lparr>ms_bytes = replicate MBAP_RX_CAPACITY 0, ms_head = 0, ms_count = 0,
     ms_frames = 0, ms_malformed = 0, ms_overflows = 0, poisoned = False\<rparr>"

definition mbap_stream_buffered :: "mbap_stream option \<Rightarrow> nat" where
  "mbap_stream_buffered s = (case s of None \<Rightarrow> 0 | Some s \<Rightarrow> ms_count s)"

definition peek :: "mbap_stream \<Rightarrow> nat \<Rightarrow> u8" where
  "peek s i = ms_bytes s ! ((ms_head s + i) mod MBAP_RX_CAPACITY)"

definition be16 :: "u8 \<Rightarrow> u8 \<Rightarrow> nat" where
  "be16 hi lo = unat hi * 256 + unat lo"

definition poison :: "mbap_stream \<Rightarrow> mbap_stream" where
  "poison s = s\<lparr>ms_malformed := ms_malformed s + 1, poisoned := True\<rparr>"

definition peek_adu :: "mbap_stream \<Rightarrow> nat \<Rightarrow> mbap_adu" where
  "peek_adu s mbap_length =
     \<lparr>adu_transaction_id = of_nat (be16 (peek s 0) (peek s 1)), unit_id = peek s 6,
      pdu = map (\<lambda>i. peek s (7 + i)) [0..<mbap_length - 1]\<rparr>"

definition consume :: "mbap_stream \<Rightarrow> nat \<Rightarrow> mbap_stream" where
  "consume s frame_length = s\<lparr>ms_head := (ms_head s + frame_length) mod MBAP_RX_CAPACITY,
     ms_count := ms_count s - frame_length, ms_frames := ms_frames s + 1\<rparr>"

text \<open>The result is negative for a malformed header, positive when the callback stopped the loop.\<close>

function parse_available ::
  "mbap_stream \<Rightarrow> 'c mbap_adu_fn option \<Rightarrow> 'c \<Rightarrow> int \<times> mbap_stream \<times> 'c"
where
  "parse_available s callback ctx =
     (if ms_count s \<ge> MBAP_HEADER_SIZE then
        let protocol = be16 (peek s 2) (peek s 3);
            mbap_length = be16 (peek s 4) (peek s 5);
            frame_length = 6 + mbap_length in
        if protocol \<noteq> 0 \<or> mbap_length < MBAP_LENGTH_MIN \<or> mbap_length > MBAP_LENGTH_MAX
        then (- 1, poison s, ctx)
        else if frame_length > MBAP_ADU_MAX then (- 1, poison s, ctx)
        else if ms_count s < frame_length then (0, s, ctx)
        else
          let (stop, ctx) = (case callback of None \<Rightarrow> (0, ctx) | Some f \<Rightarrow> f ctx (peek_adu s mbap_length)) in
          if callback \<noteq> None \<and> stop \<noteq> 0 then (1, s, ctx)
          else parse_available (consume s frame_length) callback ctx
      else (0, s, ctx))"
  by pat_completeness auto
termination
  by (relation "measure (\<lambda>(s, callback, ctx). ms_count s)") (auto simp: consume_def)

declare parse_available.simps [simp del]

text \<open>\<open>memcpy\<close> into the ring at \<open>pos\<close>.\<close>

definition overwrite :: "'a list \<Rightarrow> nat \<Rightarrow> 'a list \<Rightarrow> 'a list" where
  "overwrite xs pos ys = take pos xs @ ys @ drop (pos + length ys) xs"

text \<open>The two copies that put one chunk behind the bytes of the ring, wrapping at its end.\<close>

definition ring_copy :: "u8 list \<Rightarrow> nat \<Rightarrow> u8 list \<Rightarrow> u8 list" where
  "ring_copy bytes tail chunk =
     (let first = (if MBAP_RX_CAPACITY - tail > length chunk then length chunk else MBAP_RX_CAPACITY - tail);
          bytes = overwrite bytes tail (take first chunk)
      in if length chunk > first then overwrite bytes 0 (drop first chunk) else bytes)"

text \<open>The copying loop of \<open>feed\<close>; \<open>False\<close> is the overflow exit.\<close>

function feed_copy :: "mbap_stream \<Rightarrow> u8 list \<Rightarrow> bool \<times> mbap_stream" where
  "feed_copy s data =
     (if data \<noteq> [] then
        let room = MBAP_RX_CAPACITY - ms_count s in
        if room = 0
        then (False, s\<lparr>ms_overflows := ms_overflows s + 1, poisoned := True\<rparr>)
        else
          let chunk = (if length data < room then length data else room);
              tail = (ms_head s + ms_count s) mod MBAP_RX_CAPACITY
          in feed_copy (s\<lparr>ms_bytes := ring_copy (ms_bytes s) tail (take chunk data),
                          ms_count := ms_count s + chunk\<rparr>) (drop chunk data)
      else (True, s))"
  by pat_completeness auto
termination
  by (relation "measure (\<lambda>(s, data). length data)") (auto simp: Let_def)

declare feed_copy.simps [simp del]

text \<open>\<open>None\<close> for the data is a null pointer with a length that is not zero.\<close>

definition mbap_stream_feed ::
  "mbap_stream \<Rightarrow> u8 list option \<Rightarrow> 'c mbap_adu_fn option \<Rightarrow> 'c \<Rightarrow> mbap_result \<times> mbap_stream \<times> 'c"
where
  "mbap_stream_feed s data callback ctx =
     (if data = None \<or> poisoned s then (MBAP_MALFORMED, s, ctx)
      else if length (the data) > MBAP_RX_CAPACITY - ms_count s
      then (MBAP_OVERFLOW, s\<lparr>ms_overflows := ms_overflows s + 1, poisoned := True\<rparr>, ctx)
      else let (ok, s) = feed_copy s (the data) in
        if \<not> ok then (MBAP_OVERFLOW, s, ctx)
        else let (parsed, s, ctx) = parse_available s callback ctx in
          (if parsed < 0 then MBAP_MALFORMED else if parsed > 0 then MBAP_STOPPED else MBAP_OK, s, ctx))"

section \<open>The specification on byte lists\<close>

text \<open>The header of a frame: \<open>None\<close> when it is malformed, otherwise its MBAP length.\<close>

definition header_length :: "u8 list \<Rightarrow> nat option" where
  "header_length bs =
     (let n = be16 (bs ! 4) (bs ! 5) in
      if be16 (bs ! 2) (bs ! 3) \<noteq> 0 \<or> n < MBAP_LENGTH_MIN \<or> n > MBAP_LENGTH_MAX then None else Some n)"

definition adu_of :: "u8 list \<Rightarrow> nat \<Rightarrow> mbap_adu" where
  "adu_of bs n = \<lparr>adu_transaction_id = of_nat (be16 (bs ! 0) (bs ! 1)), unit_id = bs ! 6,
     pdu = take (n - 1) (drop 7 bs)\<rparr>"

text \<open>
  All complete frames at the front of a byte sequence, the bytes left over, and whether the
  sequence is still good (\<open>False\<close>: the bytes left over start with a malformed header).
\<close>

function mbap_split :: "u8 list \<Rightarrow> mbap_adu list \<times> u8 list \<times> bool" where
  "mbap_split bs =
     (if length bs < MBAP_HEADER_SIZE then ([], bs, True)
      else case header_length bs of
        None \<Rightarrow> ([], bs, False)
      | Some n \<Rightarrow>
          if length bs < 6 + n then ([], bs, True)
          else let (as, rest, good) = mbap_split (drop (6 + n) bs) in (adu_of bs n # as, rest, good))"
  by pat_completeness auto
termination
  by (relation "measure length") (auto simp: header_length_def Let_def split: if_splits)

declare mbap_split.simps [simp del]

definition mbap_encode :: "mbap_adu \<Rightarrow> u8 list" where
  "mbap_encode a =
     [ucast (drop_bit 8 (adu_transaction_id a)), ucast (adu_transaction_id a), 0, 0,
      of_nat ((length (pdu a) + 1) div 256), of_nat (length (pdu a) + 1), unit_id a] @ pdu a"

definition adu_ok :: "mbap_adu \<Rightarrow> bool" where
  "adu_ok a \<longleftrightarrow> 1 \<le> length (pdu a) \<and> length (pdu a) \<le> MBAP_PDU_MAX"

section \<open>Splitting a byte sequence\<close>

lemma header_length_append:
  "6 \<le> length xs \<Longrightarrow> header_length (xs @ ys) = header_length xs"
  by (simp add: header_length_def nth_append)

lemma header_length_range: "header_length bs = Some n \<Longrightarrow> 2 \<le> n \<and> n \<le> 254"
  by (auto simp: header_length_def Let_def split: if_splits)

lemma adu_of_append:
  "6 + n \<le> length xs \<Longrightarrow> 2 \<le> n \<Longrightarrow> adu_of (xs @ ys) n = adu_of xs n"
  by (auto simp: adu_of_def nth_append)

lemma split_short: "length bs < 7 \<Longrightarrow> mbap_split bs = ([], bs, True)"
  by (simp add: mbap_split.simps [of bs])

lemma split_bad: "7 \<le> length bs \<Longrightarrow> header_length bs = None \<Longrightarrow> mbap_split bs = ([], bs, False)"
  by (simp add: mbap_split.simps [of bs])

lemma split_partial: "7 \<le> length bs \<Longrightarrow> header_length bs = Some n \<Longrightarrow> length bs < 6 + n \<Longrightarrow> mbap_split bs = ([], bs, True)"
  by (simp add: mbap_split.simps [of bs])

lemma split_frame:
  "7 \<le> length bs \<Longrightarrow> header_length bs = Some n \<Longrightarrow> 6 + n \<le> length bs \<Longrightarrow>
   mbap_split bs = (adu_of bs n # fst (mbap_split (drop (6 + n) bs)), snd (mbap_split (drop (6 + n) bs)))"
  by (simp add: mbap_split.simps [of bs] split_beta Let_def)

lemma split_cases:
  obtains (short) "length bs < 7"
  | (bad) "7 \<le> length bs" "header_length bs = None"
  | (partial) n where "7 \<le> length bs" "header_length bs = Some n" "length bs < 6 + n"
  | (frame) n where "7 \<le> length bs" "header_length bs = Some n" "6 + n \<le> length bs"
  by (cases "header_length bs") (auto intro: not_less [THEN iffD1] leI)

lemma split_append:
  "mbap_split xs = (as, r, good) \<Longrightarrow>
   mbap_split (xs @ ys) = (if good then (as @ fst (mbap_split (r @ ys)), snd (mbap_split (r @ ys)))
                           else (as, r @ ys, False))"
proof (induction xs arbitrary: as rule: length_induct)
  case (1 xs)
  show ?case
  proof (cases rule: split_cases [of xs])
    case short
    then show ?thesis using 1(2) by (simp add: split_short)
  next
    case bad
    then show ?thesis using 1(2) by (simp add: split_bad header_length_append)
  next
    case (partial n)
    then show ?thesis using 1(2) by (simp add: split_partial)
  next
    case (frame n)
    obtain as' where as': "mbap_split (drop (6 + n) xs) = (as', r, good)" "as = adu_of xs n # as'"
      using 1(2) split_frame [OF frame] by (cases "mbap_split (drop (6 + n) xs)") auto
    have "length (drop (6 + n) xs) < length xs" using frame(1) by simp
    then have "mbap_split (drop (6 + n) xs @ ys) =
        (if good then (as' @ fst (mbap_split (r @ ys)), snd (mbap_split (r @ ys))) else (as', r @ ys, False))"
      using 1(1) as'(1) by blast
    moreover have "header_length (xs @ ys) = Some n" using frame by (simp add: header_length_append)
    ultimately show ?thesis
      using split_frame [of "xs @ ys" n] frame header_length_range [OF frame(2)] as'(2)
      by (auto simp: adu_of_append)
  qed
qed

lemma split_rest_short:
  "mbap_split bs = (as, r, True) \<Longrightarrow> length r < MBAP_ADU_MAX"
proof (induction bs arbitrary: as rule: length_induct)
  case (1 bs)
  show ?case
  proof (cases rule: split_cases [of bs])
    case (frame n)
    have "length (drop (6 + n) bs) < length bs" using frame(1) by simp
    moreover obtain as' where "mbap_split (drop (6 + n) bs) = (as', r, True)"
      using 1(2) split_frame [OF frame] by (cases "mbap_split (drop (6 + n) bs)") auto
    ultimately show ?thesis using 1(1) by blast
  next
    case (partial n)
    then show ?thesis using 1(2) header_length_range [OF partial(2)] by (simp add: split_partial)
  qed (use 1(2) in \<open>simp_all add: split_short split_bad\<close>)
qed

section \<open>The ring implements the byte sequence\<close>

definition stream_items :: "mbap_stream \<Rightarrow> u8 list" where
  "stream_items s = ring_list (ms_bytes s) (ms_head s) (ms_count s)"

definition stream_wf :: "mbap_stream \<Rightarrow> bool" where
  "stream_wf s \<longleftrightarrow> length (ms_bytes s) = MBAP_RX_CAPACITY \<and> ms_head s < MBAP_RX_CAPACITY \<and>
     ms_count s \<le> MBAP_RX_CAPACITY"

lemma length_stream_items [simp]: "length (stream_items s) = ms_count s"
  by (simp add: stream_items_def)

lemma peek_items: "stream_wf s \<Longrightarrow> i < ms_count s \<Longrightarrow> peek s i = stream_items s ! i"
  by (simp add: peek_def stream_items_def nth_ring_list stream_wf_def)

lemma consume_items:
  "stream_wf s \<Longrightarrow> k \<le> ms_count s \<Longrightarrow> stream_items (consume s k) = drop k (stream_items s) \<and> stream_wf (consume s k)"
  using ring_list_drop [of k "ms_count s" "ms_bytes s" "ms_head s"]
  by (auto simp: stream_items_def consume_def stream_wf_def)

lemma consume_frame [simp]: "poisoned (consume s k) = poisoned s" "ms_overflows (consume s k) = ms_overflows s"
  by (simp_all add: consume_def)

lemma poison_items [simp]: "stream_items (poison s) = stream_items s" "stream_wf (poison s) = stream_wf s"
  "poisoned (poison s)" "ms_overflows (poison s) = ms_overflows s"
  by (simp_all add: poison_def stream_items_def stream_wf_def)

lemma peek_adu_items:
  assumes "stream_wf s" "6 + n \<le> ms_count s" "2 \<le> n"
  shows "peek_adu s n = adu_of (stream_items s) n"
proof -
  have "map (\<lambda>i. peek s (7 + i)) [0..<n - 1] = take (n - 1) (drop 7 (stream_items s))"
    using assms by (intro nth_equalityI) (auto simp: peek_items)
  then show ?thesis using assms by (simp add: peek_adu_def adu_of_def peek_items)
qed

lemma header_items:
  assumes "stream_wf s" "7 \<le> ms_count s"
  shows "header_length (stream_items s) =
    (if be16 (peek s 2) (peek s 3) \<noteq> 0 \<or> be16 (peek s 4) (peek s 5) < MBAP_LENGTH_MIN \<or>
        be16 (peek s 4) (peek s 5) > MBAP_LENGTH_MAX then None else Some (be16 (peek s 4) (peek s 5)))"
  using assms by (simp add: header_length_def peek_items)

text \<open>With a callback that never stops the loop, parsing the ring is splitting its bytes.\<close>

definition accepting :: "('c \<Rightarrow> mbap_adu \<Rightarrow> 'c) \<Rightarrow> 'c mbap_adu_fn option" where
  "accepting g = Some (\<lambda>ctx a. (0, g ctx a))"

lemma parse_implements_split:
  assumes "stream_wf s" "\<not> poisoned s" "mbap_split (stream_items s) = (as, r, good)"
  shows "\<exists>s'. parse_available s (accepting g) ctx = ((if good then 0 else - 1), s', foldl g ctx as) \<and>
     stream_wf s' \<and> stream_items s' = r \<and> poisoned s' = (\<not> good) \<and> ms_overflows s' = ms_overflows s"
  using assms
proof (induction "ms_count s" arbitrary: s as ctx rule: less_induct)
  case less
  let ?bs = "stream_items s"
  show ?case
  proof (cases rule: split_cases [of ?bs])
    case short
    then show ?thesis using less.prems by (simp add: split_short parse_available.simps [of s])
  next
    case bad
    then have "parse_available s (accepting g) ctx = (- 1, poison s, ctx)"
      using less.prems(1) by (subst parse_available.simps) (auto simp: header_items Let_def split: if_splits)
    then show ?thesis using bad less.prems by (auto simp: split_bad)
  next
    case (partial n)
    then have "parse_available s (accepting g) ctx = (0, s, ctx)"
      using less.prems(1) by (subst parse_available.simps) (simp add: header_items Let_def split: if_splits)
    then show ?thesis using partial less.prems by (simp add: split_partial)
  next
    case (frame n)
    have n: "2 \<le> n" "n \<le> 254" using header_length_range [OF frame(2)] by auto
    obtain as' where as': "mbap_split (drop (6 + n) ?bs) = (as', r, good)" "as = adu_of ?bs n # as'"
      using less.prems(3) split_frame [OF frame] by (cases "mbap_split (drop (6 + n) ?bs)") auto
    let ?s = "consume s (6 + n)"
    have c: "stream_items ?s = drop (6 + n) ?bs" "stream_wf ?s"
      using consume_items [OF less.prems(1), of "6 + n"] frame by auto
    have "parse_available s (accepting g) ctx = parse_available ?s (accepting g) (g ctx (adu_of ?bs n))"
      using less.prems(1) frame n peek_adu_items [OF less.prems(1), of n]
      by (subst parse_available.simps) (simp add: header_items Let_def accepting_def split: if_splits)
    moreover have "ms_count ?s < ms_count s" using frame by (simp add: consume_def)
    ultimately show ?thesis
      using less.hyps [of ?s as' "g ctx (adu_of ?bs n)"] c as' less.prems(2) by simp
  qed
qed

section \<open>Feeding bytes\<close>

lemma nth_overwrite:
  "pos + length ys \<le> length xs \<Longrightarrow> j < length xs \<Longrightarrow>
   overwrite xs pos ys ! j = (if pos \<le> j \<and> j < pos + length ys then ys ! (j - pos) else xs ! j)"
  by (auto simp: overwrite_def nth_append min_def)

lemma length_overwrite [simp]: "pos + length ys \<le> length xs \<Longrightarrow> length (overwrite xs pos ys) = length xs"
  by (simp add: overwrite_def)

text \<open>Position \<open>j\<close> of the ring after the copy: the chunk in its two pieces, the rest untouched.\<close>

lemma nth_ring_copy:
  assumes "length xs = 1040" "t < 1040" "length ys \<le> 1040" "j < 1040"
  shows "ring_copy xs t ys ! j =
    (if t \<le> j \<and> j < t + length ys then ys ! (j - t)
     else if j + 1040 < t + length ys then ys ! (j + 1040 - t) else xs ! j)"
proof (cases "length ys < 1040 - t")
  case True
  then have "\<not> j + 1040 < t + length ys" by linarith
  then show ?thesis using True assms by (simp add: ring_copy_def nth_overwrite)
next
  case False
  let ?f = "1040 - t"
  have a: "overwrite xs t (take ?f ys) ! j = (if t \<le> j then ys ! (j - t) else xs ! j)"
    using False assms by (simp add: nth_overwrite)
  have l: "length (overwrite xs t (take ?f ys)) = 1040" using False assms by simp
  show ?thesis
  proof (cases "length ys > ?f")
    case True
    then have "overwrite (overwrite xs t (take ?f ys)) 0 (drop ?f ys) ! j =
        (if j < length ys - ?f then drop ?f ys ! j else overwrite xs t (take ?f ys) ! j)"
      using assms l by (subst nth_overwrite) auto
    moreover have "ring_copy xs t ys = overwrite (overwrite xs t (take ?f ys)) 0 (drop ?f ys)"
      using True False by (simp add: ring_copy_def Let_def)
    moreover have "drop ?f ys ! j = ys ! (j + 1040 - t)" if "j + 1040 < t + length ys"
      using that assms(2) by (simp add: nth_drop add.commute)
    moreover have "j < length ys - ?f \<longleftrightarrow> j + 1040 < t + length ys" using True assms(2) by linarith
    moreover have "t \<le> j \<Longrightarrow> \<not> j + 1040 < t + length ys \<and> j < t + length ys"
      using True assms(2-4) by linarith
    ultimately show ?thesis using a by simp
  next
    case small: False
    then have "ring_copy xs t ys = overwrite xs t (take ?f ys)" "length ys = ?f"
      using False by (simp_all add: ring_copy_def Let_def)
    then show ?thesis using assms a by auto
  qed
qed

lemma length_ring_copy:
  "length xs = 1040 \<Longrightarrow> t < 1040 \<Longrightarrow> length ys \<le> 1040 \<Longrightarrow> length (ring_copy xs t ys) = 1040"
  by (simp add: ring_copy_def Let_def)

lemma ring_copy_items:
  assumes "length xs = 1040" "h < 1040" "n + length ys \<le> 1040"
  shows "ring_list (ring_copy xs ((h + n) mod 1040) ys) h (n + length ys) = ring_list xs h n @ ys"
proof (rule nth_equalityI)
  let ?t = "(h + n) mod 1040"
  let ?xs = "ring_copy xs ?t ys"
  have l: "length ?xs = 1040" using assms by (intro length_ring_copy) auto
  fix i assume "i < length (ring_list ?xs h (n + length ys))"
  then have i: "i < n + length ys" by simp
  have j: "(h + i) mod 1040 < 1040" by simp
  have m: "(h + k) mod 1040 = (if h + k < 1040 then h + k else h + k - 1040)" if "k \<le> 1040" for k
    using that assms(2) by (auto simp: le_mod_geq)
  have "?xs ! ((h + i) mod 1040) = (if i < n then xs ! ((h + i) mod 1040) else ys ! (i - n))"
    using i assms by (subst nth_ring_copy [OF assms(1) _ _ j]) (auto simp: m split: if_splits)
  then show "ring_list ?xs h (n + length ys) ! i = (ring_list xs h n @ ys) ! i"
    using i l assms(1) by (auto simp: nth_ring_list nth_append)
qed simp

lemma feed_copy_items:
  assumes "stream_wf s" "length data \<le> MBAP_RX_CAPACITY - ms_count s"
  shows "\<exists>s'. feed_copy s data = (True, s') \<and> stream_wf s' \<and> stream_items s' = stream_items s @ data \<and>
     poisoned s' = poisoned s \<and> ms_overflows s' = ms_overflows s"
proof (cases "data = []")
  case True
  then show ?thesis using assms(1) by (simp add: feed_copy.simps [of s])
next
  case False
  let ?s = "s\<lparr>ms_bytes := ring_copy (ms_bytes s) ((ms_head s + ms_count s) mod 1040) data,
               ms_count := ms_count s + length data\<rparr>"
  have w: "length (ms_bytes s) = 1040" "ms_head s < 1040" "ms_count s + length data \<le> 1040"
    using assms False by (auto simp: stream_wf_def)
  have "0 < length data" using False by simp
  then have room: "\<not> 1040 \<le> ms_count s" using w(3) by linarith
  have "feed_copy s data = (True, ?s)"
    using assms(2) False room by (simp add: feed_copy.simps [of s] feed_copy.simps [of _ "[]"] Let_def)
  moreover have "stream_items ?s = stream_items s @ data"
    using ring_copy_items [OF w] by (simp add: stream_items_def)
  moreover have "stream_wf ?s" using w length_ring_copy [OF w(1)] by (simp add: stream_wf_def)
  ultimately show ?thesis by simp
qed

lemma feed_implements_split:
  assumes "stream_wf s" "\<not> poisoned s" "length data \<le> MBAP_RX_CAPACITY - ms_count s"
    "mbap_split (stream_items s @ data) = (as, r, good)"
  shows "\<exists>s'. mbap_stream_feed s (Some data) (accepting g) ctx =
       ((if good then MBAP_OK else MBAP_MALFORMED), s', foldl g ctx as) \<and>
     stream_wf s' \<and> stream_items s' = r \<and> poisoned s' = (\<not> good) \<and> ms_overflows s' = ms_overflows s"
proof -
  obtain s1 where s1: "feed_copy s data = (True, s1)" "stream_wf s1" "stream_items s1 = stream_items s @ data"
      "poisoned s1 = poisoned s" "ms_overflows s1 = ms_overflows s"
    using feed_copy_items [OF assms(1,3)] by blast
  then obtain s2 where s2: "parse_available s1 (accepting g) ctx = ((if good then 0 else - 1), s2, foldl g ctx as)"
      "stream_wf s2" "stream_items s2 = r" "poisoned s2 = (\<not> good)" "ms_overflows s2 = ms_overflows s1"
    using parse_implements_split [of s1 as r good g ctx] assms(2,4) by auto
  then show ?thesis using s1 assms(2,3) by (simp add: mbap_stream_feed_def)
qed

text \<open>Feeding a sequence of chunks, as successive reads of a connection deliver them.\<close>

fun feed_all ::
  "('c \<Rightarrow> mbap_adu \<Rightarrow> 'c) \<Rightarrow> mbap_stream \<times> 'c \<Rightarrow> u8 list list \<Rightarrow> mbap_stream \<times> 'c"
where
  "feed_all g (s, ctx) [] = (s, ctx)"
| "feed_all g (s, ctx) (c # cs) = feed_all g (snd (mbap_stream_feed s (Some c) (accepting g) ctx)) cs"

lemma feed_poisoned: "poisoned s \<Longrightarrow> feed_all g (s, ctx) cs = (s, ctx)"
  by (induction cs) (simp_all add: mbap_stream_feed_def)

lemma feed_all_from:
  assumes "stream_wf s" "\<not> poisoned s" "ms_count s < MBAP_ADU_MAX" "list_all (\<lambda>c. length c \<le> 780) cs"
    "mbap_split (stream_items s) = ([], stream_items s, True)"
    "mbap_split (stream_items s @ concat cs) = (as, r, good)"
  shows "snd (feed_all g (s, ctx) cs) = foldl g ctx as \<and> poisoned (fst (feed_all g (s, ctx) cs)) = (\<not> good) \<and>
     ms_overflows (fst (feed_all g (s, ctx) cs)) = ms_overflows s"
  using assms
proof (induction cs arbitrary: s ctx as)
  case (Cons c cs)
  obtain as1 r1 g1 where sp: "mbap_split (stream_items s @ c) = (as1, r1, g1)"
    by (cases "mbap_split (stream_items s @ c)") auto
  have "length c \<le> 780" using Cons.prems(4) by simp
  then have "length c \<le> MBAP_RX_CAPACITY - ms_count s" using Cons.prems(3) by linarith
  from feed_implements_split [OF Cons.prems(1,2) this sp, of g ctx]
  obtain s1 where s1: "mbap_stream_feed s (Some c) (accepting g) ctx =
       ((if g1 then MBAP_OK else MBAP_MALFORMED), s1, foldl g ctx as1)"
     "stream_wf s1" "stream_items s1 = r1" "poisoned s1 = (\<not> g1)" "ms_overflows s1 = ms_overflows s" by blast
  have whole: "mbap_split ((stream_items s @ c) @ concat cs) = (as, r, good)" using Cons.prems(6) by simp
  show ?case
  proof (cases g1)
    case False
    then show ?thesis
      using s1 whole split_append [OF sp, of "concat cs"] by (simp add: feed_poisoned)
  next
    case True
    have short: "ms_count s1 < MBAP_ADU_MAX"
      using split_rest_short [of _ as1 r1] sp True s1(3) by (metis length_stream_items)
    have rest: "mbap_split r1 = ([], r1, True)"
      using split_append [OF sp, of "[]"] sp True by (cases "mbap_split r1") auto
    have "as = as1 @ fst (mbap_split (r1 @ concat cs)) \<and> mbap_split (r1 @ concat cs) = (fst (mbap_split (r1 @ concat cs)), r, good)"
      using whole split_append [OF sp, of "concat cs"] True by (cases "mbap_split (r1 @ concat cs)") auto
    then show ?thesis
      using Cons.IH [of s1 "fst (mbap_split (r1 @ concat cs))" "foldl g ctx as1"] s1 True short rest Cons.prems(4)
      by auto
  qed
qed (auto)

text \<open>
  C9. Deframing does not depend on how the bytes arrive: however a byte sequence is cut into reads
  of at most 780 bytes, the callback sees exactly the complete frames of the whole sequence, in
  order, the stream never overflows, and it ends poisoned exactly when a malformed header was
  reached.
\<close>

theorem mbap_feed_any_chunks:
  assumes "list_all (\<lambda>c. length c \<le> 780) chunks"
  shows "let (s, log) = feed_all (\<lambda>log a. log @ [a]) (mbap_stream_init, []) chunks;
             (frames, rest, good) = mbap_split (concat chunks)
         in log = frames \<and> poisoned s = (\<not> good) \<and> ms_overflows s = 0"
proof -
  have i: "stream_wf mbap_stream_init" "stream_items mbap_stream_init = []" "ms_overflows mbap_stream_init = 0"
      "\<not> poisoned mbap_stream_init" "ms_count mbap_stream_init = 0"
    by (simp_all add: mbap_stream_init_def stream_wf_def stream_items_def)
  obtain as r good where sp: "mbap_split (concat chunks) = (as, r, good)"
    by (cases "mbap_split (concat chunks)") auto
  have f: "foldl (\<lambda>log a. log @ [a]) xs as = xs @ as" for xs :: "mbap_adu list"
    by (induction as arbitrary: xs) simp_all
  show ?thesis
    using feed_all_from [OF i(1,4), of chunks as r good "\<lambda>log a. log @ [a]" "[]"] sp i assms f [of "[]"]
    by (simp add: split_beta Let_def split_short)
qed

theorem mbap_feed_any_chunks_witness:
  "let chunks = [[0, 1, 0], [0, 0, 6, 17, 3, 0, 0, 0], [1, 0, 2, 0, 0, 0, 0]];
       (s, log) = feed_all (\<lambda>log a. log @ [a]) (mbap_stream_init, []) chunks;
       (frames, rest, good) = mbap_split (concat chunks)
   in log = frames \<and> poisoned s = (\<not> good) \<and> ms_overflows s = 0"
  unfolding Let_def by (rule mbap_feed_any_chunks [unfolded Let_def]) simp

section \<open>Encoding and splitting\<close>

lemma be16_bytes: "be16 (ucast (drop_bit 8 t)) (ucast t) = unat (t :: u16)"
proof -
  have b: "unat t < 65536" using unsigned_less [of t] by simp
  have "unat (ucast (drop_bit 8 t) :: u8) = unat t div 256"
    using b by (simp add: unsigned_ucast_eq take_bit_eq_mod drop_bit_eq_div unat_div)
  moreover have "unat (ucast t :: u8) = unat t mod 256"
    by (simp add: unsigned_ucast_eq take_bit_eq_mod)
  ultimately show ?thesis by (simp add: be16_def div_mult_mod_eq)
qed

lemma be16_length: "n \<le> 254 \<Longrightarrow> be16 (of_nat (n div 256)) (of_nat n) = n"
  by (simp add: be16_def unsigned_of_nat take_bit_nat_eq_self)

lemma split_encoded:
  assumes "adu_ok a"
  shows "mbap_split (mbap_encode a @ bs) = (a # fst (mbap_split bs), snd (mbap_split bs))"
proof -
  let ?n = "length (pdu a) + 1"
  have n: "2 \<le> ?n" "?n \<le> 254" "pdu a \<noteq> []" using assms by (auto simp: adu_ok_def)
  have h: "header_length (mbap_encode a @ bs) = Some ?n"
    using n be16_length [of ?n] by (simp add: header_length_def mbap_encode_def be16_def)
  have l: "length (mbap_encode a) = 6 + ?n" by (simp add: mbap_encode_def)
  have "adu_of (mbap_encode a @ bs) ?n = a"
    by (simp add: adu_of_def mbap_encode_def be16_bytes)
  moreover have "drop (6 + ?n) (mbap_encode a @ bs) = bs" using l by simp
  ultimately show ?thesis using split_frame [OF _ h] l by simp
qed

text \<open>
  Round trip of the MBAP framing: the bytes of any sequence of well-formed ADUs, sent back to
  back, split into exactly those ADUs with nothing left over.
\<close>

theorem mbap_roundtrip:
  assumes "list_all adu_ok as"
  shows "mbap_split (concat (map mbap_encode as)) = (as, [], True)"
  using assms by (induction as) (simp_all add: split_short split_encoded)

theorem mbap_roundtrip_witness:
  "mbap_split (concat (map mbap_encode
     [\<lparr>adu_transaction_id = 0x1234, unit_id = 17, pdu = [3, 0, 0, 0, 1]\<rparr>,
      \<lparr>adu_transaction_id = 2, unit_id = 1, pdu = [0x83, 2]\<rparr>])) =
   ([\<lparr>adu_transaction_id = 0x1234, unit_id = 17, pdu = [3, 0, 0, 0, 1]\<rparr>,
     \<lparr>adu_transaction_id = 2, unit_id = 1, pdu = [0x83, 2]\<rparr>], [], True)"
  by (rule mbap_roundtrip) (simp add: adu_ok_def)

end
