(* ===== verification/Modbus_Adapter.thy ===== *)
theory Modbus_Adapter
  imports Port_Properties Uart_Properties Modbus_Crc Mbap_Stream
begin

text \<open>
  The translation between Modbus/TCP and Modbus RTU of \<open>src/modbus/modbus_tcp_adapter.c\<close>: a request
  becomes an RTU frame with its checksum and a port transaction that remembers the client's
  transaction identifier; an RTU answer is recognised, checked and turned back into an ADU.
\<close>

abbreviation MODBUS_OWNER_TCP :: u32 where "MODBUS_OWNER_TCP \<equiv> 1"
abbreviation MODBUS_RTU_ADU_MAX :: nat where "MODBUS_RTU_ADU_MAX \<equiv> 256"
abbreviation MODBUS_EXCEPTION_GATEWAY_PATH_UNAVAILABLE :: u32 where
  "MODBUS_EXCEPTION_GATEWAY_PATH_UNAVAILABLE \<equiv> 0x0A"
abbreviation MODBUS_EXCEPTION_GATEWAY_TARGET_NO_RESPONSE :: u32 where
  "MODBUS_EXCEPTION_GATEWAY_TARGET_NO_RESPONSE \<equiv> 0x0B"

record modbus_tcp_request =
  client_id :: u32
  client_epoch :: u32
  rq_adu :: mbap_adu

text \<open>The two local buffers of \<open>modbus_tcp_submit\<close>: the RTU frame and the metadata words.\<close>

definition rtu_frame :: "mbap_adu \<Rightarrow> u8 list" where
  "rtu_frame a = (let rtu = unit_id a # pdu a in rtu @ crc_trailer (modbus_crc16 rtu))"

definition request_metadata :: "modbus_tcp_request \<Rightarrow> u32 list" where
  "request_metadata rq =
     [ucast (adu_transaction_id (rq_adu rq)),
      push_bit 8 (ucast (unit_id (rq_adu rq))) OR ucast (pdu (rq_adu rq) ! 0),
      client_epoch rq, 0]"

definition modbus_tcp_submit ::
  "('b, 'c) port_runtime \<Rightarrow> modbus_tcp_request option \<Rightarrow> tick \<Rightarrow> tick \<Rightarrow> tick \<Rightarrow>
   core_submit_result \<times> u32 option \<times> ('b, 'c) port_runtime"
where
  "modbus_tcp_submit p request now queue_timeout rsp_timeout =
     (case request of
        None \<Rightarrow> (CORE_INVALID_REQUEST, None, p)
      | Some rq \<Rightarrow>
          let n = length (pdu (rq_adu rq)) in
          if n = 0 \<or> n > MBAP_PDU_MAX then (CORE_INVALID_REQUEST, None, p)
          else if 1 + n + 2 > MODBUS_RTU_ADU_MAX then (CORE_INVALID_REQUEST, None, p)
          else port_runtime_submit_operation p (Some (rtu_frame (rq_adu rq))) MODBUS_OWNER_TCP
                 (client_id rq) (Some (request_metadata rq)) (Some framed_operation)
                 now queue_timeout rsp_timeout)"

text \<open>
  The frame probe the UART backend calls after each read. The second result is what it stored
  through \<open>frame_length\<close>, if it got that far.
\<close>

text \<open>The length an answer to \<open>function\<close> must have, or the verdict when it has none yet.\<close>

definition answer_length :: "u8 \<Rightarrow> u8 list \<Rightarrow> uart_frame_result + nat" where
  "answer_length function response =
     (if response ! 1 = function OR 0x80 then Inr 5
      else if response ! 1 \<noteq> function then Inl UART_FRAME_MALFORMED
      else if 1 \<le> function \<and> function \<le> 4 then
        if length response < 3 then Inl UART_FRAME_INCOMPLETE
        else let expected = 5 + unat (response ! 2) in
          if expected > MODBUS_RTU_ADU_MAX then Inl UART_FRAME_MALFORMED else Inr expected
      else if function = 5 \<or> function = 6 \<or> function = 15 \<or> function = 16 then Inr 8
      else Inl UART_FRAME_MALFORMED)"

definition check_frame :: "u8 list \<Rightarrow> nat \<Rightarrow> uart_frame_result" where
  "check_frame response expected =
     (if length response < expected then UART_FRAME_INCOMPLETE
      else if length response \<noteq> expected then UART_FRAME_MALFORMED
      else if modbus_crc16 (take (expected - 2) response) \<noteq>
              crc_of_trailer (response ! (expected - 2)) (response ! (expected - 1))
      then UART_FRAME_MALFORMED
      else UART_FRAME_COMPLETE)"

definition modbus_rtu_frame_probe :: uart_frame_probe_fn
where
  "modbus_rtu_frame_probe request response =
     (if length request < 4 \<or> length request > MODBUS_RTU_ADU_MAX \<or>
         length response > MODBUS_RTU_ADU_MAX then (UART_FRAME_MALFORMED, None)
      else if length response < 2 then (UART_FRAME_INCOMPLETE, None)
      else if response ! 0 \<noteq> request ! 0 then (UART_FRAME_MALFORMED, None)
      else case answer_length (request ! 1) response of
        Inl r \<Rightarrow> (r, None)
      | Inr expected \<Rightarrow> (check_frame response expected, Some expected))"

text \<open>Result code and the bytes stored in the output buffer of the given capacity.\<close>

definition modbus_tcp_build_response ::
  "core_transaction \<Rightarrow> u8 list \<Rightarrow> nat \<Rightarrow> int \<times> u8 list option"
where
  "modbus_tcp_build_response t rtu capacity =
     (let n = length rtu in
      if n < 4 \<or> n > MODBUS_RTU_ADU_MAX then (- 1, None)
      else if modbus_crc16 (take (n - 2) rtu) \<noteq> crc_of_trailer (rtu ! (n - 2)) (rtu ! (n - 1)) then (- 2, None)
      else
        let metadata = transport_metadata t ! 1 in
        if rtu ! 0 \<noteq> ucast (drop_bit 8 metadata) then (- 3, None)
        else if rtu ! 1 \<noteq> ucast (metadata AND 0xff) \<and> rtu ! 1 \<noteq> ucast ((metadata AND 0xff) OR 0x80)
        then (- 4, None)
        else
          let pdu_length = n - 3; length_field = 1 + pdu_length in
          if 7 + pdu_length > capacity then (- 5, None)
          else (0, Some ([ucast (drop_bit 8 (transport_metadata t ! 0)), ucast (transport_metadata t ! 0),
                          0, 0, of_nat (length_field div 256), of_nat length_field, rtu ! 0] @
                         take pdu_length (drop 1 rtu))))"

definition modbus_tcp_build_gateway_exception ::
  "core_transaction \<Rightarrow> u32 \<Rightarrow> nat \<Rightarrow> int \<times> u8 list option"
where
  "modbus_tcp_build_gateway_exception t code capacity =
     (if capacity < 9 \<or> (code \<noteq> MODBUS_EXCEPTION_GATEWAY_PATH_UNAVAILABLE \<and>
         code \<noteq> MODBUS_EXCEPTION_GATEWAY_TARGET_NO_RESPONSE) then (- 1, None)
      else
        let metadata = transport_metadata t ! 1 in
        (0, Some [ucast (drop_bit 8 (transport_metadata t ! 0)), ucast (transport_metadata t ! 0),
                  0, 0, 0, 3, ucast (drop_bit 8 metadata), ucast ((metadata AND 0xff) OR 0x80), ucast code]))"

section \<open>What the adapter hands to the port\<close>

lemma length_rtu_frame [simp]: "length (rtu_frame a) = length (pdu a) + 3"
  by (simp add: rtu_frame_def Let_def crc_trailer_def)

lemma rtu_frame_nth: "rtu_frame a ! 0 = unit_id a" "pdu a \<noteq> [] \<Longrightarrow> rtu_frame a ! 1 = pdu a ! 0"
  by (simp_all add: rtu_frame_def Let_def nth_append nth_Cons split: nat.split)

lemma adapter_submit:
  "adu_ok (rq_adu rq) \<Longrightarrow> modbus_tcp_submit p (Some rq) now qt rt =
     port_runtime_submit_operation p (Some (rtu_frame (rq_adu rq))) MODBUS_OWNER_TCP (client_id rq)
       (Some (request_metadata rq)) (Some framed_operation) now qt rt"
  by (auto simp: modbus_tcp_submit_def adu_ok_def Let_def)

lemma bit_u8: "bit (f :: u8) n \<Longrightarrow> n < 8"
  using bit_imp_le_length [of f n] by simp

lemma metadata_bytes:
  "ucast (drop_bit 8 (push_bit 8 (ucast u) OR ucast f :: u32)) = (u :: u8)"
  "ucast ((push_bit 8 (ucast u) OR ucast f :: u32) AND 0xff) = (f :: u8)"
  "ucast (((push_bit 8 (ucast u) OR ucast f :: u32) AND 0xff) OR 0x80) = (f OR 0x80 :: u8)"
proof -
  have m: "(0xff :: u32) = mask 8" by (simp add: mask_eq_exp_minus_1)
  show "ucast (drop_bit 8 (push_bit 8 (ucast u) OR ucast f :: u32)) = u"
    by (rule bit_eqI) (auto simp: bit_simps dest: bit_u8)
  show f: "ucast ((push_bit 8 (ucast u) OR ucast f :: u32) AND 0xff) = f"
    unfolding m by (rule bit_eqI) (auto simp: bit_simps)
  have "(ucast (x OR 0x80) :: u8) = ucast x OR 0x80" for x :: u32
    by (simp add: unsigned_or_eq)
  then show "ucast (((push_bit 8 (ucast u) OR ucast f :: u32) AND 0xff) OR 0x80) = f OR 0x80"
    using f by simp
qed

lemma metadata_unit: "ucast (drop_bit 8 (push_bit 8 (ucast u)) OR drop_bit 8 (ucast (f :: u8) :: u32)) = (u :: u8)"
  using metadata_bytes(1) [of u f] by simp

lemma ucast_transaction_id:
  "(ucast (ucast (t :: u16) :: u32) :: u8) = ucast t"
  "(ucast (drop_bit 8 (ucast t :: u32)) :: u8) = ucast (drop_bit 8 t)"
  by (rule bit_eqI, auto simp: bit_simps)+

section \<open>The frame probe\<close>

definition crc_ok :: "u8 list \<Rightarrow> bool" where
  "crc_ok r \<longleftrightarrow> modbus_crc16 (take (length r - 2) r) = crc_of_trailer (r ! (length r - 2)) (r ! (length r - 1))"

lemma answer_length_range: "answer_length f r = Inr e \<Longrightarrow> 5 \<le> e \<and> e \<le> MODBUS_RTU_ADU_MAX"
  by (auto simp: answer_length_def Let_def split: if_splits)

lemma answer_length_function: "answer_length f r = Inr e \<Longrightarrow> r ! 1 = f \<or> r ! 1 = f OR 0x80"
  by (auto simp: answer_length_def split: if_splits)

lemma check_frame_complete: "check_frame r e = UART_FRAME_COMPLETE \<longleftrightarrow> length r = e \<and> crc_ok r"
  by (auto simp: check_frame_def crc_ok_def)

lemma probe_complete_iff:
  "modbus_rtu_frame_probe request r = (UART_FRAME_COMPLETE, l) \<longleftrightarrow>
     4 \<le> length request \<and> length request \<le> MODBUS_RTU_ADU_MAX \<and> 2 \<le> length r \<and>
     length r \<le> MODBUS_RTU_ADU_MAX \<and> r ! 0 = request ! 0 \<and>
     answer_length (request ! 1) r = Inr (length r) \<and> l = Some (length r) \<and> crc_ok r"
proof (cases "answer_length (request ! 1) r")
  case (Inl a)
  moreover have "a \<noteq> UART_FRAME_COMPLETE"
    using Inl by (auto simp: answer_length_def Let_def split: if_splits)
  ultimately show ?thesis by (simp add: modbus_rtu_frame_probe_def)
next
  case (Inr e)
  then show ?thesis by (simp add: modbus_rtu_frame_probe_def check_frame_complete) (auto simp: not_less)
qed

lemma probe_complete:
  assumes "modbus_rtu_frame_probe request r = (UART_FRAME_COMPLETE, l)"
  shows "5 \<le> length r" "length r \<le> MODBUS_RTU_ADU_MAX" "r ! 0 = request ! 0"
    "r ! 1 = request ! 1 \<or> r ! 1 = request ! 1 OR 0x80" "crc_ok r"
  using assms answer_length_range [of "request ! 1" r "length r"] answer_length_function [of "request ! 1" r "length r"]
  by (auto simp: probe_complete_iff)

lemma answer_length_take:
  "answer_length f r = Inr e \<Longrightarrow> 2 \<le> k \<Longrightarrow> k \<le> length r \<Longrightarrow>
   answer_length f (take k r) = Inr e \<or> answer_length f (take k r) = Inl UART_FRAME_INCOMPLETE"
  by (auto simp: answer_length_def Let_def split: if_splits)

lemma probe_take:
  assumes "modbus_rtu_frame_probe request r = (UART_FRAME_COMPLETE, l)" "k < length r"
  shows "fst (modbus_rtu_frame_probe request (take k r)) = UART_FRAME_INCOMPLETE"
proof (cases "k < 2")
  case True
  then show ?thesis using assms by (simp add: probe_complete_iff) (simp add: modbus_rtu_frame_probe_def)
next
  case False
  have a: "answer_length (request ! 1) (take k r) = Inr (length r) \<or>
      answer_length (request ! 1) (take k r) = Inl UART_FRAME_INCOMPLETE"
    using answer_length_take [of "request ! 1" r "length r" k] assms False by (simp add: probe_complete_iff)
  have "check_frame (take k r) (length r) = UART_FRAME_INCOMPLETE" using assms(2) by (simp add: check_frame_def)
  then show ?thesis using a assms(2) False assms(1) [unfolded probe_complete_iff]
    by (auto simp: modbus_rtu_frame_probe_def)
qed

text \<open>What a slave may answer to a request: an exception, a counted read, or an eight-byte echo.\<close>

definition valid_answer :: "mbap_adu \<Rightarrow> mbap_adu \<Rightarrow> bool" where
  "valid_answer rq a \<longleftrightarrow> unit_id a = unit_id rq \<and>
     (let f = pdu rq ! 0 in
      (\<exists>code. pdu a = [f OR 0x80, code]) \<or>
      1 \<le> f \<and> f \<le> 4 \<and> (\<exists>n data. pdu a = f # n # data \<and> length data = unat n \<and> unat n \<le> 251) \<or>
      f \<in> {5, 6, 15, 16} \<and> length (pdu a) = 5 \<and> pdu a ! 0 = f)"

lemma rtu_frame_crc: "modbus_crc16 (take (length (pdu a) + 1) (rtu_frame a)) =
   crc_of_trailer (rtu_frame a ! (length (pdu a) + 1)) (rtu_frame a ! (length (pdu a) + 2))"
proof -
  have "take (length (pdu a) + 1) (rtu_frame a) = unit_id a # pdu a"
    by (simp add: rtu_frame_def Let_def)
  moreover have "rtu_frame a ! (length (pdu a) + 1) = crc_trailer (modbus_crc16 (unit_id a # pdu a)) ! 0"
    "rtu_frame a ! (length (pdu a) + 2) = crc_trailer (modbus_crc16 (unit_id a # pdu a)) ! 1"
    by (simp_all add: rtu_frame_def Let_def nth_append)
  ultimately show ?thesis by (simp add: crc_trailer_def crc_of_crc_trailer)
qed

lemma rtu_frame_pdu_nth: "i < length (pdu a) \<Longrightarrow> rtu_frame a ! (Suc i) = pdu a ! i"
  by (simp add: rtu_frame_def Let_def nth_append)

lemma rtu_frame_crc_ok: "crc_ok (rtu_frame a)"
  using rtu_frame_crc [of a] by (simp add: crc_ok_def)

lemma function_not_exception: "(f :: u8) < 0x80 \<Longrightarrow> f \<noteq> f OR 0x80"
proof
  assume "f < 0x80" "f = f OR 0x80"
  moreover have "bit (0x80 :: u8) 7" by simp
  ultimately have "bit f 7" by (metis bit_or_iff)
  then have "take_bit 7 f \<noteq> f" by (metis bit_take_bit_iff less_irrefl)
  then show False using \<open>f < 0x80\<close> by (simp add: word_less_nat_alt take_bit_eq_mod word_unat_eq_iff unat_mod)
qed

lemma probe_valid:
  assumes "adu_ok rq" "valid_answer rq a"
  shows "modbus_rtu_frame_probe (rtu_frame rq) (rtu_frame a) = (UART_FRAME_COMPLETE, Some (length (rtu_frame a)))"
proof -
  have rq: "pdu rq \<noteq> []" using assms(1) by (auto simp: adu_ok_def)
  have a: "pdu a \<noteq> []" "length (pdu a) \<le> 253" using assms(2) by (auto simp: valid_answer_def Let_def)
  note n = rtu_frame_nth(2) [OF rq] rtu_frame_nth(2) [OF a(1)]
  let ?f = "pdu rq ! 0"
  have "answer_length ?f (rtu_frame a) = Inr (length (rtu_frame a))"
  proof -
    from assms(2) consider (exception) code where "pdu a = [?f OR 0x80, code]"
      | (read) k data where "1 \<le> ?f" "?f \<le> 4" "pdu a = ?f # k # data" "length data = unat k" "unat k \<le> 251"
      | (echo) "?f \<in> {5, 6, 15, 16}" "length (pdu a) = 5" "pdu a ! 0 = ?f"
      by (auto simp: valid_answer_def Let_def)
    then show ?thesis
    proof cases
      case exception
      then show ?thesis using n by (simp add: answer_length_def)
    next
      case read
      have "rtu_frame a ! 2 = k" using rtu_frame_pdu_nth [of 1 a] read(3) by (simp add: numeral_2_eq_2)
      moreover have "?f < 0x80" using read(2) by (simp add: word_less_nat_alt word_le_nat_alt)
      ultimately show ?thesis using read n function_not_exception [of ?f] by (simp add: answer_length_def)
    next
      case echo
      then have "?f < 0x80" "\<not> (1 \<le> ?f \<and> ?f \<le> 4)" by auto
      then show ?thesis using echo n function_not_exception [of ?f] by (auto simp: answer_length_def)
    qed
  qed
  then show ?thesis
    using assms a n rtu_frame_nth(1) rtu_frame_crc_ok
    by (auto simp: probe_complete_iff valid_answer_def adu_ok_def)
qed

text \<open>A read of one register from unit 17 and its answer, used by the witnesses.\<close>

definition sample_request :: mbap_adu where
  "sample_request = \<lparr>adu_transaction_id = 0x1234, unit_id = 17, pdu = [3, 0, 107, 0, 1]\<rparr>"

definition sample_answer :: mbap_adu where
  "sample_answer = \<lparr>adu_transaction_id = 0x1234, unit_id = 17, pdu = [3, 2, 0xae, 0x41]\<rparr>"

lemma sample_valid: "adu_ok sample_request" "valid_answer sample_request sample_answer"
proof -
  show "adu_ok sample_request" by (simp add: adu_ok_def sample_request_def)
  have "pdu sample_answer = 3 # 2 # [0xae, 0x41]" "length [0xae, 0x41 :: u8] = unat (2 :: u8)"
    by (simp_all add: sample_answer_def)
  moreover have "pdu sample_request ! 0 = 3" "unit_id sample_answer = unit_id sample_request"
    by (simp_all add: sample_request_def sample_answer_def)
  ultimately show "valid_answer sample_request sample_answer"
    by (auto simp: valid_answer_def word_le_nat_alt intro: exI [of _ "2 :: u8"])
qed

lemma sample_probe:
  "modbus_rtu_frame_probe (rtu_frame sample_request) (rtu_frame sample_answer) = (UART_FRAME_COMPLETE, Some 7)"
  using probe_valid [of sample_request sample_answer] sample_valid by (simp add: sample_answer_def)

text \<open>
  Reading an answer byte by byte never misjudges it: if the probe accepts an answer as
  complete, it reports every proper prefix of that answer as incomplete, so no chunking of the
  serial input turns a good answer into a malformed one or cuts it short.
\<close>

theorem probe_waits_for_whole_answer:
  assumes "modbus_rtu_frame_probe request answer = (UART_FRAME_COMPLETE, l)"
  shows "list_all (\<lambda>k. fst (modbus_rtu_frame_probe request (take k answer)) = UART_FRAME_INCOMPLETE)
     [0..<length answer]"
  using probe_take [OF assms] by (simp add: list_all_iff)

theorem probe_waits_for_whole_answer_witness:
  "list_all (\<lambda>k. fst (modbus_rtu_frame_probe (rtu_frame sample_request) (take k (rtu_frame sample_answer))) =
     UART_FRAME_INCOMPLETE) [0..<length (rtu_frame sample_answer)]"
  by (rule probe_waits_for_whole_answer [OF sample_probe])

text \<open>
  The probe accepts every answer a slave may give to a request, an exception, a counted read
  or a write echo with a correct checksum, and reports its exact length.
\<close>

theorem probe_accepts_valid_answers:
  assumes "adu_ok rq" "valid_answer rq a"
  shows "modbus_rtu_frame_probe (rtu_frame rq) (rtu_frame a) = (UART_FRAME_COMPLETE, Some (length (rtu_frame a)))"
  using assms by (rule probe_valid)

theorem probe_accepts_valid_answers_witness:
  "modbus_rtu_frame_probe (rtu_frame sample_request) (rtu_frame sample_answer) =
     (UART_FRAME_COMPLETE, Some (length (rtu_frame sample_answer)))"
  by (rule probe_accepts_valid_answers [OF sample_valid])

section \<open>From the client to the line and back\<close>

text \<open>The transaction that carries a request through the port.\<close>

definition carries :: "core_transaction \<Rightarrow> modbus_tcp_request \<Rightarrow> bool" where
  "carries t rq \<longleftrightarrow> payload t = rtu_frame (rq_adu rq) \<and> transport_metadata t = request_metadata rq \<and>
     owner_id t = client_id rq \<and> owner_kind t = MODBUS_OWNER_TCP \<and> tx_operation t = framed_operation"

definition sample_tcp_request :: modbus_tcp_request where
  "sample_tcp_request = \<lparr>client_id = 4, client_epoch = 9, rq_adu = sample_request\<rparr>"

definition sample_transaction :: core_transaction where
  "sample_transaction = zero_transaction\<lparr>payload := rtu_frame sample_request,
     transport_metadata := request_metadata sample_tcp_request, owner_id := 4, owner_kind := 1,
     tx_operation := framed_operation\<rparr>"

lemma sample_carries: "carries sample_transaction sample_tcp_request" "adu_ok (rq_adu sample_tcp_request)"
  by (simp_all add: carries_def sample_transaction_def sample_tcp_request_def adu_ok_def sample_request_def)

text \<open>
  What the adapter queues for an ADU: when the port accepts a request, the transaction at the end of
  the queue carries the unit, the PDU and a valid checksum as its payload and the client's
  identifiers in its metadata.
\<close>

theorem submit_carries_request:
  assumes "port_inv p" "modbus_tcp_submit p (Some rq) now qt rt = (CORE_ACCEPTED, i, p')"
  shows "\<exists>t. queue_items (pr_queue p') = queue_items (pr_queue p) @ [t] \<and> carries t rq \<and>
     crc_ok (payload t) \<and> i = Some (tx_id t)"
proof -
  have wf: "queue_wf (pr_queue p)" using assms(1) by (simp add: port_inv_def queue_ok_def)
  let ?t = "new_transaction p (rtu_frame (rq_adu rq)) MODBUS_OWNER_TCP (client_id rq)
    (Some (request_metadata rq)) framed_operation now qt rt"
  have "port_runtime_submit_operation p (Some (rtu_frame (rq_adu rq))) MODBUS_OWNER_TCP (client_id rq)
      (Some (request_metadata rq)) (Some framed_operation) now qt rt = (CORE_ACCEPTED, i, p')"
    using assms(2) by (auto simp: modbus_tcp_submit_def Let_def split: if_splits)
  then obtain q where q: "queue_push (pr_queue p) ?t = Some q" "pr_queue p' = q" "i = Some (tx_id ?t)"
    by (auto simp: port_runtime_submit_operation_def Let_def split: if_splits option.splits)
  moreover have "carries ?t rq"
    by (simp add: carries_def new_transaction_def request_metadata_def)
  ultimately show ?thesis
    using queue_push_items [OF wf q(1)] rtu_frame_crc_ok by (auto simp: carries_def)
qed

text \<open>A port that is READY with an empty queue.\<close>

definition idle_port :: "(mock_backend, completion_log) port_runtime" where
  "idle_port = snd (port_run (take 2 sample_ops) (sample_port []))"

lemma idle_port_ok: "port_inv idle_port" "pr_state idle_port = PORT_READY" "queue_items (pr_queue idle_port) = []"
proof -
  show "port_inv idle_port" by (simp add: idle_port_def sample_port_def run_inv)
  show "pr_state idle_port = PORT_READY" by code_simp
  have "q_count (pr_queue idle_port) = 0" by code_simp
  then show "queue_items (pr_queue idle_port) = []" by simp
qed

lemma idle_accepts:
  assumes "adu_ok (rq_adu rq)"
  shows "fst (modbus_tcp_submit idle_port (Some rq) 2 100 50) = CORE_ACCEPTED"
proof -
  let ?t = "new_transaction idle_port (rtu_frame (rq_adu rq)) MODBUS_OWNER_TCP (client_id rq)
    (Some (request_metadata rq)) framed_operation 2 100 50"
  have wf: "queue_wf (pr_queue idle_port)" using idle_port_ok(1) by (simp add: port_inv_def queue_ok_def)
  have "payload ?t = rtu_frame (rq_adu rq)" by (simp add: new_transaction_def)
  then have "queue_fits (queue_items (pr_queue idle_port)) ?t"
    using assms unfolding idle_port_ok(3) by (simp add: queue_fits_def adu_ok_def)
  then obtain q where "queue_push (pr_queue idle_port) ?t = Some q" using txq.push_Some [OF wf] by blast
  moreover have "operation_valid (Some framed_operation)" "core_ticks_valid_interval 100"
    "core_ticks_valid_interval 50" by (simp_all add: operation_valid_def framed_operation_def core_ticks_valid_interval_def)
  moreover have "rtu_frame (rq_adu rq) \<noteq> []" "length (rtu_frame (rq_adu rq)) \<le> 256"
    using assms by (simp_all add: adu_ok_def rtu_frame_def Let_def crc_trailer_def)
  ultimately show ?thesis
    using idle_port_ok(2) by (simp add: adapter_submit [OF assms] port_runtime_submit_operation_def Let_def)
qed

theorem submit_carries_request_witness:
  "let (r, i, p') = modbus_tcp_submit idle_port (Some sample_tcp_request) 2 100 50
   in \<exists>t. queue_items (pr_queue p') = queue_items (pr_queue idle_port) @ [t] \<and> carries t sample_tcp_request \<and>
     crc_ok (payload t) \<and> i = Some (tx_id t)"
proof -
  obtain r i p' where s: "modbus_tcp_submit idle_port (Some sample_tcp_request) 2 100 50 = (r, i, p')"
    by (cases "modbus_tcp_submit idle_port (Some sample_tcp_request) 2 100 50") auto
  moreover have "r = CORE_ACCEPTED" using idle_accepts [OF sample_carries(2)] s by simp
  ultimately show ?thesis
    using submit_carries_request [OF idle_port_ok(1), of sample_tcp_request 2 100 50 i p'] by (simp only: Let_def split_conv)
qed

lemma carries_metadata:
  assumes "carries t rq"
  shows "transport_metadata t ! 0 = ucast (adu_transaction_id (rq_adu rq))"
    "transport_metadata t ! Suc 0 = push_bit 8 (ucast (unit_id (rq_adu rq))) OR ucast (pdu (rq_adu rq) ! 0)"
  using assms by (simp_all add: carries_def request_metadata_def)

lemma build_response_ok:
  assumes "carries t rq" "adu_ok (rq_adu rq)" "crc_ok rtu" "5 \<le> length rtu" "length rtu \<le> 256"
    "rtu ! 0 = unit_id (rq_adu rq)" "rtu ! 1 = pdu (rq_adu rq) ! 0 \<or> rtu ! 1 = pdu (rq_adu rq) ! 0 OR 0x80"
    "length rtu + 4 \<le> capacity"
  shows "modbus_tcp_build_response t rtu capacity =
    (0, Some (mbap_encode \<lparr>adu_transaction_id = adu_transaction_id (rq_adu rq), unit_id = rtu ! 0,
                           pdu = take (length rtu - 3) (drop 1 rtu)\<rparr>))"
proof -
  note m = carries_metadata [OF assms(1)]
  have "length rtu - 3 = length (take (length rtu - 3) (drop 1 rtu))" using assms(4) by simp
  then show ?thesis
    using assms by (simp add: modbus_tcp_build_response_def Let_def m metadata_unit metadata_bytes ucast_transaction_id crc_ok_def mbap_encode_def)
qed

lemma accepted_answer_parses:
  assumes "carries t rq" "adu_ok (rq_adu rq)" "260 \<le> capacity"
    "modbus_rtu_frame_probe (payload t) rtu = (UART_FRAME_COMPLETE, l)"
  shows "\<exists>out a. modbus_tcp_build_response t rtu capacity = (0, Some out) \<and>
     mbap_split out = ([a], [], True) \<and>
     adu_transaction_id a = adu_transaction_id (rq_adu rq) \<and> unit_id a = unit_id (rq_adu rq) \<and>
     pdu a = take (length rtu - 3) (drop 1 rtu) \<and>
     pdu a ! 0 \<in> {pdu (rq_adu rq) ! 0, pdu (rq_adu rq) ! 0 OR 0x80}"
proof -
  have ne: "pdu (rq_adu rq) \<noteq> []" using assms(2) by (auto simp: adu_ok_def)
  note c = probe_complete [OF assms(4)]
  have r: "rtu ! 0 = unit_id (rq_adu rq)"
    "rtu ! 1 = pdu (rq_adu rq) ! 0 \<or> rtu ! 1 = pdu (rq_adu rq) ! 0 OR 0x80"
    using c(3,4) assms(1) rtu_frame_nth(1) rtu_frame_nth(2) [OF ne] by (auto simp: carries_def)
  let ?a = "\<lparr>adu_transaction_id = adu_transaction_id (rq_adu rq), unit_id = rtu ! 0,
             pdu = take (length rtu - 3) (drop 1 rtu)\<rparr>"
  have b: "modbus_tcp_build_response t rtu capacity = (0, Some (mbap_encode ?a))"
    using build_response_ok [OF assms(1,2) c(5,1,2) r] c(2) assms(3) by simp
  have "adu_ok ?a" using c by (auto simp: adu_ok_def)
  then have s: "mbap_split (mbap_encode ?a) = ([?a], [], True)"
    using split_encoded [of ?a "[]"] by (simp add: split_short)
  have "pdu ?a ! 0 = rtu ! 1" using c(1) by simp
  then show ?thesis using b s r by (intro exI [of _ "mbap_encode ?a"] exI [of _ ?a]) auto
qed

text \<open>
  Request and answer are paired end to end: for a transaction that carries a client's request,
  any RTU answer the frame probe accepts is turned into bytes that parse as exactly one ADU, with the
  client's own transaction identifier, the addressed unit, and the slave's PDU, which
  answers the requested function or is its exception.
\<close>

theorem answer_reaches_client:
  assumes "carries t rq" "adu_ok (rq_adu rq)" "260 \<le> capacity"
    "modbus_rtu_frame_probe (payload t) rtu = (UART_FRAME_COMPLETE, l)"
  shows "\<exists>out a. modbus_tcp_build_response t rtu capacity = (0, Some out) \<and>
     mbap_split out = ([a], [], True) \<and>
     adu_transaction_id a = adu_transaction_id (rq_adu rq) \<and> unit_id a = unit_id (rq_adu rq) \<and>
     pdu a = take (length rtu - 3) (drop 1 rtu) \<and>
     pdu a ! 0 \<in> {pdu (rq_adu rq) ! 0, pdu (rq_adu rq) ! 0 OR 0x80}"
  using assms by (rule accepted_answer_parses)

theorem answer_reaches_client_witness:
  "\<exists>out a. modbus_tcp_build_response sample_transaction (rtu_frame sample_answer) 260 = (0, Some out) \<and>
     mbap_split out = ([a], [], True) \<and>
     adu_transaction_id a = adu_transaction_id (rq_adu sample_tcp_request) \<and>
     unit_id a = unit_id (rq_adu sample_tcp_request) \<and>
     pdu a = take (length (rtu_frame sample_answer) - 3) (drop 1 (rtu_frame sample_answer)) \<and>
     pdu a ! 0 \<in> {pdu (rq_adu sample_tcp_request) ! 0, pdu (rq_adu sample_tcp_request) ! 0 OR 0x80}"
proof -
  have "modbus_rtu_frame_probe (payload sample_transaction) (rtu_frame sample_answer) = (UART_FRAME_COMPLETE, Some 7)"
    using sample_probe by (simp add: sample_transaction_def)
  then show ?thesis by (rule answer_reaches_client [OF sample_carries order_refl])
qed

text \<open>
  A gateway exception is a well-formed answer: for a transaction that carries a client's
  request the nine bytes parse as one ADU with the client's transaction identifier and unit, whose
  PDU is the requested function with the exception bit and the code.
\<close>

theorem exception_reaches_client:
  assumes "carries t rq" "9 \<le> capacity" "code \<in> {0x0A, 0x0B}"
  shows "\<exists>out. modbus_tcp_build_gateway_exception t code capacity = (0, Some out) \<and>
     mbap_split out = ([\<lparr>adu_transaction_id = adu_transaction_id (rq_adu rq), unit_id = unit_id (rq_adu rq),
                         pdu = [pdu (rq_adu rq) ! 0 OR 0x80, ucast code]\<rparr>], [], True)"
proof -
  note m = carries_metadata [OF assms(1)]
  let ?a = "\<lparr>adu_transaction_id = adu_transaction_id (rq_adu rq), unit_id = unit_id (rq_adu rq),
             pdu = [pdu (rq_adu rq) ! 0 OR 0x80, ucast code]\<rparr>"
  have "modbus_tcp_build_gateway_exception t code capacity = (0, Some (mbap_encode ?a))"
    using assms(2,3)
    by (auto simp: modbus_tcp_build_gateway_exception_def Let_def m metadata_unit metadata_bytes ucast_transaction_id mbap_encode_def)
  moreover have "mbap_split (mbap_encode ?a) = ([?a], [], True)"
    using split_encoded [of ?a "[]"] by (simp add: adu_ok_def split_short)
  ultimately show ?thesis by auto
qed

theorem exception_reaches_client_witness:
  "\<exists>out. modbus_tcp_build_gateway_exception sample_transaction 0x0B 260 = (0, Some out) \<and>
     mbap_split out = ([\<lparr>adu_transaction_id = adu_transaction_id (rq_adu sample_tcp_request),
        unit_id = unit_id (rq_adu sample_tcp_request),
        pdu = [pdu (rq_adu sample_tcp_request) ! 0 OR 0x80, ucast (0x0B :: u32)]\<rparr>], [], True)"
  by (rule exception_reaches_client [OF sample_carries(1)]) simp_all

end
