(* ===== verification/Modbus_Serial.thy ===== *)
theory Modbus_Serial
  imports Modbus_Adapter
begin

text \<open>
  The Modbus adapter on top of the serial backend: with \<open>modbus_rtu_frame_probe\<close> installed, the
  answer the backend reports for a client's request is one the adapter can hand back.
\<close>

section \<open>What polling leaves alone\<close>

definition exchange :: "'w uart_backend \<Rightarrow> u8 list \<times> nat \<times> core_operation \<times> uart_frame_probe_fn option \<times> u32" where
  "exchange u = (tx u, tx_length u, ub_operation u, frame_probe u, active_generation u)"

lemma exchange_update [simp]:
  "exchange (u\<lparr>ub_stats := s\<rparr>) = exchange u" "exchange (u\<lparr>world := w\<rparr>) = exchange u"
  "exchange (u\<lparr>transmit_reported := b\<rparr>) = exchange u" "exchange (u\<lparr>rx := bs\<rparr>) = exchange u"
  "exchange (u\<lparr>tx_offset := n\<rparr>) = exchange u" "exchange (u\<lparr>tx_completed_at := c\<rparr>) = exchange u"
  "exchange (u\<lparr>tx_completed_us := us\<rparr>) = exchange u"
  by (simp_all add: exchange_def)

lemma exchange_transmit:
  assumes "poll_transmit u now = (r, e, u')"
  shows "exchange u' = exchange u"
  using assms
proof (cases rule: poll_transmit_cases)
  case (1 b k v)
  obtain w where v: "v = (count_stat write_calls_update u)\<lparr>world := w\<rparr>" using sys_write_keep [OF 1(2)] by blast
  show ?thesis
  proof (cases "k > 0")
    case True
    obtain s w' c us where "account_sent v now b (nat k) = v\<lparr>ub_stats := s, world := w',
        tx_offset := tx_offset v + nat k, tx_completed_at := c, tx_completed_us := us\<rparr>"
      using account_sent_keep [of v] by blast
    then show ?thesis using 1(3) True by (simp add: v)
  next
    case False
    then show ?thesis using 1(4) by (auto simp: v)
  qed
qed

lemma exchange_receive:
  assumes "poll_receive u now = (r, e, u')"
  shows "exchange u' = exchange u"
  using assms
proof (cases rule: poll_receive_cases)
  case (data k b err bytes v s)
  obtain s' w where "v = u\<lparr>ub_stats := s', world := w\<rparr>" using receive_read_keep [OF data(1)] by blast
  then show ?thesis using data(3) by simp
qed simp

lemma exchange_poll: "exchange (snd (snd (uart_poll u now))) = exchange u"
proof -
  obtain r e u' where p: "uart_poll u now = (r, e, u')" by (cases "uart_poll u now") auto
  from p have "exchange u' = exchange u"
    by (cases rule: uart_poll_cases) (auto intro: exchange_transmit exchange_receive)
  then show ?thesis using p by simp
qed

lemma exchange_polls: "exchange (uart_polls u ts) = exchange u"
  by (induction ts rule: rev_induct) (simp_all add: uart_polls_def exchange_poll)

section \<open>The answer to a client's request\<close>

lemma serial_answer_framed:
  assumes "uart_start u t now = (0, u0)" "frame_probe u = Some modbus_rtu_frame_probe"
    "carries t rq" "uart_poll (uart_polls u0 ts) later = (r, e, u')" "ev_type e = BACKEND_EVENT_RESPONSE"
  shows "\<exists>l. modbus_rtu_frame_probe (payload t) (ev_data e) = (UART_FRAME_COMPLETE, l)"
proof -
  let ?u = "uart_polls u0 ts"
  have op: "tx_operation t = framed_operation" using assms(3) by (simp add: carries_def)
  have "exchange u0 = (payload t, length (payload t), framed_operation, Some modbus_rtu_frame_probe, tx_generation t)"
    using assms(1,2) op by (auto simp: uart_start_def exchange_def framed_operation_def Let_def split: if_splits)
  then have x: "exchange ?u = (payload t, length (payload t), framed_operation, Some modbus_rtu_frame_probe, tx_generation t)"
    by (simp add: exchange_polls)
  have "answers_operation ?u (ev_data e)"
    using assms(4)
  proof (cases rule: uart_poll_cases)
    case receive
    then show ?thesis using receive_response assms(5) by blast
  next
    case transmit
    then show ?thesis using transmit_no_response assms(5) by blast
  next
    case sent
    then show ?thesis using x by (simp add: exchange_def framed_operation_def)
  qed (use assms(5) in \<open>auto simp: zero_event_def uart_event_def\<close>)
  then show ?thesis using x by (auto simp: answers_operation_def exchange_def framed_operation_def)
qed

text \<open>
  C8. Over the serial line a client gets the answer to its own question: whatever the device does
  while the request of a client is written and its answer collected, if the backend reports a response,
  the adapter turns its bytes into one ADU with the client's transaction identifier, the unit
  that was addressed, and the requested function or its exception.
\<close>

theorem serial_answer_reaches_client:
  assumes "uart_start u t now = (0, u0)" "frame_probe u = Some modbus_rtu_frame_probe"
    "carries t rq" "adu_ok (rq_adu rq)"
    "uart_poll (uart_polls u0 ts) later = (r, e, u')" "ev_type e = BACKEND_EVENT_RESPONSE"
  shows "\<exists>out a. modbus_tcp_build_response t (ev_data e) 260 = (0, Some out) \<and>
     mbap_split out = ([a], [], True) \<and>
     adu_transaction_id a = adu_transaction_id (rq_adu rq) \<and> unit_id a = unit_id (rq_adu rq) \<and>
     pdu a ! 0 \<in> {pdu (rq_adu rq) ! 0, pdu (rq_adu rq) ! 0 OR 0x80}"
proof -
  obtain l where "modbus_rtu_frame_probe (payload t) (ev_data e) = (UART_FRAME_COMPLETE, l)"
    using serial_answer_framed [OF assms(1-3,5,6)] by blast
  from accepted_answer_parses [OF assms(3,4) order_refl this] show ?thesis by blast
qed

text \<open>
  A device for the witness: it takes every write whole and answers a read with the bytes it holds.
\<close>

definition prompt :: "u8 list uart_syscalls" where
  "prompt =
     \<lparr>open_fn = (\<lambda>w path flags. (3, w)), close_fn = (\<lambda>w f. (0, w)),
      read_fn = (\<lambda>w f n. (int (length w), w, w)), write_fn = (\<lambda>w f bs. (int (length bs), w)),
      ioctl_fn = (\<lambda>w f rq v. (0, 0, w)), tcgetattr_fn = (\<lambda>w f v. (0, v, w)),
      tcsetattr_fn = (\<lambda>w f act v. (0, w)), tcflush_fn = (\<lambda>w f sel. (0, w)),
      last_error_fn = (\<lambda>w. (EAGAIN, w))\<rparr>"

lemma prompt_write:
  assumes "sys u = prompt" "trace_clock u = None" "0 \<le> fd u" "active_generation u \<noteq> 0"
    "tx_offset u = 0" "0 < tx_length u" "tx_length u < 64" "tx_length u = length (tx u)"
  shows "\<exists>s w c us. snd (snd (uart_poll u now)) = u\<lparr>ub_stats := s, world := world u, tx_offset := tx_length u,
    tx_completed_at := c, tx_completed_us := us\<rparr>"
proof -
  let ?v = "count_stat write_calls_update u"
  have w: "sys_write ?v (tx u) = (int (length (tx u)), ?v)"
    using assms(1) by (simp add: sys_write_def prompt_def)
  have "uart_poll u now = (0, zero_event, account_sent ?v now (tx_length u) (tx_length u))"
    using assms w by (simp add: uart_poll_def poll_transmit_def Let_def)
  moreover obtain s w c us where "account_sent ?v now (tx_length u) (tx_length u) = ?v\<lparr>ub_stats := s, world := w,
      tx_offset := tx_offset ?v + tx_length u, tx_completed_at := c, tx_completed_us := us\<rparr>" "w = world ?v"
    using account_sent_keep [of ?v] assms(2) by fastforce
  ultimately show ?thesis using assms(5) by auto
qed

lemma prompt_read:
  assumes "sys u = prompt" "world u = bs" "read_trace u = None" "0 \<le> fd u" "active_generation u \<noteq> 0"
    "tx_offset u = tx_length u" "direction (ub_operation u) = CORE_OPERATION_TX_THEN_RX" "transmit_reported u"
    "rx u = []" "bs \<noteq> []" "length bs < 64" "response_policy (ub_operation u) = CORE_RESPONSE_BACKEND_FRAMED"
    "frame_probe u = Some probe" "probe (take (tx_length u) (tx u)) bs = (UART_FRAME_COMPLETE, Some (length bs))"
  shows "ev_type (fst (snd (uart_poll u now))) = BACKEND_EVENT_RESPONSE \<and> ev_data (fst (snd (uart_poll u now))) = bs"
proof -
  let ?v = "count_stat read_calls_update u"
  have rd: "receive_read u now 64 = (int (length bs), 0, bs, ?v)"
    using assms(1,2,3) by (simp add: receive_read_def sys_read_def read_error_def trace_read_def prompt_def)
  obtain s where st: "store_bytes ?v 64 (length bs) bs = ?v\<lparr>ub_stats := s, rx := rx ?v @ take (length bs) bs\<rparr>"
    using store_bytes_keep [of ?v] by blast
  have "received_event (?v\<lparr>ub_stats := s, rx := bs\<rparr>) = Some (uart_event u BACKEND_EVENT_RESPONSE bs)"
    using assms by (simp add: received_event_def uart_event_def)
  then have "uart_poll u now = (1, uart_event u BACKEND_EVENT_RESPONSE bs, ?v\<lparr>ub_stats := s, rx := bs\<rparr>)"
    using assms st rd by (simp add: uart_poll_def poll_receive_def)
  then show ?thesis by (simp add: uart_event_def)
qed

definition sample_serial :: "u8 list uart_backend" where
  "sample_serial = uart_backend_set_frame_probe (opened_uart prompt (rtu_frame sample_answer)) (Some modbus_rtu_frame_probe)"

definition sample_started :: core_transaction where
  "sample_started = sample_transaction\<lparr>tx_generation := 1\<rparr>"


lemma prompt_calls:
  assumes "sys u = prompt"
  shows "sys_open u = (3, u)" "sys_close u = (0, u)" "sys_ioctl u rq v = (0, 0, u)"
    "sys_tcgetattr u t = (0, t, u)" "sys_tcsetattr u t = (0, u)"
  using assms by (simp_all add: sys_open_def sys_close_def sys_ioctl_def sys_tcgetattr_def sys_tcsetattr_def prompt_def)

lemma prompt_config:
  assumes "sys u = prompt" "0 \<le> fd u" "uart_config_validate (Some c) = 0" "cc_special_baud_enabled c = 0"
  shows "apply_config u (Some c) = (0, u\<lparr>ub_config := c, configured := True\<rparr>)"
  using assms by (simp add: apply_config_def prompt_calls cfsetispeed_def cfsetospeed_def Let_def)

lemma prompt_open:
  assumes "sys u = prompt" "fd u < 0" "uart_config_validate (Some (ub_config u)) = 0"
    "cc_special_baud_enabled (ub_config u) = 0"
  shows "fd (snd (uart_open u now)) = 3 \<and> world (snd (uart_open u now)) = world u"
  using assms by (simp add: uart_open_def prompt_calls prompt_config zero_termios_def Let_def)

lemma opened_prompt: "fd (opened_uart prompt w) = 3" "world (opened_uart prompt w) = w"
proof -
  obtain u where i: "uart_backend_init 0 (Some sample_config) (Some prompt) w = (0, Some u)"
    and u: "sys u = prompt" "fd u < 0" "ub_config u = sample_config" "world u = w"
    by (simp add: uart_backend_init_def uart_config_validate_def sample_config_def standard_speed_def)
  have "uart_config_validate (Some sample_config) = 0" "cc_special_baud_enabled sample_config = 0"
    by (simp_all add: uart_config_validate_def sample_config_def standard_speed_def)
  then show "fd (opened_uart prompt w) = 3" "world (opened_uart prompt w) = w"
    using prompt_open [OF u(1,2)] u by (simp_all add: opened_uart_def i)
qed

lemma sample_serial_hooks:
  "sys sample_serial = prompt" "trace_clock sample_serial = None" "read_trace sample_serial = None"
  "fd sample_serial = 3" "world sample_serial = rtu_frame sample_answer"
  "frame_probe sample_serial = Some modbus_rtu_frame_probe"
  using opened_uart_keep [of prompt "rtu_frame sample_answer"] opened_prompt
  by (auto simp: sample_serial_def uart_backend_set_frame_probe_def)

lemma sample_serial_starts:
  "uart_start sample_serial sample_started 0 = (0, snd (uart_start sample_serial sample_started 0))"
  using sample_serial_hooks
  by (simp add: uart_start_def sample_started_def sample_transaction_def framed_operation_def Let_def)

theorem serial_answer_reaches_client_witness:
  "\<exists>e out a. fst (snd (uart_poll (uart_polls (snd (uart_start sample_serial sample_started 0)) [1, 2]) 3)) = e \<and>
     modbus_tcp_build_response sample_started (ev_data e) 260 = (0, Some out) \<and> mbap_split out = ([a], [], True) \<and>
     adu_transaction_id a = adu_transaction_id (rq_adu sample_tcp_request) \<and>
     unit_id a = unit_id (rq_adu sample_tcp_request) \<and>
     pdu a ! 0 \<in> {pdu (rq_adu sample_tcp_request) ! 0, pdu (rq_adu sample_tcp_request) ! 0 OR 0x80}"
proof -
  let ?u = "snd (uart_start sample_serial sample_started 0)"
  let ?rq = "rtu_frame sample_request" and ?a = "rtu_frame sample_answer"
  have len: "length ?rq = 8" "length ?a = 7" "?a \<noteq> []"
    by (simp_all add: rtu_frame_def Let_def crc_trailer_def sample_request_def sample_answer_def)
  have u: "tx ?u = ?rq" "tx_length ?u = 8" "tx_offset ?u = 0" "rx ?u = []" "active_generation ?u = 1"
    "ub_operation ?u = framed_operation" "sys ?u = prompt" "trace_clock ?u = None" "read_trace ?u = None" "fd ?u = 3"
    "world ?u = ?a" "frame_probe ?u = Some modbus_rtu_frame_probe" "transmit_reported ?u = False"
    using sample_serial_hooks len
    by (simp_all add: uart_start_def sample_started_def sample_transaction_def framed_operation_def Let_def)
  obtain s w c us where v: "snd (snd (uart_poll ?u 1)) = ?u\<lparr>ub_stats := s, world := world ?u, tx_offset := tx_length ?u,
      tx_completed_at := c, tx_completed_us := us\<rparr>"
    using prompt_write [of ?u 1] u len by auto
  let ?v = "snd (snd (uart_poll ?u 1))"
  have polls: "uart_polls ?u [1, 2] = ?v\<lparr>transmit_reported := True\<rparr>"
    using u by (simp add: uart_polls_def v uart_poll_def [of _ 2] framed_operation_def Let_def)
  let ?x = "uart_polls ?u [1, 2]"
  have "ev_type (fst (snd (uart_poll ?x 3))) = BACKEND_EVENT_RESPONSE \<and> ev_data (fst (snd (uart_poll ?x 3))) = ?a"
    unfolding polls v using u len sample_probe by (intro prompt_read [where probe = modbus_rtu_frame_probe]) (auto simp: framed_operation_def)
  moreover obtain r e u' where p: "uart_poll ?x 3 = (r, e, u')" by (cases "uart_poll ?x 3") auto
  ultimately have e: "ev_type e = BACKEND_EVENT_RESPONSE" by simp
  have c: "carries sample_started sample_tcp_request"
    using sample_carries(1) by (simp add: carries_def sample_started_def)
  show ?thesis
    using serial_answer_reaches_client [OF sample_serial_starts sample_serial_hooks(6) c sample_carries(2) p e]
    by (simp add: p)
qed

end
