(* ===== verification/Network_Settings.thy ===== *)
theory Network_Settings
  imports Deadline
begin

text \<open>
  The network settings of \<open>src/network/gateway_network_settings.c\<close>: the bounded parser and the
  printer of dotted quads, and the validation of the two LAN configurations. A \<open>char[16]\<close> field is
  the list of its sixteen characters, the terminating NUL and what follows it included.
\<close>

abbreviation GATEWAY_LAN_COUNT :: nat where "GATEWAY_LAN_COUNT \<equiv> 2"
abbreviation GATEWAY_IPV4_TEXT_MAX :: nat where "GATEWAY_IPV4_TEXT_MAX \<equiv> 16"
abbreviation NUL :: char where "NUL \<equiv> CHR 0x00"

datatype gateway_lan_mode = GATEWAY_LAN_STATIC | GATEWAY_LAN_DHCP_CLIENT

record gateway_lan_settings =
  lan_mode :: gateway_lan_mode
  lan_address :: string
  lan_netmask :: string
  lan_gateway :: string

record gateway_network_settings =
  lan :: "gateway_lan_settings list"
  default_lan :: u32
  automatic_dns :: u32
  dns_lan :: u32
  ns_dns :: "string list"

datatype gateway_network_settings_result =
  GATEWAY_NETWORK_SETTINGS_OK | GATEWAY_NETWORK_SETTINGS_INVALID | GATEWAY_NETWORK_SETTINGS_ADDRESS
| GATEWAY_NETWORK_SETTINGS_MASK | GATEWAY_NETWORK_SETTINGS_GATEWAY | GATEWAY_NETWORK_SETTINGS_OVERLAP
| GATEWAY_NETWORK_SETTINGS_DNS

definition zero_text :: string where
  "zero_text = replicate GATEWAY_IPV4_TEXT_MAX NUL"

definition gateway_network_settings_init :: gateway_network_settings where
  "gateway_network_settings_init =
     \<lparr>lan = replicate GATEWAY_LAN_COUNT \<lparr>lan_mode = GATEWAY_LAN_STATIC, lan_address = zero_text,
        lan_netmask = zero_text, lan_gateway = zero_text\<rparr>,
      default_lan = 0, automatic_dns = 0, dns_lan = 0, ns_dns = replicate 2 zero_text\<rparr>"

section \<open>Dotted quads\<close>

definition digit_value :: "char \<Rightarrow> nat" where
  "digit_value c = of_char c - 48"

definition is_digit :: "char \<Rightarrow> bool" where
  "is_digit c \<longleftrightarrow> 48 \<le> (of_char c :: nat) \<and> (of_char c :: nat) \<le> 57"

text \<open>The inner loop of the parser: the position, the number read and how many digits it had.\<close>

function scan_octet :: "string \<Rightarrow> nat \<Rightarrow> nat \<Rightarrow> nat \<Rightarrow> (nat \<times> nat \<times> nat) option" where
  "scan_octet buf pos n digits =
     (if pos < GATEWAY_IPV4_TEXT_MAX \<and> is_digit (buf ! pos) then
        let n' = n * 10 + digit_value (buf ! pos) in
        if digits + 1 > 3 \<or> n' > 255 then None else scan_octet buf (pos + 1) n' (digits + 1)
      else Some (pos, n, digits))"
  by pat_completeness auto
termination
  by (relation "measure (\<lambda>(buf, pos, n, digits). GATEWAY_IPV4_TEXT_MAX - pos)") (auto simp: Let_def)

declare scan_octet.simps [simp del]

text \<open>One of the four parts; position and value so far go in and come out.\<close>

definition parse_part :: "string \<Rightarrow> nat \<Rightarrow> nat \<times> u32 \<Rightarrow> (nat \<times> u32) option" where
  "parse_part buf part s =
     (case s of (start, result) \<Rightarrow>
        case scan_octet buf start 0 0 of
          None \<Rightarrow> None
        | Some (pos, n, digits) \<Rightarrow>
            if digits = 0 \<or> (digits > 1 \<and> buf ! start = CHR ''0'') \<or> pos \<ge> GATEWAY_IPV4_TEXT_MAX then None
            else
              let result = push_bit 8 result OR of_nat n in
              if part < 3 then (if buf ! pos \<noteq> CHR ''.'' then None else Some (pos + 1, result))
              else if buf ! pos \<noteq> NUL then None else Some (pos, result))"

fun parse_parts :: "string \<Rightarrow> nat list \<Rightarrow> nat \<times> u32 \<Rightarrow> (nat \<times> u32) option" where
  "parse_parts buf [] s = Some s"
| "parse_parts buf (part # parts) s =
     (case parse_part buf part s of None \<Rightarrow> None | Some s' \<Rightarrow> parse_parts buf parts s')"

definition gateway_ipv4_parse :: "string \<Rightarrow> u32 option" where
  "gateway_ipv4_parse buf = map_option snd (parse_parts buf [0..<4] (0, 0))"

text \<open>Printing with \<open>%lu\<close>, and into a buffer of sixteen characters.\<close>

fun decimal :: "nat \<Rightarrow> string" where
  "decimal n = (if n < 10 then [char_of (48 + n)] else decimal (n div 10) @ [char_of (48 + n mod 10)])"

declare decimal.simps [simp del]

definition dotted :: "u32 \<Rightarrow> string" where
  "dotted a = decimal (unat (drop_bit 24 a AND 255)) @ ''.'' @ decimal (unat (drop_bit 16 a AND 255)) @ ''.'' @
     decimal (unat (drop_bit 8 a AND 255)) @ ''.'' @ decimal (unat (a AND 255))"

definition gateway_ipv4_format :: "u32 \<Rightarrow> string \<Rightarrow> string" where
  "gateway_ipv4_format a b = (let s = take 15 (dotted a) in s @ [NUL] @ drop (length s + 1) b)"

definition unicast :: "u32 \<Rightarrow> bool" where
  "unicast a \<longleftrightarrow> (let first = drop_bit 24 a in first \<noteq> 0 \<and> first \<noteq> 127 \<and> first < 224)"

text \<open>An optional address: empty is zero, and zero itself is refused.\<close>

definition optional_address :: "string \<Rightarrow> u32 option" where
  "optional_address s = (if s ! 0 = NUL then Some 0
     else case gateway_ipv4_parse s of None \<Rightarrow> None | Some a \<Rightarrow> if a \<noteq> 0 then Some a else None)"

section \<open>Validation\<close>

text \<open>A dormant field of a LAN under DHCP: empty, or an address.\<close>

definition dormant_ok :: "string \<Rightarrow> bool" where
  "dormant_ok s \<longleftrightarrow> s ! 0 = NUL \<or> gateway_ipv4_parse s \<noteq> None"

text \<open>
  The body of the loop over the LANs: the error, or address and mask (both zero for a LAN
  under DHCP, as the arrays start).
\<close>

definition validate_lan ::
  "gateway_network_settings \<Rightarrow> nat \<Rightarrow> gateway_network_settings_result + u32 \<times> u32"
where
  "validate_lan s i =
     (let p = lan s ! i in
      if NUL \<notin> set (lan_address p) \<or> NUL \<notin> set (lan_netmask p) \<or> NUL \<notin> set (lan_gateway p)
      then Inl GATEWAY_NETWORK_SETTINGS_INVALID
      else if lan_mode p = GATEWAY_LAN_DHCP_CLIENT then
        if \<not> dormant_ok (lan_address p) \<or> \<not> dormant_ok (lan_netmask p) \<or> \<not> dormant_ok (lan_gateway p)
        then Inl GATEWAY_NETWORK_SETTINGS_INVALID else Inr (0, 0)
      else case gateway_ipv4_parse (lan_address p) of
        None \<Rightarrow> Inl GATEWAY_NETWORK_SETTINGS_ADDRESS
      | Some addr \<Rightarrow>
          if \<not> unicast addr then Inl GATEWAY_NETWORK_SETTINGS_ADDRESS
          else case gateway_ipv4_parse (lan_netmask p) of
            None \<Rightarrow> Inl GATEWAY_NETWORK_SETTINGS_MASK
          | Some netmask \<Rightarrow>
              let inverse = NOT netmask in
              if netmask = 0 \<or> inverse < 3 \<or> inverse AND (inverse + 1) \<noteq> 0 then Inl GATEWAY_NETWORK_SETTINGS_MASK
              else if addr AND inverse = 0 \<or> addr AND inverse = inverse then Inl GATEWAY_NETWORK_SETTINGS_ADDRESS
              else case optional_address (lan_gateway p) of
                None \<Rightarrow> Inl GATEWAY_NETWORK_SETTINGS_GATEWAY
              | Some gw \<Rightarrow>
                  if gw \<noteq> 0 \<and> (\<not> unicast gw \<or> gw = addr \<or> gw AND netmask \<noteq> addr AND netmask \<or>
                     gw AND inverse = 0 \<or> gw AND inverse = inverse) then Inl GATEWAY_NETWORK_SETTINGS_GATEWAY
                  else if default_lan s = of_nat i + 1 \<and> gw = 0 then Inl GATEWAY_NETWORK_SETTINGS_GATEWAY
                  else Inr (addr, netmask))"

definition validate_dns :: "gateway_network_settings \<Rightarrow> gateway_network_settings_result" where
  "validate_dns s =
     (if automatic_dns s \<noteq> 0 then
        if \<exists>d \<in> set (ns_dns s). NUL \<notin> set d \<or> \<not> dormant_ok d then GATEWAY_NETWORK_SETTINGS_INVALID
        else
          let source = (if dns_lan s \<noteq> 0 then dns_lan s else default_lan s) in
          if source = 0 \<or> lan_mode (lan s ! (unat source - 1)) \<noteq> GATEWAY_LAN_DHCP_CLIENT
          then GATEWAY_NETWORK_SETTINGS_DNS else GATEWAY_NETWORK_SETTINGS_OK
      else if \<exists>d \<in> set (ns_dns s). optional_address d = None \<or>
                (the (optional_address d) \<noteq> 0 \<and> \<not> unicast (the (optional_address d)))
      then GATEWAY_NETWORK_SETTINGS_DNS else GATEWAY_NETWORK_SETTINGS_OK)"

text \<open>The verdict and what is stored through \<open>invalid_lan\<close>. \<open>None\<close> is the null pointer.\<close>

definition gateway_network_settings_validate ::
  "gateway_network_settings option \<Rightarrow> gateway_network_settings_result \<times> nat"
where
  "gateway_network_settings_validate settings =
     (case settings of
        None \<Rightarrow> (GATEWAY_NETWORK_SETTINGS_INVALID, GATEWAY_LAN_COUNT)
      | Some s \<Rightarrow>
          if default_lan s > of_nat GATEWAY_LAN_COUNT \<or> automatic_dns s > 1 \<or> dns_lan s > 2 \<or>
             (automatic_dns s = 0 \<and> dns_lan s \<noteq> 0) then (GATEWAY_NETWORK_SETTINGS_INVALID, GATEWAY_LAN_COUNT)
          else case validate_lan s 0 of
            Inl e \<Rightarrow> (e, 0)
          | Inr (addr0, mask0) \<Rightarrow>
              (case validate_lan s 1 of
                 Inl e \<Rightarrow> (e, 1)
               | Inr (addr1, mask1) \<Rightarrow>
                   if lan_mode (lan s ! 0) = GATEWAY_LAN_STATIC \<and> lan_mode (lan s ! 1) = GATEWAY_LAN_STATIC \<and>
                      addr0 AND (mask0 AND mask1) = addr1 AND (mask0 AND mask1)
                   then (GATEWAY_NETWORK_SETTINGS_OVERLAP, GATEWAY_LAN_COUNT)
                   else (validate_dns s, GATEWAY_LAN_COUNT)))"

section \<open>The parser accepts exactly the printed form\<close>

text \<open>The string a \<open>char\<close> array holds.\<close>

definition c_string :: "string \<Rightarrow> string" where
  "c_string buf = takeWhile (\<lambda>c. c \<noteq> NUL) buf"

definition digits_value :: "string \<Rightarrow> nat" where
  "digits_value ds = foldl (\<lambda>n c. n * 10 + digit_value c) 0 ds"

text \<open>What the inner loop reads when it succeeds: up to three digits, ended by something else.\<close>

lemma scan_octet_Some:
  assumes "scan_octet buf pos n digits = Some (pos', n', digits')" "length buf = GATEWAY_IPV4_TEXT_MAX"
    "digits \<le> 3" "pos \<le> GATEWAY_IPV4_TEXT_MAX"
  shows "\<exists>ds. digits' = digits + length ds \<and> digits' \<le> 3 \<and> pos' = pos + length ds \<and> list_all is_digit ds \<and>
     n' = foldl (\<lambda>n c. n * 10 + digit_value c) n ds \<and> (ds = [] \<or> n' \<le> 255) \<and>
     pos' \<le> GATEWAY_IPV4_TEXT_MAX \<and> ds = take (length ds) (drop pos buf) \<and>
     (pos' < GATEWAY_IPV4_TEXT_MAX \<longrightarrow> \<not> is_digit (buf ! pos'))"
  using assms
proof (induction buf pos n digits rule: scan_octet.induct)
  case (1 buf pos n digits)
  let ?n = "n * 10 + digit_value (buf ! pos)"
  show ?case
  proof (cases "pos < GATEWAY_IPV4_TEXT_MAX \<and> is_digit (buf ! pos)")
    case False
    then have "pos' = pos" "n' = n" "digits' = digits"
      using "1.prems"(1) by (auto simp: scan_octet.simps [of buf pos])
    then show ?thesis using False "1.prems" by (intro exI [of _ "[]"]) auto
  next
    case True
    have ok: "\<not> (digits + 1 > 3 \<or> ?n > 255)" "scan_octet buf (pos + 1) ?n (digits + 1) = Some (pos', n', digits')"
      using "1.prems"(1) True by (auto simp: scan_octet.simps [of buf pos] Let_def split: if_splits)
    then obtain ds where ds: "digits' = digits + 1 + length ds" "digits' \<le> 3" "pos' = pos + 1 + length ds"
      "list_all is_digit ds" "n' = foldl (\<lambda>n c. n * 10 + digit_value c) ?n ds" "ds = [] \<or> n' \<le> 255"
      "pos' \<le> GATEWAY_IPV4_TEXT_MAX" "ds = take (length ds) (drop (pos + 1) buf)"
      "pos' < GATEWAY_IPV4_TEXT_MAX \<longrightarrow> \<not> is_digit (buf ! pos')"
      using "1.IH" [OF True refl ok(1)] "1.prems" True by auto
    have "drop pos buf = buf ! pos # drop (pos + 1) buf"
      using True "1.prems"(2) by (simp add: Cons_nth_drop_Suc)
    then show ?thesis
      using ds True ok by (intro exI [of _ "buf ! pos # ds"]) auto
  qed
qed

lemma scan_octet_digits:
  "list_all is_digit ds \<Longrightarrow> take (length ds) (drop pos buf) = ds \<Longrightarrow> pos + length ds < GATEWAY_IPV4_TEXT_MAX \<Longrightarrow>
   \<not> is_digit (buf ! (pos + length ds)) \<Longrightarrow> digits + length ds \<le> 3 \<Longrightarrow> length buf = GATEWAY_IPV4_TEXT_MAX \<Longrightarrow>
   (\<forall>k \<le> length ds. foldl (\<lambda>n c. n * 10 + digit_value c) n (take k ds) \<le> 255) \<Longrightarrow>
   scan_octet buf pos n digits =
     Some (pos + length ds, foldl (\<lambda>n c. n * 10 + digit_value c) n ds, digits + length ds)"
proof (induction ds arbitrary: pos n digits)
  case Nil
  then show ?case by (simp add: scan_octet.simps [of buf pos])
next
  case (Cons c ds)
  have d: "drop pos buf = buf ! pos # drop (pos + 1) buf"
    using Cons.prems by (simp add: Cons_nth_drop_Suc)
  then have c: "buf ! pos = c" "take (length ds) (drop (pos + 1) buf) = ds" using Cons.prems(2) by auto
  have "n * 10 + digit_value c \<le> 255"
    using Cons.prems(7) by (auto dest: spec [of _ 1])
  moreover have "\<forall>k \<le> length ds. foldl (\<lambda>n c. n * 10 + digit_value c) (n * 10 + digit_value c) (take k ds) \<le> 255"
    using Cons.prems(7) by (auto dest: spec [of _ "Suc _"])
  then have "scan_octet buf (pos + 1) (n * 10 + digit_value c) (digits + 1) =
      Some (pos + 1 + length ds, foldl (\<lambda>n c. n * 10 + digit_value c) (n * 10 + digit_value c) ds, digits + 1 + length ds)"
    using Cons.prems c by (intro Cons.IH) auto
  ultimately show ?case
    using Cons.prems c by (subst scan_octet.simps) (simp add: Let_def)
qed

text \<open>Decimal numerals: the digit strings without a leading zero.\<close>

lemma digit_char: "is_digit c \<Longrightarrow> char_of (48 + digit_value c) = c" "is_digit c \<Longrightarrow> digit_value c < 10"
  by (auto simp: is_digit_def digit_value_def)

lemma char_digit: "n < 10 \<Longrightarrow> is_digit (char_of (48 + n))" "n < 10 \<Longrightarrow> digit_value (char_of (48 + n)) = n"
  by (simp_all add: is_digit_def digit_value_def of_char_of)

lemma digits_value_snoc [simp]: "digits_value (ds @ [c]) = digits_value ds * 10 + digit_value c" "digits_value [] = 0"
  by (simp_all add: digits_value_def)

lemma digits_value_take: "digits_value (take k ds) \<le> digits_value ds"
proof -
  have "digits_value xs \<le> digits_value (xs @ ys)" for xs ys
    by (induction ys rule: rev_induct) (simp_all add: append_assoc [symmetric] del: append_assoc)
  then show ?thesis by (metis append_take_drop_id)
qed

definition numeral_string :: "string \<Rightarrow> bool" where
  "numeral_string ds \<longleftrightarrow> ds \<noteq> [] \<and> list_all is_digit ds \<and> (length ds > 1 \<longrightarrow> hd ds \<noteq> CHR ''0'')"

lemma zero_digit: "is_digit c \<Longrightarrow> digit_value c = 0 \<longleftrightarrow> c = CHR ''0''"
proof
  assume "is_digit c" "digit_value c = 0"
  then have "of_char c = (of_char (CHR ''0'') :: nat)" by (simp add: is_digit_def digit_value_def)
  then show "c = CHR ''0''" by (simp only: of_char_eq_iff)
qed (simp add: digit_value_def)

lemma digits_value_pos: "list_all is_digit ds \<Longrightarrow> ds \<noteq> [] \<Longrightarrow> hd ds \<noteq> CHR ''0'' \<Longrightarrow> 0 < digits_value ds"
proof (induction ds rule: rev_induct)
  case (snoc c ds)
  then show ?case
    using digits_value_snoc(1) [of "[]" c] zero_digit [of c] by (cases "ds = []") auto
qed simp

lemma decimal_numeral: "numeral_string (decimal n) \<and> digits_value (decimal n) = n"
proof (induction n rule: decimal.induct)
  case (1 n)
  show ?case
  proof (cases "n < 10")
    case True
    then show ?thesis
      by (simp add: decimal.simps [of n] numeral_string_def char_digit) (simp add: digits_value_def char_digit)
  next
    case False
    then have ih: "numeral_string (decimal (n div 10))" "digits_value (decimal (n div 10)) = n div 10"
      using 1 by simp_all
    have "hd (decimal (n div 10)) \<noteq> CHR ''0''"
    proof
      assume "hd (decimal (n div 10)) = CHR ''0''"
      then have "length (decimal (n div 10)) = 1" using ih(1) by (auto simp: numeral_string_def) (metis Suc_lessI length_greater_0_conv)
      then have "decimal (n div 10) = [CHR ''0'']" using \<open>hd _ = _\<close> by (cases "decimal (n div 10)") auto
      then have "n div 10 = 0" using ih(2) by (simp add: digits_value_def digit_value_def)
      then show False using False by simp
    qed
    moreover have "decimal n = decimal (n div 10) @ [char_of (48 + n mod 10)]"
      using False by (simp add: decimal.simps [of n])
    ultimately show ?thesis using ih False by (auto simp: numeral_string_def char_digit)
  qed
qed

lemma decimal_unique: "numeral_string ds \<Longrightarrow> decimal (digits_value ds) = ds"
proof (induction ds rule: rev_induct)
  case Nil
  then show ?case by (simp add: numeral_string_def)
next
  case (snoc c ds)
  have c: "is_digit c" using snoc.prems by (simp add: numeral_string_def)
  show ?case
  proof (cases "ds = []")
    case True
    then show ?thesis
      using c digit_char [OF c] digits_value_snoc(1) [of "[]" c] by (simp add: decimal.simps [of "digit_value c"])
  next
    case False
    then have ns: "numeral_string ds" "0 < digits_value ds"
      using snoc.prems digits_value_pos by (auto simp: numeral_string_def)
    then show ?thesis
      using snoc.IH digit_char [OF c] by (simp add: decimal.simps [of "digits_value ds * 10 + digit_value c"])
  qed
qed

lemma decimal_length: "n \<le> 255 \<Longrightarrow> length (decimal n) \<le> 3"
  by (simp add: decimal.simps [of n] decimal.simps [of "n div 10"] decimal.simps [of "n div 10 div 10"])

section \<open>One part\<close>

definition separator :: "nat \<Rightarrow> char" where
  "separator part = (if part < 3 then CHR ''.'' else NUL)"

lemma separator_no_digit [simp]: "\<not> is_digit (separator part)"
  by (simp add: separator_def is_digit_def)

lemma parse_part_reads:
  assumes "parse_part buf part (start, r) = Some (pos', r')" "length buf = GATEWAY_IPV4_TEXT_MAX"
    "start \<le> GATEWAY_IPV4_TEXT_MAX"
  shows "\<exists>n rest. n \<le> 255 \<and> drop start buf = decimal n @ separator part # rest \<and>
     r' = push_bit 8 r OR of_nat n \<and> pos' = start + length (decimal n) + (if part < 3 then 1 else 0) \<and>
     pos' \<le> GATEWAY_IPV4_TEXT_MAX"
proof -
  obtain pos n digits where s: "scan_octet buf start 0 0 = Some (pos, n, digits)" "digits \<noteq> 0"
    "digits > 1 \<longrightarrow> buf ! start \<noteq> CHR ''0''" "pos < GATEWAY_IPV4_TEXT_MAX" "buf ! pos = separator part"
    "r' = push_bit 8 r OR of_nat n" "pos' = pos + (if part < 3 then 1 else 0)"
    using assms(1) by (auto simp: parse_part_def separator_def Let_def split: option.splits if_splits prod.splits)
  obtain ds where ds: "digits = length ds" "pos = start + length ds" "list_all is_digit ds"
    "n = digits_value ds" "ds = [] \<or> n \<le> 255" "ds = take (length ds) (drop start buf)"
    using scan_octet_Some [OF s(1) assms(2) _ assms(3)] by (auto simp: digits_value_def)
  have st: "start < length buf" using s(4) ds(2) assms(2) by simp
  then have "hd ds = buf ! start" using ds(1,6) s(2)
    by (metis hd_drop_conv_nth hd_take length_0_conv bot_nat_0.not_eq_extremum)
  then have "numeral_string ds" using s(2,3) ds(1,3) by (auto simp: numeral_string_def)
  then have dec: "decimal n = ds" using decimal_unique ds(4) by simp
  have "drop start buf = ds @ drop (length ds) (drop start buf)" using ds(6) by (metis append_take_drop_id)
  moreover have "drop (length ds) (drop start buf) = buf ! pos # drop (pos + 1) buf"
    using s(4) ds(2) assms(2) by (simp add: Cons_nth_drop_Suc add.commute)
  ultimately have "drop start buf = decimal n @ separator part # drop (pos + 1) buf" using dec s(5) by simp
  then show ?thesis using ds s dec by (intro exI [of _ n] exI [of _ "drop (pos + 1) buf"]) auto
qed

lemma parse_part_accepts:
  assumes "drop start buf = decimal n @ separator part # rest" "n \<le> 255" "length buf = GATEWAY_IPV4_TEXT_MAX"
  shows "parse_part buf part (start, r) =
     Some (start + length (decimal n) + (if part < 3 then 1 else 0), push_bit 8 r OR of_nat n)"
proof -
  let ?ds = "decimal n"
  have num: "numeral_string ?ds" "digits_value ?ds = n" using decimal_numeral by simp_all
  have "length (drop start buf) = length ?ds + 1 + length rest" using assms(1) by simp
  then have len: "start + length ?ds < GATEWAY_IPV4_TEXT_MAX" using assms(3) by simp
  have "buf ! (start + length ?ds) = drop start buf ! length ?ds" using assms(3) len by simp
  then have sep: "buf ! (start + length ?ds) = separator part" using assms(1) by simp
  have "scan_octet buf start 0 0 = Some (start + length ?ds, digits_value ?ds, 0 + length ?ds)"
    unfolding digits_value_def
  proof (rule scan_octet_digits)
    show "\<forall>k \<le> length ?ds. foldl (\<lambda>n c. n * 10 + digit_value c) 0 (take k ?ds) \<le> 255"
      using digits_value_take [of _ ?ds] num(2) assms(2) unfolding digits_value_def by (metis order_trans)
  qed (use num assms len sep decimal_length [OF assms(2)] in \<open>auto simp: numeral_string_def\<close>)
  moreover have "buf ! start = hd ?ds"
    using assms(1) num(1) len assms(3) by (simp add: numeral_string_def hd_drop_conv_nth [symmetric])
  ultimately show ?thesis
    using num len sep by (auto simp: parse_part_def numeral_string_def separator_def)
qed

section \<open>The whole address\<close>

definition join_octets :: "nat \<Rightarrow> nat \<Rightarrow> nat \<Rightarrow> nat \<Rightarrow> u32" where
  "join_octets a b c d = push_bit 8 (push_bit 8 (push_bit 8 (of_nat a) OR of_nat b) OR of_nat c) OR of_nat d"

lemma octet_bits: "n \<le> 255 \<Longrightarrow> bit n k \<Longrightarrow> k < 8" for n :: nat
  using take_bit_nat_eq_self [of n 8] bit_take_bit_iff [of 8 n k] by simp

lemma mask_octet: "(255 :: u32) = mask 8"
  by (simp add: mask_eq_exp_minus_1)

lemma octets_of_join:
  assumes "a \<le> 255" "b \<le> 255" "c \<le> 255" "d \<le> 255"
  shows "drop_bit 24 (join_octets a b c d) AND 255 = of_nat a"
    "drop_bit 16 (join_octets a b c d) AND 255 = of_nat b"
    "drop_bit 8 (join_octets a b c d) AND 255 = of_nat c"
    "join_octets a b c d AND 255 = of_nat d"
  unfolding mask_octet join_octets_def
  by (rule bit_word_eqI, auto simp: bit_simps dest: assms [THEN octet_bits])+

lemma join_of_octets:
  "join_octets (unat (drop_bit 24 a AND 255)) (unat (drop_bit 16 a AND 255))
     (unat (drop_bit 8 a AND 255)) (unat (a AND 255)) = a"
  unfolding mask_octet join_octets_def
proof (rule bit_word_eqI)
  fix n assume "n < LENGTH(32)"
  then consider "n < 8" | "8 \<le> n" "n < 16" | "16 \<le> n" "n < 24" | "24 \<le> n" "n < 32" by fastforce
  then show "bit (push_bit 8 (push_bit 8 (push_bit 8 (of_nat (unat (drop_bit 24 a AND mask 8))) OR
      of_nat (unat (drop_bit 16 a AND mask 8))) OR of_nat (unat (drop_bit 8 a AND mask 8))) OR
      of_nat (unat (a AND mask 8)) :: u32) n = bit a n"
    by cases (auto simp: bit_simps)
qed

lemma octet_le: "unat ((a :: u32) AND 255) \<le> 255"
proof -
  have "a AND 255 \<le> 255" by (rule word_and_le1)
  then show ?thesis by (simp add: word_le_nat_alt)
qed

lemma unat_octet: "n \<le> 255 \<Longrightarrow> unat (of_nat n :: u32) = n"
  by (simp add: unat_of_nat take_bit_nat_eq_self)

lemma dotted_join:
  assumes "a \<le> 255" "b \<le> 255" "c \<le> 255" "d \<le> 255"
  shows "dotted (join_octets a b c d) =
    decimal a @ ''.'' @ decimal b @ ''.'' @ decimal c @ ''.'' @ decimal d"
  by (simp add: dotted_def octets_of_join [OF assms] unat_octet assms)

lemma drop_after: "drop s xs = ys @ c # rest \<Longrightarrow> drop (s + length ys + 1) xs = rest"
proof -
  assume "drop s xs = ys @ c # rest"
  then have "drop (length ys + 1) (drop s xs) = rest" by simp
  then show ?thesis by (simp add: add.commute add.left_commute)
qed

lemma parse_iff:
  assumes "length buf = GATEWAY_IPV4_TEXT_MAX"
  shows "gateway_ipv4_parse buf = Some v \<longleftrightarrow> (\<exists>rest. buf = dotted v @ NUL # rest)"
proof
  have upt: "[0..<4] = [0, 1, 2, 3 :: nat]" by (simp add: upt_rec)
  {
    assume "gateway_ipv4_parse buf = Some v"
    then obtain p1 r1 p2 r2 p3 r3 p4 where s: "parse_part buf 0 (0, 0) = Some (p1, r1)"
      "parse_part buf 1 (p1, r1) = Some (p2, r2)" "parse_part buf 2 (p2, r2) = Some (p3, r3)"
      "parse_part buf 3 (p3, r3) = Some (p4, v)"
      by (auto simp: gateway_ipv4_parse_def upt split: option.splits)
    obtain a t1 where a: "a \<le> 255" "buf = decimal a @ CHR ''.'' # t1" "r1 = of_nat a"
      "p1 = length (decimal a) + 1" "p1 \<le> GATEWAY_IPV4_TEXT_MAX"
      using parse_part_reads [OF s(1) assms] by (auto simp: separator_def)
    obtain b t2 where b: "b \<le> 255" "drop p1 buf = decimal b @ CHR ''.'' # t2" "r2 = push_bit 8 r1 OR of_nat b"
      "p2 = p1 + length (decimal b) + 1" "p2 \<le> GATEWAY_IPV4_TEXT_MAX"
      using parse_part_reads [OF s(2) assms a(5)] by (auto simp: separator_def)
    obtain c t3 where c: "c \<le> 255" "drop p2 buf = decimal c @ CHR ''.'' # t3" "r3 = push_bit 8 r2 OR of_nat c"
      "p3 = p2 + length (decimal c) + 1" "p3 \<le> GATEWAY_IPV4_TEXT_MAX"
      using parse_part_reads [OF s(3) assms b(5)] by (auto simp: separator_def)
    obtain d t4 where d: "d \<le> 255" "drop p3 buf = decimal d @ NUL # t4" "v = push_bit 8 r3 OR of_nat d"
      using parse_part_reads [OF s(4) assms c(5)] by (auto simp: separator_def)
    have "t1 = drop p1 buf" using a(2,4) by simp
    moreover have "t2 = drop p2 buf" "t3 = drop p3 buf"
      using drop_after [OF b(2)] drop_after [OF c(2)] unfolding b(4) c(4) by simp_all
    moreover have "v = join_octets a b c d" using a(3) b(3) c(3) d(3) by (simp add: join_octets_def)
    ultimately show "\<exists>rest. buf = dotted v @ NUL # rest"
      using a(2) b(2) c(2) d(2) dotted_join [OF a(1) b(1) c(1) d(1)] by (intro exI [of _ t4]) simp
  next
    assume "\<exists>rest. buf = dotted v @ NUL # rest"
    then obtain rest where r: "buf = dotted v @ NUL # rest" by blast
    let ?a = "unat (drop_bit 24 v AND 255)" and ?b = "unat (drop_bit 16 v AND 255)"
    let ?c = "unat (drop_bit 8 v AND 255)" and ?d = "unat (v AND 255)"
    have buf: "buf = decimal ?a @ separator 0 # decimal ?b @ separator 1 # decimal ?c @ separator 2 # decimal ?d @ separator 3 # rest"
      using r by (simp add: dotted_def separator_def)
    note acc = parse_part_accepts [OF _ octet_le assms]
    let ?p1 = "length (decimal ?a) + 1"
    let ?p2 = "?p1 + length (decimal ?b) + 1"
    let ?p3 = "?p2 + length (decimal ?c) + 1"
    have d0: "drop 0 buf = decimal ?a @ separator 0 # decimal ?b @ separator 1 # decimal ?c @ separator 2 # decimal ?d @ separator 3 # rest"
      by (simp only: drop_0 buf [symmetric])
    have d1: "drop ?p1 buf = decimal ?b @ separator 1 # decimal ?c @ separator 2 # decimal ?d @ separator 3 # rest"
      using drop_after [OF d0] by simp
    have d2: "drop ?p2 buf = decimal ?c @ separator 2 # decimal ?d @ separator 3 # rest" by (rule drop_after [OF d1])
    have d3: "drop ?p3 buf = decimal ?d @ separator 3 # rest" by (rule drop_after [OF d2])
    show "gateway_ipv4_parse buf = Some v"
      using acc [OF d0, of 0] acc [OF d1] acc [OF d2] acc [OF d3] join_of_octets [of v]
      by (simp add: gateway_ipv4_parse_def upt join_octets_def add.assoc)
  }
qed

lemma digit_not_nul: "is_digit c \<Longrightarrow> c \<noteq> NUL"
  by (auto simp: is_digit_def)

lemma decimal_no_nul: "NUL \<notin> set (decimal n)"
  using decimal_numeral [of n] digit_not_nul by (auto simp: numeral_string_def list_all_iff)

lemma dotted_shape: "NUL \<notin> set (dotted v)" "length (dotted v) \<le> 15"
proof -
  show "NUL \<notin> set (dotted v)" by (simp add: dotted_def decimal_no_nul)
  show "length (dotted v) \<le> 15"
    using decimal_length [OF octet_le, of v] decimal_length [OF octet_le, of "drop_bit 8 v"]
      decimal_length [OF octet_le, of "drop_bit 16 v"] decimal_length [OF octet_le, of "drop_bit 24 v"]
    by (simp add: dotted_def)
qed

lemma c_string_iff:
  assumes "NUL \<notin> set s" "length s < length buf"
  shows "c_string buf = s \<longleftrightarrow> (\<exists>rest. buf = s @ NUL # rest)"
proof
  assume c: "c_string buf = s"
  define r where "r = dropWhile (\<lambda>c. c \<noteq> NUL) buf"
  have b: "buf = s @ r" using c unfolding c_string_def r_def by (metis takeWhile_dropWhile_id)
  then have "r \<noteq> []" using assms(2) by auto
  moreover from this have "hd r = NUL" using hd_dropWhile [of "\<lambda>c. c \<noteq> NUL" buf] unfolding r_def by auto
  ultimately show "\<exists>rest. buf = s @ NUL # rest" using b by (cases r) auto
next
  assume "\<exists>rest. buf = s @ NUL # rest"
  then obtain rest where r: "buf = s @ NUL # rest" by blast
  have "\<forall>c \<in> set s. c \<noteq> NUL" using assms(1) by auto
  then show "c_string buf = s" unfolding r c_string_def by (simp add: takeWhile_append)
qed

lemma format_string: "gateway_ipv4_format a b = dotted a @ NUL # drop (length (dotted a) + 1) b"
  using dotted_shape(2) [of a] by (simp add: gateway_ipv4_format_def Let_def)

lemma parse_format: "length b = GATEWAY_IPV4_TEXT_MAX \<Longrightarrow> gateway_ipv4_parse (gateway_ipv4_format a b) = Some a"
  using dotted_shape(2) [of a] by (subst parse_iff) (auto simp: format_string)

text \<open>
  C13. The address parser and the printer are inverse, and the parser accepts nothing else: a buffer parses
  to an address exactly when the string in it is that address as the printer writes it, so leading
  zeros, signs, blanks, missing or extra parts and unterminated buffers are all refused.
\<close>

theorem ipv4_parse_exact:
  assumes "length buf = GATEWAY_IPV4_TEXT_MAX"
  shows "(gateway_ipv4_parse buf = Some v \<longleftrightarrow> c_string buf = dotted v) \<and>
    gateway_ipv4_parse (gateway_ipv4_format v buf) = Some v"
  using assms parse_format dotted_shape [of v] by (simp add: parse_iff c_string_iff)

theorem ipv4_parse_exact_witness:
  "(gateway_ipv4_parse (''10.0.0.1'' @ replicate 8 NUL) = Some 0x0a000001 \<longleftrightarrow>
      c_string (''10.0.0.1'' @ replicate 8 NUL) = dotted 0x0a000001) \<and>
   gateway_ipv4_parse (gateway_ipv4_format 0x0a000001 (''10.0.0.1'' @ replicate 8 NUL)) = Some 0x0a000001"
  by (rule ipv4_parse_exact) simp

section \<open>What validation guarantees\<close>

text \<open>A number whose successor shares no bit with it is a block of low ones.\<close>

lemma low_ones: "x AND (x + 1) = 0 \<Longrightarrow> \<exists>n. x = mask n" for x :: nat
proof (induction x rule: less_induct)
  case (less x)
  show ?case
  proof (cases "even x")
    case True
    then have "x AND (x + 1) = x" by (auto elim!: evenE simp: and_rec [of "2 * _"])
    then show ?thesis using less.prems by (intro exI [of _ 0]) simp
  next
    case False
    then obtain y where y: "x = 2 * y + 1" by (blast elim: oddE)
    have "x AND (x + 1) = 2 * (y AND (y + 1))" unfolding y by (subst and_rec) simp
    then have "y AND (y + 1) = 0" using less.prems by simp
    moreover have "y < x" using y by simp
    ultimately obtain n where "y = mask n" using less.IH by blast
    then have "Suc y = 2 ^ n" by (simp add: Suc_mask_eq_exp)
    then have "Suc x = Suc (mask (Suc n))" using y by (simp add: Suc_mask_eq_exp)
    then show ?thesis by blast
  qed
qed

lemma contiguous:
  assumes "m \<noteq> 0" "\<not> NOT m < 3" "NOT m AND (NOT m + 1) = (0 :: u32)"
  shows "\<exists>n. 2 \<le> n \<and> n \<le> 31 \<and> m = NOT (mask n)"
proof -
  let ?x = "NOT m"
  have ne: "?x \<noteq> - 1"
  proof
    assume "?x = - 1"
    then have "NOT ?x = NOT (- 1)" by simp
    then show False using assms(1) by simp
  qed
  have top: "unat ?x < 2 ^ 32 - 1"
  proof -
    have "unat ?x \<noteq> unat (- 1 :: u32)" using ne by (simp only: word_unat_eq_iff not_False_eq_True)
    moreover have "unat (- 1 :: u32) = 4294967295" by (simp add: unsigned_minus_1_eq_mask mask_eq_exp_minus_1)
    ultimately show ?thesis using unat_u32_less [of ?x] by simp
  qed
  then have suc: "unat (?x + 1) = unat ?x + 1" by (simp add: unat_word_ariths)
  have "unat ?x AND (unat ?x + 1) = unat (?x AND (?x + 1))" using suc by (simp add: unsigned_and_eq)
  then have "unat ?x AND (unat ?x + 1) = 0" using assms(3) by simp
  then obtain n where n: "unat ?x = mask n" using low_ones by blast
  have "(2 :: nat) ^ n < 2 ^ 32" using n top by (simp add: mask_eq_exp_minus_1)
  then have "n < 32" by (rule power_less_imp_less_exp [rotated]) simp
  moreover have "2 \<le> n"
  proof (rule ccontr)
    assume "\<not> 2 \<le> n"
    then have "n = 0 \<or> n = 1" by auto
    then have "unat ?x < 3" using n by (auto simp: mask_eq_exp_minus_1)
    then show False using assms(2) by (simp add: word_less_nat_alt)
  qed
  moreover have "?x = mask n"
  proof -
    have "of_nat (unat ?x) = ?x" by simp
    then have "?x = of_nat (mask n)" unfolding n by simp
    then show ?thesis by (simp add: of_nat_mask_eq)
  qed
  moreover from this have "m = NOT (mask n)" by (metis bit.double_compl)
  ultimately show ?thesis by (intro exI [of _ n]) simp
qed

text \<open>A LAN with a fixed address that can be used.\<close>

definition in_subnet :: "u32 \<Rightarrow> u32 \<Rightarrow> u32 \<Rightarrow> bool" where
  "in_subnet a m x \<longleftrightarrow> x AND m = a AND m"

definition host_in :: "u32 \<Rightarrow> u32 \<Rightarrow> u32 \<Rightarrow> bool" where
  "host_in a m x \<longleftrightarrow> unicast x \<and> in_subnet a m x \<and> x AND NOT m \<noteq> 0 \<and> x AND NOT m \<noteq> NOT m"

definition usable_lan :: "gateway_network_settings \<Rightarrow> nat \<Rightarrow> u32 \<Rightarrow> u32 \<Rightarrow> bool" where
  "usable_lan s i a m \<longleftrightarrow>
     gateway_ipv4_parse (lan_address (lan s ! i)) = Some a \<and> gateway_ipv4_parse (lan_netmask (lan s ! i)) = Some m \<and>
     (\<exists>n. 2 \<le> n \<and> n \<le> 31 \<and> m = NOT (mask n)) \<and> host_in a m a \<and>
     (\<exists>g. optional_address (lan_gateway (lan s ! i)) = Some g \<and> (g = 0 \<or> (host_in a m g \<and> g \<noteq> a)) \<and>
        (default_lan s = of_nat i + 1 \<longrightarrow> g \<noteq> 0))"

lemma validate_lan_usable:
  "validate_lan s i = Inr (a, m) \<Longrightarrow> lan_mode (lan s ! i) = GATEWAY_LAN_STATIC \<Longrightarrow> usable_lan s i a m"
  using contiguous [of m]
  by (auto simp: validate_lan_def usable_lan_def host_in_def in_subnet_def Let_def split: option.splits if_splits)

lemma subnets_disjoint:
  assumes "a AND (m AND n) \<noteq> b AND (m AND n)"
  shows "\<not> (in_subnet a m x \<and> in_subnet b n x)"
proof
  assume "in_subnet a m x \<and> in_subnet b n x"
  then have "(x AND m) AND n = (a AND m) AND n" "(x AND n) AND m = (b AND n) AND m" by (simp_all add: in_subnet_def)
  then show False using assms by (simp add: ac_simps)
qed

lemma validate_lan_error: "validate_lan s i = Inl e \<Longrightarrow> e \<noteq> GATEWAY_NETWORK_SETTINGS_OK"
  by (auto simp: validate_lan_def Let_def split: option.splits if_splits)

text \<open>
  C14. Settings that pass validation describe a network that works: every LAN with a fixed address
  has a unicast host address, a contiguous mask of 1 to 30 bits, and a gateway, if any, that is another host
  of its subnet, and one if its LAN carries the default route; and no address belongs to the
  subnets of both LANs.
\<close>

theorem valid_settings_work:
  assumes "fst (gateway_network_settings_validate (Some s)) = GATEWAY_NETWORK_SETTINGS_OK"
  shows "\<exists>a0 m0 a1 m1.
    (lan_mode (lan s ! 0) = GATEWAY_LAN_STATIC \<longrightarrow> usable_lan s 0 a0 m0) \<and>
    (lan_mode (lan s ! 1) = GATEWAY_LAN_STATIC \<longrightarrow> usable_lan s 1 a1 m1) \<and>
    (lan_mode (lan s ! 0) = GATEWAY_LAN_STATIC \<and> lan_mode (lan s ! 1) = GATEWAY_LAN_STATIC \<longrightarrow>
       (\<forall>x. \<not> (in_subnet a0 m0 x \<and> in_subnet a1 m1 x)))"
proof -
  obtain a0 m0 a1 m1 where v: "validate_lan s 0 = Inr (a0, m0)" "validate_lan s 1 = Inr (a1, m1)"
    "lan_mode (lan s ! 0) = GATEWAY_LAN_STATIC \<and> lan_mode (lan s ! 1) = GATEWAY_LAN_STATIC \<longrightarrow>
       a0 AND (m0 AND m1) \<noteq> a1 AND (m0 AND m1)"
    using assms
    by (cases "validate_lan s 0"; cases "validate_lan s 1")
      (auto simp: gateway_network_settings_validate_def validate_lan_error split: if_splits)
  then show ?thesis
    using validate_lan_usable [OF v(1)] validate_lan_usable [OF v(2)] subnets_disjoint by blast
qed

definition text16 :: "string \<Rightarrow> string" where
  "text16 s = s @ replicate (GATEWAY_IPV4_TEXT_MAX - length s) NUL"

definition sample_settings :: gateway_network_settings where
  "sample_settings = gateway_network_settings_init\<lparr>
     lan := [\<lparr>lan_mode = GATEWAY_LAN_STATIC, lan_address = text16 ''192.168.1.2'',
              lan_netmask = text16 ''255.255.255.0'', lan_gateway = text16 ''192.168.1.1''\<rparr>,
             \<lparr>lan_mode = GATEWAY_LAN_STATIC, lan_address = text16 ''10.0.0.2'',
              lan_netmask = text16 ''255.0.0.0'', lan_gateway = zero_text\<rparr>], default_lan := 1\<rparr>"

lemma replicate_numeral_Cons: "\<exists>rest. replicate (numeral k) c = c # rest"
  by (simp add: numeral_eq_Suc)

lemma sample_texts:
  "gateway_ipv4_parse (text16 ''192.168.1.2'') = Some 0xc0a80102"
  "gateway_ipv4_parse (text16 ''255.255.255.0'') = Some 0xffffff00"
  "gateway_ipv4_parse (text16 ''192.168.1.1'') = Some 0xc0a80101"
  "gateway_ipv4_parse (text16 ''10.0.0.2'') = Some 0x0a000002"
  "gateway_ipv4_parse (text16 ''255.0.0.0'') = Some 0xff000000"
  by (simp_all add: parse_iff text16_def dotted_def decimal.simps char_of_def bit_0
      replicate_numeral_Cons)

lemma sample_lans: "validate_lan sample_settings 0 = Inr (0xc0a80102, 0xffffff00)"
    "validate_lan sample_settings (Suc 0) = Inr (0x0a000002, 0xff000000)"
  using sample_texts
  by (simp_all add: validate_lan_def sample_settings_def Let_def unicast_def optional_address_def)
    (simp_all add: text16_def zero_text_def gateway_network_settings_init_def)

lemma sample_settings_ok: "fst (gateway_network_settings_validate (Some sample_settings)) = GATEWAY_NETWORK_SETTINGS_OK"
  using sample_lans
  by (simp add: gateway_network_settings_validate_def)
    (simp add: sample_settings_def gateway_network_settings_init_def validate_dns_def optional_address_def zero_text_def)

theorem valid_settings_work_witness:
  "\<exists>a0 m0 a1 m1.
    (lan_mode (lan sample_settings ! 0) = GATEWAY_LAN_STATIC \<longrightarrow> usable_lan sample_settings 0 a0 m0) \<and>
    (lan_mode (lan sample_settings ! 1) = GATEWAY_LAN_STATIC \<longrightarrow> usable_lan sample_settings 1 a1 m1) \<and>
    (lan_mode (lan sample_settings ! 0) = GATEWAY_LAN_STATIC \<and>
     lan_mode (lan sample_settings ! 1) = GATEWAY_LAN_STATIC \<longrightarrow>
       (\<forall>x. \<not> (in_subnet a0 m0 x \<and> in_subnet a1 m1 x)))"
  by (rule valid_settings_work [OF sample_settings_ok])

end
