(* ===== verification/Network_Manager.thy ===== *)
theory Network_Manager
  imports Network_Settings
begin

text \<open>
  The keep-or-revert transaction of \<open>src/network/gateway_network_manager.c\<close>: candidate settings are
  staged and applied, and made durable only when the client confirms them in time; otherwise the
  confirmed settings are restored. The provider's operations act on a state \<open>'w\<close> of their own.
\<close>

abbreviation GATEWAY_NETWORK_CONFIRM_MS :: tick where "GATEWAY_NETWORK_CONFIRM_MS \<equiv> 60000"
abbreviation GATEWAY_NETWORK_APPLY_MS :: tick where "GATEWAY_NETWORK_APPLY_MS \<equiv> 30000"
abbreviation GATEWAY_NETWORK_ROLLBACK_MS :: tick where "GATEWAY_NETWORK_ROLLBACK_MS \<equiv> 30000"

datatype gateway_network_state =
  GATEWAY_NETWORK_UNAVAILABLE | GATEWAY_NETWORK_IDLE | GATEWAY_NETWORK_APPLYING | GATEWAY_NETWORK_WAIT_BINDINGS
| GATEWAY_NETWORK_WAIT_CONFIRM | GATEWAY_NETWORK_COMMITTING | GATEWAY_NETWORK_ROLLING_BACK
| GATEWAY_NETWORK_ROLLBACK_BINDINGS | GATEWAY_NETWORK_KEPT | GATEWAY_NETWORK_REVERTED | GATEWAY_NETWORK_FAILED
| GATEWAY_NETWORK_ROLLBACK_FAILED | GATEWAY_NETWORK_DURABILITY_UNCERTAIN

datatype gateway_network_rollback_reason =
  GATEWAY_NETWORK_REASON_NONE | GATEWAY_NETWORK_REASON_PEER | GATEWAY_NETWORK_REASON_REVERT
| GATEWAY_NETWORK_REASON_DEADLINE | GATEWAY_NETWORK_REASON_STAGE | GATEWAY_NETWORK_REASON_APPLY
| GATEWAY_NETWORK_REASON_OBSERVATION | GATEWAY_NETWORK_REASON_COMMIT

record 'w gateway_network_manager_ops =
  op_stage :: "'w \<Rightarrow> gateway_network_settings \<Rightarrow> int \<times> 'w"
  op_apply :: "'w \<Rightarrow> int \<times> 'w"
  op_poll :: "'w \<Rightarrow> int \<times> 'w"
  op_commit :: "'w \<Rightarrow> int \<times> 'w"
  op_restore :: "'w \<Rightarrow> int \<times> 'w"
  op_discard :: "'w \<Rightarrow> int \<times> 'w"

record 'w gateway_network_manager =
  nm_state :: gateway_network_state
  nm_ops :: "'w gateway_network_manager_ops"
  nm_context :: 'w
  nm_deadline :: core_deadline
  client_alive :: bool
  confirmation_requested :: bool
  rollback_requested :: bool
  bindings_ready :: bool
  nm_generation :: u32
  rollback_reason :: gateway_network_rollback_reason
  nm_error_code :: int

section \<open>Operations\<close>

definition gateway_network_manager_busy :: "'w gateway_network_manager \<Rightarrow> bool" where
  "gateway_network_manager_busy m \<longleftrightarrow> nm_state m \<in> {GATEWAY_NETWORK_APPLYING, GATEWAY_NETWORK_WAIT_BINDINGS,
     GATEWAY_NETWORK_WAIT_CONFIRM, GATEWAY_NETWORK_COMMITTING, GATEWAY_NETWORK_ROLLING_BACK,
     GATEWAY_NETWORK_ROLLBACK_BINDINGS}"

text \<open>\<open>None\<close> is a null table or one with a null entry; then nothing is written.\<close>

definition gateway_network_manager_init ::
  "'w gateway_network_manager_ops option \<Rightarrow> 'w \<Rightarrow> int \<times> 'w gateway_network_manager option"
where
  "gateway_network_manager_init ops ctx =
     (case ops of None \<Rightarrow> (- 1, None)
      | Some ops \<Rightarrow> (0, Some \<lparr>nm_state = GATEWAY_NETWORK_IDLE, nm_ops = ops, nm_context = ctx,
          nm_deadline = no_deadline, client_alive = False, confirmation_requested = False,
          rollback_requested = False, bindings_ready = False, nm_generation = 0,
          rollback_reason = GATEWAY_NETWORK_REASON_NONE, nm_error_code = 0\<rparr>))"

text \<open>Calling one of the provider's operations.\<close>

definition provider ::
  "('w gateway_network_manager_ops \<Rightarrow> 'w \<Rightarrow> int \<times> 'w) \<Rightarrow> 'w gateway_network_manager \<Rightarrow>
   int \<times> 'w gateway_network_manager"
where
  "provider f m = (let (r, w) = f (nm_ops m) (nm_context m) in (r, m\<lparr>nm_context := w\<rparr>))"

definition rollback :: "'w gateway_network_manager \<Rightarrow> tick \<Rightarrow> 'w gateway_network_manager" where
  "rollback m now =
     (let (r, m) = provider op_restore
            (m\<lparr>confirmation_requested := False, rollback_requested := False, bindings_ready := False\<rparr>) in
      if r \<noteq> 0 then m\<lparr>nm_error_code := r, nm_state := GATEWAY_NETWORK_ROLLBACK_FAILED\<rparr>
      else m\<lparr>nm_state := GATEWAY_NETWORK_ROLLING_BACK,
             nm_deadline := core_deadline_after now GATEWAY_NETWORK_ROLLBACK_MS\<rparr>)"

definition gateway_network_manager_apply ::
  "'w gateway_network_manager \<Rightarrow> gateway_network_settings option \<Rightarrow> tick \<Rightarrow> int \<times> 'w gateway_network_manager"
where
  "gateway_network_manager_apply m candidate now =
     (if gateway_network_manager_busy m \<or> nm_state m = GATEWAY_NETWORK_ROLLBACK_FAILED \<or>
         nm_state m = GATEWAY_NETWORK_DURABILITY_UNCERTAIN \<or>
         fst (gateway_network_settings_validate candidate) \<noteq> GATEWAY_NETWORK_SETTINGS_OK then (- 1, m)
      else
        let m = m\<lparr>confirmation_requested := False, rollback_requested := False, bindings_ready := False,
                  client_alive := True, rollback_reason := GATEWAY_NETWORK_REASON_NONE, nm_error_code := 0\<rparr>;
            (r, m) = provider (\<lambda>ops w. op_stage ops w (the candidate)) m in
        if r \<noteq> 0 then (- 1, m\<lparr>rollback_reason := GATEWAY_NETWORK_REASON_STAGE, nm_error_code := r,
                               nm_state := GATEWAY_NETWORK_FAILED\<rparr>)
        else
          let (r, m) = provider op_apply (m\<lparr>nm_generation := nm_generation m + 1\<rparr>) in
          if r \<noteq> 0 then (- 1, rollback (m\<lparr>rollback_reason := GATEWAY_NETWORK_REASON_APPLY, nm_error_code := r\<rparr>) now)
          else (0, m\<lparr>nm_state := GATEWAY_NETWORK_APPLYING,
                     nm_deadline := core_deadline_after now GATEWAY_NETWORK_APPLY_MS\<rparr>))"

definition gateway_network_manager_confirm :: "'w gateway_network_manager \<Rightarrow> int \<times> 'w gateway_network_manager" where
  "gateway_network_manager_confirm m =
     (if nm_state m \<noteq> GATEWAY_NETWORK_WAIT_CONFIRM \<or> \<not> client_alive m \<or> \<not> bindings_ready m then (- 1, m)
      else (0, m\<lparr>confirmation_requested := True\<rparr>))"

definition gateway_network_manager_revert :: "'w gateway_network_manager \<Rightarrow> 'w gateway_network_manager" where
  "gateway_network_manager_revert m = m\<lparr>rollback_requested := True\<rparr>"

text \<open>The test at the head of \<open>step\<close> that abandons a candidate.\<close>

definition abandons :: "'w gateway_network_manager \<Rightarrow> tick \<Rightarrow> bool" where
  "abandons m now \<longleftrightarrow>
     nm_state m \<in> {GATEWAY_NETWORK_APPLYING, GATEWAY_NETWORK_WAIT_BINDINGS, GATEWAY_NETWORK_WAIT_CONFIRM,
                   GATEWAY_NETWORK_COMMITTING} \<and>
     (\<not> client_alive m \<or> rollback_requested m \<or> core_deadline_expired (nm_deadline m) now)"

definition step_applying :: "'w gateway_network_manager \<Rightarrow> tick \<Rightarrow> 'w gateway_network_manager" where
  "step_applying m now =
     (let (r, m) = provider op_poll m in
      if r < 0 then rollback (m\<lparr>rollback_reason := GATEWAY_NETWORK_REASON_OBSERVATION, nm_error_code := r\<rparr>) now
      else if r > 0 then m\<lparr>nm_state := GATEWAY_NETWORK_WAIT_BINDINGS\<rparr> else m)"

definition step_wait_confirm :: "'w gateway_network_manager \<Rightarrow> tick \<Rightarrow> 'w gateway_network_manager" where
  "step_wait_confirm m now =
     (let (r, m) = provider op_poll m in
      if r \<noteq> 1 \<or> \<not> bindings_ready m
      then rollback (m\<lparr>rollback_reason := GATEWAY_NETWORK_REASON_OBSERVATION, nm_error_code := r\<rparr>) now
      else if confirmation_requested m
      then m\<lparr>nm_state := GATEWAY_NETWORK_COMMITTING, nm_deadline := core_deadline_after now 3000\<rparr> else m)"

definition step_committing :: "'w gateway_network_manager \<Rightarrow> tick \<Rightarrow> 'w gateway_network_manager" where
  "step_committing m now =
     (let (r, m) = provider op_commit m in
      if r = 1 then m
      else
        let m = (if r \<noteq> 0 then m\<lparr>rollback_reason := GATEWAY_NETWORK_REASON_COMMIT, nm_error_code := r\<rparr> else m) in
        if r = - 2 then m\<lparr>nm_state := GATEWAY_NETWORK_DURABILITY_UNCERTAIN\<rparr>
        else if r \<noteq> 0 then rollback m now
        else m\<lparr>nm_state := GATEWAY_NETWORK_KEPT\<rparr>)"

definition step_rolling_back :: "'w gateway_network_manager \<Rightarrow> tick \<Rightarrow> 'w gateway_network_manager" where
  "step_rolling_back m now =
     (let (r, m) = provider op_poll m in
      if r = 2 then m\<lparr>nm_state := GATEWAY_NETWORK_KEPT\<rparr>
      else if r < 0 \<or> core_deadline_expired (nm_deadline m) now
      then m\<lparr>nm_error_code := (if r < 0 then r else - 1), nm_state := GATEWAY_NETWORK_ROLLBACK_FAILED\<rparr>
      else if r > 0 then
        let (r, m) = provider op_discard m in
        if r \<noteq> 0 then m\<lparr>nm_error_code := r, nm_state := GATEWAY_NETWORK_ROLLBACK_FAILED\<rparr>
        else m\<lparr>nm_state := (if client_alive m then GATEWAY_NETWORK_ROLLBACK_BINDINGS else GATEWAY_NETWORK_REVERTED)\<rparr>
      else m)"

definition step_rollback_bindings :: "'w gateway_network_manager \<Rightarrow> tick \<Rightarrow> 'w gateway_network_manager" where
  "step_rollback_bindings m now =
     (if bindings_ready m \<or> \<not> client_alive m then m\<lparr>nm_state := GATEWAY_NETWORK_REVERTED\<rparr>
      else if core_deadline_expired (nm_deadline m) now
      then m\<lparr>nm_error_code := - 1, nm_state := GATEWAY_NETWORK_ROLLBACK_FAILED\<rparr> else m)"

definition gateway_network_manager_step :: "'w gateway_network_manager \<Rightarrow> tick \<Rightarrow> 'w gateway_network_manager" where
  "gateway_network_manager_step m now =
     (if abandons m now then
        rollback (m\<lparr>rollback_reason := (if \<not> client_alive m then GATEWAY_NETWORK_REASON_PEER
                     else if rollback_requested m then GATEWAY_NETWORK_REASON_REVERT
                     else GATEWAY_NETWORK_REASON_DEADLINE)\<rparr>) now
      else case nm_state m of
        GATEWAY_NETWORK_APPLYING \<Rightarrow> step_applying m now
      | GATEWAY_NETWORK_WAIT_BINDINGS \<Rightarrow>
          (if bindings_ready m
           then m\<lparr>nm_state := GATEWAY_NETWORK_WAIT_CONFIRM,
                  nm_deadline := core_deadline_after now GATEWAY_NETWORK_CONFIRM_MS\<rparr>
           else m)
      | GATEWAY_NETWORK_WAIT_CONFIRM \<Rightarrow> step_wait_confirm m now
      | GATEWAY_NETWORK_COMMITTING \<Rightarrow> step_committing m now
      | GATEWAY_NETWORK_ROLLING_BACK \<Rightarrow> step_rolling_back m now
      | GATEWAY_NETWORK_ROLLBACK_BINDINGS \<Rightarrow> step_rollback_bindings m now
      | _ \<Rightarrow> m)"

definition gateway_network_state_name :: "gateway_network_state \<Rightarrow> string" where
  "gateway_network_state_name state =
     (case state of
        GATEWAY_NETWORK_UNAVAILABLE \<Rightarrow> ''UNAVAILABLE'' | GATEWAY_NETWORK_IDLE \<Rightarrow> ''IDLE''
      | GATEWAY_NETWORK_APPLYING \<Rightarrow> ''APPLYING'' | GATEWAY_NETWORK_WAIT_BINDINGS \<Rightarrow> ''REBINDING''
      | GATEWAY_NETWORK_WAIT_CONFIRM \<Rightarrow> ''KEEP / REVERT'' | GATEWAY_NETWORK_COMMITTING \<Rightarrow> ''SAVING''
      | GATEWAY_NETWORK_ROLLING_BACK \<Rightarrow> ''RESTORING'' | GATEWAY_NETWORK_ROLLBACK_BINDINGS \<Rightarrow> ''RESTORE BINDINGS''
      | GATEWAY_NETWORK_KEPT \<Rightarrow> ''KEPT'' | GATEWAY_NETWORK_REVERTED \<Rightarrow> ''REVERTED''
      | GATEWAY_NETWORK_FAILED \<Rightarrow> ''FAILED'' | GATEWAY_NETWORK_ROLLBACK_FAILED \<Rightarrow> ''ROLLBACK FAILED''
      | GATEWAY_NETWORK_DURABILITY_UNCERTAIN \<Rightarrow> ''SAVE UNCERTAIN'')"

section \<open>Runs with a journal\<close>

text \<open>What the provider is asked to do, and the Keep of the client when the manager takes it.\<close>

datatype nm_event = Staged | Applied | Polled | Committed | Restored | Discarded | Kept

definition journal ::
  "'w gateway_network_manager_ops \<Rightarrow> ('w \<times> nm_event list) gateway_network_manager_ops"
where
  "journal ops =
     (let note = (\<lambda>e f (w, log). let (r, w) = f w in (r, (w, log @ [e])))
      in \<lparr>op_stage = (\<lambda>s c. note Staged (\<lambda>w. op_stage ops w c) s), op_apply = note Applied (op_apply ops),
          op_poll = note Polled (op_poll ops), op_commit = note Committed (op_commit ops),
          op_restore = note Restored (op_restore ops), op_discard = note Discarded (op_discard ops)\<rparr>)"

text \<open>What a client, or its loss, and the passing of time may do to a manager.\<close>

datatype nm_op =
  Apply "gateway_network_settings option" tick | Keep | Revert | Depart | Bound | Tick tick

fun nm_exec ::
  "('w \<times> nm_event list) gateway_network_manager \<Rightarrow> nm_op \<Rightarrow> ('w \<times> nm_event list) gateway_network_manager"
where
  "nm_exec m (Apply candidate now) = snd (gateway_network_manager_apply m candidate now)"
| "nm_exec m Keep = (let (r, m) = gateway_network_manager_confirm m
     in if r = 0 then m\<lparr>nm_context := (fst (nm_context m), snd (nm_context m) @ [Kept])\<rparr> else m)"
| "nm_exec m Revert = gateway_network_manager_revert m"
| "nm_exec m Depart = m\<lparr>client_alive := False\<rparr>"
| "nm_exec m Bound = m\<lparr>bindings_ready := True\<rparr>"
| "nm_exec m (Tick now) = gateway_network_manager_step m now"

definition nm_run ::
  "nm_op list \<Rightarrow> ('w \<times> nm_event list) gateway_network_manager \<Rightarrow> ('w \<times> nm_event list) gateway_network_manager"
where
  "nm_run ops m = foldl nm_exec m ops"

abbreviation nm_log :: "('w \<times> nm_event list) gateway_network_manager \<Rightarrow> nm_event list" where
  "nm_log m \<equiv> snd (nm_context m)"

text \<open>Whether every commit so far was confirmed, and whether one would be now.\<close>

fun track :: "bool \<times> bool \<Rightarrow> nm_event \<Rightarrow> bool \<times> bool" where
  "track (ok, confirmed) Staged = (ok, False)"
| "track (ok, confirmed) Restored = (ok, False)"
| "track (ok, confirmed) Kept = (ok, True)"
| "track (ok, confirmed) Committed = (ok \<and> confirmed, confirmed)"
| "track s _ = s"

definition tracked :: "nm_event list \<Rightarrow> bool \<times> bool" where
  "tracked log = foldl track (True, False) log"

lemma tracked_snoc [simp]: "tracked (log @ [e]) = track (tracked log) e" "tracked [] = (True, False)"
  by (simp_all add: tracked_def)

lemma tracked_confirmed:
  "snd (tracked log) \<Longrightarrow> \<exists>a b. log = a @ Kept # b \<and> Staged \<notin> set b \<and> Restored \<notin> set b"
proof (induction log rule: rev_induct)
  case (snoc e log)
  show ?case
  proof (cases "e = Kept")
    case False
    then have c: "snd (tracked log)" "e \<noteq> Staged" "e \<noteq> Restored"
      using snoc.prems by (cases "tracked log"; cases e; simp)+
    then obtain a b where "log = a @ Kept # b" "Staged \<notin> set b" "Restored \<notin> set b" using snoc.IH by blast
    then show ?thesis using c by (intro exI [of _ a] exI [of _ "b @ [e]"]) auto
  qed fastforce
qed simp

lemma tracked_ok_prefix: "fst (tracked (log @ log')) \<Longrightarrow> fst (tracked log)"
proof (induction log' rule: rev_induct)
  case (snoc e log')
  then show ?case by (cases "tracked (log @ log')"; cases e) (auto simp: append_assoc [symmetric] simp del: append_assoc)
qed simp

lemma tracked_commit:
  assumes "fst (tracked (pre @ Committed # post))"
  shows "\<exists>a b. pre = a @ Kept # b \<and> Staged \<notin> set b \<and> Restored \<notin> set b"
proof -
  have "fst (tracked (pre @ [Committed]))" using assms tracked_ok_prefix [of "pre @ [Committed]" post] by simp
  then have "snd (tracked pre)" by (cases "tracked pre") simp
  then show ?thesis by (rule tracked_confirmed)
qed

section \<open>Nothing is kept without being asked to\<close>

definition keeps_only_confirmed :: "('w \<times> nm_event list) gateway_network_manager \<Rightarrow> bool" where
  "keeps_only_confirmed m \<longleftrightarrow> (\<exists>ops. nm_ops m = journal ops) \<and> fst (tracked (nm_log m)) \<and>
     (confirmation_requested m \<or> nm_state m = GATEWAY_NETWORK_COMMITTING \<longrightarrow> snd (tracked (nm_log m)))"

lemma journal_provider:
  assumes "nm_ops m = journal ops"
  shows "\<exists>r w. provider op_poll m = (r, m\<lparr>nm_context := (w, nm_log m @ [Polled])\<rparr>)"
    "\<exists>r w. provider op_apply m = (r, m\<lparr>nm_context := (w, nm_log m @ [Applied])\<rparr>)"
    "\<exists>r w. provider op_commit m = (r, m\<lparr>nm_context := (w, nm_log m @ [Committed])\<rparr>)"
    "\<exists>r w. provider op_restore m = (r, m\<lparr>nm_context := (w, nm_log m @ [Restored])\<rparr>)"
    "\<exists>r w. provider op_discard m = (r, m\<lparr>nm_context := (w, nm_log m @ [Discarded])\<rparr>)"
    "\<exists>r w. provider (\<lambda>ops w. op_stage ops w c) m = (r, m\<lparr>nm_context := (w, nm_log m @ [Staged])\<rparr>)"
  by (auto simp: provider_def assms journal_def Let_def split: prod.splits)

lemma rollback_kept:
  assumes "nm_ops m = journal ops" "fst (tracked (nm_log m))"
  shows "keeps_only_confirmed (rollback m now)"
proof -
  let ?m = "m\<lparr>confirmation_requested := False, rollback_requested := False, bindings_ready := False\<rparr>"
  obtain r w where "provider op_restore ?m = (r, ?m\<lparr>nm_context := (w, nm_log m @ [Restored])\<rparr>)"
    using journal_provider(4) [of ?m ops] assms(1) by auto
  then show ?thesis
    using assms by (cases "tracked (nm_log m)") (auto simp: rollback_def keeps_only_confirmed_def)
qed

lemma kept_apply:
  assumes "keeps_only_confirmed m"
  shows "keeps_only_confirmed (snd (gateway_network_manager_apply m c now))"
proof (cases "gateway_network_manager_busy m \<or> nm_state m = GATEWAY_NETWORK_ROLLBACK_FAILED \<or>
    nm_state m = GATEWAY_NETWORK_DURABILITY_UNCERTAIN \<or>
    fst (gateway_network_settings_validate c) \<noteq> GATEWAY_NETWORK_SETTINGS_OK")
  case True
  then show ?thesis using assms by (simp add: gateway_network_manager_apply_def)
next
  case False
  let ?m = "m\<lparr>confirmation_requested := False, rollback_requested := False, bindings_ready := False,
              client_alive := True, rollback_reason := GATEWAY_NETWORK_REASON_NONE, nm_error_code := 0\<rparr>"
  obtain ops where ops: "nm_ops m = journal ops" and ok: "fst (tracked (nm_log m))"
    using assms by (auto simp: keeps_only_confirmed_def)
  obtain r w where st: "provider (\<lambda>ops w. op_stage ops w (the c)) ?m = (r, ?m\<lparr>nm_context := (w, nm_log m @ [Staged])\<rparr>)"
    using journal_provider(6) [of ?m ops "the c"] ops by auto
  let ?n = "?m\<lparr>nm_context := (w, nm_log m @ [Staged]), nm_generation := nm_generation m + 1\<rparr>"
  obtain r' w' where ap: "provider op_apply ?n = (r', ?n\<lparr>nm_context := (w', nm_log ?n @ [Applied])\<rparr>)"
    using journal_provider(2) [of ?n ops] ops by auto
  have t: "fst (tracked (nm_log m @ [Staged, Applied]))" "fst (tracked (nm_log m @ [Staged]))"
    using ok tracked_snoc(1) [of "nm_log m @ [Staged]" Applied] by (cases "tracked (nm_log m)"; simp)+
  consider "r \<noteq> 0" | "r = 0" "r' \<noteq> 0" | "r = 0" "r' = 0" by blast
  then show ?thesis
  proof cases
    case 2
    then have "snd (gateway_network_manager_apply m c now) = rollback (?n\<lparr>nm_context := (w', nm_log ?n @ [Applied]),
        rollback_reason := GATEWAY_NETWORK_REASON_APPLY, nm_error_code := r'\<rparr>) now"
      using False st ap by (simp add: gateway_network_manager_apply_def)
    then show ?thesis using rollback_kept [of _ ops] ops t by simp
  qed (use False st ap ops t in \<open>auto simp: gateway_network_manager_apply_def keeps_only_confirmed_def
        gateway_network_manager_busy_def\<close>)
qed

lemma kept_step:
  assumes "keeps_only_confirmed m"
  shows "keeps_only_confirmed (gateway_network_manager_step m now)"
proof -
  obtain ops where ops: "nm_ops m = journal ops" and ok: "fst (tracked (nm_log m))"
    and cf: "confirmation_requested m \<or> nm_state m = GATEWAY_NETWORK_COMMITTING \<Longrightarrow> snd (tracked (nm_log m))"
    using assms by (auto simp: keeps_only_confirmed_def)
  have same: "tracked (nm_log m @ [Polled]) = tracked (nm_log m)" "tracked (nm_log m @ [Discarded]) = tracked (nm_log m)"
    "tracked (nm_log m @ [Polled, Discarded]) = tracked (nm_log m)"
    using tracked_snoc(1) [of "nm_log m @ [Polled]" Discarded] by (cases "tracked (nm_log m)"; simp)+
  obtain r w where poll: "provider op_poll m = (r, m\<lparr>nm_context := (w, nm_log m @ [Polled])\<rparr>)"
    using journal_provider(1) [OF ops] by blast
  have undo: "keeps_only_confirmed (rollback m' now)" if "nm_ops m' = nm_ops m" "nm_log m' = nm_log m @ [Polled]" for m'
    using rollback_kept [of m' ops] that ops ok same by simp
  show ?thesis
  proof (cases "abandons m now")
    case True
    then show ?thesis using rollback_kept [of _ ops] ops ok by (simp add: gateway_network_manager_step_def)
  next
    case False
    show ?thesis
    proof (cases "nm_state m")
      case GATEWAY_NETWORK_APPLYING
      then show ?thesis
        using False poll undo assms same ops ok cf
        by (auto simp: gateway_network_manager_step_def step_applying_def) (simp_all add: keeps_only_confirmed_def)
    next
      case GATEWAY_NETWORK_WAIT_BINDINGS
      then show ?thesis using False assms by (simp add: gateway_network_manager_step_def keeps_only_confirmed_def)
    next
      case GATEWAY_NETWORK_WAIT_CONFIRM
      then show ?thesis
        using False poll undo assms same ops ok cf
        by (auto simp: gateway_network_manager_step_def step_wait_confirm_def) (simp_all add: keeps_only_confirmed_def)
    next
      case GATEWAY_NETWORK_COMMITTING
      then have c: "snd (tracked (nm_log m))" using cf by simp
      obtain r' w' where com: "provider op_commit m = (r', m\<lparr>nm_context := (w', nm_log m @ [Committed])\<rparr>)"
        using journal_provider(3) [OF ops] by blast
      have t: "tracked (nm_log m @ [Committed]) = (True, True)" using ok c by (cases "tracked (nm_log m)") simp
      consider "r' = 1" | "r' = - 2" | "r' = 0" | "r' \<noteq> 1" "r' \<noteq> - 2" "r' \<noteq> 0" by blast
      then show ?thesis
      proof cases
        case 4
        then have "gateway_network_manager_step m now = rollback (m\<lparr>nm_context := (w', nm_log m @ [Committed]),
            rollback_reason := GATEWAY_NETWORK_REASON_COMMIT, nm_error_code := r'\<rparr>) now"
          using False GATEWAY_NETWORK_COMMITTING com by (simp add: gateway_network_manager_step_def step_committing_def)
        then show ?thesis using rollback_kept [of _ ops] ops t by simp
      qed (use False GATEWAY_NETWORK_COMMITTING com ops t in \<open>auto simp: gateway_network_manager_step_def
            step_committing_def keeps_only_confirmed_def Let_def\<close>)
    next
      case GATEWAY_NETWORK_ROLLING_BACK
      let ?p = "m\<lparr>nm_context := (w, nm_log m @ [Polled])\<rparr>"
      obtain r' w' where d: "provider op_discard ?p = (r', ?p\<lparr>nm_context := (w', nm_log ?p @ [Discarded])\<rparr>)"
        using journal_provider(5) [of ?p ops] ops by auto
      then show ?thesis
        using GATEWAY_NETWORK_ROLLING_BACK False poll same ops ok cf
        by (auto simp: gateway_network_manager_step_def step_rolling_back_def keeps_only_confirmed_def)
    next
      case GATEWAY_NETWORK_ROLLBACK_BINDINGS
      then show ?thesis
        using False assms by (simp add: gateway_network_manager_step_def step_rollback_bindings_def keeps_only_confirmed_def)
    qed (use False assms in \<open>simp_all add: gateway_network_manager_step_def\<close>)
  qed
qed

lemma kept_exec: "keeps_only_confirmed m \<Longrightarrow> keeps_only_confirmed (nm_exec m op)"
proof (cases op)
  case Keep
  assume k: "keeps_only_confirmed m"
  then show ?thesis
    using Keep by (cases "tracked (nm_log m)") (auto simp: gateway_network_manager_confirm_def keeps_only_confirmed_def)
qed (auto simp: kept_apply kept_step gateway_network_manager_revert_def, simp_all add: keeps_only_confirmed_def)

lemma kept_run: "keeps_only_confirmed m \<Longrightarrow> keeps_only_confirmed (nm_run ops m)"
  by (induction ops rule: rev_induct) (simp_all add: nm_run_def kept_exec)

text \<open>A manager as it leaves initialisation, over a provider with a journal.\<close>

definition fresh_manager ::
  "'w gateway_network_manager_ops \<Rightarrow> 'w \<Rightarrow> ('w \<times> nm_event list) gateway_network_manager" where
  "fresh_manager ops w = the (snd (gateway_network_manager_init (Some (journal ops)) (w, [])))"

lemma fresh_kept: "keeps_only_confirmed (fresh_manager ops w)"
  by (auto simp: fresh_manager_def gateway_network_manager_init_def keeps_only_confirmed_def)

text \<open>
  C15. Nothing becomes durable unasked: in any run, whatever the provider answers, each call that makes
  the candidate durable comes after a Keep of the client which the manager accepted, and neither
  a new candidate was staged nor the old settings restored in between.
\<close>

theorem commits_only_confirmed:
  assumes "nm_log (nm_run nops (fresh_manager ops w)) = pre @ Committed # post"
  shows "\<exists>a b. pre = a @ Kept # b \<and> Staged \<notin> set b \<and> Restored \<notin> set b"
  using kept_run [OF fresh_kept, of nops ops w] assms tracked_commit [of pre post] by (simp add: keeps_only_confirmed_def)

text \<open>A provider for the witnesses: everything succeeds at once.\<close>

definition steady :: "unit gateway_network_manager_ops" where
  "steady = \<lparr>op_stage = (\<lambda>w c. (0, w)), op_apply = (\<lambda>w. (0, w)), op_poll = (\<lambda>w. (1, w)),
     op_commit = (\<lambda>w. (0, w)), op_restore = (\<lambda>w. (0, w)), op_discard = (\<lambda>w. (0, w))\<rparr>"

lemma sample_journal:
  "nm_log (nm_run [Apply (Some sample_settings) 0, Tick 10, Bound, Tick 20, Keep, Tick 30, Tick 40]
      (fresh_manager steady ())) = [Staged, Applied, Polled, Kept, Polled] @ Committed # []"
  by (simp add: nm_run_def fresh_manager_def gateway_network_manager_init_def gateway_network_manager_apply_def
      sample_settings_ok gateway_network_manager_busy_def provider_def journal_def steady_def Let_def
      gateway_network_manager_step_def abandons_def core_deadline_expired_def core_deadline_after_def
      core_ticks_valid_interval_def step_applying_def step_wait_confirm_def step_committing_def
      gateway_network_manager_confirm_def)

theorem commits_only_confirmed_witness:
  "\<exists>a b. [Staged, Applied, Polled, Kept, Polled] = a @ Kept # b \<and> Staged \<notin> set b \<and> Restored \<notin> set b"
  by (rule commits_only_confirmed [OF sample_journal])

section \<open>Every transaction ends\<close>

lemma rollback_state:
  "nm_state (rollback m now) = GATEWAY_NETWORK_ROLLBACK_FAILED \<or>
   nm_state (rollback m now) = GATEWAY_NETWORK_ROLLING_BACK \<and>
   nm_deadline (rollback m now) = core_deadline_after now GATEWAY_NETWORK_ROLLBACK_MS"
  by (simp add: rollback_def split: prod.split)

lemma provider_keeps: "provider f m = (r, m') \<Longrightarrow> nm_state m' = nm_state m \<and> nm_deadline m' = nm_deadline m"
  by (auto simp: provider_def split: prod.splits)

lemma done_step: "\<not> gateway_network_manager_busy m \<Longrightarrow> gateway_network_manager_step m now = m"
  by (cases "nm_state m") (simp_all add: gateway_network_manager_step_def abandons_def gateway_network_manager_busy_def)

lemma overdue_rollback_ends:
  assumes "nm_state m \<in> {GATEWAY_NETWORK_ROLLING_BACK, GATEWAY_NETWORK_ROLLBACK_BINDINGS}"
    "core_deadline_expired (nm_deadline m) now"
  shows "nm_state (gateway_network_manager_step m now) \<in>
    {GATEWAY_NETWORK_KEPT, GATEWAY_NETWORK_REVERTED, GATEWAY_NETWORK_ROLLBACK_FAILED}"
proof -
  obtain r m' where "provider op_poll m = (r, m')" by (cases "provider op_poll m") auto
  then show ?thesis
    using assms provider_keeps [of op_poll m r m']
    by (cases "nm_state m")
      (simp_all add: gateway_network_manager_step_def abandons_def step_rolling_back_def step_rollback_bindings_def)
qed

text \<open>
  C16. A network transaction cannot hang: a busy manager stepped once after its deadline has passed is
  done or rolling back under a new deadline, and one more step after that deadline finds it done,
  whatever the provider answers and whether or not the client is still there.
\<close>

theorem manager_settles:
  assumes "gateway_network_manager_busy m" "core_deadline_expired (nm_deadline m) t"
    "core_deadline_expired (core_deadline_after t GATEWAY_NETWORK_ROLLBACK_MS) t'"
  shows "\<not> gateway_network_manager_busy (gateway_network_manager_step (gateway_network_manager_step m t) t')"
proof (cases "nm_state m \<in> {GATEWAY_NETWORK_ROLLING_BACK, GATEWAY_NETWORK_ROLLBACK_BINDINGS}")
  case True
  let ?m = "gateway_network_manager_step m t"
  from overdue_rollback_ends [OF True assms(2)]
  have "nm_state ?m \<in> {GATEWAY_NETWORK_KEPT, GATEWAY_NETWORK_REVERTED, GATEWAY_NETWORK_ROLLBACK_FAILED}" .
  then have "\<not> gateway_network_manager_busy ?m" by (auto simp: gateway_network_manager_busy_def)
  then show ?thesis by (simp add: done_step)
next
  case False
  then have "abandons m t" using assms(1,2) by (auto simp: gateway_network_manager_busy_def abandons_def)
  then obtain m' where m: "gateway_network_manager_step m t = rollback m' t"
    by (auto simp: gateway_network_manager_step_def)
  show ?thesis
  proof (cases "nm_state (rollback m' t) = GATEWAY_NETWORK_ROLLBACK_FAILED")
    case True
    then have "\<not> gateway_network_manager_busy (rollback m' t)" by (simp add: gateway_network_manager_busy_def)
    then show ?thesis by (simp add: m done_step)
  next
    case False
    then have "nm_state (rollback m' t) = GATEWAY_NETWORK_ROLLING_BACK"
      "core_deadline_expired (nm_deadline (rollback m' t)) t'"
      using rollback_state [of m' t] assms(3) by auto
    then show ?thesis
      using overdue_rollback_ends [of "rollback m' t" t'] by (auto simp: m gateway_network_manager_busy_def)
  qed
qed

theorem manager_settles_witness:
  "\<not> gateway_network_manager_busy (gateway_network_manager_step (gateway_network_manager_step
      ((fresh_manager steady ())\<lparr>nm_state := GATEWAY_NETWORK_WAIT_CONFIRM,
         nm_deadline := core_deadline_after 0 GATEWAY_NETWORK_CONFIRM_MS\<rparr>) 60000) 90000)"
  by (rule manager_settles)
    (simp_all add: gateway_network_manager_busy_def core_deadline_expired_def core_deadline_after_def
      core_ticks_valid_interval_def)

end
