(* ===== verification/Gateway_Config.thy ===== *)
theory Gateway_Config
  imports Gateway_Prelude
begin

text \<open>
  The configuration of the gateway's eight ports: the enumerations, names and defaults of
  \<open>src/config/config_model.c\<close>, and the validation of \<open>src/gateway/gateway_controller.c\<close>, which
  refuses ports that are wrong by themselves or that claim the same UART or endpoint. The enumerations
  are numbers, as the code range-checks them; \<open>unsigned long\<close> has the 32 bits of the target.
\<close>

abbreviation FOURVRS_PORT_COUNT :: nat where "FOURVRS_PORT_COUNT \<equiv> 8"
abbreviation FOURVRS_BAUD_COUNT :: nat where "FOURVRS_BAUD_COUNT \<equiv> 20"
abbreviation GATEWAY_PORT_COUNT :: nat where "GATEWAY_PORT_COUNT \<equiv> 8"
abbreviation GATEWAY_BIND_ADDRESS_LENGTH :: nat where "GATEWAY_BIND_ADDRESS_LENGTH \<equiv> 40"

abbreviation SERIAL_MODE_RS232 :: u32 where "SERIAL_MODE_RS232 \<equiv> 0"
abbreviation SERIAL_MODE_COUNT :: u32 where "SERIAL_MODE_COUNT \<equiv> 4"
abbreviation PARITY_NONE :: u32 where "PARITY_NONE \<equiv> 0"
abbreviation PARITY_COUNT :: u32 where "PARITY_COUNT \<equiv> 3"
abbreviation TRANSPORT_MODBUS_TCP :: u32 where "TRANSPORT_MODBUS_TCP \<equiv> 0"
abbreviation TRANSPORT_MODBUS_UDP :: u32 where "TRANSPORT_MODBUS_UDP \<equiv> 1"
abbreviation TRANSPORT_RTU_UDP :: u32 where "TRANSPORT_RTU_UDP \<equiv> 2"
abbreviation TRANSPORT_RAW_TCP :: u32 where "TRANSPORT_RAW_TCP \<equiv> 3"
abbreviation TRANSPORT_RAW_UDP :: u32 where "TRANSPORT_RAW_UDP \<equiv> 4"
abbreviation TRANSPORT_COUNT :: u32 where "TRANSPORT_COUNT \<equiv> 5"

section \<open>The configuration model of the panel\<close>

record port_config =
  pc_mode :: u32
  pc_baud_index :: int
  pc_data_bits :: int
  pc_parity :: u32
  pc_stop_bits :: int
  pc_transport :: u32
  pc_network_port :: int
  pc_special_baud_enabled :: int
  pc_special_baud :: u32

definition baud_values :: "u32 list" where
  "baud_values = [50, 75, 110, 134, 150, 200, 300, 600, 1200, 1800, 2400, 4800, 9600, 19200, 38400,
     57600, 115200, 230400, 460800, 921600]"

definition configuration_defaults :: "port_config list" where
  "configuration_defaults = map (\<lambda>i. \<lparr>pc_mode = SERIAL_MODE_RS232, pc_baud_index = 12, pc_data_bits = 8,
     pc_parity = PARITY_NONE, pc_stop_bits = 1, pc_transport = TRANSPORT_MODBUS_TCP,
     pc_network_port = 502 + int i, pc_special_baud_enabled = 0, pc_special_baud = 0\<rparr>) [0..<FOURVRS_PORT_COUNT]"

text \<open>A table lookup guarded by the range of the index.\<close>

definition lookup_label :: "'a list \<Rightarrow> 'a \<Rightarrow> int \<Rightarrow> 'a" where
  "lookup_label labels other i = (if 0 \<le> i \<and> i < int (length labels) then labels ! nat i else other)"

definition config_port_name :: "int \<Rightarrow> string" where
  "config_port_name = lookup_label [''P1'', ''P2'', ''P3'', ''P4'', ''P5'', ''P6'', ''P7'', ''P8''] ''P?''"

definition config_device_name :: "int \<Rightarrow> string" where
  "config_device_name = lookup_label [''ttyM0'', ''ttyM1'', ''ttyM2'', ''ttyM3'', ''ttyM4'', ''ttyM5'',
     ''ttyM6'', ''ttyM7''] ''ttyM?''"

definition serial_mode_label :: "int \<Rightarrow> string" where
  "serial_mode_label = lookup_label [''RS232'', ''RS485-2W'', ''RS422'', ''RS485-4W''] ''Invalid''"

definition parity_label :: "int \<Rightarrow> string" where
  "parity_label = lookup_label [''None'', ''Even'', ''Odd''] ''Invalid''"

definition transport_label :: "int \<Rightarrow> string" where
  "transport_label = lookup_label [''MB TCP'', ''MB UDP'', ''RTU/UDP'', ''RAW TCP'', ''RAW UDP''] ''Invalid''"

definition baud_value :: "int \<Rightarrow> u32" where
  "baud_value = lookup_label baud_values 0"

definition network_port_valid :: "int \<Rightarrow> bool" where
  "network_port_valid v \<longleftrightarrow> v \<ge> 1 \<and> v \<le> 65535"

section \<open>Gateway port configurations\<close>

text \<open>\<open>gc_bind_address\<close> is the string in the \<open>char[40]\<close> field.\<close>

record gateway_port_config =
  gc_enabled :: int
  gc_uart_index :: u32
  gc_mode :: u32
  gc_baud :: u32
  gc_data_bits :: u32
  gc_parity :: u32
  gc_stop_bits :: u32
  gc_transport :: u32
  gc_bind_address :: string
  gc_bind_policy :: u32
  gc_endpoint_port :: u32
  gc_special_baud_enabled :: int
  gc_special_baud :: u32
  gc_revision :: u32

datatype gateway_error =
  GATEWAY_ERROR_NONE | GATEWAY_ERROR_INVALID_CONFIG | GATEWAY_ERROR_DUPLICATE_UART
| GATEWAY_ERROR_DUPLICATE_ENDPOINT | GATEWAY_ERROR_UNSUPPORTED_TRANSPORT | GATEWAY_ERROR_BACKEND_START
| GATEWAY_ERROR_LISTENER_START | GATEWAY_ERROR_RECONFIGURE | GATEWAY_ERROR_ROLLBACK | GATEWAY_ERROR_STOP

definition gateway_configuration_defaults :: "gateway_port_config list" where
  "gateway_configuration_defaults = map (\<lambda>i. \<lparr>gc_enabled = 1, gc_uart_index = of_nat i,
     gc_mode = SERIAL_MODE_RS232, gc_baud = 9600, gc_data_bits = 8, gc_parity = PARITY_NONE, gc_stop_bits = 1,
     gc_transport = TRANSPORT_MODBUS_TCP, gc_bind_address = ''0.0.0.0'', gc_bind_policy = 0,
     gc_endpoint_port = 502 + of_nat i, gc_special_baud_enabled = 0, gc_special_baud = 0, gc_revision = 1\<rparr>)
     [0..<GATEWAY_PORT_COUNT]"

definition standard_baud :: "u32 \<Rightarrow> bool" where
  "standard_baud v \<longleftrightarrow> list_ex (\<lambda>i. baud_value (int i) = v) [0..<FOURVRS_BAUD_COUNT]"

text \<open>
  \<open>%u\<close> of \<open>sscanf\<close>: blanks, an optional sign, then digits; a minus sign negates the value, and a value
  out of range is the largest 32-bit number, with either sign. The rest of the input comes with the number.
\<close>

definition blank :: "char \<Rightarrow> bool" where
  "blank c \<longleftrightarrow> (of_char c :: nat) \<in> {9, 10, 11, 12, 13, 32}"

definition decimal_digit :: "char \<Rightarrow> bool" where
  "decimal_digit c \<longleftrightarrow> 48 \<le> (of_char c :: nat) \<and> (of_char c :: nat) \<le> 57"

definition scan_unsigned :: "string \<Rightarrow> (u32 \<times> string) option" where
  "scan_unsigned s =
     (let s = dropWhile blank s;
          negative = (s \<noteq> [] \<and> hd s = CHR ''-'');
          s = (if s \<noteq> [] \<and> (hd s = CHR ''-'' \<or> hd s = CHR ''+'') then tl s else s);
          digits = takeWhile decimal_digit s;
          n = foldl (\<lambda>n c. n * 10 + (of_char c - 48)) (0 :: int) digits;
          v = (of_int (min n 4294967295) :: u32)
      in if digits = [] then None
         else Some (if negative \<and> n \<le> 4294967295 then - v else v, dropWhile decimal_digit s))"

definition scan_dot :: "string \<Rightarrow> string option" where
  "scan_dot s = (case s of [] \<Rightarrow> None | c # cs \<Rightarrow> if c = CHR ''.'' then Some cs else None)"

text \<open>\<open>sscanf(s, "%u.%u.%u.%u%c", ...) == 4\<close>: four numbers and nothing after them.\<close>

fun scan_quad :: "nat \<Rightarrow> string \<Rightarrow> u32 list option" where
  "scan_quad 0 s = None"
| "scan_quad (Suc k) s =
     (case scan_unsigned s of None \<Rightarrow> None
      | Some (v, s) \<Rightarrow>
          if k = 0 then (if s = [] then Some [v] else None)
          else (case scan_dot s of None \<Rightarrow> None | Some s \<Rightarrow> map_option ((#) v) (scan_quad k s)))"

definition bind_address_valid :: "string \<Rightarrow> bool" where
  "bind_address_valid s \<longleftrightarrow>
     (if length s = 0 \<or> length s \<ge> GATEWAY_BIND_ADDRESS_LENGTH then False
      else case scan_quad 4 s of None \<Rightarrow> False | Some vs \<Rightarrow> list_all (\<lambda>v. v \<le> 255) vs)"

definition validate_one :: "gateway_port_config \<Rightarrow> gateway_error" where
  "validate_one c =
     (if unat (gc_uart_index c) \<ge> GATEWAY_PORT_COUNT \<or> gc_mode c \<ge> SERIAL_MODE_COUNT \<or>
         gc_data_bits c < 5 \<or> gc_data_bits c > 8 \<or> gc_parity c \<ge> PARITY_COUNT \<or>
         (gc_stop_bits c \<noteq> 1 \<and> gc_stop_bits c \<noteq> 2) \<or> gc_revision c = 0 \<or>
         (gc_enabled c \<noteq> 0 \<and> gc_enabled c \<noteq> 1) \<or>
         (gc_special_baud_enabled c \<noteq> 0 \<and> gc_special_baud_enabled c \<noteq> 1) \<or>
         \<not> bind_address_valid (gc_bind_address c) then GATEWAY_ERROR_INVALID_CONFIG
      else if (gc_special_baud_enabled c = 0 \<and> \<not> standard_baud (gc_baud c)) \<or>
         (gc_special_baud_enabled c \<noteq> 0 \<and> (gc_special_baud c = 0 \<or> gc_special_baud c > 0xffffffff))
      then GATEWAY_ERROR_INVALID_CONFIG
      else if gc_bind_policy c > 3 then GATEWAY_ERROR_INVALID_CONFIG
      else if gc_enabled c = 0 then GATEWAY_ERROR_NONE
      else if gc_transport c \<noteq> TRANSPORT_MODBUS_TCP \<and> gc_transport c \<noteq> TRANSPORT_MODBUS_UDP \<and>
         gc_transport c \<noteq> TRANSPORT_RTU_UDP \<and> gc_transport c \<noteq> TRANSPORT_RAW_TCP \<and>
         gc_transport c \<noteq> TRANSPORT_RAW_UDP then GATEWAY_ERROR_UNSUPPORTED_TRANSPORT
      else if gc_endpoint_port c = 0 \<or> gc_endpoint_port c > 65535 then GATEWAY_ERROR_INVALID_CONFIG
      else GATEWAY_ERROR_NONE)"

definition same_family :: "gateway_port_config \<Rightarrow> gateway_port_config \<Rightarrow> bool" where
  "same_family a b \<longleftrightarrow>
     ((gc_transport a = TRANSPORT_MODBUS_TCP \<or> gc_transport a = TRANSPORT_RAW_TCP) \<and>
      (gc_transport b = TRANSPORT_MODBUS_TCP \<or> gc_transport b = TRANSPORT_RAW_TCP)) \<or>
     ((gc_transport a = TRANSPORT_MODBUS_UDP \<or> gc_transport a = TRANSPORT_RTU_UDP \<or> gc_transport a = TRANSPORT_RAW_UDP) \<and>
      (gc_transport b = TRANSPORT_MODBUS_UDP \<or> gc_transport b = TRANSPORT_RTU_UDP \<or> gc_transport b = TRANSPORT_RAW_UDP))"

definition same_endpoint :: "gateway_port_config \<Rightarrow> gateway_port_config \<Rightarrow> bool" where
  "same_endpoint a b \<longleftrightarrow> same_family a b \<and> gc_endpoint_port a = gc_endpoint_port b \<and>
     (gc_bind_address a = gc_bind_address b \<or> gc_bind_address a = ''0.0.0.0'' \<or> gc_bind_address b = ''0.0.0.0'')"

text \<open>The body of the two nested loops for the ports \<open>i < j\<close>.\<close>

definition check_pair ::
  "gateway_port_config list \<Rightarrow> gateway_error list \<Rightarrow> nat \<times> nat \<Rightarrow> gateway_error list" where
  "check_pair ports errors = (\<lambda>(i, j).
     (let a = ports ! i; b = ports ! j in
      if gc_enabled a = 0 \<or> gc_enabled b = 0 then errors
      else
        let errors = (if gc_uart_index a = gc_uart_index b
                      then errors[j := GATEWAY_ERROR_DUPLICATE_UART, i := GATEWAY_ERROR_DUPLICATE_UART] else errors)
        in if same_endpoint a b
           then errors[j := GATEWAY_ERROR_DUPLICATE_ENDPOINT, i := GATEWAY_ERROR_DUPLICATE_ENDPOINT] else errors))"

definition port_pairs :: "(nat \<times> nat) list" where
  "port_pairs = concat (map (\<lambda>i. map (\<lambda>j. (i, j)) [i + 1..<GATEWAY_PORT_COUNT]) [0..<GATEWAY_PORT_COUNT])"

text \<open>The number of failures and the error of each port.\<close>

definition gateway_configuration_validate :: "gateway_port_config list \<Rightarrow> int \<times> gateway_error list" where
  "gateway_configuration_validate ports =
     (let errors = foldl (check_pair ports) (map validate_one ports) port_pairs
      in (int (length (filter (\<lambda>e. e \<noteq> GATEWAY_ERROR_NONE) errors)), errors))"

section \<open>What validation decides\<close>

definition port_conflict :: "gateway_port_config \<Rightarrow> gateway_port_config \<Rightarrow> bool" where
  "port_conflict a b \<longleftrightarrow> gc_enabled a \<noteq> 0 \<and> gc_enabled b \<noteq> 0 \<and>
     (gc_uart_index a = gc_uart_index b \<or> same_endpoint a b)"

lemma port_conflict_sym: "port_conflict a b = port_conflict b a"
  by (auto simp: port_conflict_def same_endpoint_def same_family_def)

lemma check_pair_length [simp]: "length (check_pair ports errors p) = length errors"
  by (simp add: check_pair_def Let_def split: prod.split)

lemma check_pair_error:
  assumes "i < j" "j < length errors" "k < length errors"
  shows "check_pair ports errors (i, j) ! k = GATEWAY_ERROR_NONE \<longleftrightarrow>
    errors ! k = GATEWAY_ERROR_NONE \<and> \<not> ((k = i \<or> k = j) \<and> port_conflict (ports ! i) (ports ! j))"
  using assms by (auto simp: check_pair_def port_conflict_def Let_def nth_list_update)

lemma check_pairs:
  assumes "\<forall>(i, j) \<in> set ps. i < j \<and> j < length errors" "k < length errors"
  shows "length (foldl (check_pair ports) errors ps) = length errors \<and>
    (foldl (check_pair ports) errors ps ! k = GATEWAY_ERROR_NONE \<longleftrightarrow>
     errors ! k = GATEWAY_ERROR_NONE \<and>
     (\<forall>(i, j) \<in> set ps. (k = i \<or> k = j) \<longrightarrow> \<not> port_conflict (ports ! i) (ports ! j)))"
  using assms
proof (induction ps rule: rev_induct)
  case (snoc p ps)
  obtain i j where p: "p = (i, j)" by (cases p)
  then show ?case using snoc check_pair_error [of i j "foldl (check_pair ports) errors ps" k ports] by auto
qed simp

lemma in_port_pairs: "(i, j) \<in> set port_pairs \<longleftrightarrow> i < j \<and> j < GATEWAY_PORT_COUNT"
  by (auto simp: port_pairs_def intro!: bexI [of _ i])

lemma validate_error:
  assumes "length ports = GATEWAY_PORT_COUNT" "k < GATEWAY_PORT_COUNT"
  shows "length (snd (gateway_configuration_validate ports)) = GATEWAY_PORT_COUNT"
    "snd (gateway_configuration_validate ports) ! k = GATEWAY_ERROR_NONE \<longleftrightarrow>
     validate_one (ports ! k) = GATEWAY_ERROR_NONE \<and>
     (\<forall>j < GATEWAY_PORT_COUNT. j \<noteq> k \<longrightarrow> \<not> port_conflict (ports ! k) (ports ! j))"
proof -
  have ps: "\<forall>(i, j) \<in> set port_pairs. i < j \<and> j < length (map validate_one ports)"
    using assms(1) by (auto simp: in_port_pairs)
  have k: "k < length (map validate_one ports)" using assms by simp
  note c = check_pairs [OF ps k, of ports]
  show "length (snd (gateway_configuration_validate ports)) = GATEWAY_PORT_COUNT"
    using c assms(1) by (simp add: gateway_configuration_validate_def Let_def)
  have "(\<forall>(i, j) \<in> set port_pairs. (k = i \<or> k = j) \<longrightarrow> \<not> port_conflict (ports ! i) (ports ! j)) \<longleftrightarrow>
      (\<forall>j < GATEWAY_PORT_COUNT. j \<noteq> k \<longrightarrow> \<not> port_conflict (ports ! k) (ports ! j))"
  proof
    assume L: "\<forall>(i, j) \<in> set port_pairs. (k = i \<or> k = j) \<longrightarrow> \<not> port_conflict (ports ! i) (ports ! j)"
    show "\<forall>j < GATEWAY_PORT_COUNT. j \<noteq> k \<longrightarrow> \<not> port_conflict (ports ! k) (ports ! j)"
    proof (intro allI impI)
      fix j assume j: "j < GATEWAY_PORT_COUNT" "j \<noteq> k"
      show "\<not> port_conflict (ports ! k) (ports ! j)"
      proof (cases "k < j")
        case True
        then show ?thesis using L j in_port_pairs [of k j] by blast
      next
        case False
        then show ?thesis using L j assms(2) in_port_pairs [of j k] port_conflict_sym by fastforce
      qed
    qed
  next
    assume "\<forall>j < GATEWAY_PORT_COUNT. j \<noteq> k \<longrightarrow> \<not> port_conflict (ports ! k) (ports ! j)"
    then show "\<forall>(i, j) \<in> set port_pairs. (k = i \<or> k = j) \<longrightarrow> \<not> port_conflict (ports ! i) (ports ! j)"
      using port_conflict_sym by (fastforce simp: in_port_pairs)
  qed
  then show "snd (gateway_configuration_validate ports) ! k = GATEWAY_ERROR_NONE \<longleftrightarrow>
     validate_one (ports ! k) = GATEWAY_ERROR_NONE \<and>
     (\<forall>j < GATEWAY_PORT_COUNT. j \<noteq> k \<longrightarrow> \<not> port_conflict (ports ! k) (ports ! j))"
    using c assms by (simp add: gateway_configuration_validate_def Let_def)
qed

lemma pairwise_below:
  fixes n :: nat
  assumes "\<And>a b. R a b = R b a"
  shows "(\<forall>k < n. \<forall>j < n. j \<noteq> k \<longrightarrow> \<not> R (f k) (f j)) \<longleftrightarrow> (\<forall>i < n. \<forall>j < i. \<not> R (f i) (f j))"
proof
  assume L: "\<forall>i < n. \<forall>j < i. \<not> R (f i) (f j)"
  show "\<forall>k < n. \<forall>j < n. j \<noteq> k \<longrightarrow> \<not> R (f k) (f j)"
  proof (intro allI impI)
    fix k j assume "k < n" "j < n" "j \<noteq> k"
    then show "\<not> R (f k) (f j)" using L assms [of "f k" "f j"] by (cases "j < k") auto
  qed
qed auto

lemma failures_none:
  assumes "length ports = GATEWAY_PORT_COUNT"
  shows "fst (gateway_configuration_validate ports) = 0 \<longleftrightarrow>
    (\<forall>p \<in> set ports. validate_one p = GATEWAY_ERROR_NONE) \<and>
    (\<forall>i < GATEWAY_PORT_COUNT. \<forall>j < i. \<not> port_conflict (ports ! i) (ports ! j))"
proof -
  let ?e = "snd (gateway_configuration_validate ports)"
  have "fst (gateway_configuration_validate ports) = 0 \<longleftrightarrow> (\<forall>k < GATEWAY_PORT_COUNT. ?e ! k = GATEWAY_ERROR_NONE)"
    using validate_error(1) [OF assms, of 0]
    by (auto simp: gateway_configuration_validate_def Let_def filter_empty_conv all_set_conv_all_nth)
  also have "\<dots> \<longleftrightarrow> (\<forall>k < GATEWAY_PORT_COUNT. validate_one (ports ! k) = GATEWAY_ERROR_NONE) \<and>
      (\<forall>k < GATEWAY_PORT_COUNT. \<forall>j < GATEWAY_PORT_COUNT. j \<noteq> k \<longrightarrow> \<not> port_conflict (ports ! k) (ports ! j))"
    using validate_error(2) [OF assms] by blast
  also have "\<dots> \<longleftrightarrow> (\<forall>p \<in> set ports. validate_one p = GATEWAY_ERROR_NONE) \<and>
      (\<forall>i < GATEWAY_PORT_COUNT. \<forall>j < i. \<not> port_conflict (ports ! i) (ports ! j))"
    using assms pairwise_below [of port_conflict, OF port_conflict_sym, of GATEWAY_PORT_COUNT "(!) ports"]
    by (simp add: all_set_conv_all_nth)
  finally show ?thesis .
qed

text \<open>
  C19. Validation decides exactly what it should: a set of eight port configurations has no failures if
  and only if every port is acceptable by itself and no two enabled ports share a UART or an
  endpoint, whatever order the code looks at the pairs in.
\<close>

theorem validate_decides:
  assumes "length ports = GATEWAY_PORT_COUNT"
  shows "fst (gateway_configuration_validate ports) = 0 \<longleftrightarrow>
    (\<forall>p \<in> set ports. validate_one p = GATEWAY_ERROR_NONE) \<and>
    (\<forall>i < GATEWAY_PORT_COUNT. \<forall>j < i. \<not> port_conflict (ports ! i) (ports ! j))"
  by (rule failures_none [OF assms])

theorem validate_decides_witness:
  "fst (gateway_configuration_validate gateway_configuration_defaults) = 0 \<longleftrightarrow>
    (\<forall>p \<in> set gateway_configuration_defaults. validate_one p = GATEWAY_ERROR_NONE) \<and>
    (\<forall>i < GATEWAY_PORT_COUNT. \<forall>j < i.
       \<not> port_conflict (gateway_configuration_defaults ! i) (gateway_configuration_defaults ! j))"
  by (rule validate_decides) (simp add: gateway_configuration_defaults_def)

section \<open>Endpoints are compared by spelling\<close>

definition plain_port :: gateway_port_config where
  "plain_port = (gateway_configuration_defaults ! 0)\<lparr>gc_bind_address := ''10.0.0.1''\<rparr>"

text \<open>A port at the same place, written with one zero more, on another UART.\<close>

definition respelled :: "u32 \<Rightarrow> gateway_port_config \<Rightarrow> gateway_port_config" where
  "respelled u p = p\<lparr>gc_bind_address := ''0'' @ gc_bind_address p, gc_uart_index := u\<rparr>"

lemma respelled_quad:
  assumes "gc_bind_address p = c # CHR ''.'' # r" "c \<in> set ''1234567''"
  shows "scan_quad 4 (gc_bind_address (respelled u p)) = scan_quad 4 (gc_bind_address p)"
proof -
  have "scan_unsigned (CHR ''0'' # c # CHR ''.'' # r) = scan_unsigned (c # CHR ''.'' # r)"
    using assms(2) by (auto simp: scan_unsigned_def blank_def decimal_digit_def)
  then show ?thesis using assms(1) by (simp add: respelled_def numeral_eq_Suc)
qed

lemma validate_respelled:
  assumes "validate_one p = GATEWAY_ERROR_NONE" "unat u < GATEWAY_PORT_COUNT" "Suc (length (gc_bind_address p)) < GATEWAY_BIND_ADDRESS_LENGTH"
    "scan_quad 4 (gc_bind_address (respelled u p)) = scan_quad 4 (gc_bind_address p)"
  shows "validate_one (respelled u p) = GATEWAY_ERROR_NONE" "validate_one (p\<lparr>gc_enabled := 0\<rparr>) = GATEWAY_ERROR_NONE"
proof -
  have "bind_address_valid (gc_bind_address (respelled u p))" if "bind_address_valid (gc_bind_address p)"
    using that assms(3,4) by (auto simp: bind_address_valid_def respelled_def split: if_splits)
  then show "validate_one (respelled u p) = GATEWAY_ERROR_NONE"
    using assms(1,2) by (auto simp: validate_one_def respelled_def split: if_splits)
  show "validate_one (p\<lparr>gc_enabled := 0\<rparr>) = GATEWAY_ERROR_NONE"
    using assms(1) by (auto simp: validate_one_def split: if_splits)
qed

text \<open>
  C40. The comparison of endpoints is by spelling: beside any enabled port whose address begins with a single digit from 1
  to 7, the validation accepts a second enabled port with the same transport and the same endpoint port at the same address
  with a zero written before it, which the scanner of the validation reads as the same four numbers, and \<open>inet_addr\<close> too,
  in base eight. Of two such ports only one can open its listener.
\<close>

theorem respelled_endpoint_passes:
  assumes "validate_one p = GATEWAY_ERROR_NONE" "gc_enabled p \<noteq> 0" "gc_bind_address p = c # CHR ''.'' # r"
    "c \<in> set ''1234567''" "Suc (length (gc_bind_address p)) < GATEWAY_BIND_ADDRESS_LENGTH"
    "unat u < GATEWAY_PORT_COUNT" "u \<noteq> gc_uart_index p"
  shows "let q = respelled u p in
    fst (gateway_configuration_validate (p # q # replicate 6 (p\<lparr>gc_enabled := 0\<rparr>))) = 0 \<and> gc_enabled q \<noteq> 0 \<and>
    gc_transport q = gc_transport p \<and> gc_endpoint_port q = gc_endpoint_port p \<and>
    scan_quad 4 (gc_bind_address q) = scan_quad 4 (gc_bind_address p)"
proof -
  let ?q = "respelled u p" let ?off = "p\<lparr>gc_enabled := 0\<rparr>" let ?ports = "p # ?q # replicate 6 ?off"
  note quad = respelled_quad [OF assms(3,4)]
  note v = validate_respelled [OF assms(1,6,5) quad]
  have n: "\<not> port_conflict ?q p"
    using assms(3,4,7) by (auto simp: port_conflict_def same_endpoint_def respelled_def)
  have f: "\<not> port_conflict ?off x" for x by (simp add: port_conflict_def)
  have "\<not> port_conflict (?ports ! i) (?ports ! j)" if "i < 8" "j < i" for i j
  proof (cases "i = 1")
    case True
    then show ?thesis using n that by simp
  next
    case False
    then have "?ports ! i = ?off" using that by (simp add: nth_Cons' split: if_splits)
    then show ?thesis using f by simp
  qed
  then have "fst (gateway_configuration_validate ?ports) = 0"
    using failures_none [of ?ports] v assms(1) by simp
  then show ?thesis using assms(2) quad by (simp add: respelled_def)
qed

theorem respelled_endpoint_passes_witness:
  "let p = plain_port\<lparr>gc_bind_address := ''1.0.0.1''\<rparr>; q = respelled 1 p in
    fst (gateway_configuration_validate (p # q # replicate 6 (p\<lparr>gc_enabled := 0\<rparr>))) = 0 \<and> gc_enabled q \<noteq> 0 \<and>
    gc_transport q = gc_transport p \<and> gc_endpoint_port q = gc_endpoint_port p \<and>
    scan_quad 4 (gc_bind_address q) = scan_quad 4 (gc_bind_address p)"
proof -
  let ?p = "plain_port\<lparr>gc_bind_address := ''1.0.0.1''\<rparr>"
  have "validate_one ?p = GATEWAY_ERROR_NONE" "gc_enabled ?p \<noteq> 0" "1 \<noteq> gc_uart_index ?p" by code_simp+
  then show ?thesis using respelled_endpoint_passes [of ?p "CHR ''1''" "''0.0.1''" 1] by simp
qed

end
