(* ===== verification/Gateway_Controller.thy ===== *)
theory Gateway_Controller
  imports Gateway_Config Port_Properties Uart_Properties
begin

text \<open>
  The controller of \<open>src/gateway/gateway_controller.c\<close>: the lifecycle of eight ports, each a port
  runtime with its backend and a transport (the network listener). The transport's operations
  act on a state \<open>'t\<close> of their own and, as the listeners hold a pointer to the runtime, on the runtime too.
\<close>

abbreviation GATEWAY_START_TIMEOUT :: tick where "GATEWAY_START_TIMEOUT \<equiv> 1000"
abbreviation GATEWAY_RECONFIGURE_TIMEOUT :: tick where "GATEWAY_RECONFIGURE_TIMEOUT \<equiv> 1000"
abbreviation GATEWAY_STOP_TIMEOUT :: tick where "GATEWAY_STOP_TIMEOUT \<equiv> 1000"

datatype gateway_port_lifecycle =
  GATEWAY_PORT_DISABLED | GATEWAY_PORT_STARTING | GATEWAY_PORT_READY | GATEWAY_PORT_RECONFIGURING
| GATEWAY_PORT_ROLLING_BACK | GATEWAY_PORT_STOPPING | GATEWAY_PORT_DEGRADED | GATEWAY_PORT_ERROR
| GATEWAY_PORT_NETWORK_WAIT

record gateway_transport_diagnostics =
  td_clients :: u32
  td_malformed_mbap :: u32
  td_tx_overflow :: u32
  td_write_deadline_expired :: u32
  td_gateway_target_no_response :: u32
  td_gateway_path_unavailable :: u32
  td_crc_failures :: u32
  td_framing_failures :: u32
  td_unit_mismatches :: u32
  td_function_mismatches :: u32
  td_leading_garbage :: u32
  td_raw_network_received :: u32
  td_raw_network_sent :: u32
  td_raw_serial_read :: u32
  td_raw_serial_written :: u32
  td_raw_rejected_peers :: u32
  td_raw_discarded_serial :: u32

text \<open>A null entry is \<open>None\<close>.\<close>

record ('b, 'c, 't) gateway_transport_ops =
  tr_start :: "('t \<Rightarrow> ('b, 'c) port_runtime \<Rightarrow> gateway_port_config \<Rightarrow> int \<times> 't \<times> ('b, 'c) port_runtime) option"
  tr_step :: "('t \<Rightarrow> ('b, 'c) port_runtime \<Rightarrow> tick \<Rightarrow> 't \<times> ('b, 'c) port_runtime) option"
  tr_stop :: "('t \<Rightarrow> ('b, 'c) port_runtime \<Rightarrow> int \<times> 't \<times> ('b, 'c) port_runtime) option"
  tr_client_count :: "('t \<Rightarrow> ('b, 'c) port_runtime \<Rightarrow> u32) option"
  tr_crc_errors :: "('t \<Rightarrow> ('b, 'c) port_runtime \<Rightarrow> u32) option"
  tr_framing_errors :: "('t \<Rightarrow> ('b, 'c) port_runtime \<Rightarrow> u32) option"
  tr_diagnostics :: "('t \<Rightarrow> ('b, 'c) port_runtime \<Rightarrow> gateway_transport_diagnostics) option"

record ('b, 'c, 't) gateway_port_binding =
  backend_ops :: "'b core_backend_ops option"
  binding_backend :: 'b
  transport_ops :: "('b, 'c, 't) gateway_transport_ops option"
  transport_context :: 't

record ('b, 'c, 't) gateway_port_controller =
  gp_current :: gateway_port_config
  gp_staged :: gateway_port_config
  gp_known_good :: gateway_port_config
  runtime :: "('b, 'c) port_runtime"
  binding :: "('b, 'c, 't) gateway_port_binding"
  lifecycle :: gateway_port_lifecycle
  gp_last_error :: gateway_error
  config_generation :: u32
  listener_owned :: bool
  pending_disable :: bool
  listener_rebind :: bool
  network_wait :: bool
  startup_failures :: u32
  listener_failures :: u32
  reconfigure_failures :: u32
  rollback_failures :: u32
  stop_failures :: u32
  gp_scheduler_steps :: u32

record ('b, 'c, 't) gateway_controller =
  ctl_ports :: "('b, 'c, 't) gateway_port_controller list"
  ctl_scheduler_steps :: u32
  next_port :: nat

section \<open>Configuration and initialisation\<close>

definition core_config :: "gateway_port_config \<Rightarrow> core_port_config" where
  "core_config c = \<lparr>cc_revision = gc_revision c, cc_mode = gc_mode c,
     cc_baud = (if gc_special_baud_enabled c \<noteq> 0 then gc_special_baud c else gc_baud c),
     cc_data_bits = gc_data_bits c, cc_parity = gc_parity c, cc_stop_bits = gc_stop_bits c,
     cc_special_baud_enabled = of_int (gc_special_baud_enabled c), cc_special_baud = gc_special_baud c,
     cc_transport = gc_transport c, cc_endpoint_port = gc_endpoint_port c\<rparr>"

definition zero_config :: gateway_port_config where
  "zero_config = \<lparr>gc_enabled = 0, gc_uart_index = 0, gc_mode = 0, gc_baud = 0, gc_data_bits = 0, gc_parity = 0,
     gc_stop_bits = 0, gc_transport = 0, gc_bind_address = [], gc_bind_policy = 0, gc_endpoint_port = 0,
     gc_special_baud_enabled = 0, gc_special_baud = 0, gc_revision = 0\<rparr>"

text \<open>
  One port of \<open>init\<close>. The state behind the completion context, which \<open>port_runtime_init\<close> clears the
  pointer to, is given by \<open>c\<close>.
\<close>

definition init_port ::
  "nat \<Rightarrow> gateway_port_config \<Rightarrow> ('b, 'c, 't) gateway_port_binding \<Rightarrow> gateway_error \<Rightarrow> 'c \<Rightarrow>
   ('b, 'c, 't) gateway_port_controller"
where
  "init_port i config bnd err c =
     \<lparr>gp_current = config, gp_staged = zero_config, gp_known_good = config,
      runtime = port_runtime_init (of_nat i) (core_config config) (backend_ops bnd) (binding_backend bnd) c,
      binding = bnd,
      lifecycle = (if err = GATEWAY_ERROR_NONE then GATEWAY_PORT_DISABLED else GATEWAY_PORT_ERROR),
      gp_last_error = err, config_generation = gc_revision config, listener_owned = False,
      pending_disable = False, listener_rebind = False, network_wait = False, startup_failures = 0,
      listener_failures = 0, reconfigure_failures = 0, rollback_failures = 0, stop_failures = 0,
      gp_scheduler_steps = 0\<rparr>"

definition gateway_controller_init ::
  "gateway_port_config list \<Rightarrow> ('b, 'c, 't) gateway_port_binding list \<Rightarrow> 'c list \<Rightarrow>
   int \<times> ('b, 'c, 't) gateway_controller"
where
  "gateway_controller_init ports bindings cs =
     (case gateway_configuration_validate ports of (failures, errors) \<Rightarrow>
        (failures,
         \<lparr>ctl_ports = map (\<lambda>i. init_port i (ports ! i) (bindings ! i) (errors ! i) (cs ! i)) [0..<GATEWAY_PORT_COUNT],
          ctl_scheduler_steps = 0, next_port = 0\<rparr>))"

section \<open>The transport\<close>

definition transport_start_at ::
  "('b, 'c, 't) gateway_port_controller \<Rightarrow> gateway_port_config \<Rightarrow> int \<times> ('b, 'c, 't) gateway_port_controller"
where
  "transport_start_at p config =
     (case transport_ops (binding p) of None \<Rightarrow> (- 1, p)
      | Some ops \<Rightarrow> (case tr_start ops of None \<Rightarrow> (- 1, p)
         | Some start \<Rightarrow>
             let (r, t, rt) = start (transport_context (binding p)) (runtime p) config;
                 p = p\<lparr>binding := (binding p)\<lparr>transport_context := t\<rparr>, runtime := rt\<rparr>
             in if r \<noteq> 0 then (- 1, p) else (0, p\<lparr>listener_owned := True\<rparr>)))"

definition transport_start ::
  "('b, 'c, 't) gateway_port_controller \<Rightarrow> int \<times> ('b, 'c, 't) gateway_port_controller" where
  "transport_start p = transport_start_at p (gp_current p)"

definition transport_stop ::
  "('b, 'c, 't) gateway_port_controller \<Rightarrow> int \<times> ('b, 'c, 't) gateway_port_controller" where
  "transport_stop p =
     (let (r, p) =
        (if listener_owned p then
           case transport_ops (binding p) of None \<Rightarrow> (0, p)
           | Some ops \<Rightarrow> (case tr_stop ops of None \<Rightarrow> (0, p)
              | Some stop \<Rightarrow>
                  let (r, t, rt) = stop (transport_context (binding p)) (runtime p)
                  in (r, p\<lparr>binding := (binding p)\<lparr>transport_context := t\<rparr>, runtime := rt\<rparr>))
         else (0, p))
      in (r, if r = 0 then p\<lparr>listener_owned := False\<rparr> else p))"

definition transport_step ::
  "('b, 'c, 't) gateway_port_controller \<Rightarrow> tick \<Rightarrow> ('b, 'c, 't) gateway_port_controller" where
  "transport_step p now =
     (if listener_owned p then
        case transport_ops (binding p) of None \<Rightarrow> p
        | Some ops \<Rightarrow> (case tr_step ops of None \<Rightarrow> p
           | Some stp \<Rightarrow>
               let (t, rt) = stp (transport_context (binding p)) (runtime p) now
               in p\<lparr>binding := (binding p)\<lparr>transport_context := t\<rparr>, runtime := rt\<rparr>)
      else p)"

section \<open>Starting and stepping\<close>

definition start_port ::
  "('b, 'c, 't) gateway_port_controller \<Rightarrow> tick \<Rightarrow> ('b, 'c, 't) gateway_port_controller" where
  "start_port p now =
     (if lifecycle p \<noteq> GATEWAY_PORT_DISABLED \<or> gc_enabled (gp_current p) = 0 then p
      else
        let (r, rt) = port_runtime_start (runtime p) now GATEWAY_START_TIMEOUT; p = p\<lparr>runtime := rt\<rparr> in
        if r = 0 then p\<lparr>lifecycle := GATEWAY_PORT_STARTING\<rparr>
        else p\<lparr>lifecycle := GATEWAY_PORT_ERROR, gp_last_error := GATEWAY_ERROR_BACKEND_START,
               startup_failures := increment (startup_failures p)\<rparr>)"

definition gateway_controller_start ::
  "('b, 'c, 't) gateway_controller \<Rightarrow> tick \<Rightarrow> ('b, 'c, 't) gateway_controller" where
  "gateway_controller_start c now = c\<lparr>ctl_ports := map (\<lambda>p. start_port p now) (ctl_ports c)\<rparr>"

definition start_listener_or_fail ::
  "('b, 'c, 't) gateway_port_controller \<Rightarrow> tick \<Rightarrow> ('b, 'c, 't) gateway_port_controller" where
  "start_listener_or_fail p now =
     (if network_wait p then p\<lparr>lifecycle := GATEWAY_PORT_NETWORK_WAIT\<rparr>
      else
        let (r, p) = transport_start p in
        if r = 0 then p\<lparr>lifecycle := GATEWAY_PORT_READY, gp_last_error := GATEWAY_ERROR_NONE\<rparr>
        else
          let p = p\<lparr>listener_failures := increment (listener_failures p),
                    gp_last_error := GATEWAY_ERROR_LISTENER_START\<rparr>;
              (r, rt) = port_runtime_request_stop (runtime p) now GATEWAY_STOP_TIMEOUT;
              p = p\<lparr>runtime := rt\<rparr>
          in p\<lparr>lifecycle := (if r = 0 then GATEWAY_PORT_STOPPING else GATEWAY_PORT_ERROR)\<rparr>)"

text \<open>\<open>p->current=p->known_good=p->staged; increment(&p->config_generation)\<close>.\<close>

definition adopt_staged ::
  "('b, 'c, 't) gateway_port_controller \<Rightarrow> ('b, 'c, 't) gateway_port_controller" where
  "adopt_staged p = p\<lparr>gp_current := gp_staged p, gp_known_good := gp_staged p,
     config_generation := increment (config_generation p)\<rparr>"

definition ctl_starting ::
  "('b, 'c, 't) gateway_port_controller \<Rightarrow> tick \<Rightarrow> ('b, 'c, 't) gateway_port_controller" where
  "ctl_starting p now =
     (if pr_state (runtime p) = PORT_READY then start_listener_or_fail p now
      else if pr_state (runtime p) = PORT_DEGRADED \<or> pr_state (runtime p) = PORT_ERROR
      then p\<lparr>lifecycle := GATEWAY_PORT_ERROR, gp_last_error := GATEWAY_ERROR_BACKEND_START,
             startup_failures := increment (startup_failures p)\<rparr>
      else p)"

text \<open>A change of the bind address only: the listener is rebound, the runtime keeps its settings.\<close>

definition ctl_rebinding ::
  "('b, 'c, 't) gateway_port_controller \<Rightarrow> ('b, 'c, 't) gateway_port_controller" where
  "ctl_rebinding p =
     (if pr_state (runtime p) = PORT_READY then
        let p = p\<lparr>listener_rebind := False\<rparr> in
        if network_wait p then p\<lparr>lifecycle := GATEWAY_PORT_NETWORK_WAIT\<rparr>
        else
          let (r, p) = transport_start_at p (gp_staged p) in
          if r = 0 then
            let p = adopt_staged (p\<lparr>runtime := (runtime p)\<lparr>
                  current_config := (current_config (runtime p))\<lparr>cc_revision := gc_revision (gp_staged p)\<rparr>,
                  known_good_config := (known_good_config (runtime p))\<lparr>cc_revision := gc_revision (gp_staged p)\<rparr>\<rparr>\<rparr>)
            in p\<lparr>lifecycle := GATEWAY_PORT_READY, gp_last_error := GATEWAY_ERROR_NONE\<rparr>
          else
            let p = p\<lparr>listener_failures := increment (listener_failures p),
                      reconfigure_failures := increment (reconfigure_failures p),
                      gp_last_error := GATEWAY_ERROR_LISTENER_START\<rparr>;
                (r, p) = transport_start p
            in if r = 0 then p\<lparr>lifecycle := GATEWAY_PORT_READY\<rparr>
               else p\<lparr>lifecycle := GATEWAY_PORT_ERROR, rollback_failures := increment (rollback_failures p)\<rparr>
      else if pr_state (runtime p) = PORT_ERROR \<or> pr_state (runtime p) = PORT_DEGRADED
      then p\<lparr>listener_rebind := False, lifecycle := GATEWAY_PORT_ERROR,
             gp_last_error := GATEWAY_ERROR_RECONFIGURE,
             reconfigure_failures := increment (reconfigure_failures p)\<rparr>
      else p)"

definition ctl_reconfiguring ::
  "('b, 'c, 't) gateway_port_controller \<Rightarrow> tick \<Rightarrow> ('b, 'c, 't) gateway_port_controller" where
  "ctl_reconfiguring p now =
     (if listener_rebind p then ctl_rebinding p
      else if pr_state (runtime p) = PORT_READY then
        if cc_revision (current_config (runtime p)) \<noteq> gc_revision (gp_staged p) then
          start_listener_or_fail (p\<lparr>gp_last_error := GATEWAY_ERROR_RECONFIGURE,
            reconfigure_failures := increment (reconfigure_failures p)\<rparr>) now
        else if network_wait p then
          (adopt_staged p)\<lparr>lifecycle := GATEWAY_PORT_NETWORK_WAIT, gp_last_error := GATEWAY_ERROR_NONE\<rparr>
        else
          let (r, p) = transport_start_at p (gp_staged p) in
          if r = 0 then (adopt_staged p)\<lparr>lifecycle := GATEWAY_PORT_READY, gp_last_error := GATEWAY_ERROR_NONE\<rparr>
          else
            let old = core_config (gp_known_good p);
                p = p\<lparr>listener_failures := increment (listener_failures p),
                      gp_last_error := GATEWAY_ERROR_LISTENER_START\<rparr>;
                (r, rt) = port_runtime_request_reconfigure (runtime p) (Some old) now GATEWAY_RECONFIGURE_TIMEOUT;
                p = p\<lparr>runtime := rt\<rparr>
            in p\<lparr>lifecycle := (if r = 0 then GATEWAY_PORT_ROLLING_BACK else GATEWAY_PORT_ERROR)\<rparr>
      else if pr_state (runtime p) = PORT_ERROR then
        p\<lparr>lifecycle := GATEWAY_PORT_ERROR, gp_last_error := GATEWAY_ERROR_ROLLBACK,
          rollback_failures := increment (rollback_failures p)\<rparr>
      else p)"

definition ctl_rolling_back ::
  "('b, 'c, 't) gateway_port_controller \<Rightarrow> ('b, 'c, 't) gateway_port_controller" where
  "ctl_rolling_back p =
     (if pr_state (runtime p) = PORT_READY then
        if network_wait p
        then p\<lparr>lifecycle := GATEWAY_PORT_NETWORK_WAIT, reconfigure_failures := increment (reconfigure_failures p)\<rparr>
        else
          let (r, p) = transport_start p in
          if r = 0 then p\<lparr>lifecycle := GATEWAY_PORT_READY, reconfigure_failures := increment (reconfigure_failures p)\<rparr>
          else p\<lparr>lifecycle := GATEWAY_PORT_ERROR, rollback_failures := increment (rollback_failures p)\<rparr>
      else if pr_state (runtime p) = PORT_ERROR
      then p\<lparr>lifecycle := GATEWAY_PORT_ERROR, rollback_failures := increment (rollback_failures p)\<rparr>
      else p)"

definition ctl_stopping ::
  "('b, 'c, 't) gateway_port_controller \<Rightarrow> ('b, 'c, 't) gateway_port_controller" where
  "ctl_stopping p =
     (if pr_state (runtime p) = PORT_DISABLED then
        let p = (if pending_disable p then (adopt_staged p)\<lparr>lifecycle := GATEWAY_PORT_DISABLED\<rparr>
                 else p\<lparr>lifecycle := (if gp_last_error p = GATEWAY_ERROR_NONE then GATEWAY_PORT_DISABLED
                                      else GATEWAY_PORT_ERROR)\<rparr>)
        in p\<lparr>pending_disable := False\<rparr>
      else if pr_state (runtime p) = PORT_ERROR
      then p\<lparr>lifecycle := GATEWAY_PORT_ERROR, gp_last_error := GATEWAY_ERROR_STOP,
             stop_failures := increment (stop_failures p)\<rparr>
      else p)"

definition step_port ::
  "('b, 'c, 't) gateway_port_controller \<Rightarrow> tick \<Rightarrow> ('b, 'c, 't) gateway_port_controller" where
  "step_port p now =
     (let p = transport_step (p\<lparr>gp_scheduler_steps := increment (gp_scheduler_steps p)\<rparr>) now;
          p = p\<lparr>runtime := port_runtime_step (runtime p) now\<rparr>
      in case lifecycle p of
           GATEWAY_PORT_STARTING \<Rightarrow> ctl_starting p now
         | GATEWAY_PORT_READY \<Rightarrow>
             (if pr_state (runtime p) = PORT_DEGRADED \<or> pr_state (runtime p) = PORT_ERROR
              then p\<lparr>lifecycle := GATEWAY_PORT_DEGRADED\<rparr> else p)
         | GATEWAY_PORT_RECONFIGURING \<Rightarrow> ctl_reconfiguring p now
         | GATEWAY_PORT_ROLLING_BACK \<Rightarrow> ctl_rolling_back p
         | GATEWAY_PORT_STOPPING \<Rightarrow> ctl_stopping p
         | _ \<Rightarrow> p)"

text \<open>The ports are stepped in turn from \<open>next_port\<close> on.\<close>

definition gateway_controller_step ::
  "('b, 'c, 't) gateway_controller \<Rightarrow> tick \<Rightarrow> ('b, 'c, 't) gateway_controller" where
  "gateway_controller_step c now =
     (let c = c\<lparr>ctl_scheduler_steps := increment (ctl_scheduler_steps c)\<rparr>;
          order = map (\<lambda>n. (next_port c + n) mod GATEWAY_PORT_COUNT) [0..<GATEWAY_PORT_COUNT];
          ports = foldl (\<lambda>ps i. ps[i := step_port (ps ! i) now]) (ctl_ports c) order
      in c\<lparr>ctl_ports := ports, next_port := (next_port c + 1) mod GATEWAY_PORT_COUNT\<rparr>)"

section \<open>Requests of the owner\<close>

definition validate_replacement ::
  "('b, 'c, 't) gateway_controller \<Rightarrow> nat \<Rightarrow> gateway_port_config \<Rightarrow> int" where
  "validate_replacement c index cfg =
     (let all = (map gp_current (ctl_ports c))[index := cfg];
          errors = snd (gateway_configuration_validate all)
      in if errors ! index = GATEWAY_ERROR_NONE then 0 else - 1)"

text \<open>Turning a port off.\<close>

definition reconfigure_disable ::
  "('b, 'c, 't) gateway_port_controller \<Rightarrow> gateway_port_config \<Rightarrow> tick \<Rightarrow>
   int \<times> ('b, 'c, 't) gateway_port_controller"
where
  "reconfigure_disable p cfg now =
     (if lifecycle p = GATEWAY_PORT_DISABLED
      then (0, p\<lparr>gp_current := cfg, config_generation := increment (config_generation p)\<rparr>)
      else
        let (r, p) = transport_stop p in
        if r \<noteq> 0 then (- 1, p\<lparr>gp_last_error := GATEWAY_ERROR_STOP, stop_failures := increment (stop_failures p)\<rparr>)
        else
          let p = p\<lparr>gp_staged := cfg, pending_disable := True, gp_last_error := GATEWAY_ERROR_NONE\<rparr>;
              (r, rt) = port_runtime_request_stop (runtime p) now GATEWAY_STOP_TIMEOUT;
              p = p\<lparr>runtime := rt\<rparr>
          in if r = 0 then (0, p\<lparr>lifecycle := GATEWAY_PORT_STOPPING\<rparr>) else (- 1, p))"

text \<open>Turning a disabled port on: the runtime starts afresh; what its contexts point to stays.\<close>

definition reconfigure_enable ::
  "nat \<Rightarrow> ('b, 'c, 't) gateway_port_controller \<Rightarrow> gateway_port_config \<Rightarrow> tick \<Rightarrow>
   int \<times> ('b, 'c, 't) gateway_port_controller"
where
  "reconfigure_enable index p cfg now =
     (let p = p\<lparr>gp_current := cfg, gp_known_good := cfg,
               runtime := port_runtime_init (of_nat index) (core_config cfg) (backend_ops (binding p))
                 (backend_context (runtime p)) (completion_context (runtime p)),
               config_generation := increment (config_generation p)\<rparr>;
          (r, rt) = port_runtime_start (runtime p) now GATEWAY_START_TIMEOUT;
          p = p\<lparr>runtime := rt\<rparr>
      in if r = 0 then (0, p\<lparr>lifecycle := GATEWAY_PORT_STARTING\<rparr>) else (- 1, p))"

definition same_but_binding :: "gateway_port_config \<Rightarrow> gateway_port_config \<Rightarrow> bool" where
  "same_but_binding cfg current \<longleftrightarrow> cfg\<lparr>gc_bind_address := gc_bind_address current,
     gc_revision := gc_revision current, gc_bind_policy := gc_bind_policy current\<rparr> = current"

definition reconfigure_rebind ::
  "('b, 'c, 't) gateway_port_controller \<Rightarrow> gateway_port_config \<Rightarrow> tick \<Rightarrow>
   int \<times> ('b, 'c, 't) gateway_port_controller"
where
  "reconfigure_rebind p cfg now =
     (let (r, p) = transport_stop p in
      if r \<noteq> 0 then (- 1, p\<lparr>gp_last_error := GATEWAY_ERROR_STOP, stop_failures := increment (stop_failures p)\<rparr>)
      else
        let (r, rt) = port_runtime_detach_listener (runtime p) now; p = p\<lparr>runtime := rt\<rparr> in
        if r \<noteq> 0 then (- 1, p\<lparr>lifecycle := GATEWAY_PORT_ERROR\<rparr>)
        else (0, p\<lparr>gp_staged := cfg, listener_rebind := True, lifecycle := GATEWAY_PORT_RECONFIGURING\<rparr>))"

definition reconfigure_settings ::
  "('b, 'c, 't) gateway_port_controller \<Rightarrow> gateway_port_config \<Rightarrow> tick \<Rightarrow>
   int \<times> ('b, 'c, 't) gateway_port_controller"
where
  "reconfigure_settings p cfg now =
     (let (r, p) = transport_stop p in
      if r \<noteq> 0 then (- 1, p\<lparr>gp_last_error := GATEWAY_ERROR_STOP, stop_failures := increment (stop_failures p)\<rparr>)
      else
        let p = p\<lparr>gp_staged := cfg, gp_last_error := GATEWAY_ERROR_NONE\<rparr>;
            (r, rt) = port_runtime_request_reconfigure (runtime p) (Some (core_config cfg)) now GATEWAY_RECONFIGURE_TIMEOUT;
            p = p\<lparr>runtime := rt\<rparr>
        in if r \<noteq> 0 then (- 1, snd (transport_start p))
           else (0, p\<lparr>lifecycle := GATEWAY_PORT_RECONFIGURING\<rparr>))"

definition reconfigure_port ::
  "nat \<Rightarrow> ('b, 'c, 't) gateway_port_controller \<Rightarrow> gateway_port_config \<Rightarrow> tick \<Rightarrow>
   int \<times> ('b, 'c, 't) gateway_port_controller"
where
  "reconfigure_port index p cfg now =
     (if lifecycle p \<noteq> GATEWAY_PORT_READY \<and> lifecycle p \<noteq> GATEWAY_PORT_DISABLED \<and>
         lifecycle p \<noteq> GATEWAY_PORT_NETWORK_WAIT then (- 1, p)
      else if gc_enabled cfg = 0 then reconfigure_disable p cfg now
      else if lifecycle p = GATEWAY_PORT_DISABLED then reconfigure_enable index p cfg now
      else if same_but_binding cfg (gp_current p) then reconfigure_rebind p cfg now
      else reconfigure_settings p cfg now)"

definition gateway_controller_reconfigure ::
  "('b, 'c, 't) gateway_controller \<Rightarrow> nat \<Rightarrow> gateway_port_config option \<Rightarrow> tick \<Rightarrow>
   int \<times> ('b, 'c, 't) gateway_controller"
where
  "gateway_controller_reconfigure c index cfg now =
     (if cfg = None \<or> index \<ge> GATEWAY_PORT_COUNT \<or> validate_replacement c index (the cfg) \<noteq> 0 then (- 1, c)
      else let (r, p) = reconfigure_port index (ctl_ports c ! index) (the cfg) now
           in (r, c\<lparr>ctl_ports := (ctl_ports c)[index := p]\<rparr>))"

definition network_wait_port ::
  "('b, 'c, 't) gateway_port_controller \<Rightarrow> bool \<Rightarrow> tick \<Rightarrow> int \<times> ('b, 'c, 't) gateway_port_controller" where
  "network_wait_port p wait now =
     (let p = p\<lparr>network_wait := wait\<rparr> in
      if wait \<and> lifecycle p = GATEWAY_PORT_READY then
        let (r, p) = transport_stop p in
        if r \<noteq> 0 then (- 1, p)
        else
          let (r, rt) = port_runtime_detach_listener (runtime p) now; p = p\<lparr>runtime := rt\<rparr> in
          if r \<noteq> 0 then (- 1, p) else (0, p\<lparr>lifecycle := GATEWAY_PORT_NETWORK_WAIT\<rparr>)
      else (0, p))"

definition gateway_controller_network_wait ::
  "('b, 'c, 't) gateway_controller \<Rightarrow> nat \<Rightarrow> u32 \<Rightarrow> tick \<Rightarrow> int \<times> ('b, 'c, 't) gateway_controller" where
  "gateway_controller_network_wait c index wait now =
     (if index \<ge> GATEWAY_PORT_COUNT \<or> wait > 1 then (- 1, c)
      else let (r, p) = network_wait_port (ctl_ports c ! index) (wait = 1) now
           in (r, c\<lparr>ctl_ports := (ctl_ports c)[index := p]\<rparr>))"

definition shutdown_port ::
  "('b, 'c, 't) gateway_port_controller \<Rightarrow> tick \<Rightarrow> ('b, 'c, 't) gateway_port_controller" where
  "shutdown_port p now =
     (let (r, p) = transport_stop p;
          p = (if r \<noteq> 0 then p\<lparr>gp_last_error := GATEWAY_ERROR_STOP, stop_failures := increment (stop_failures p)\<rparr>
               else p\<lparr>gp_last_error := GATEWAY_ERROR_NONE\<rparr>)
      in if pr_state (runtime p) \<noteq> PORT_DISABLED \<and> pr_state (runtime p) \<noteq> PORT_STOPPING then
           let (r, rt) = port_runtime_request_stop (runtime p) now GATEWAY_STOP_TIMEOUT; p = p\<lparr>runtime := rt\<rparr> in
           if r = 0 then p\<lparr>lifecycle := GATEWAY_PORT_STOPPING\<rparr>
           else p\<lparr>lifecycle := GATEWAY_PORT_ERROR, gp_last_error := GATEWAY_ERROR_STOP\<rparr>
         else p)"

definition gateway_controller_shutdown ::
  "('b, 'c, 't) gateway_controller \<Rightarrow> tick \<Rightarrow> ('b, 'c, 't) gateway_controller" where
  "gateway_controller_shutdown c now = c\<lparr>ctl_ports := map (\<lambda>p. shutdown_port p now) (ctl_ports c)\<rparr>"

section \<open>Health\<close>

record gateway_port_health =
  ph_port_number :: u32
  ph_enabled :: int
  ph_lifecycle :: gateway_port_lifecycle
  ph_last_error :: gateway_error
  ph_config :: gateway_port_config
  ph_runtime_state :: port_state
  ph_transactions :: port_statistics
  ph_connected_clients :: u32
  ph_crc_errors :: u32
  ph_framing_errors :: u32
  ph_transport :: gateway_transport_diagnostics
  ph_runtime_last_error :: string
  ph_config_generation :: u32

record gateway_health =
  configured_ports :: u32
  enabled_ports :: u32
  ready_ports :: u32
  degraded_or_error_ports :: u32
  active_clients :: u32
  accepted_transactions :: u32
  completed_transactions :: u32
  health_ports :: "gateway_port_health list"

definition zero_diagnostics :: gateway_transport_diagnostics where
  "zero_diagnostics = \<lparr>td_clients = 0, td_malformed_mbap = 0, td_tx_overflow = 0, td_write_deadline_expired = 0,
     td_gateway_target_no_response = 0, td_gateway_path_unavailable = 0, td_crc_failures = 0,
     td_framing_failures = 0, td_unit_mismatches = 0, td_function_mismatches = 0, td_leading_garbage = 0,
     td_raw_network_received = 0, td_raw_network_sent = 0, td_raw_serial_read = 0, td_raw_serial_written = 0,
     td_raw_rejected_peers = 0, td_raw_discarded_serial = 0\<rparr>"

text \<open>A query of the transport, with its value when the table or the entry is null.\<close>

definition ask_transport ::
  "('b, 'c, 't) gateway_port_controller \<Rightarrow>
   (('b, 'c, 't) gateway_transport_ops \<Rightarrow> ('t \<Rightarrow> ('b, 'c) port_runtime \<Rightarrow> 'a) option) \<Rightarrow> 'a \<Rightarrow> 'a"
where
  "ask_transport p query none =
     (case transport_ops (binding p) of None \<Rightarrow> none
      | Some ops \<Rightarrow> (case query ops of None \<Rightarrow> none | Some f \<Rightarrow> f (transport_context (binding p)) (runtime p)))"

definition port_health :: "nat \<Rightarrow> ('b, 'c, 't) gateway_port_controller \<Rightarrow> gateway_port_health" where
  "port_health i p =
     \<lparr>ph_port_number = of_nat i + 1, ph_enabled = gc_enabled (gp_current p), ph_lifecycle = lifecycle p,
      ph_last_error = gp_last_error p, ph_config = gp_current p, ph_runtime_state = pr_state (runtime p),
      ph_transactions = stats (runtime p),
      ph_connected_clients = (if listener_owned p then ask_transport p tr_client_count 0 else 0),
      ph_crc_errors = ask_transport p tr_crc_errors 0, ph_framing_errors = ask_transport p tr_framing_errors 0,
      ph_transport = ask_transport p tr_diagnostics zero_diagnostics,
      ph_runtime_last_error = last_error (runtime p), ph_config_generation = config_generation p\<rparr>"

definition count_health :: "gateway_health \<Rightarrow> gateway_port_health \<Rightarrow> gateway_health" where
  "count_health h q = h\<lparr>configured_ports := configured_ports h + 1,
     enabled_ports := (if ph_enabled q \<noteq> 0 then enabled_ports h + 1 else enabled_ports h),
     ready_ports := (if ph_lifecycle q = GATEWAY_PORT_READY then ready_ports h + 1 else ready_ports h),
     degraded_or_error_ports :=
       (if ph_lifecycle q = GATEWAY_PORT_DEGRADED \<or> ph_lifecycle q = GATEWAY_PORT_ERROR
        then degraded_or_error_ports h + 1 else degraded_or_error_ports h),
     active_clients := add_counter (active_clients h) (ph_connected_clients q),
     accepted_transactions := add_counter (accepted_transactions h) (accepted (ph_transactions q)),
     completed_transactions := add_counter (completed_transactions h) (completed (ph_transactions q)),
     health_ports := health_ports h @ [q]\<rparr>"

definition gateway_controller_health :: "('b, 'c, 't) gateway_controller \<Rightarrow> gateway_health" where
  "gateway_controller_health c =
     foldl count_health
       \<lparr>configured_ports = 0, enabled_ports = 0, ready_ports = 0, degraded_or_error_ports = 0,
        active_clients = 0, accepted_transactions = 0, completed_transactions = 0, health_ports = []\<rparr>
       (map (\<lambda>i. port_health i (ctl_ports c ! i)) [0..<GATEWAY_PORT_COUNT])"

end
