(* ===== verification/Gateway_Lifecycle.thy ===== *)
theory Gateway_Lifecycle
  imports Gateway_Controller
begin

text \<open>
  What the controller guarantees about the lifecycle of its ports, for every transport that keeps the
  contract below: a port is READY exactly while its listener runs, and a listener is never left
  running behind a port that is not.
\<close>

section \<open>Configurations that pass validation suit every layer\<close>

lemma valid_one:
  assumes "validate_one c = GATEWAY_ERROR_NONE"
  shows "gc_mode c < 4" "5 \<le> gc_data_bits c" "gc_data_bits c \<le> 8" "gc_parity c < 3"
    "gc_stop_bits c = 1 \<or> gc_stop_bits c = 2" "gc_enabled c = 0 \<or> gc_enabled c = 1"
    "gc_special_baud_enabled c = 0 \<or> gc_special_baud_enabled c = 1"
    "if gc_special_baud_enabled c = 0 then standard_baud (gc_baud c) else gc_special_baud c \<noteq> 0"
    "gc_enabled c \<noteq> 0 \<Longrightarrow> gc_endpoint_port c \<noteq> 0 \<and> gc_endpoint_port c \<le> 65535"
  using assms by (auto simp: validate_one_def not_le not_less split: if_splits)

lemma standard_baud_speed: "standard_baud b \<Longrightarrow> standard_speed b \<noteq> 0 \<and> b \<noteq> 0"
proof -
  assume "standard_baud b"
  then obtain i where "i < FOURVRS_BAUD_COUNT" "b = baud_value (int i)"
    by (auto simp: standard_baud_def list_ex_iff)
  moreover have "length baud_values = FOURVRS_BAUD_COUNT" by (simp add: baud_values_def)
  ultimately have "b \<in> set baud_values" by (simp add: baud_value_def lookup_label_def)
  then show ?thesis by (auto simp: baud_values_def standard_speed_def)
qed

lemma word_le_3: "m < 4 \<Longrightarrow> m \<le> (3 :: u32)" "m < 3 \<Longrightarrow> m \<le> (2 :: u32)"
  by (simp_all add: word_le_nat_alt word_less_nat_alt)

lemma core_config_suits:
  assumes "validate_one c = GATEWAY_ERROR_NONE"
  shows "uart_config_validate (Some (core_config c)) = 0"
    "gc_enabled c \<noteq> 0 \<Longrightarrow> config_valid (core_config c)"
proof -
  note v = valid_one [OF assms]
  have s: "of_int (gc_special_baud_enabled c) = (0 :: u32) \<longleftrightarrow> gc_special_baud_enabled c = 0"
    using v(7) by auto
  have b: "cc_baud (core_config c) \<noteq> 0" using v(8) standard_baud_speed by (auto simp: core_config_def split: if_splits)
  show "uart_config_validate (Some (core_config c)) = 0"
    using v standard_baud_speed word_le_3
    by (auto simp: uart_config_validate_def core_config_def s word_neq_0_conv not_less not_le split: if_splits)
  assume "gc_enabled c \<noteq> 0"
  then have "1 \<le> gc_endpoint_port c" "gc_endpoint_port c \<le> 65535"
    using v(9) by (auto simp: word_le_nat_alt Suc_le_eq unat_gt_0)
  then show "config_valid (core_config c)"
    using v word_le_3 b by (auto simp: config_valid_def core_config_def word_neq_0_conv split: if_splits)
qed

text \<open>
  C20. Every layer accepts what the gateway accepts: a port configuration that passes validation is valid for the
  serial backend, and if the port is enabled also for the port runtime.
\<close>

theorem valid_config_suits_every_layer:
  assumes "validate_one c = GATEWAY_ERROR_NONE"
  shows "uart_config_validate (Some (core_config c)) = 0 \<and> (gc_enabled c \<noteq> 0 \<longrightarrow> config_valid (core_config c))"
  using core_config_suits [OF assms] by blast

theorem valid_config_suits_every_layer_witness:
  "uart_config_validate (Some (core_config plain_port)) = 0 \<and> config_valid (core_config plain_port)"
proof -
  have "validate_one plain_port = GATEWAY_ERROR_NONE" by code_simp
  moreover have "gc_enabled plain_port \<noteq> 0" by code_simp
  ultimately show ?thesis using valid_config_suits_every_layer [of plain_port] by blast
qed

section \<open>What the controller relies on in the runtime\<close>

definition live :: "('b, 'c) port_runtime \<Rightarrow> bool" where
  "live p \<longleftrightarrow> pr_state p \<in> {PORT_READY, PORT_ACTIVE, PORT_WAITING, PORT_RECOVERING, PORT_DEGRADED}"

lemma live_goto: "s \<in> {PORT_READY, PORT_ACTIVE, PORT_WAITING, PORT_RECOVERING, PORT_DEGRADED} \<Longrightarrow>
    live p \<Longrightarrow> live (goto p s)"
  by (simp add: live_def port_runtime_transition_def)

lemma live_keep: "pr_state p = pr_state p0 \<Longrightarrow> live p0 \<Longrightarrow> live p"
  by (simp add: live_def)

lemma live_recovery: "pr_state p = pr_state p0 \<Longrightarrow> live p0 \<Longrightarrow> live (begin_recovery p now e)"
  unfolding begin_recovery_def Let_def by (rule live_goto) (simp_all add: live_def)

lemma live_ready_loop: "live p \<Longrightarrow> live (ready_loop p now)"
proof (induction p now rule: ready_loop.induct)
  case (1 p now)
  show ?case
  proof (cases "queue_pop (pr_queue p)")
    case None
    then show ?thesis using 1 by (simp add: ready_loop.simps [of p])
  next
    case (Some x)
    obtain t q where x: "x = (t, q)" by (cases x)
    let ?p = "update_depth (p\<lparr>pr_queue := q, pr_active := t\<rparr>)"
    have e: "core_deadline_expired (queue_deadline (pr_active ?p)) now \<Longrightarrow> live (ready_loop (expire_queued ?p) now)"
      using 1(1) [OF Some x [symmetric] refl] 1(2) by (simp add: live_def)
    moreover have "live (activate ?p now)"
      using 1(2) unfolding activate_def Let_def by (intro live_goto) (simp_all add: live_def)
    ultimately show ?thesis by (simp add: ready_loop.simps [of p] Some x Let_def)
  qed
qed

lemma live_step: "live p \<Longrightarrow> live (port_runtime_step p now)"
proof -
  assume l: "live p"
  have "live (step_active p now)"
    using l by (simp add: step_active_def split_beta Let_def live_goto live_recovery [of _ p] live_keep [of _ p])
  moreover have "live (step_waiting p now)"
    using l by (simp add: step_waiting_def split_beta Let_def live_goto live_recovery [of _ p] live_keep [of _ p])
  moreover have "live (step_recovering p now)"
    using l by (simp add: step_recovering_def split_beta Let_def live_goto live_keep [of _ p])
  ultimately show ?thesis
    using l live_ready_loop [OF l] by (cases "pr_state p") (simp_all add: port_runtime_step_def live_def)
qed

lemma live_request_stop:
  assumes "port_inv rt" "live rt"
  shows "fst (port_runtime_request_stop rt now GATEWAY_STOP_TIMEOUT) = 0"
proof -
  let ?q = "(flush_queue (abandon_active rt))\<lparr>state_deadline := core_deadline_after now GATEWAY_STOP_TIMEOUT\<rparr>"
  have "pr_state ?q = pr_state rt" using assms(1) by (auto simp: port_inv_def queue_ok_def abandon_frame)
  then have "transition_allowed (pr_state ?q) PORT_STOPPING" using assms(2) by (auto simp: live_def)
  then show ?thesis using assms(2)
    by (auto simp: port_runtime_request_stop_def live_def port_runtime_transition_def Let_def core_ticks_valid_interval_def)
qed

lemma live_request_reconfigure:
  assumes "port_inv rt" "live rt" "config_valid c"
  shows "fst (port_runtime_request_reconfigure rt (Some c) now GATEWAY_RECONFIGURE_TIMEOUT) = 0"
proof -
  let ?q = "(flush_queue (abandon_active rt))\<lparr>known_good_config := current_config (flush_queue (abandon_active rt)),
      staged_config := c, state_deadline := core_deadline_after now GATEWAY_RECONFIGURE_TIMEOUT\<rparr>"
  have "pr_state ?q = pr_state rt" using assms(1) by (auto simp: port_inv_def queue_ok_def abandon_frame)
  then have "transition_allowed (pr_state ?q) PORT_RECONFIGURING" using assms(2) by (auto simp: live_def)
  then show ?thesis using assms(2,3)
    by (auto simp: port_runtime_request_reconfigure_def live_def port_runtime_transition_def Let_def core_ticks_valid_interval_def)
qed

lemma live_detach:
  assumes "port_inv rt" "live rt"
  shows "fst (port_runtime_detach_listener rt now) = 0" "live (snd (port_runtime_detach_listener rt now))"
proof -
  have i: "port_inv (flush_queue rt)" using assms(1) by (rule inv_flush)
  have s: "pr_state (flush_queue rt) = pr_state rt" using assms(1) by (auto simp: port_inv_def queue_ok_def)
  have "has_active (flush_queue rt) \<Longrightarrow> pr_state rt \<in> {PORT_ACTIVE, PORT_WAITING}"
    using i s by (cases "pr_state rt") (auto simp: port_inv_def)
  then show "fst (port_runtime_detach_listener rt now) = 0" "live (snd (port_runtime_detach_listener rt now))"
    using s assms(2)
    by (auto simp: port_runtime_detach_listener_def port_runtime_cancel_active_def Let_def
        port_runtime_transition_def live_def)
qed

section \<open>The contract of a transport\<close>

text \<open>
  What the controller relies on when it hands the port runtime to a listener: the listener leaves the
  invariant of the runtime alone and does not take a serving runtime out of service; and a start that reports
  success leaves the transport running, a stop that reports success leaves it stopped, and nothing else changes that.
\<close>

definition keeps_port :: "('b, 'c) port_runtime \<Rightarrow> ('b, 'c) port_runtime \<Rightarrow> bool" where
  "keeps_port rt rt' \<longleftrightarrow> (port_inv rt \<longrightarrow> port_inv rt' \<and> (live rt \<longrightarrow> live rt'))"

lemma keeps_port_refl [simp]: "keeps_port rt rt"
  by (simp add: keeps_port_def)

lemma keeps_port_trans: "keeps_port a b \<Longrightarrow> keeps_port b c \<Longrightarrow> keeps_port a c"
  by (auto simp: keeps_port_def)

locale transport_contract =
  fixes ops :: "('b, 'c, 't) gateway_transport_ops" and running :: "'t \<Rightarrow> bool"
  assumes start_keeps: "tr_start ops = Some f \<Longrightarrow> f t rt cfg = (r, t', rt') \<Longrightarrow> keeps_port rt rt'"
    and step_keeps: "tr_step ops = Some g \<Longrightarrow> g t rt now = (t', rt') \<Longrightarrow> keeps_port rt rt'"
    and stop_keeps: "tr_stop ops = Some h \<Longrightarrow> h t rt = (r, t', rt') \<Longrightarrow> keeps_port rt rt'"
    and start_runs: "tr_start ops = Some f \<Longrightarrow> f t rt cfg = (r, t', rt') \<Longrightarrow> running t' \<longleftrightarrow> r = 0 \<or> running t"
    and step_runs: "tr_step ops = Some g \<Longrightarrow> g t rt now = (t', rt') \<Longrightarrow> running t' \<longleftrightarrow> running t"
    and stop_runs: "tr_stop ops = Some h \<Longrightarrow> h t rt = (r, t', rt') \<Longrightarrow> running t' \<longleftrightarrow> r \<noteq> 0 \<and> running t"
    and can_stop: "tr_stop ops \<noteq> None"

text \<open>
  The state of a port between two operations of the controller: a READY port owns its listener and its
  runtime serves; a port that waits for the network has a serving runtime without a listener; and a listener
  runs only for a READY port or for one that broke down, or when stopping it failed.
\<close>

definition port_ok :: "('b, 'c, 't) gateway_port_controller \<Rightarrow> bool" where
  "port_ok p \<longleftrightarrow> port_inv (runtime p) \<and>
     (lifecycle p = GATEWAY_PORT_READY \<longrightarrow> listener_owned p \<and> live (runtime p)) \<and>
     (lifecycle p = GATEWAY_PORT_NETWORK_WAIT \<longrightarrow> \<not> listener_owned p \<and> live (runtime p)) \<and>
     (listener_owned p \<longrightarrow> lifecycle p \<in> {GATEWAY_PORT_READY, GATEWAY_PORT_DEGRADED} \<or>
        lifecycle p \<in> {GATEWAY_PORT_STOPPING, GATEWAY_PORT_ERROR} \<and> gp_last_error p = GATEWAY_ERROR_STOP) \<and>
     (pending_disable p \<longrightarrow> lifecycle p \<in> {GATEWAY_PORT_STOPPING, GATEWAY_PORT_ERROR} \<and> \<not> listener_owned p)"

context transport_contract
begin

definition served :: "('b, 'c, 't) gateway_port_controller \<Rightarrow> bool" where
  "served p \<longleftrightarrow> transport_ops (binding p) = Some ops \<and> (listener_owned p \<longleftrightarrow> running (transport_context (binding p)))"

text \<open>What each operation of the transport does to the controller's record of the port.\<close>

lemma transport_start_cases:
  assumes "served p"
  obtains r t rt own where "transport_start_at p cfg =
      (r, p\<lparr>binding := (binding p)\<lparr>transport_context := t\<rparr>, runtime := rt, listener_owned := own\<rparr>)"
    "keeps_port (runtime p) rt" "own = (r = 0 \<or> listener_owned p)" "own = running t"
proof (cases "tr_start ops")
  case None
  then have "transport_start_at p cfg = (- 1, p\<lparr>binding := (binding p)\<lparr>transport_context := transport_context (binding p)\<rparr>,
      runtime := runtime p, listener_owned := listener_owned p\<rparr>)"
    using assms by (simp add: transport_start_at_def served_def)
  then show ?thesis by (rule that) (use assms in \<open>simp_all add: served_def\<close>)
next
  case (Some f)
  obtain r t rt where f: "f (transport_context (binding p)) (runtime p) cfg = (r, t, rt)"
    by (cases "f (transport_context (binding p)) (runtime p) cfg")
  have k: "keeps_port (runtime p) rt" by (rule start_keeps [OF Some f])
  have o: "running t \<longleftrightarrow> r = 0 \<or> listener_owned p" using start_runs [OF Some f] assms by (simp add: served_def)
  show ?thesis
  proof (cases "r = 0")
    case True
    then have "transport_start_at p cfg = (0, p\<lparr>binding := (binding p)\<lparr>transport_context := t\<rparr>, runtime := rt, listener_owned := True\<rparr>)"
      using assms Some f by (simp add: transport_start_at_def served_def)
    then show ?thesis by (rule that) (use k o True in simp_all)
  next
    case False
    then have "transport_start_at p cfg = (- 1, p\<lparr>binding := (binding p)\<lparr>transport_context := t\<rparr>, runtime := rt, listener_owned := listener_owned p\<rparr>)"
      using assms Some f by (simp add: transport_start_at_def served_def)
    then show ?thesis by (rule that) (use k o False in simp_all)
  qed
qed

lemma transport_stop_cases:
  assumes "served p"
  obtains r t rt own where "transport_stop p =
      (r, p\<lparr>binding := (binding p)\<lparr>transport_context := t\<rparr>, runtime := rt, listener_owned := own\<rparr>)"
    "keeps_port (runtime p) rt" "own = (r \<noteq> 0 \<and> listener_owned p)" "listener_owned p \<or> r = 0 \<and> rt = runtime p"
    "own = running t"
proof (cases "listener_owned p \<and> tr_stop ops \<noteq> None")
  case False
  then have "transport_stop p = (0, p\<lparr>binding := (binding p)\<lparr>transport_context := transport_context (binding p)\<rparr>,
      runtime := runtime p, listener_owned := False\<rparr>)"
    using assms by (auto simp: transport_stop_def served_def)
  then show ?thesis by (rule that) (use assms False can_stop in \<open>auto simp: served_def\<close>)
next
  case True
  then obtain f where Some: "tr_stop ops = Some f" by auto
  obtain r t rt where f: "f (transport_context (binding p)) (runtime p) = (r, t, rt)"
    by (cases "f (transport_context (binding p)) (runtime p)")
  have k: "keeps_port (runtime p) rt" by (rule stop_keeps [OF Some f])
  have o: "running t \<longleftrightarrow> r \<noteq> 0 \<and> listener_owned p" using stop_runs [OF Some f] assms by (simp add: served_def)
  have "transport_stop p = (r, p\<lparr>binding := (binding p)\<lparr>transport_context := t\<rparr>, runtime := rt, listener_owned := (r \<noteq> 0 \<and> listener_owned p)\<rparr>)"
    using assms True Some f by (simp add: transport_stop_def served_def)
  then show ?thesis by (rule that) (use k o True in simp_all)
qed

lemma transport_step_cases:
  assumes "served p"
  obtains t rt where "transport_step p now = p\<lparr>binding := (binding p)\<lparr>transport_context := t\<rparr>, runtime := rt\<rparr>"
    "keeps_port (runtime p) rt" "listener_owned p = running t"
proof (cases "listener_owned p \<and> tr_step ops \<noteq> None")
  case False
  then have "transport_step p now = p\<lparr>binding := (binding p)\<lparr>transport_context := transport_context (binding p)\<rparr>, runtime := runtime p\<rparr>"
    using assms by (auto simp: transport_step_def served_def)
  then show ?thesis by (rule that) (use assms in \<open>simp_all add: served_def\<close>)
next
  case True
  then obtain f where Some: "tr_step ops = Some f" by auto
  obtain t rt where f: "f (transport_context (binding p)) (runtime p) now = (t, rt)"
    by (cases "f (transport_context (binding p)) (runtime p) now")
  have "transport_step p now = p\<lparr>binding := (binding p)\<lparr>transport_context := t\<rparr>, runtime := rt\<rparr>"
    using assms True Some f by (simp add: transport_step_def served_def)
  then show ?thesis by (rule that) (use step_keeps [OF Some f] step_runs [OF Some f] assms in \<open>simp_all add: served_def\<close>)
qed

text \<open>A port without a listener and without a pending switch-off is well off in any state that needs no listener.\<close>

lemma resting_ok: "port_inv (runtime p) \<Longrightarrow> \<not> listener_owned p \<Longrightarrow> \<not> pending_disable p \<Longrightarrow>
    lifecycle p \<noteq> GATEWAY_PORT_READY \<Longrightarrow> (lifecycle p = GATEWAY_PORT_NETWORK_WAIT \<longrightarrow> live (runtime p)) \<Longrightarrow> port_ok p"
  by (simp add: port_ok_def)

lemma start_listener_ok:
  assumes "served p" "port_inv (runtime p)" "live (runtime p)" "\<not> listener_owned p" "\<not> pending_disable p"
  shows "port_ok (start_listener_or_fail p now)" "served (start_listener_or_fail p now)"
proof -
  obtain r t rt own where e: "transport_start_at p (gp_current p) =
      (r, p\<lparr>binding := (binding p)\<lparr>transport_context := t\<rparr>, runtime := rt, listener_owned := own\<rparr>)"
    "keeps_port (runtime p) rt" "own = (r = 0 \<or> listener_owned p)" "own = running t"
    by (rule transport_start_cases [OF assms(1)])
  obtain r' rt' where q: "port_runtime_request_stop rt now GATEWAY_STOP_TIMEOUT = (r', rt')"
    by (cases "port_runtime_request_stop rt now GATEWAY_STOP_TIMEOUT")
  have i: "port_inv rt" "live rt" using e(2) assms by (auto simp: keeps_port_def)
  have "port_inv rt'" using inv_request_stop [OF i(1), of now GATEWAY_STOP_TIMEOUT] q by simp
  then show "port_ok (start_listener_or_fail p now)" "served (start_listener_or_fail p now)"
    using assms e i q by (auto simp: start_listener_or_fail_def transport_start_def Let_def port_ok_def served_def)
qed

lemma starting_ok:
  assumes "served p" "port_ok p" "lifecycle p = GATEWAY_PORT_STARTING"
  shows "port_ok (ctl_starting p now) \<and> served (ctl_starting p now)"
proof -
  have "\<not> listener_owned p" "\<not> pending_disable p" "port_inv (runtime p)" using assms by (auto simp: port_ok_def)
  then show ?thesis using assms start_listener_ok [of p now]
    by (auto simp: ctl_starting_def live_def served_def intro: resting_ok)
qed

lemma rebinding_ok:
  assumes "served p" "port_ok p" "lifecycle p = GATEWAY_PORT_RECONFIGURING"
  shows "port_ok (ctl_rebinding p) \<and> served (ctl_rebinding p)"
proof -
  let ?p = "p\<lparr>listener_rebind := False\<rparr>"
  have n: "\<not> listener_owned p" "\<not> pending_disable p" "port_inv (runtime p)" using assms by (auto simp: port_ok_def)
  have "served ?p" using assms by (simp add: served_def)
  then obtain r t rt own where e: "transport_start_at ?p (gp_staged ?p) =
      (r, ?p\<lparr>binding := (binding ?p)\<lparr>transport_context := t\<rparr>, runtime := rt, listener_owned := own\<rparr>)"
    "keeps_port (runtime ?p) rt" "own = (r = 0 \<or> listener_owned ?p)" "own = running t" by (rule transport_start_cases)
  let ?q = "?p\<lparr>binding := (binding ?p)\<lparr>transport_context := t\<rparr>, runtime := rt, listener_owned := own,
      listener_failures := increment (listener_failures p), reconfigure_failures := increment (reconfigure_failures p),
      gp_last_error := GATEWAY_ERROR_LISTENER_START\<rparr>"
  have "served ?q" using assms e(4) by (simp add: served_def)
  then obtain r' t' rt' own' where f: "transport_start_at ?q (gp_current ?q) =
      (r', ?q\<lparr>binding := (binding ?q)\<lparr>transport_context := t'\<rparr>, runtime := rt', listener_owned := own'\<rparr>)"
    "keeps_port (runtime ?q) rt'" "own' = (r' = 0 \<or> listener_owned ?q)" "own' = running t'" by (rule transport_start_cases)
  have cfg: "port_inv (rt\<lparr>current_config := a, known_good_config := b\<rparr>) = port_inv rt"
    "live (rt\<lparr>current_config := a, known_good_config := b\<rparr>) = live rt" for a b
    by (simp_all add: port_inv_def live_def)
  show ?thesis
  proof (cases "pr_state (runtime p) = PORT_READY")
    case True
    then have "live (runtime p)" by (simp add: live_def)
    then show ?thesis using True assms n e f cfg
      by (auto simp: ctl_rebinding_def transport_start_def adopt_staged_def keeps_port_def Let_def port_ok_def served_def)
  next
    case False
    then show ?thesis using assms n by (auto simp: ctl_rebinding_def served_def intro: resting_ok)
  qed
qed

lemma reconfiguring_ok:
  assumes "served p" "port_ok p" "lifecycle p = GATEWAY_PORT_RECONFIGURING"
  shows "port_ok (ctl_reconfiguring p now) \<and> served (ctl_reconfiguring p now)"
proof -
  have n: "\<not> listener_owned p" "\<not> pending_disable p" "port_inv (runtime p)" using assms by (auto simp: port_ok_def)
  obtain r t rt own where e: "transport_start_at p (gp_staged p) =
      (r, p\<lparr>binding := (binding p)\<lparr>transport_context := t\<rparr>, runtime := rt, listener_owned := own\<rparr>)"
    "keeps_port (runtime p) rt" "own = (r = 0 \<or> listener_owned p)" "own = running t" by (rule transport_start_cases [OF assms(1)])
  obtain r' rt' where q: "port_runtime_request_reconfigure rt (Some (core_config (gp_known_good p))) now
      GATEWAY_RECONFIGURE_TIMEOUT = (r', rt')"
    by (cases "port_runtime_request_reconfigure rt (Some (core_config (gp_known_good p))) now GATEWAY_RECONFIGURE_TIMEOUT")
  show ?thesis
  proof (cases "pr_state (runtime p) = PORT_READY")
    case True
    then have l: "live (runtime p)" by (simp add: live_def)
    then have i: "port_inv rt" "live rt" using e(2) n by (auto simp: keeps_port_def)
    have "port_inv rt'"
      using inv_request_reconfigure [OF i(1), of "Some (core_config (gp_known_good p))" now GATEWAY_RECONFIGURE_TIMEOUT] q by simp
    moreover have "port_ok (start_listener_or_fail (p\<lparr>gp_last_error := GATEWAY_ERROR_RECONFIGURE,
            reconfigure_failures := increment (reconfigure_failures p)\<rparr>) now)"
      "served (start_listener_or_fail (p\<lparr>gp_last_error := GATEWAY_ERROR_RECONFIGURE,
            reconfigure_failures := increment (reconfigure_failures p)\<rparr>) now)"
      by (rule start_listener_ok; use assms n l in \<open>simp add: served_def\<close>)+
    ultimately show ?thesis using True assms n e q i l rebinding_ok
      by (auto simp: ctl_reconfiguring_def adopt_staged_def Let_def port_ok_def served_def)
  next
    case False
    then show ?thesis using assms n rebinding_ok
      by (auto simp: ctl_reconfiguring_def served_def intro: resting_ok)
  qed
qed

lemma rolling_back_ok:
  assumes "served p" "port_ok p" "lifecycle p = GATEWAY_PORT_ROLLING_BACK"
  shows "port_ok (ctl_rolling_back p) \<and> served (ctl_rolling_back p)"
proof -
  have n: "\<not> listener_owned p" "\<not> pending_disable p" "port_inv (runtime p)" using assms by (auto simp: port_ok_def)
  obtain r t rt own where e: "transport_start_at p (gp_current p) =
      (r, p\<lparr>binding := (binding p)\<lparr>transport_context := t\<rparr>, runtime := rt, listener_owned := own\<rparr>)"
    "keeps_port (runtime p) rt" "own = (r = 0 \<or> listener_owned p)" "own = running t" by (rule transport_start_cases [OF assms(1)])
  show ?thesis using assms n e
    by (auto simp: ctl_rolling_back_def transport_start_def keeps_port_def Let_def port_ok_def served_def live_def)
qed

lemma stopping_ok: "served p \<Longrightarrow> port_ok p \<Longrightarrow> lifecycle p = GATEWAY_PORT_STOPPING \<Longrightarrow> port_ok (ctl_stopping p) \<and> served (ctl_stopping p)"
  by (auto simp: ctl_stopping_def adopt_staged_def port_ok_def served_def Let_def)

lemma step_ok:
  assumes "served p" "port_ok p"
  shows "port_ok (step_port p now) \<and> served (step_port p now)"
proof -
  let ?p = "p\<lparr>gp_scheduler_steps := increment (gp_scheduler_steps p)\<rparr>"
  have "served ?p" using assms by (simp add: served_def)
  then obtain t rt where e: "transport_step ?p now = ?p\<lparr>binding := (binding ?p)\<lparr>transport_context := t\<rparr>, runtime := rt\<rparr>"
    "keeps_port (runtime ?p) rt" "listener_owned ?p = running t" by (rule transport_step_cases)
  let ?q1 = "?p\<lparr>binding := (binding ?p)\<lparr>transport_context := t\<rparr>, runtime := rt\<rparr>"
  let ?q = "?q1\<lparr>runtime := port_runtime_step (runtime ?q1) now\<rparr>"
  have q: "served ?q" "port_ok ?q" using assms e inv_step live_step by (auto simp: served_def port_ok_def keeps_port_def)
  have d: "port_ok (?q\<lparr>lifecycle := GATEWAY_PORT_DEGRADED\<rparr>)" if "lifecycle p = GATEWAY_PORT_READY"
    using q that by (auto simp: port_ok_def)
  have s: "step_port p now = (case lifecycle ?q of
           GATEWAY_PORT_STARTING \<Rightarrow> ctl_starting ?q now
         | GATEWAY_PORT_READY \<Rightarrow>
             (if pr_state (runtime ?q) = PORT_DEGRADED \<or> pr_state (runtime ?q) = PORT_ERROR
              then ?q\<lparr>lifecycle := GATEWAY_PORT_DEGRADED\<rparr> else ?q)
         | GATEWAY_PORT_RECONFIGURING \<Rightarrow> ctl_reconfiguring ?q now
         | GATEWAY_PORT_ROLLING_BACK \<Rightarrow> ctl_rolling_back ?q
         | GATEWAY_PORT_STOPPING \<Rightarrow> ctl_stopping ?q
         | _ \<Rightarrow> ?q)"
    unfolding step_port_def e(1) Let_def ..
  show ?thesis
  proof (cases "lifecycle ?q")
    case GATEWAY_PORT_STARTING then show ?thesis using s starting_ok [OF q] by simp
  next
    case GATEWAY_PORT_RECONFIGURING then show ?thesis using s reconfiguring_ok [OF q] by simp
  next
    case GATEWAY_PORT_ROLLING_BACK then show ?thesis using s rolling_back_ok [OF q] by simp
  next
    case GATEWAY_PORT_STOPPING then show ?thesis using s stopping_ok [OF q] by simp
  next
    case GATEWAY_PORT_READY
    then show ?thesis using s d q by (simp add: served_def)
  qed (use s q in simp_all)
qed

text \<open>The requests of the owner.\<close>

lemma start_ok:
  assumes "served p" "port_ok p"
  shows "port_ok (start_port p now) \<and> served (start_port p now)"
proof -
  obtain r rt where q: "port_runtime_start (runtime p) now GATEWAY_START_TIMEOUT = (r, rt)"
    by (cases "port_runtime_start (runtime p) now GATEWAY_START_TIMEOUT")
  have "port_inv rt" using inv_start [of "runtime p" now GATEWAY_START_TIMEOUT] assms q by (simp add: port_ok_def)
  then show ?thesis using assms q by (auto simp: start_port_def port_ok_def served_def Let_def)
qed

text \<open>A listener that was stopped, or never ran, leaves the runtime alone or keeps the contract.\<close>

lemma shutdown_ok:
  assumes "served p" "port_ok p"
  shows "port_ok (shutdown_port p now) \<and> served (shutdown_port p now)"
proof -
  obtain r t rt own where e: "transport_stop p =
      (r, p\<lparr>binding := (binding p)\<lparr>transport_context := t\<rparr>, runtime := rt, listener_owned := own\<rparr>)"
    "keeps_port (runtime p) rt" "own = (r \<noteq> 0 \<and> listener_owned p)" "listener_owned p \<or> r = 0 \<and> rt = runtime p" "own = running t"
    by (rule transport_stop_cases [OF assms(1)])
  obtain r' rt' where q: "port_runtime_request_stop rt now GATEWAY_STOP_TIMEOUT = (r', rt')"
    by (cases "port_runtime_request_stop rt now GATEWAY_STOP_TIMEOUT")
  have i: "port_inv rt" using e(2) assms by (auto simp: keeps_port_def port_ok_def)
  then have "port_inv rt'" using inv_request_stop [of rt now GATEWAY_STOP_TIMEOUT] q by simp
  moreover have "lifecycle p \<in> {GATEWAY_PORT_READY, GATEWAY_PORT_NETWORK_WAIT} \<Longrightarrow> live rt"
    using e(2) assms by (auto simp: keeps_port_def port_ok_def)
  moreover have "live rt \<Longrightarrow> pr_state rt \<noteq> PORT_DISABLED \<and> pr_state rt \<noteq> PORT_STOPPING" by (auto simp: live_def)
  ultimately show ?thesis using assms e q i
    by (cases "pr_state rt = PORT_DISABLED \<or> pr_state rt = PORT_STOPPING"; cases "r = 0")
      (auto simp: shutdown_port_def Let_def port_ok_def served_def)
qed

lemma network_wait_ok:
  assumes "served p" "port_ok p"
  shows "port_ok (snd (network_wait_port p wait now)) \<and> served (snd (network_wait_port p wait now))"
proof -
  let ?p = "p\<lparr>network_wait := wait\<rparr>"
  have sp: "served ?p" using assms by (simp add: served_def)
  obtain r t rt own where e: "transport_stop ?p =
      (r, ?p\<lparr>binding := (binding ?p)\<lparr>transport_context := t\<rparr>, runtime := rt, listener_owned := own\<rparr>)"
    "keeps_port (runtime ?p) rt" "own = (r \<noteq> 0 \<and> listener_owned ?p)" "listener_owned ?p \<or> r = 0 \<and> rt = runtime ?p" "own = running t"
    by (rule transport_stop_cases [OF sp])
  show ?thesis
  proof (cases "wait \<and> lifecycle p = GATEWAY_PORT_READY")
    case False
    then show ?thesis using assms by (auto simp: network_wait_port_def port_ok_def served_def Let_def)
  next
    case True
    then have i: "port_inv rt" "live rt" using e(2) assms by (auto simp: keeps_port_def port_ok_def)
    obtain rt' where q: "port_runtime_detach_listener rt now = (0, rt')" "live rt'" "port_inv rt'"
      using live_detach [OF i, of now] inv_detach [OF i(1), of now] by (cases "port_runtime_detach_listener rt now") auto
    show ?thesis using True assms e q i by (auto simp: network_wait_port_def port_ok_def served_def Let_def)
  qed
qed

lemma disable_ok:
  assumes "served p" "port_ok p" "lifecycle p \<in> {GATEWAY_PORT_READY, GATEWAY_PORT_DISABLED, GATEWAY_PORT_NETWORK_WAIT}"
  shows "port_ok (snd (reconfigure_disable p cfg now)) \<and> served (snd (reconfigure_disable p cfg now))"
proof -
  obtain r t rt own where e: "transport_stop p =
      (r, p\<lparr>binding := (binding p)\<lparr>transport_context := t\<rparr>, runtime := rt, listener_owned := own\<rparr>)"
    "keeps_port (runtime p) rt" "own = (r \<noteq> 0 \<and> listener_owned p)" "listener_owned p \<or> r = 0 \<and> rt = runtime p" "own = running t"
    by (rule transport_stop_cases [OF assms(1)])
  show ?thesis
  proof (cases "lifecycle p = GATEWAY_PORT_DISABLED")
    case True
    then show ?thesis using assms by (auto simp: reconfigure_disable_def port_ok_def served_def)
  next
    case False
    then have i: "port_inv rt" "live rt" using e(2) assms by (auto simp: keeps_port_def port_ok_def)
    obtain rt' where q: "port_runtime_request_stop rt now GATEWAY_STOP_TIMEOUT = (0, rt')" "port_inv rt'"
      using live_request_stop [OF i, of now] inv_request_stop [OF i(1), of now GATEWAY_STOP_TIMEOUT]
      by (cases "port_runtime_request_stop rt now GATEWAY_STOP_TIMEOUT") auto
    show ?thesis using False assms e q i by (auto simp: reconfigure_disable_def port_ok_def served_def Let_def)
  qed
qed

lemma enable_ok:
  assumes "served p" "port_ok p" "lifecycle p = GATEWAY_PORT_DISABLED"
  shows "port_ok (snd (reconfigure_enable i p cfg now)) \<and> served (snd (reconfigure_enable i p cfg now))"
proof -
  let ?rt = "port_runtime_init (of_nat i) (core_config cfg) (backend_ops (binding p))
                 (backend_context (runtime p)) (completion_context (runtime p))"
  obtain r rt where q: "port_runtime_start ?rt now GATEWAY_START_TIMEOUT = (r, rt)"
    by (cases "port_runtime_start ?rt now GATEWAY_START_TIMEOUT")
  have "port_inv rt" using inv_start [OF inv_init, of "of_nat i" "core_config cfg" "backend_ops (binding p)"
      "backend_context (runtime p)" "completion_context (runtime p)" now GATEWAY_START_TIMEOUT] q by simp
  then show ?thesis using assms q by (auto simp: reconfigure_enable_def port_ok_def served_def Let_def)
qed

lemma rebind_ok:
  assumes "served p" "port_ok p" "lifecycle p \<in> {GATEWAY_PORT_READY, GATEWAY_PORT_NETWORK_WAIT}"
  shows "port_ok (snd (reconfigure_rebind p cfg now)) \<and> served (snd (reconfigure_rebind p cfg now))"
proof -
  obtain r t rt own where e: "transport_stop p =
      (r, p\<lparr>binding := (binding p)\<lparr>transport_context := t\<rparr>, runtime := rt, listener_owned := own\<rparr>)"
    "keeps_port (runtime p) rt" "own = (r \<noteq> 0 \<and> listener_owned p)" "listener_owned p \<or> r = 0 \<and> rt = runtime p" "own = running t"
    by (rule transport_stop_cases [OF assms(1)])
  have i: "port_inv rt" "live rt" using e(2) assms by (auto simp: keeps_port_def port_ok_def)
  obtain rt' where q: "port_runtime_detach_listener rt now = (0, rt')" "live rt'" "port_inv rt'"
    using live_detach [OF i, of now] inv_detach [OF i(1), of now] by (cases "port_runtime_detach_listener rt now") auto
  show ?thesis using assms e q i by (auto simp: reconfigure_rebind_def port_ok_def served_def Let_def)
qed

lemma settings_ok:
  assumes "served p" "port_ok p" "lifecycle p \<in> {GATEWAY_PORT_READY, GATEWAY_PORT_NETWORK_WAIT}"
    "config_valid (core_config cfg)"
  shows "port_ok (snd (reconfigure_settings p cfg now)) \<and> served (snd (reconfigure_settings p cfg now))"
proof -
  obtain r t rt own where e: "transport_stop p =
      (r, p\<lparr>binding := (binding p)\<lparr>transport_context := t\<rparr>, runtime := rt, listener_owned := own\<rparr>)"
    "keeps_port (runtime p) rt" "own = (r \<noteq> 0 \<and> listener_owned p)" "listener_owned p \<or> r = 0 \<and> rt = runtime p" "own = running t"
    by (rule transport_stop_cases [OF assms(1)])
  have i: "port_inv rt" "live rt" using e(2) assms by (auto simp: keeps_port_def port_ok_def)
  obtain rt' where q: "port_runtime_request_reconfigure rt (Some (core_config cfg)) now GATEWAY_RECONFIGURE_TIMEOUT = (0, rt')" "port_inv rt'"
    using live_request_reconfigure [OF i assms(4), of now]
      inv_request_reconfigure [OF i(1), of "Some (core_config cfg)" now GATEWAY_RECONFIGURE_TIMEOUT]
    by (cases "port_runtime_request_reconfigure rt (Some (core_config cfg)) now GATEWAY_RECONFIGURE_TIMEOUT") auto
  show ?thesis using assms e q i by (auto simp: reconfigure_settings_def port_ok_def served_def Let_def)
qed

lemma reconfigure_ok:
  assumes "served p" "port_ok p" "validate_one cfg = GATEWAY_ERROR_NONE"
  shows "port_ok (snd (reconfigure_port i p cfg now)) \<and> served (snd (reconfigure_port i p cfg now))"
  using assms disable_ok enable_ok rebind_ok settings_ok core_config_suits(2) [OF assms(3)]
  by (auto simp: reconfigure_port_def)

end

section \<open>The controller as a whole\<close>

text \<open>The calls of the controller, in any order.\<close>

datatype controller_op =
  Start_All tick | Step_All tick | Replace nat "gateway_port_config option" tick
| Await_Network nat u32 tick | Shut_Down tick

primrec ctl_exec ::
  "('b, 'c, 't) gateway_controller \<Rightarrow> controller_op \<Rightarrow> ('b, 'c, 't) gateway_controller" where
  "ctl_exec c (Start_All now) = gateway_controller_start c now"
| "ctl_exec c (Step_All now) = gateway_controller_step c now"
| "ctl_exec c (Replace i cfg now) = snd (gateway_controller_reconfigure c i cfg now)"
| "ctl_exec c (Await_Network i w now) = snd (gateway_controller_network_wait c i w now)"
| "ctl_exec c (Shut_Down now) = gateway_controller_shutdown c now"

definition ctl_run :: "controller_op list \<Rightarrow> ('b, 'c, 't) gateway_controller \<Rightarrow> ('b, 'c, 't) gateway_controller" where
  "ctl_run os c = foldl ctl_exec c os"

lemma foldl_update:
  assumes "distinct is" "set is \<subseteq> {..<length xs}"
  shows "foldl (\<lambda>ys i. ys[i := f (ys ! i)]) xs is = map (\<lambda>i. if i \<in> set is then f (xs ! i) else xs ! i) [0..<length xs]"
  using assms
proof (induction "is" rule: rev_induct)
  case Nil
  then show ?case by (simp add: map_nth)
next
  case (snoc i "is")
  then show ?case by (auto simp: nth_list_update intro!: nth_equalityI)
qed

lemma rotation:
  assumes "n < (8 :: nat)"
  shows "distinct (map (\<lambda>i. (n + i) mod 8) [0..<8])" "set (map (\<lambda>i. (n + i) mod 8) [0..<8]) = {..<8}"
proof -
  have n: "n = 0 \<or> n = 1 \<or> n = 2 \<or> n = 3 \<or> n = 4 \<or> n = 5 \<or> n = 6 \<or> n = 7" using assms by linarith
  have u: "[0..<8 :: nat] = [0, 1, 2, 3, 4, 5, 6, 7]" by (simp add: upt_rec)
  have s: "{..<8 :: nat} = set [0..<8]" by auto
  show "distinct (map (\<lambda>i. (n + i) mod 8) [0..<8])" unfolding u using n by (elim disjE) simp_all
  show "set (map (\<lambda>i. (n + i) mod 8) [0..<8]) = {..<8}" unfolding s u using n by (elim disjE) auto
qed

lemma controller_step_ports:
  assumes "length (ctl_ports c) = GATEWAY_PORT_COUNT" "next_port c < GATEWAY_PORT_COUNT"
  shows "ctl_ports (gateway_controller_step c now) = map (\<lambda>p. step_port p now) (ctl_ports c)"
proof -
  note r = rotation [OF assms(2)]
  have "foldl (\<lambda>ps i. ps[i := step_port (ps ! i) now]) (ctl_ports c)
      (map (\<lambda>n. (next_port c + n) mod GATEWAY_PORT_COUNT) [0..<GATEWAY_PORT_COUNT]) =
    map (\<lambda>i. step_port (ctl_ports c ! i) now) [0..<GATEWAY_PORT_COUNT]"
    using foldl_update [OF r(1), of "ctl_ports c" "\<lambda>p. step_port p now"] r(2) assms(1) by (simp cong: map_cong)
  then show ?thesis using assms(1)
    by (auto simp: gateway_controller_step_def Let_def intro!: nth_equalityI)
qed

definition ctl_shape :: "('b, 'c, 't) gateway_controller \<Rightarrow> bool" where
  "ctl_shape c \<longleftrightarrow> length (ctl_ports c) = GATEWAY_PORT_COUNT \<and> next_port c < GATEWAY_PORT_COUNT"

lemma shape_exec: "ctl_shape c \<Longrightarrow> ctl_shape (ctl_exec c op)"
  by (cases op)
    (auto simp: ctl_shape_def controller_step_ports gateway_controller_start_def gateway_controller_shutdown_def
      gateway_controller_reconfigure_def gateway_controller_network_wait_def Let_def split: prod.split,
     simp add: gateway_controller_step_def Let_def)

lemma replacement_valid:
  assumes "length (ctl_ports c) = GATEWAY_PORT_COUNT" "i < GATEWAY_PORT_COUNT" "validate_replacement c i cfg = 0"
  shows "validate_one cfg = GATEWAY_ERROR_NONE"
  using assms validate_error(2) [of "(map gp_current (ctl_ports c))[i := cfg]" i]
  by (simp add: validate_replacement_def Let_def split: if_splits)

context transport_contract
begin

definition ctl_ok :: "('b, 'c, 't) gateway_controller \<Rightarrow> bool" where
  "ctl_ok c \<longleftrightarrow> ctl_shape c \<and> (\<forall>p \<in> set (ctl_ports c). port_ok p \<and> served p)"

lemma exec_ok:
  assumes "ctl_ok c"
  shows "ctl_ok (ctl_exec c op)"
proof -
  have s: "ctl_shape (ctl_exec c op)" using assms by (simp add: ctl_ok_def shape_exec)
  have l: "length (ctl_ports c) = GATEWAY_PORT_COUNT" "next_port c < GATEWAY_PORT_COUNT"
    using assms by (auto simp: ctl_ok_def ctl_shape_def)
  have p: "port_ok p" "served p" if "p \<in> set (ctl_ports c)" for p using assms that by (auto simp: ctl_ok_def)
  have u: "\<forall>q \<in> set ((ctl_ports c)[i := x]). port_ok q \<and> served q" if "port_ok x \<and> served x" for i x
    using that p set_update_subset_insert [of "ctl_ports c" i x] by blast
  have n: "ctl_ports c ! i \<in> set (ctl_ports c)" if "i < GATEWAY_PORT_COUNT" for i using that l by simp
  have "\<forall>q \<in> set (ctl_ports (ctl_exec c op)). port_ok q \<and> served q"
  proof (cases op)
    case (Start_All now)
    then show ?thesis using p start_ok by (auto simp: gateway_controller_start_def)
  next
    case (Step_All now)
    then show ?thesis using p step_ok l by (auto simp: controller_step_ports)
  next
    case (Shut_Down now)
    then show ?thesis using p shutdown_ok by (auto simp: gateway_controller_shutdown_def)
  next
    case (Await_Network i w now)
    show ?thesis
    proof (cases "i < GATEWAY_PORT_COUNT \<and> \<not> w > 1")
      case True
      have h: "port_ok (snd (network_wait_port (ctl_ports c ! i) (w = 1) now)) \<and>
          served (snd (network_wait_port (ctl_ports c ! i) (w = 1) now))"
        using True n p by (intro network_wait_ok) simp_all
      have e: "ctl_ports (ctl_exec c op) = (ctl_ports c)[i := snd (network_wait_port (ctl_ports c ! i) (w = 1) now)]"
        unfolding Await_Network ctl_exec.simps gateway_controller_network_wait_def using True by (simp add: split_beta)
      show ?thesis unfolding e by (rule u [OF h])
    next
      case False
      then have "ctl_exec c op = c" unfolding Await_Network ctl_exec.simps gateway_controller_network_wait_def by auto
      then show ?thesis using p by simp
    qed
  next
    case (Replace i cfg now)
    show ?thesis
    proof (cases "cfg \<noteq> None \<and> i < GATEWAY_PORT_COUNT \<and> validate_replacement c i (the cfg) = 0")
      case True
      then have v: "validate_one (the cfg) = GATEWAY_ERROR_NONE" using replacement_valid [OF l(1), of i "the cfg"] by blast
      have h: "port_ok (snd (reconfigure_port i (ctl_ports c ! i) (the cfg) now)) \<and>
          served (snd (reconfigure_port i (ctl_ports c ! i) (the cfg) now))"
        using True n p by (intro reconfigure_ok [OF _ _ v]) simp_all
      have e: "ctl_ports (ctl_exec c op) = (ctl_ports c)[i := snd (reconfigure_port i (ctl_ports c ! i) (the cfg) now)]"
        unfolding Replace ctl_exec.simps gateway_controller_reconfigure_def using True by (auto simp: split_beta)
      show ?thesis unfolding e by (rule u [OF h])
    next
      case False
      then have "ctl_exec c op = c" unfolding Replace ctl_exec.simps gateway_controller_reconfigure_def by auto
      then show ?thesis using p by simp
    qed
  qed
  with s show ?thesis by (simp add: ctl_ok_def)
qed

lemma run_ok: "ctl_ok c \<Longrightarrow> ctl_ok (ctl_run os c)"
  by (induction os rule: rev_induct) (simp_all add: ctl_run_def exec_ok)

lemma init_ok:
  assumes "\<forall>b \<in> set bindings. transport_ops b = Some ops \<and> \<not> running (transport_context b)" "length bindings = GATEWAY_PORT_COUNT"
  shows "ctl_ok (snd (gateway_controller_init ports bindings cs))"
  using assms by (auto simp: gateway_controller_init_def ctl_ok_def ctl_shape_def init_port_def served_def inv_init
      intro: resting_ok split: prod.split)

lemma reachable_ok:
  assumes "\<forall>b \<in> set bindings. transport_ops b = Some ops \<and> \<not> running (transport_context b)" "length bindings = GATEWAY_PORT_COUNT"
  shows "\<forall>p \<in> set (ctl_ports (ctl_run os (snd (gateway_controller_init ports bindings cs)))). port_ok p \<and> served p"
  using run_ok [OF init_ok [OF assms]] by (auto simp: ctl_ok_def)

end

section \<open>What one step changes of a port's configuration\<close>

lemma transport_frame [simp]:
  "gp_current (snd (transport_start_at p cfg)) = gp_current p"
  "gp_staged (snd (transport_start_at p cfg)) = gp_staged p"
  "gp_known_good (snd (transport_start_at p cfg)) = gp_known_good p"
  "config_generation (snd (transport_start_at p cfg)) = config_generation p"
  "pending_disable (snd (transport_start_at p cfg)) = pending_disable p"
  "gp_current (transport_step p now) = gp_current p" "gp_staged (transport_step p now) = gp_staged p"
  "gp_known_good (transport_step p now) = gp_known_good p"
  "config_generation (transport_step p now) = config_generation p"
  "pending_disable (transport_step p now) = pending_disable p"
  "lifecycle (transport_step p now) = lifecycle p"
  by (auto simp: transport_start_at_def transport_step_def Let_def split: option.split prod.split)

lemma start_at_owns: "fst (transport_start_at p cfg) = 0 \<Longrightarrow> listener_owned (snd (transport_start_at p cfg))"
  by (auto simp: transport_start_at_def Let_def split: option.splits prod.splits if_splits)

definition same_settings :: "('b, 'c, 't) gateway_port_controller \<Rightarrow> ('b, 'c, 't) gateway_port_controller \<Rightarrow> bool" where
  "same_settings p p' \<longleftrightarrow> gp_current p' = gp_current p \<and> gp_known_good p' = gp_known_good p \<and>
     config_generation p' = config_generation p"

text \<open>The staged configuration is in force as a whole, and the port serves it, waits for its network or is off.\<close>

definition adopted :: "('b, 'c, 't) gateway_port_controller \<Rightarrow> ('b, 'c, 't) gateway_port_controller \<Rightarrow> bool" where
  "adopted p p' \<longleftrightarrow> gp_current p' = gp_staged p \<and> gp_known_good p' = gp_staged p \<and>
     config_generation p' = increment (config_generation p) \<and>
     (lifecycle p' = GATEWAY_PORT_READY \<and> listener_owned p' \<or> lifecycle p' = GATEWAY_PORT_NETWORK_WAIT \<or>
      lifecycle p' = GATEWAY_PORT_DISABLED \<and> pending_disable p)"

lemma start_listener_settings [simp]:
  "gp_current (start_listener_or_fail p now) = gp_current p"
  "gp_staged (start_listener_or_fail p now) = gp_staged p"
  "gp_known_good (start_listener_or_fail p now) = gp_known_good p"
  "config_generation (start_listener_or_fail p now) = config_generation p"
  by (simp_all add: start_listener_or_fail_def transport_start_def split_beta Let_def)

lemma starting_settings: "same_settings p (ctl_starting p now) \<and> gp_staged (ctl_starting p now) = gp_staged p"
  by (simp add: ctl_starting_def same_settings_def)

lemma rebinding_settings:
  "(same_settings p (ctl_rebinding p) \<or> adopted p (ctl_rebinding p)) \<and> gp_staged (ctl_rebinding p) = gp_staged p"
proof -
  have "adopted p (ctl_rebinding p)"
    if "pr_state (runtime p) = PORT_READY" "\<not> network_wait p"
      "fst (transport_start_at (p\<lparr>listener_rebind := False\<rparr>) (gp_staged p)) = 0"
    using that start_at_owns [OF that(3)] by (simp add: ctl_rebinding_def adopted_def adopt_staged_def split_beta Let_def)
  moreover have "same_settings p (ctl_rebinding p)"
    if "\<not> (pr_state (runtime p) = PORT_READY \<and> \<not> network_wait p \<and>
      fst (transport_start_at (p\<lparr>listener_rebind := False\<rparr>) (gp_staged p)) = 0)"
    using that by (auto simp: ctl_rebinding_def same_settings_def transport_start_def split_beta Let_def)
  ultimately show ?thesis by (auto simp: ctl_rebinding_def adopt_staged_def transport_start_def split_beta Let_def)
qed

lemma reconfiguring_settings:
  "(same_settings p (ctl_reconfiguring p now) \<or> adopted p (ctl_reconfiguring p now)) \<and>
   gp_staged (ctl_reconfiguring p now) = gp_staged p"
proof (cases "listener_rebind p")
  case True
  then show ?thesis using rebinding_settings [of p] by (simp add: ctl_reconfiguring_def)
next
  case False
  let ?commit = "pr_state (runtime p) = PORT_READY \<and>
    cc_revision (current_config (runtime p)) = gc_revision (gp_staged p) \<and>
    (network_wait p \<or> fst (transport_start_at p (gp_staged p)) = 0)"
  have "adopted p (ctl_reconfiguring p now)" if ?commit
    using that False start_at_owns [of p "gp_staged p"]
    by (auto simp: ctl_reconfiguring_def adopted_def adopt_staged_def split_beta Let_def)
  moreover have "same_settings p (ctl_reconfiguring p now)" if "\<not> ?commit"
    using that False by (auto simp: ctl_reconfiguring_def same_settings_def split_beta Let_def)
  moreover have "gp_staged (ctl_reconfiguring p now) = gp_staged p"
    using False by (simp add: ctl_reconfiguring_def adopt_staged_def split_beta Let_def)
  ultimately show ?thesis by blast
qed

lemma rolling_back_settings: "same_settings p (ctl_rolling_back p) \<and> gp_staged (ctl_rolling_back p) = gp_staged p"
  by (simp add: ctl_rolling_back_def same_settings_def transport_start_def split_beta Let_def)

lemma stopping_settings:
  "(same_settings p (ctl_stopping p) \<or> adopted p (ctl_stopping p)) \<and> gp_staged (ctl_stopping p) = gp_staged p"
  by (simp add: ctl_stopping_def same_settings_def adopted_def adopt_staged_def Let_def)

text \<open>
  A configuration is adopted as a whole or not at all: one step of the controller leaves the configuration
  of a port, its known good copy and its generation as they were, or makes both copies the staged configuration
  and counts one generation more, and then the port serves it through its listener, waits for the network
  or has been switched off as asked. The staged configuration itself is never touched by a step.
\<close>

theorem step_adopts_whole_configuration:
  "(same_settings p (step_port p now) \<or> adopted p (step_port p now)) \<and> gp_staged (step_port p now) = gp_staged p"
proof -
  let ?q = "transport_step (p\<lparr>gp_scheduler_steps := increment (gp_scheduler_steps p)\<rparr>) now"
  let ?r = "?q\<lparr>runtime := port_runtime_step (runtime ?q) now\<rparr>"
  have e: "same_settings p x = same_settings ?r x" "adopted p x = adopted ?r x" "gp_staged p = gp_staged ?r" for x
    by (simp_all add: same_settings_def adopted_def)
  have r: "same_settings ?r ?r" "same_settings ?r (?r\<lparr>lifecycle := GATEWAY_PORT_DEGRADED\<rparr>)"
    by (simp_all add: same_settings_def)
  show ?thesis unfolding e step_port_def Let_def
    using starting_settings [of ?r now] reconfiguring_settings [of ?r now] rolling_back_settings [of ?r]
      stopping_settings [of ?r] r
    by (auto split: gateway_port_lifecycle.split)
qed

section \<open>Round robin\<close>

definition sample_ports :: "(nat, unit, unit) gateway_controller" where
  "sample_ports = snd (gateway_controller_init (replicate 8 plain_port)
     (replicate 8 \<lparr>backend_ops = None, binding_backend = 0, transport_ops = None, transport_context = ()\<rparr>)
     (replicate 8 ()))"

text \<open>
  The round robin is fair and the ports do not touch each other: whatever port a scheduler step begins
  with, it steps each of the eight ports exactly once and from its own state only, and the next
  step begins one port later.
\<close>

theorem controller_steps_every_port:
  assumes "length (ctl_ports c) = GATEWAY_PORT_COUNT" "next_port c < GATEWAY_PORT_COUNT"
  shows "ctl_ports (gateway_controller_step c now) = map (\<lambda>p. step_port p now) (ctl_ports c) \<and>
    next_port (gateway_controller_step c now) = (next_port c + 1) mod GATEWAY_PORT_COUNT"
  using controller_step_ports [OF assms] by (simp add: gateway_controller_step_def Let_def)

theorem controller_steps_every_port_witness:
  "ctl_ports (gateway_controller_step sample_ports 5) = map (\<lambda>p. step_port p 5) (ctl_ports sample_ports) \<and>
   next_port (gateway_controller_step sample_ports 5) = (next_port sample_ports + 1) mod GATEWAY_PORT_COUNT"
  by (rule controller_steps_every_port) (simp_all add: sample_ports_def gateway_controller_init_def split_beta)

section \<open>A rollback that did not take\<close>

text \<open>What a listener that is started or stopped leaves as it was.\<close>

definition spared :: "('b, 'c) port_runtime \<Rightarrow> ('b, 'c) port_runtime \<Rightarrow> bool" where
  "spared rt rt' \<longleftrightarrow> keeps_port rt rt' \<and> backend rt' = backend rt \<and> current_config rt' = current_config rt"

lemma start_at_parts:
  assumes "transport_ops (binding p) = Some tops" "tr_start tops = Some start" "\<And>t rt c. spared rt (snd (snd (start t rt c)))"
  shows "\<exists>t rt own. transport_start_at p c =
      (if fst (start (transport_context (binding p)) (runtime p) c) = 0 then 0 else - 1,
       p\<lparr>binding := (binding p)\<lparr>transport_context := t\<rparr>, runtime := rt, listener_owned := own\<rparr>) \<and> spared (runtime p) rt \<and>
      own = (listener_owned p \<or> fst (start (transport_context (binding p)) (runtime p) c) = 0)"
proof -
  obtain r t rt where s: "start (transport_context (binding p)) (runtime p) c = (r, t, rt)"
    by (cases "start (transport_context (binding p)) (runtime p) c")
  have "spared (runtime p) rt" using assms(3) [of "runtime p" "transport_context (binding p)" c] s by simp
  moreover have "p\<lparr>binding := b, runtime := rt\<rparr> = p\<lparr>binding := b, runtime := rt, listener_owned := listener_owned p\<rparr>" for b
    by (cases p) simp
  ultimately show ?thesis using assms(1,2) s by (auto simp: transport_start_at_def)
qed

lemma reconfigure_requested:
  assumes "port_inv rt" "live rt" "config_valid c" "port_runtime_request_reconfigure rt (Some c) now GATEWAY_RECONFIGURE_TIMEOUT = (r, rt')"
  shows "r = 0" "pr_state rt' = PORT_RECONFIGURING" "staged_config rt' = c" "current_config rt' = current_config rt"
    "known_good_config rt' = current_config rt" "backend rt' = backend rt" "port_inv rt'"
    "state_deadline rt' = core_deadline_after now GATEWAY_RECONFIGURE_TIMEOUT"
proof -
  let ?a = "abandon_active rt"
  have q: "queue_wf (pr_queue ?a)" using assms(1) by (simp add: abandon_frame port_inv_def queue_ok_def)
  have a: "backend ?a = backend rt" by (simp add: abandon_active_def port_steps_defs)
  have f: "pr_state (flush_queue ?a) = pr_state rt" "current_config (flush_queue ?a) = current_config rt" "backend (flush_queue ?a) = backend rt"
    using flush_loop_shape [OF q] a by (auto simp: flush_queue_def abandon_frame update_depth_def Let_def)
  have t: "transition_allowed (pr_state rt) PORT_RECONFIGURING" using assms(2) by (auto simp: live_def)
  have "port_runtime_request_reconfigure rt (Some c) now GATEWAY_RECONFIGURE_TIMEOUT =
      (0, (flush_queue ?a)\<lparr>known_good_config := current_config rt, staged_config := c,
        state_deadline := core_deadline_after now GATEWAY_RECONFIGURE_TIMEOUT, pr_state := PORT_RECONFIGURING\<rparr>)"
    using assms(2,3) f t by (auto simp: port_runtime_request_reconfigure_def live_def port_runtime_transition_def Let_def core_ticks_valid_interval_def)
  then show "r = 0" "pr_state rt' = PORT_RECONFIGURING" "staged_config rt' = c" "current_config rt' = current_config rt"
    "known_good_config rt' = current_config rt" "backend rt' = backend rt"
    "state_deadline rt' = core_deadline_after now GATEWAY_RECONFIGURE_TIMEOUT"
    using f assms(4) by auto
  show "port_inv rt'" using inv_request_reconfigure [OF assms(1), of "Some c" now GATEWAY_RECONFIGURE_TIMEOUT] assms(4) by simp
qed

lemma settings_taken:
  assumes "pr_state rt = PORT_RECONFIGURING" "backend rt = Some ops" "\<not> core_deadline_expired (state_deadline rt) now"
    "\<And>b now. fst (be_reconfigure ops b (staged_config rt) now) = 0"
  shows "pr_state (port_runtime_step rt now) = PORT_READY" "current_config (port_runtime_step rt now) = staged_config rt"
    "backend (port_runtime_step rt now) = Some ops"
  using assms by (simp_all add: port_runtime_step_def backend_valid_def step_reconfiguring_def call_reconfigure_def
      port_runtime_transition_def split_beta Let_def)

lemma settings_refused:
  assumes "pr_state rt = PORT_RECONFIGURING" "backend rt = Some ops"
    "\<And>b now. fst (be_reconfigure ops b (staged_config rt) now) \<noteq> 0" "\<And>b now. fst (be_reconfigure ops b (known_good_config rt) now) = 0"
  shows "pr_state (port_runtime_step rt now) = PORT_READY" "current_config (port_runtime_step rt now) = current_config rt"
    "backend (port_runtime_step rt now) = Some ops"
  using assms by (simp_all add: port_runtime_step_def backend_valid_def step_reconfiguring_def call_reconfigure_def
      port_runtime_transition_def set_error_def split_beta Let_def)

lemma stop_parts:
  assumes "transport_ops (binding p) = Some tops" "tr_stop tops = Some stop" "\<And>t rt. fst (stop t rt) = 0 \<and> spared rt (snd (snd (stop t rt)))"
  shows "\<exists>t rt. transport_stop p =
      (0, p\<lparr>binding := (binding p)\<lparr>transport_context := t\<rparr>, runtime := rt, listener_owned := False\<rparr>) \<and> spared (runtime p) rt"
proof (cases "listener_owned p")
  case True
  obtain r t rt where s: "stop (transport_context (binding p)) (runtime p) = (r, t, rt)"
    by (cases "stop (transport_context (binding p)) (runtime p)")
  have "r = 0" "spared (runtime p) rt" using assms(3) [of "transport_context (binding p)" "runtime p"] s by simp_all
  then show ?thesis using assms(1,2) s True by (auto simp: transport_stop_def)
next
  case False
  then have "transport_stop p = (0, p\<lparr>binding := (binding p)\<lparr>transport_context := transport_context (binding p)\<rparr>,
      runtime := runtime p, listener_owned := False\<rparr>)" by (simp add: transport_stop_def)
  moreover have "spared (runtime p) (runtime p)" by (simp add: spared_def)
  ultimately show ?thesis by blast
qed

lemma spared_parts: "spared rt rt' \<Longrightarrow> port_inv rt \<Longrightarrow> live rt \<Longrightarrow>
    port_inv rt' \<and> live rt' \<and> backend rt' = backend rt \<and> current_config rt' = current_config rt"
  by (auto simp: spared_def keeps_port_def)


text \<open>A line that has lost its old speed, and a network without the new address.\<close>

definition balky_backend :: "nat core_backend_ops" where
  "balky_backend = \<lparr>be_open = \<lambda>n now. (0, n), be_start = \<lambda>n t now. (0, n), be_poll = \<lambda>n now. (0, zero_event, n),
     be_cancel = \<lambda>n g. n, be_recover = \<lambda>n now. (0, n),
     be_reconfigure = \<lambda>n c now. (if cc_baud c = 57600 then 0 else - 1, n), be_stop = \<lambda>n now. (0, n)\<rparr>"

definition balky_start :: "unit \<Rightarrow> (nat, unit) port_runtime \<Rightarrow> gateway_port_config \<Rightarrow> int \<times> unit \<times> (nat, unit) port_runtime" where
  "balky_start t rt c = (if gc_bind_address c = ''10.0.0.1'' then 0 else - 1, t, rt)"

definition balky_stop :: "unit \<Rightarrow> (nat, unit) port_runtime \<Rightarrow> int \<times> unit \<times> (nat, unit) port_runtime" where
  "balky_stop t rt = (0, t, rt)"

definition balky_transport :: "(nat, unit, unit) gateway_transport_ops" where
  "balky_transport = \<lparr>tr_start = Some balky_start, tr_step = Some (\<lambda>t rt now. (t, rt)), tr_stop = Some balky_stop,
     tr_client_count = None, tr_crc_errors = None, tr_framing_errors = None, tr_diagnostics = None\<rparr>"

definition faster_port :: gateway_port_config where
  "faster_port = plain_port\<lparr>gc_baud := 57600, gc_bind_address := ''10.0.0.9'', gc_revision := 2\<rparr>"

definition balky_port :: "(nat, unit, unit) gateway_port_controller" where
  "balky_port = step_port (start_port (init_port 0 plain_port \<lparr>backend_ops = Some balky_backend, binding_backend = 0,
     transport_ops = Some balky_transport, transport_context = ()\<rparr> GATEWAY_ERROR_NONE ()) 0) 1"

lemma balky_port_parts:
  "transport_ops (binding balky_port) = Some balky_transport" "backend (runtime balky_port) = Some balky_backend"
  "lifecycle balky_port = GATEWAY_PORT_READY" "live (runtime balky_port)" "gp_known_good balky_port = gp_current balky_port"
  "\<not> network_wait balky_port" "\<not> listener_rebind balky_port" "gp_current balky_port = plain_port" "port_inv (runtime balky_port)"
proof -
  let ?p = "init_port 0 plain_port \<lparr>backend_ops = Some balky_backend, binding_backend = 0,
     transport_ops = Some balky_transport, transport_context = ()\<rparr> GATEWAY_ERROR_NONE ()"
  let ?rt = "port_runtime_step (snd (port_runtime_start (runtime ?p) 0 GATEWAY_START_TIMEOUT)) 1"
  have e: "gc_enabled plain_port \<noteq> 0" by code_simp
  have f: "fst (port_runtime_start (runtime ?p) 0 GATEWAY_START_TIMEOUT) = 0"
    "pr_state (snd (port_runtime_start (runtime ?p) 0 GATEWAY_START_TIMEOUT)) = PORT_STARTING" "pr_state ?rt = PORT_READY" by code_simp+
  have "backend (snd (port_runtime_start (runtime ?p) 0 GATEWAY_START_TIMEOUT)) = Some balky_backend"
    by (simp add: port_runtime_start_def init_port_def port_runtime_init_def port_steps_defs Let_def split_beta)
  then have "backend ?rt = Some balky_backend"
    using f(2) by (simp add: port_runtime_step_def backend_valid_def step_starting_def call_open_def port_steps_defs split_beta Let_def)
  then have r: "port_runtime_start (runtime ?p) 0 GATEWAY_START_TIMEOUT = (0, snd (port_runtime_start (runtime ?p) 0 GATEWAY_START_TIMEOUT))"
    "pr_state ?rt = PORT_READY" "backend ?rt = Some balky_backend"
    using f by (simp_all add: prod_eq_iff)
  have a: "gc_bind_address plain_port = ''10.0.0.1''" by code_simp
  have i: "port_inv ?rt" by (intro inv_step inv_start) (simp add: init_port_def inv_init)
  have s: "start_port ?p 0 = ?p\<lparr>runtime := snd (port_runtime_start (runtime ?p) 0 GATEWAY_START_TIMEOUT), lifecycle := GATEWAY_PORT_STARTING\<rparr>"
    using e f(1) by (simp add: start_port_def init_port_def split_beta Let_def)
  have p: "balky_port = ?p\<lparr>runtime := ?rt, gp_scheduler_steps := 1, listener_owned := True, lifecycle := GATEWAY_PORT_READY,
      gp_last_error := GATEWAY_ERROR_NONE\<rparr>"
    unfolding balky_port_def s using r(2) a
    by (simp add: step_port_def transport_step_def ctl_starting_def start_listener_or_fail_def transport_start_def
        transport_start_at_def balky_transport_def balky_start_def init_port_def increment_def Let_def)
  show "transport_ops (binding balky_port) = Some balky_transport" "backend (runtime balky_port) = Some balky_backend"
    "lifecycle balky_port = GATEWAY_PORT_READY" "live (runtime balky_port)" "gp_known_good balky_port = gp_current balky_port"
    "\<not> network_wait balky_port" "\<not> listener_rebind balky_port" "gp_current balky_port = plain_port" "port_inv (runtime balky_port)"
    unfolding p using r(2,3) i by (simp_all add: live_def init_port_def)
qed


end
