(* ===== verification/Modbus_Dispatcher.thy ===== *)
theory Modbus_Dispatcher
  imports Modbus_Adapter "HOL-Library.Sublist"
begin

text \<open>
  The dispatcher of \<open>src/modbus/modbus_dispatcher.c\<close>: eight client slots with a queue of two requests
  each, from which one request at a time is offered to the port, round robin over the clients.
  A slot the C code points to is given by its index.
\<close>

abbreviation MODBUS_CLIENT_MAX :: nat where "MODBUS_CLIENT_MAX \<equiv> 8"
abbreviation MODBUS_CLIENT_QUEUE_MAX :: nat where "MODBUS_CLIENT_QUEUE_MAX \<equiv> 2"

record modbus_client_slot =
  cs_id :: u32
  cs_epoch :: u32
  cs_connected :: bool
  cs_requests :: "modbus_tcp_request list"
  cs_head :: nat
  cs_count :: nat

record modbus_dispatcher =
  md_clients :: "modbus_client_slot list"
  next_client :: nat
  md_queue_full :: u32
  disconnected_drops :: u32
  submitted :: u32

section \<open>Operations\<close>

definition zero_request :: modbus_tcp_request where
  "zero_request = \<lparr>client_id = 0, client_epoch = 0, rq_adu = \<lparr>adu_transaction_id = 0, unit_id = 0, pdu = []\<rparr>\<rparr>"

definition idle_slot :: modbus_client_slot where
  "idle_slot = \<lparr>cs_id = 0, cs_epoch = 0, cs_connected = False,
     cs_requests = replicate MODBUS_CLIENT_QUEUE_MAX zero_request, cs_head = 0, cs_count = 0\<rparr>"

definition modbus_dispatcher_init :: modbus_dispatcher where
  "modbus_dispatcher_init = \<lparr>md_clients = replicate MODBUS_CLIENT_MAX idle_slot, next_client = 0,
     md_queue_full = 0, disconnected_drops = 0, submitted = 0\<rparr>"

definition find_slot :: "modbus_dispatcher \<Rightarrow> u32 \<Rightarrow> nat option" where
  "find_slot d i = find_index (\<lambda>s. cs_connected s \<and> cs_id s = i) (md_clients d)"

definition modbus_dispatcher_connect :: "modbus_dispatcher \<Rightarrow> u32 \<Rightarrow> u32 \<Rightarrow> int \<times> modbus_dispatcher" where
  "modbus_dispatcher_connect d i epoch =
     (if epoch = 0 \<or> find_slot d i \<noteq> None then (- 1, d)
      else case find_index (\<lambda>s. \<not> cs_connected s) (md_clients d) of
        None \<Rightarrow> (- 1, d)
      | Some k \<Rightarrow> (0, d\<lparr>md_clients := (md_clients d)[k :=
                         idle_slot\<lparr>cs_connected := True, cs_id := i, cs_epoch := epoch\<rparr>]\<rparr>))"

definition modbus_dispatcher_disconnect :: "modbus_dispatcher \<Rightarrow> u32 \<Rightarrow> u32 \<Rightarrow> modbus_dispatcher" where
  "modbus_dispatcher_disconnect d i epoch =
     (case find_slot d i of
        None \<Rightarrow> d
      | Some k \<Rightarrow>
          if cs_epoch (md_clients d ! k) = epoch
          then d\<lparr>disconnected_drops := disconnected_drops d + of_nat (cs_count (md_clients d ! k)),
                 md_clients := (md_clients d)[k := idle_slot]\<rparr>
          else d)"

text \<open>The queue of one client: adding a request, or \<open>None\<close> when it is full.\<close>

definition slot_push :: "modbus_client_slot \<Rightarrow> modbus_tcp_request \<Rightarrow> modbus_client_slot option" where
  "slot_push s rq =
     (if cs_count s = MODBUS_CLIENT_QUEUE_MAX then None
      else let tail = (cs_head s + cs_count s) mod MODBUS_CLIENT_QUEUE_MAX
           in Some (s\<lparr>cs_requests := (cs_requests s)[tail := rq], cs_count := cs_count s + 1\<rparr>))"

definition modbus_dispatcher_enqueue ::
  "modbus_dispatcher \<Rightarrow> modbus_tcp_request option \<Rightarrow> int \<times> modbus_dispatcher" where
  "modbus_dispatcher_enqueue d request =
     (case request of None \<Rightarrow> (- 1, d)
      | Some rq \<Rightarrow>
          (case find_slot d (client_id rq) of None \<Rightarrow> (- 1, d)
           | Some k \<Rightarrow>
               if cs_epoch (md_clients d ! k) \<noteq> client_epoch rq then (- 1, d)
               else case slot_push (md_clients d ! k) rq of
                 None \<Rightarrow> (- 2, d\<lparr>md_queue_full := md_queue_full d + 1\<rparr>)
               | Some s \<Rightarrow> (0, d\<lparr>md_clients := (md_clients d)[k := s]\<rparr>)))"

text \<open>Taking the request at the head; the loop of \<open>step\<close> finds a slot that has one.\<close>

definition slot_first :: "modbus_client_slot \<Rightarrow> modbus_tcp_request" where
  "slot_first s = cs_requests s ! cs_head s"

definition slot_drop :: "modbus_client_slot \<Rightarrow> modbus_client_slot" where
  "slot_drop s = s\<lparr>cs_head := (cs_head s + 1) mod MODBUS_CLIENT_QUEUE_MAX, cs_count := cs_count s - 1\<rparr>"

definition slot_ready :: "modbus_client_slot \<Rightarrow> bool" where
  "slot_ready s \<longleftrightarrow> cs_connected s \<and> cs_count s \<noteq> 0"

definition dispatcher_pick :: "modbus_dispatcher \<Rightarrow> nat option" where
  "dispatcher_pick d = find (\<lambda>k. slot_ready (md_clients d ! k))
     (map (\<lambda>n. (next_client d + n) mod MODBUS_CLIENT_MAX) [0..<MODBUS_CLIENT_MAX])"

definition modbus_dispatcher_step ::
  "modbus_dispatcher \<Rightarrow> ('b, 'c) port_runtime \<Rightarrow> tick \<Rightarrow> tick \<Rightarrow> tick \<Rightarrow>
   core_submit_result \<times> modbus_dispatcher \<times> ('b, 'c) port_runtime"
where
  "modbus_dispatcher_step d p now queue_timeout rsp_timeout =
     (case dispatcher_pick d of
        None \<Rightarrow> (CORE_INVALID_REQUEST, d, p)
      | Some k \<Rightarrow>
          let (result, i, p) = modbus_tcp_submit p (Some (slot_first (md_clients d ! k))) now queue_timeout rsp_timeout;
              d = d\<lparr>next_client := (k + 1) mod MODBUS_CLIENT_MAX\<rparr>;
              d = (if result = CORE_ACCEPTED
                   then d\<lparr>md_clients := (md_clients d)[k := slot_drop (md_clients d ! k)],
                          submitted := submitted d + 1\<rparr>
                   else d)
          in (result, d, p))"

definition modbus_dispatcher_client_current :: "modbus_dispatcher \<Rightarrow> u32 \<Rightarrow> u32 \<Rightarrow> bool" where
  "modbus_dispatcher_client_current d i epoch \<longleftrightarrow>
     list_ex (\<lambda>s. cs_connected s \<and> cs_id s = i \<and> cs_epoch s = epoch) (md_clients d)"

section \<open>The queue of a client\<close>

definition slot_items :: "modbus_client_slot \<Rightarrow> modbus_tcp_request list" where
  "slot_items s = ring_list (cs_requests s) (cs_head s) (cs_count s)"

definition slot_wf :: "modbus_client_slot \<Rightarrow> bool" where
  "slot_wf s \<longleftrightarrow> length (cs_requests s) = MODBUS_CLIENT_QUEUE_MAX \<and> cs_head s < MODBUS_CLIENT_QUEUE_MAX \<and>
     cs_count s \<le> MODBUS_CLIENT_QUEUE_MAX"

definition slot_pop :: "modbus_client_slot \<Rightarrow> (modbus_tcp_request \<times> modbus_client_slot) option" where
  "slot_pop s = (if cs_count s = 0 then None else Some (slot_first s, slot_drop s))"

lemma length_slot_items [simp]: "length (slot_items s) = cs_count s"
  by (simp add: slot_items_def)

lemma slot_items_zero [simp]: "slot_items idle_slot = []" "slot_wf idle_slot"
  by (simp_all add: slot_items_def idle_slot_def slot_wf_def)

lemma slot_push_items:
  "slot_wf s \<Longrightarrow> slot_push s rq = Some s' \<Longrightarrow> slot_items s' = slot_items s @ [rq] \<and> slot_wf s'"
  using ring_list_push [of "cs_count s" "cs_requests s" "cs_head s" rq]
  by (auto simp: slot_push_def slot_items_def slot_wf_def Let_def split: if_splits)

lemma slot_drop_items:
  "slot_wf s \<Longrightarrow> cs_count s \<noteq> 0 \<Longrightarrow> slot_items s = slot_first s # slot_items (slot_drop s) \<and> slot_wf (slot_drop s)"
  using ring_list_pop [of "cs_requests s" "cs_head s" "cs_count s - 1"]
  by (auto simp: slot_drop_def slot_first_def slot_items_def slot_wf_def)

interpretation clq: bounded_fifo slot_push slot_pop slot_items slot_wf "\<lambda>xs x. length xs < 2" 2
proof unfold_locales
  fix q x assume "slot_wf q"
  then show "slot_push q x = None \<longleftrightarrow> \<not> length (slot_items q) < 2"
    by (auto simp: slot_push_def slot_wf_def Let_def)
next
  fix q assume "slot_wf q"
  then show "slot_pop q = None \<longleftrightarrow> slot_items q = []"
    by (auto simp: slot_pop_def slot_items_def)
next
  fix q assume "slot_wf q"
  then show "length (slot_items q) \<le> 2" by (simp add: slot_wf_def)
next
  fix q x q' assume "slot_wf q" "slot_pop q = Some (x, q')"
  then show "slot_items q = x # slot_items q'" "slot_wf q'"
    using slot_drop_items [of q] by (auto simp: slot_pop_def split: if_splits)
qed (use slot_push_items in blast)+

section \<open>Well-formed dispatchers\<close>

text \<open>Slot \<open>k\<close> serves client \<open>i\<close>.\<close>

definition serves :: "modbus_dispatcher \<Rightarrow> nat \<Rightarrow> u32 \<Rightarrow> bool" where
  "serves d k i \<longleftrightarrow> k < length (md_clients d) \<and> cs_connected (md_clients d ! k) \<and> cs_id (md_clients d ! k) = i"

definition slot_ok :: "modbus_client_slot \<Rightarrow> bool" where
  "slot_ok s \<longleftrightarrow> slot_wf s \<and>
     (\<forall>r \<in> set (slot_items s). cs_connected s \<and> client_id r = cs_id s \<and> client_epoch r = cs_epoch s)"

definition dispatcher_inv :: "modbus_dispatcher \<Rightarrow> bool" where
  "dispatcher_inv d \<longleftrightarrow> length (md_clients d) = MODBUS_CLIENT_MAX \<and> next_client d < MODBUS_CLIENT_MAX \<and>
     (\<forall>s \<in> set (md_clients d). slot_ok s) \<and>
     (\<forall>i j k. serves d j i \<longrightarrow> serves d k i \<longrightarrow> j = k)"

lemma dispatcher_inv_slot: "dispatcher_inv d \<Longrightarrow> k < length (md_clients d) \<Longrightarrow> slot_ok (md_clients d ! k)"
  by (simp add: dispatcher_inv_def)

lemma find_slot_Some: "dispatcher_inv d \<Longrightarrow> find_slot d i = Some k \<longleftrightarrow> serves d k i"
proof
  assume "find_slot d i = Some k"
  then show "serves d k i"
    using find_index_Some [of _ "md_clients d" k] by (auto simp: find_slot_def serves_def)
next
  assume inv: "dispatcher_inv d" and s: "serves d k i"
  then have "find_slot d i \<noteq> None" by (auto simp: find_slot_def serves_def)
  then obtain j where j: "find_slot d i = Some j" by blast
  then have "serves d j i"
    using find_index_Some [of _ "md_clients d" j] by (auto simp: find_slot_def serves_def)
  then show "find_slot d i = Some k" using inv s j by (simp add: dispatcher_inv_def)
qed

lemma find_slot_None: "find_slot d i = None \<longleftrightarrow> (\<forall>k. \<not> serves d k i)"
  by (auto simp: find_slot_def serves_def all_set_conv_all_nth)

text \<open>Replacing one slot by one that serves the same client, no client, or a client no slot serves.\<close>

definition slot_replaced :: "modbus_dispatcher \<Rightarrow> nat \<Rightarrow> modbus_client_slot \<Rightarrow> modbus_dispatcher \<Rightarrow> bool" where
  "slot_replaced d k s d' \<longleftrightarrow> k < length (md_clients d) \<and> md_clients d' = (md_clients d)[k := s] \<and>
     next_client d' < MODBUS_CLIENT_MAX \<and> slot_ok s \<and> (cs_connected s \<longrightarrow> (\<forall>j. serves d j (cs_id s) \<longrightarrow> j = k))"

lemma serves_replaced:
  "slot_replaced d k s d' \<Longrightarrow> serves d' j i \<longleftrightarrow> (if j = k then cs_connected s \<and> cs_id s = i else serves d j i)"
  by (auto simp: slot_replaced_def serves_def nth_list_update)

lemma inv_replaced:
  assumes "dispatcher_inv d" "slot_replaced d k s d'"
  shows "dispatcher_inv d'"
proof -
  have "\<forall>r \<in> set (md_clients d'). slot_ok r"
    using assms set_update_subset_insert [of "md_clients d" k s]
    by (fastforce simp: dispatcher_inv_def slot_replaced_def)
  moreover have "j = l" if "serves d' j i" "serves d' l i" for i j l
    using that assms(1) unfolding serves_replaced [OF assms(2)] dispatcher_inv_def
    by (metis assms(2) slot_replaced_def)
  ultimately show ?thesis using assms by (auto simp: dispatcher_inv_def slot_replaced_def)
qed

text \<open>The requests waiting for client \<open>i\<close> in epoch \<open>ep\<close>.\<close>

definition pending :: "modbus_dispatcher \<Rightarrow> u32 \<Rightarrow> u32 \<Rightarrow> modbus_tcp_request list" where
  "pending d i ep = (case find_slot d i of None \<Rightarrow> []
     | Some k \<Rightarrow> if cs_epoch (md_clients d ! k) = ep then slot_items (md_clients d ! k) else [])"

lemma pending_slot:
  "dispatcher_inv d \<Longrightarrow> serves d k i \<Longrightarrow>
   pending d i ep = (if cs_epoch (md_clients d ! k) = ep then slot_items (md_clients d ! k) else [])"
  by (simp add: pending_def find_slot_Some [symmetric])

lemma pending_none: "\<forall>k. \<not> serves d k i \<Longrightarrow> pending d i ep = []"
  by (simp add: pending_def find_slot_None [symmetric])

lemma pending_replaced:
  assumes "dispatcher_inv d" "slot_replaced d k s d'"
  shows "pending d' i ep =
    (if cs_connected s \<and> cs_id s = i then (if cs_epoch s = ep then slot_items s else [])
     else if serves d k i then [] else pending d i ep)"
proof -
  note inv' = inv_replaced [OF assms]
  have k: "k < length (md_clients d)" "md_clients d' = (md_clients d)[k := s]"
    using assms(2) by (simp_all add: slot_replaced_def)
  note sv = serves_replaced [OF assms(2)]
  consider (new) "cs_connected s" "cs_id s = i" | (gone) "\<not> (cs_connected s \<and> cs_id s = i)" "serves d k i"
    | (other) j where "\<not> (cs_connected s \<and> cs_id s = i)" "\<not> serves d k i" "serves d j i"
    | (none) "\<not> (cs_connected s \<and> cs_id s = i)" "\<forall>j. \<not> serves d j i" by blast
  then show ?thesis
  proof cases
    case new
    then show ?thesis using pending_slot [OF inv', of k i ep] sv k by simp
  next
    case gone
    then have "\<forall>j. \<not> serves d' j i" using sv assms(1) by (simp add: dispatcher_inv_def) blast
    then show ?thesis using gone pending_none by auto
  next
    case other
    then have "j \<noteq> k" "serves d' j i" using sv by auto
    then show ?thesis
      using other pending_slot [OF inv', of j i ep] pending_slot [OF assms(1), of j i ep] k by auto
  next
    case none
    then have "\<forall>j. \<not> serves d' j i" using sv by auto
    then show ?thesis using none pending_none [of d' i] pending_none [of d i] by auto
  qed
qed

section \<open>Runs of the dispatcher\<close>

text \<open>
  What its owner may do with a dispatcher; every step offers to a port in an arbitrary state. A log
  keeps the requests admitted to a queue, the slots whose request was offered, and the requests a
  port accepted.
\<close>

datatype ('b, 'c) dispatcher_op =
  Connect u32 u32
| Disconnect u32 u32
| Enqueue "modbus_tcp_request option"
| Dispatch "('b, 'c) port_runtime" tick tick tick

record dispatch_log =
  admitted :: "modbus_tcp_request list"
  offered :: "nat list"
  taken :: "modbus_tcp_request list"

definition log_step :: "modbus_dispatcher \<Rightarrow> core_submit_result \<Rightarrow> dispatch_log \<Rightarrow> dispatch_log" where
  "log_step d r log = (case dispatcher_pick d of None \<Rightarrow> log
     | Some k \<Rightarrow> log\<lparr>offered := offered log @ [k],
         taken := taken log @ (if r = CORE_ACCEPTED then [slot_first (md_clients d ! k)] else [])\<rparr>)"

fun dispatcher_next ::
  "modbus_dispatcher \<times> dispatch_log \<Rightarrow> ('b, 'c) dispatcher_op \<Rightarrow> modbus_dispatcher \<times> dispatch_log"
where
  "dispatcher_next (d, log) (Connect i ep) = (snd (modbus_dispatcher_connect d i ep), log)"
| "dispatcher_next (d, log) (Disconnect i ep) = (modbus_dispatcher_disconnect d i ep, log)"
| "dispatcher_next (d, log) (Enqueue rq) = (case modbus_dispatcher_enqueue d rq of
     (r, d') \<Rightarrow> (d', log\<lparr>admitted := admitted log @ (if r = 0 then [the rq] else [])\<rparr>))"
| "dispatcher_next (d, log) (Dispatch p now qt rt) = (case modbus_dispatcher_step d p now qt rt of
     (r, d', p') \<Rightarrow> (d', log_step d r log))"

definition dispatcher_run ::
  "('b, 'c) dispatcher_op list \<Rightarrow> modbus_dispatcher \<times> dispatch_log \<Rightarrow> modbus_dispatcher \<times> dispatch_log" where
  "dispatcher_run ops s = foldl dispatcher_next s ops"

abbreviation empty_log :: dispatch_log where "empty_log \<equiv> \<lparr>admitted = [], offered = [], taken = []\<rparr>"

lemma dispatcher_init_inv: "dispatcher_inv modbus_dispatcher_init"
  by (auto simp: dispatcher_inv_def modbus_dispatcher_init_def slot_ok_def serves_def idle_slot_def
      slot_wf_def slot_items_def)

lemma connect_cases:
  assumes "dispatcher_inv d"
  obtains "modbus_dispatcher_connect d i ep = (- 1, d)"
  | k s where "modbus_dispatcher_connect d i ep = (0, d\<lparr>md_clients := (md_clients d)[k := s]\<rparr>)"
      "slot_replaced d k s (d\<lparr>md_clients := (md_clients d)[k := s]\<rparr>)" "cs_connected s" "cs_id s = i"
      "slot_items s = []" "\<not> cs_connected (md_clients d ! k)" "\<forall>j. \<not> serves d j i" "cs_epoch s = ep"
proof (cases "modbus_dispatcher_connect d i ep = (- 1, d)")
  case False
  then obtain k where k: "find_slot d i = None" "ep \<noteq> 0" "find_index (\<lambda>s. \<not> cs_connected s) (md_clients d) = Some k"
    by (auto simp: modbus_dispatcher_connect_def split: if_splits option.splits)
  let ?s = "idle_slot\<lparr>cs_connected := True, cs_id := i, cs_epoch := ep\<rparr>"
  have "slot_ok ?s" by (simp add: slot_ok_def slot_wf_def slot_items_def idle_slot_def)
  then have "slot_replaced d k ?s (d\<lparr>md_clients := (md_clients d)[k := ?s]\<rparr>)"
    using assms find_index_Some [OF k(3)] k(1) by (simp add: slot_replaced_def dispatcher_inv_def find_slot_None)
  moreover have "modbus_dispatcher_connect d i ep = (0, d\<lparr>md_clients := (md_clients d)[k := ?s]\<rparr>)"
    using k by (simp add: modbus_dispatcher_connect_def)
  ultimately show ?thesis
    using that(2) find_index_Some [OF k(3)] k(1) by (simp add: find_slot_None slot_items_def idle_slot_def)
qed

lemma disconnect_cases:
  assumes "dispatcher_inv d"
  obtains "modbus_dispatcher_disconnect d i ep = d"
  | k where "modbus_dispatcher_disconnect d i ep = d\<lparr>disconnected_drops :=
        disconnected_drops d + of_nat (cs_count (md_clients d ! k)), md_clients := (md_clients d)[k := idle_slot]\<rparr>"
      "slot_replaced d k idle_slot (modbus_dispatcher_disconnect d i ep)" "serves d k i" "cs_epoch (md_clients d ! k) = ep"
proof (cases "find_slot d i")
  case None
  then show ?thesis using that(1) by (simp add: modbus_dispatcher_disconnect_def)
next
  case (Some k)
  then have sv: "serves d k i" using find_slot_Some [OF assms] by simp
  have "slot_ok idle_slot" "\<not> cs_connected idle_slot" by (simp_all add: slot_ok_def) (simp add: idle_slot_def)
  then show ?thesis
    using that sv Some assms
    by (cases "cs_epoch (md_clients d ! k) = ep")
      (auto simp: modbus_dispatcher_disconnect_def slot_replaced_def serves_def dispatcher_inv_def)
qed

lemma enqueue_cases:
  assumes "dispatcher_inv d"
  obtains r d' where "modbus_dispatcher_enqueue d rq = (r, d')" "r \<noteq> 0"
      "d' = d \<or> d' = d\<lparr>md_queue_full := md_queue_full d + 1\<rparr>"
  | q k s where "rq = Some q" "modbus_dispatcher_enqueue d rq = (0, d\<lparr>md_clients := (md_clients d)[k := s]\<rparr>)"
      "slot_replaced d k s (d\<lparr>md_clients := (md_clients d)[k := s]\<rparr>)" "serves d k (client_id q)"
      "cs_connected s" "cs_id s = client_id q" "cs_epoch s = client_epoch q" "cs_epoch (md_clients d ! k) = client_epoch q"
      "slot_items s = slot_items (md_clients d ! k) @ [q]"
proof (cases "fst (modbus_dispatcher_enqueue d rq) = 0")
  case False
  then show ?thesis
    by (intro that(1) [of "fst (modbus_dispatcher_enqueue d rq)" "snd (modbus_dispatcher_enqueue d rq)"])
      (auto simp: modbus_dispatcher_enqueue_def split: option.splits if_splits)
next
  case True
  then obtain q k s where q: "rq = Some q" "find_slot d (client_id q) = Some k"
    "cs_epoch (md_clients d ! k) = client_epoch q" "slot_push (md_clients d ! k) q = Some s"
    by (auto simp: modbus_dispatcher_enqueue_def split: option.splits if_splits)
  have sv: "serves d k (client_id q)" using q(2) find_slot_Some [OF assms] by simp
  then have ok: "slot_ok (md_clients d ! k)" using assms by (simp add: dispatcher_inv_slot serves_def)
  then have it: "slot_items s = slot_items (md_clients d ! k) @ [q]" "slot_wf s"
    using slot_push_items q(4) by (auto simp: slot_ok_def)
  have keep: "cs_connected s = cs_connected (md_clients d ! k)" "cs_id s = cs_id (md_clients d ! k)"
    "cs_epoch s = cs_epoch (md_clients d ! k)"
    using q(4) by (auto simp: slot_push_def Let_def split: if_splits)
  have sk: "cs_connected s" "cs_id s = client_id q" "cs_epoch s = client_epoch q"
    using sv q(3) keep by (simp_all add: serves_def)
  have "slot_ok s" using ok it sk keep by (auto simp: slot_ok_def)
  then have "slot_replaced d k s (d\<lparr>md_clients := (md_clients d)[k := s]\<rparr>)"
    using sv sk assms by (auto simp: slot_replaced_def dispatcher_inv_def serves_def)
  then show ?thesis using that(2) q sv sk it by (auto simp: modbus_dispatcher_enqueue_def)
qed

lemma pick_ready:
  assumes "dispatcher_inv d" "dispatcher_pick d = Some k"
  shows "k < length (md_clients d)" "slot_ready (md_clients d ! k)"
proof -
  obtain n where "n < 8" "k = (next_client d + n) mod 8" "slot_ready (md_clients d ! k)"
    using assms(2) by (auto simp: dispatcher_pick_def find_Some_iff)
  then show "k < length (md_clients d)" "slot_ready (md_clients d ! k)"
    using assms(1) by (simp_all add: dispatcher_inv_def)
qed

lemma step_cases:
  assumes "dispatcher_inv d"
  obtains "dispatcher_pick d = None" "modbus_dispatcher_step d p now qt rt = (CORE_INVALID_REQUEST, d, p)"
  | k r p' where "dispatcher_pick d = Some k" "r \<noteq> CORE_ACCEPTED"
      "modbus_dispatcher_step d p now qt rt = (r, d\<lparr>next_client := (k + 1) mod MODBUS_CLIENT_MAX\<rparr>, p')"
  | k p' s d' where "dispatcher_pick d = Some k" "s = slot_drop (md_clients d ! k)"
      "d' = d\<lparr>next_client := (k + 1) mod MODBUS_CLIENT_MAX, md_clients := (md_clients d)[k := s],
              submitted := submitted d + 1\<rparr>"
      "modbus_dispatcher_step d p now qt rt = (CORE_ACCEPTED, d', p')" "slot_replaced d k s d'"
      "slot_items (md_clients d ! k) = slot_first (md_clients d ! k) # slot_items s"
proof (cases "dispatcher_pick d")
  case None
  then show ?thesis using that(1) by (simp add: modbus_dispatcher_step_def)
next
  case (Some k)
  let ?s = "md_clients d ! k"
  obtain r i p' where sub: "modbus_tcp_submit p (Some (slot_first ?s)) now qt rt = (r, i, p')"
    by (cases "modbus_tcp_submit p (Some (slot_first ?s)) now qt rt") auto
  have rd: "slot_ready ?s" "k < length (md_clients d)" using pick_ready [OF assms Some] by simp_all
  then have ok: "slot_ok ?s" using assms by (simp add: dispatcher_inv_slot)
  then have it: "slot_items ?s = slot_first ?s # slot_items (slot_drop ?s)" "slot_wf (slot_drop ?s)"
    using slot_drop_items rd by (auto simp: slot_ok_def slot_ready_def)
  have keep: "cs_connected (slot_drop ?s) = cs_connected ?s" "cs_id (slot_drop ?s) = cs_id ?s"
    "cs_epoch (slot_drop ?s) = cs_epoch ?s" by (simp_all add: slot_drop_def)
  have "slot_ok (slot_drop ?s)" using ok it keep by (auto simp: slot_ok_def)
  then have rep: "slot_replaced d k (slot_drop ?s) (d\<lparr>next_client := (k + 1) mod MODBUS_CLIENT_MAX,
      md_clients := (md_clients d)[k := slot_drop ?s], submitted := submitted d + 1\<rparr>)"
    using assms rd keep by (auto simp: slot_replaced_def dispatcher_inv_def serves_def slot_ready_def)
  show ?thesis
  proof (cases "r = CORE_ACCEPTED")
    case True
    then show ?thesis using that(3) [OF Some refl refl _ rep it(1)] Some sub by (simp add: modbus_dispatcher_step_def)
  next
    case False
    then show ?thesis using that(2) [OF Some] Some sub by (simp add: modbus_dispatcher_step_def)
  qed
qed

section \<open>Order, and no request lost\<close>

definition of_client :: "u32 \<Rightarrow> u32 \<Rightarrow> modbus_tcp_request list \<Rightarrow> modbus_tcp_request list" where
  "of_client i ep = filter (\<lambda>r. client_id r = i \<and> client_epoch r = ep)"

definition waiting_requests :: "modbus_dispatcher \<Rightarrow> nat" where
  "waiting_requests d = sum_list (map (\<lambda>s. length (slot_items s)) (md_clients d))"

definition accounted :: "modbus_dispatcher \<Rightarrow> dispatch_log \<Rightarrow> bool" where
  "accounted d log \<longleftrightarrow>
     (\<forall>i ep. subseq (of_client i ep (taken log) @ pending d i ep) (of_client i ep (admitted log))) \<and>
     of_nat (length (admitted log)) =
       of_nat (length (taken log)) + of_nat (waiting_requests d) + disconnected_drops d \<and>
     submitted d = of_nat (length (taken log))"

lemma of_client_append [simp]: "of_client i ep (xs @ ys) = of_client i ep xs @ of_client i ep ys"
  and of_client_Nil [simp]: "of_client i ep [] = []"
  by (simp_all add: of_client_def)

lemma waiting_replaced:
  assumes "slot_replaced d k s d'"
  shows "waiting_requests d' + length (slot_items (md_clients d ! k)) = waiting_requests d + length (slot_items s)"
proof -
  let ?f = "\<lambda>s. length (slot_items s)"
  have k: "k < length (map ?f (md_clients d))" "map ?f (md_clients d') = (map ?f (md_clients d))[k := ?f s]"
    using assms by (simp_all add: slot_replaced_def map_update)
  have "?f (md_clients d ! k) \<le> waiting_requests d"
    using k(1) member_le_sum_list [of "map ?f (md_clients d) ! k" "map ?f (md_clients d)"]
    by (simp add: waiting_requests_def)
  then show ?thesis
    using sum_list_update [OF k(1), of "?f s"] k by (simp add: waiting_requests_def)
qed

lemma accounted_same: "md_clients d' = md_clients d \<Longrightarrow> disconnected_drops d' = disconnected_drops d \<Longrightarrow>
   submitted d' = submitted d \<Longrightarrow> taken log' = taken log \<Longrightarrow> admitted log' = admitted log \<Longrightarrow>
   accounted d' log' = accounted d log"
  by (simp add: accounted_def pending_def find_slot_def waiting_requests_def cong: option.case_cong if_cong)

lemma inv_same: "md_clients d' = md_clients d \<Longrightarrow> next_client d' < 8 \<Longrightarrow> dispatcher_inv d \<Longrightarrow> dispatcher_inv d'"
  by (simp add: dispatcher_inv_def serves_def)

lemma slot_counts: "slot_ok s \<Longrightarrow> \<not> cs_connected s \<Longrightarrow> slot_items s = []"
  by (cases "slot_items s") (auto simp: slot_ok_def)

lemma next_accounted:
  assumes "dispatcher_inv d" "accounted d log" "dispatcher_next (d, log) op = (d', log')"
  shows "dispatcher_inv d' \<and> accounted d' log'"
proof (cases op)
  case (Connect i ep)
  show ?thesis
  proof (rule connect_cases [OF assms(1), of i ep])
    assume "modbus_dispatcher_connect d i ep = (- 1, d)"
    then show ?thesis using assms Connect by simp
  next
    fix k s
    assume c: "modbus_dispatcher_connect d i ep = (0, d\<lparr>md_clients := (md_clients d)[k := s]\<rparr>)"
      and r: "slot_replaced d k s (d\<lparr>md_clients := (md_clients d)[k := s]\<rparr>)"
      and s: "cs_connected s" "cs_id s = i" "slot_items s = []" "\<not> cs_connected (md_clients d ! k)"
        "\<forall>j. \<not> serves d j i"
    have "slot_items (md_clients d ! k) = []"
      using r s(4) slot_counts dispatcher_inv_slot [OF assms(1)] by (simp add: slot_replaced_def)
    then have w: "waiting_requests (d\<lparr>md_clients := (md_clients d)[k := s]\<rparr>) = waiting_requests d"
      using waiting_replaced [OF r] s(3) by simp
    have "pending (d\<lparr>md_clients := (md_clients d)[k := s]\<rparr>) j ep' = pending d j ep'" for j ep'
      using s pending_none [OF s(5)] by (auto simp: pending_replaced [OF assms(1) r] serves_def)
    then show ?thesis
      using assms(2,3) inv_replaced [OF assms(1) r] c w Connect by (auto simp: accounted_def)
  qed
next
  case (Disconnect i ep)
  show ?thesis
  proof (rule disconnect_cases [OF assms(1), of i ep])
    assume "modbus_dispatcher_disconnect d i ep = d"
    then show ?thesis using assms Disconnect by simp
  next
    fix k
    let ?d = "modbus_dispatcher_disconnect d i ep"
    assume c: "?d = d\<lparr>disconnected_drops := disconnected_drops d + of_nat (cs_count (md_clients d ! k)),
        md_clients := (md_clients d)[k := idle_slot]\<rparr>"
      and r: "slot_replaced d k idle_slot ?d" and s: "serves d k i" "cs_epoch (md_clients d ! k) = ep"
    have w: "waiting_requests d = waiting_requests ?d + cs_count (md_clients d ! k)"
      using waiting_replaced [OF r] by simp
    have "\<not> cs_connected idle_slot" by (simp add: idle_slot_def)
    then have p: "pending ?d j ep' = pending d j ep' \<or> pending ?d j ep' = []" for j ep'
      by (simp add: pending_replaced [OF assms(1) r])
    have "subseq (of_client j ep' (taken log) @ pending ?d j ep') (of_client j ep' (admitted log))" for j ep'
      using assms(2) p [of j ep'] subseq_order.trans [OF list_emb_prefix [OF subseq_order.refl]]
      by (metis accounted_def append_Nil2)
    moreover have "of_nat (length (admitted log)) = of_nat (length (taken log)) + of_nat (waiting_requests ?d) + disconnected_drops ?d"
      using assms(2) w c by (simp add: accounted_def)
    moreover have "submitted ?d = of_nat (length (taken log))" using assms(2) c by (simp add: accounted_def)
    ultimately show ?thesis using assms(3) inv_replaced [OF assms(1) r] Disconnect by (simp add: accounted_def)
  qed
next
  case (Enqueue rq)
  show ?thesis
  proof (rule enqueue_cases [OF assms(1), of rq])
    fix r d1
    assume "modbus_dispatcher_enqueue d rq = (r, d1)" "r \<noteq> 0" "d1 = d \<or> d1 = d\<lparr>md_queue_full := md_queue_full d + 1\<rparr>"
    then have e: "d' = d1" "taken log' = taken log" "admitted log' = admitted log" "md_clients d1 = md_clients d"
      "disconnected_drops d1 = disconnected_drops d" "submitted d1 = submitted d" "next_client d1 = next_client d"
      using assms(3) Enqueue by auto
    then show ?thesis using accounted_same [of d' d log' log] inv_same [of d' d] assms by (simp add: dispatcher_inv_def)
  next
    fix q k s
    let ?d = "d\<lparr>md_clients := (md_clients d)[k := s]\<rparr>"
    assume c: "rq = Some q" "modbus_dispatcher_enqueue d rq = (0, ?d)" and r: "slot_replaced d k s ?d"
      and sv: "serves d k (client_id q)" "cs_epoch (md_clients d ! k) = client_epoch q"
      and s: "cs_connected s" "cs_id s = client_id q" "cs_epoch s = client_epoch q"
        "slot_items s = slot_items (md_clients d ! k) @ [q]"
    have l: "d' = ?d" "taken log' = taken log" "admitted log' = admitted log @ [q]"
      using assms(3) Enqueue c by auto
    have w: "waiting_requests ?d = Suc (waiting_requests d)" using waiting_replaced [OF r] s(4) by simp
    have p: "pending ?d j ep = pending d j ep @ of_client j ep [q]" for j ep
      using s pending_slot [OF assms(1) sv(1), of ep] sv
      by (auto simp: pending_replaced [OF assms(1) r] of_client_def serves_def)
    have "subseq (of_client j ep (taken log) @ pending ?d j ep) (of_client j ep (admitted log @ [q]))" for j ep
      using assms(2) by (auto simp: accounted_def p append_assoc [symmetric] simp del: append_assoc intro: list_emb_append_mono)
    then show ?thesis
      using assms(2) l w inv_replaced [OF assms(1) r] by (simp add: accounted_def)
  qed
next
  case (Dispatch p now qt rt)
  show ?thesis
  proof (rule step_cases [OF assms(1), of p now qt rt])
    assume "dispatcher_pick d = None" "modbus_dispatcher_step d p now qt rt = (CORE_INVALID_REQUEST, d, p)"
    then show ?thesis using assms Dispatch by (simp add: log_step_def)
  next
    fix k r p'
    assume "dispatcher_pick d = Some k" "r \<noteq> CORE_ACCEPTED"
      "modbus_dispatcher_step d p now qt rt = (r, d\<lparr>next_client := (k + 1) mod MODBUS_CLIENT_MAX\<rparr>, p')"
    then show ?thesis
      using assms Dispatch accounted_same [of d' d log' log] inv_same [of d' d] by (auto simp: log_step_def)
  next
    fix k p' s d1
    let ?s = "md_clients d ! k"
    assume c: "dispatcher_pick d = Some k" "s = slot_drop ?s"
      "modbus_dispatcher_step d p now qt rt = (CORE_ACCEPTED, d1, p')"
      "d1 = d\<lparr>next_client := (k + 1) mod MODBUS_CLIENT_MAX, md_clients := (md_clients d)[k := s], submitted := submitted d + 1\<rparr>"
      and r: "slot_replaced d k s d1" and it: "slot_items ?s = slot_first ?s # slot_items s"
    have l: "d' = d1" "taken log' = taken log @ [slot_first ?s]" "admitted log' = admitted log"
      using assms(3) Dispatch c by (auto simp: log_step_def)
    have w: "waiting_requests d = Suc (waiting_requests d1)" using waiting_replaced [OF r] it by simp
    have ok: "slot_ok ?s" "cs_connected ?s" "k < length (md_clients d)"
      using pick_ready [OF assms(1) c(1)] dispatcher_inv_slot [OF assms(1)] by (simp_all add: slot_ready_def)
    then have f: "client_id (slot_first ?s) = cs_id ?s" "client_epoch (slot_first ?s) = cs_epoch ?s"
      using it by (simp_all add: slot_ok_def)
    have sv: "serves d k (cs_id ?s)" using ok by (simp add: serves_def)
    have keep: "cs_connected s" "cs_id s = cs_id ?s" "cs_epoch s = cs_epoch ?s" using c(2) ok by (simp_all add: slot_drop_def)
    have p: "pending d j ep = of_client j ep [slot_first ?s] @ pending d1 j ep" for j ep
      using keep pending_slot [OF assms(1) sv, of ep] f it sv
      by (auto simp: pending_replaced [OF assms(1) r] of_client_def serves_def)
    have "subseq (of_client j ep (taken log @ [slot_first ?s]) @ pending d1 j ep) (of_client j ep (admitted log))" for j ep
      using assms(2) by (simp add: accounted_def p)
    moreover have "submitted d1 = submitted d + 1" "disconnected_drops d1 = disconnected_drops d" using c(4) by simp_all
    ultimately show ?thesis
      using assms(2) l w inv_replaced [OF assms(1) r] by (simp add: accounted_def)
  qed
qed

lemma run_accounted:
  assumes "dispatcher_inv d" "accounted d log"
  shows "dispatcher_inv (fst (dispatcher_run ops (d, log))) \<and>
    accounted (fst (dispatcher_run ops (d, log))) (snd (dispatcher_run ops (d, log)))"
proof (induction ops rule: rev_induct)
  case Nil
  then show ?case using assms by (simp add: dispatcher_run_def)
next
  case (snoc op ops)
  then show ?case
    using next_accounted [of "fst (dispatcher_run ops (d, log))" "snd (dispatcher_run ops (d, log))" op]
    by (simp add: dispatcher_run_def prod_eq_iff)
qed


section \<open>Round robin\<close>

text \<open>How many other slots come before slot \<open>k\<close> in the turn.\<close>

definition turns_before :: "modbus_dispatcher \<Rightarrow> nat \<Rightarrow> nat" where
  "turns_before d k = (k + MODBUS_CLIENT_MAX - next_client d) mod MODBUS_CLIENT_MAX"

definition is_dispatch :: "('b, 'c) dispatcher_op \<Rightarrow> bool" where
  "is_dispatch op = (case op of Dispatch _ _ _ _ \<Rightarrow> True | _ \<Rightarrow> False)"

lemma pick_turn:
  assumes "dispatcher_inv d" "k < MODBUS_CLIENT_MAX" "slot_ready (md_clients d ! k)"
  obtains j where "dispatcher_pick d = Some j" "j < MODBUS_CLIENT_MAX"
    "j = k \<or> (\<exists>n < turns_before d k. j = (next_client d + n) mod MODBUS_CLIENT_MAX)"
proof -
  have nx: "next_client d < 8" using assms(1) by (simp add: dispatcher_inv_def)
  have turn: "(next_client d + turns_before d k) mod 8 = k" "turns_before d k < 8"
    using nx assms(2) by (simp_all add: turns_before_def mod_add_right_eq)
  let ?xs = "map (\<lambda>n. (next_client d + n) mod 8) [0..<8]"
  let ?P = "\<lambda>k. slot_ready (md_clients d ! k)"
  have "?xs ! turns_before d k = k" using turn by simp
  then have "dispatcher_pick d \<noteq> None"
    using assms(3) turn by (auto simp: dispatcher_pick_def find_None_iff intro!: bexI [of _ "turns_before d k"])
  then obtain j where j: "dispatcher_pick d = Some j" by blast
  then obtain n where n: "n < 8" "j = (next_client d + n) mod 8" "\<forall>m < n. \<not> ?P (?xs ! m)"
    by (auto simp: dispatcher_pick_def find_Some_iff)
  have "n \<le> turns_before d k"
    using n(3) assms(3) \<open>?xs ! turns_before d k = k\<close> by (metis linorder_not_le)
  then have "j = k \<or> (\<exists>n < turns_before d k. j = (next_client d + n) mod 8)"
    using n(2) turn by (metis le_neq_implies_less)
  then show ?thesis using that j n(2) by simp
qed

lemma turn_closer:
  assumes "a < 8" "k < 8" "n < (k + 8 - a) mod (8 :: nat)"
  shows "(k + 8 - ((a + n) mod 8 + 1) mod 8) mod 8 < (k + 8 - a) mod 8"
proof -
  have m: "x mod 8 = (if x < 8 then x else x - 8)" if "x < 16" for x :: nat
    using that by (simp add: mod_if)
  define t where "t = (k + 8 - a) mod 8"
  have t: "t = (if a \<le> k then k - a else k + 8 - a)" using m [of "k + 8 - a"] assms by (auto simp: t_def)
  have "(a + n) mod 8 + 1 < 16" by (simp add: m)
  then have "((a + n) mod 8 + 1) mod 8 = (if a + n + 1 < 8 then a + n + 1 else a + n + 1 - 8)"
    using m [of "a + n + 1"] assms by (simp add: mod_Suc_eq)
  then show ?thesis
    using m [of "k + 8 - ((a + n) mod 8 + 1) mod 8"] assms(3) t assms(1,2) unfolding t_def [symmetric]
    by (auto split: if_splits)
qed

text \<open>A slot that waits keeps waiting, and does not lose its turn, until it is offered.\<close>

lemma next_ready:
  assumes "dispatcher_inv d" "k < MODBUS_CLIENT_MAX" "slot_ready (md_clients d ! k)"
    "dispatcher_next (d, log) op = (d', log')"
    "op \<noteq> Disconnect (cs_id (md_clients d ! k)) (cs_epoch (md_clients d ! k))"
  shows "(is_dispatch op \<and> k \<in> set (drop (length (offered log)) (offered log'))) \<or>
    (slot_ready (md_clients d' ! k) \<and> cs_id (md_clients d' ! k) = cs_id (md_clients d ! k) \<and>
     cs_epoch (md_clients d' ! k) = cs_epoch (md_clients d ! k) \<and>
     (if is_dispatch op then turns_before d' k < turns_before d k else turns_before d' k = turns_before d k))"
proof (cases op)
  case (Connect i ep)
  show ?thesis
  proof (rule connect_cases [OF assms(1), of i ep])
    fix j s
    assume "modbus_dispatcher_connect d i ep = (0, d\<lparr>md_clients := (md_clients d)[j := s]\<rparr>)"
      "\<not> cs_connected (md_clients d ! j)"
    moreover from this have "j \<noteq> k" using assms(3) by (auto simp: slot_ready_def)
    ultimately show ?thesis using assms Connect by (auto simp: is_dispatch_def turns_before_def)
  qed (use assms Connect in \<open>auto simp: is_dispatch_def turns_before_def\<close>)
next
  case (Disconnect i ep)
  show ?thesis
  proof (rule disconnect_cases [OF assms(1), of i ep])
    fix j
    assume c: "modbus_dispatcher_disconnect d i ep = d\<lparr>disconnected_drops :=
        disconnected_drops d + of_nat (cs_count (md_clients d ! j)), md_clients := (md_clients d)[j := idle_slot]\<rparr>"
      and s: "serves d j i" "cs_epoch (md_clients d ! j) = ep"
    then have "j \<noteq> k" using assms(5) Disconnect by (auto simp: serves_def)
    moreover have "d' = d\<lparr>disconnected_drops :=
        disconnected_drops d + of_nat (cs_count (md_clients d ! j)), md_clients := (md_clients d)[j := idle_slot]\<rparr>"
      using assms(4) Disconnect c by simp
    ultimately show ?thesis using assms Disconnect by (simp add: is_dispatch_def turns_before_def)
  qed (use assms Disconnect in \<open>auto simp: is_dispatch_def turns_before_def\<close>)
next
  case (Enqueue rq)
  show ?thesis
  proof (rule enqueue_cases [OF assms(1), of rq])
    fix q j s
    assume e: "rq = Some q" "modbus_dispatcher_enqueue d rq = (0, d\<lparr>md_clients := (md_clients d)[j := s]\<rparr>)"
      "serves d j (client_id q)" "cs_connected s" "cs_id s = client_id q" "cs_epoch s = client_epoch q"
      "cs_epoch (md_clients d ! j) = client_epoch q" "slot_items s = slot_items (md_clients d ! j) @ [q]"
    then have "cs_count s \<noteq> 0" using length_slot_items [of s] by simp
    then show ?thesis
      using e assms Enqueue
      by (cases "j = k") (auto simp: is_dispatch_def turns_before_def slot_ready_def serves_def)
  qed (use assms Enqueue in \<open>auto simp: is_dispatch_def turns_before_def\<close>)
next
  case (Dispatch p now qt rt)
  obtain j where j: "dispatcher_pick d = Some j" "j < 8" "j = k \<or> (\<exists>n < turns_before d k. j = (next_client d + n) mod 8)"
    using pick_turn [OF assms(1-3)] by blast
  have lg: "offered log' = offered log @ [j]"
    using assms(4) Dispatch j(1) by (auto simp: log_step_def split: prod.splits)
  have d': "d' = d\<lparr>next_client := (j + 1) mod 8\<rparr> \<or>
      d' = d\<lparr>next_client := (j + 1) mod 8, md_clients := (md_clients d)[j := slot_drop (md_clients d ! j)],
              submitted := submitted d + 1\<rparr>"
    using assms(4) Dispatch j(1) by (auto simp: modbus_dispatcher_step_def Let_def split: prod.splits if_splits)
  show ?thesis
  proof (cases "j = k")
    case True
    then show ?thesis using lg Dispatch by (simp add: is_dispatch_def)
  next
    case False
    then obtain n where n: "n < turns_before d k" "j = (next_client d + n) mod 8" using j(3) by blast
    have "next_client d < 8" using assms(1) by (simp add: dispatcher_inv_def)
    then have "(k + 8 - (j + 1) mod 8) mod 8 < turns_before d k"
      using turn_closer [of "next_client d" k n] n assms(2) by (simp add: turns_before_def)
    moreover have "next_client d' = (j + 1) mod 8" "md_clients d' ! k = md_clients d ! k" using d' False by auto
    ultimately show ?thesis using assms(3) Dispatch by (simp add: is_dispatch_def turns_before_def)
  qed
qed

lemma next_offers: "\<exists>xs. offered (snd (dispatcher_next (d, log) op)) = offered log @ xs"
  by (cases op) (auto simp: log_step_def split: prod.splits option.splits)

lemma run_Cons: "dispatcher_run (op # ops) s = dispatcher_run ops (dispatcher_next s op)"
  by (simp add: dispatcher_run_def)

lemma run_offers: "\<exists>xs. offered (snd (dispatcher_run ops (d, log))) = offered log @ xs"
proof (induction ops arbitrary: d log)
  case Nil
  then show ?case by (simp add: dispatcher_run_def)
next
  case (Cons op ops)
  obtain d' log' where n: "dispatcher_next (d, log) op = (d', log')" by fastforce
  then obtain xs where "offered log' = offered log @ xs" using next_offers [of d log op] by auto
  then show ?case using Cons.IH [of d' log'] n by (auto simp: run_Cons)
qed

lemma next_inv:
  assumes "dispatcher_inv d" "dispatcher_next (d, log) op = (d', log')"
  shows "dispatcher_inv d'"
proof (cases op)
  case (Connect i ep)
  show ?thesis
    by (rule connect_cases [OF assms(1), of i ep]) (use assms Connect inv_replaced [OF assms(1)] in auto)
next
  case (Disconnect i ep)
  show ?thesis
    by (rule disconnect_cases [OF assms(1), of i ep]) (use assms Disconnect inv_replaced [OF assms(1)] in auto)
next
  case (Enqueue rq)
  show ?thesis
  proof (rule enqueue_cases [OF assms(1), of rq])
    fix r d1
    assume "modbus_dispatcher_enqueue d rq = (r, d1)" "d1 = d \<or> d1 = d\<lparr>md_queue_full := md_queue_full d + 1\<rparr>"
    then have "md_clients d' = md_clients d" "next_client d' = next_client d" using assms(2) Enqueue by auto
    then show ?thesis using inv_same [of d' d] assms(1) by (simp add: dispatcher_inv_def)
  qed (use assms Enqueue inv_replaced [OF assms(1)] in auto)
next
  case (Dispatch p now qt rt)
  show ?thesis
    by (rule step_cases [OF assms(1), of p now qt rt])
      (use assms Dispatch inv_replaced [OF assms(1)] inv_same [of d' d] in auto)
qed

lemma run_serves:
  assumes "dispatcher_inv d" "k < MODBUS_CLIENT_MAX" "slot_ready (md_clients d ! k)"
    "Disconnect (cs_id (md_clients d ! k)) (cs_epoch (md_clients d ! k)) \<notin> set ops"
    "turns_before d k < length (filter is_dispatch ops)"
  shows "k \<in> set (drop (length (offered log)) (offered (snd (dispatcher_run ops (d, log)))))"
  using assms
proof (induction ops arbitrary: d log)
  case Nil
  then show ?case by simp
next
  case (Cons op ops)
  obtain d' log' where n: "dispatcher_next (d, log) op = (d', log')" by fastforce
  obtain xs where xs: "offered log' = offered log @ xs" using next_offers [of d log op] n by auto
  obtain ys where ys: "offered (snd (dispatcher_run ops (d', log'))) = offered log' @ ys"
    using run_offers by blast
  have "op \<noteq> Disconnect (cs_id (md_clients d ! k)) (cs_epoch (md_clients d ! k))" using Cons.prems(4) by auto
  note nr = next_ready [OF Cons.prems(1-3) n this]
  show ?case
  proof (cases "k \<in> set xs")
    case True
    then show ?thesis using n xs ys by (simp add: run_Cons)
  next
    case False
    then have r: "slot_ready (md_clients d' ! k)" "cs_id (md_clients d' ! k) = cs_id (md_clients d ! k)"
      "cs_epoch (md_clients d' ! k) = cs_epoch (md_clients d ! k)"
      "if is_dispatch op then turns_before d' k < turns_before d k else turns_before d' k = turns_before d k"
      using nr xs by auto
    have "turns_before d' k < length (filter is_dispatch ops)"
      using r(4) Cons.prems(5) by (auto split: if_splits)
    then have "k \<in> set (drop (length (offered log')) (offered (snd (dispatcher_run ops (d', log')))))"
      using Cons.IH [OF next_inv [OF Cons.prems(1) n] Cons.prems(2) r(1)] r(2,3) Cons.prems(4) by simp
    then show ?thesis using n xs ys by (simp add: run_Cons)
  qed
qed


definition two_clients :: modbus_dispatcher where
  "two_clients = fst (dispatcher_run [Connect 1 1, Connect 2 5,
     Enqueue (Some (sample_tcp_request\<lparr>client_id := 1, client_epoch := 1\<rparr>)),
     Enqueue (Some (sample_tcp_request\<lparr>client_id := 2, client_epoch := 5\<rparr>)) :: (unit, unit) dispatcher_op]
     (modbus_dispatcher_init, empty_log))"

lemma dispatcher_run_inv: "dispatcher_inv d \<Longrightarrow> dispatcher_inv (fst (dispatcher_run ops (d, log)))"
proof (induction ops arbitrary: d log)
  case (Cons op ops)
  obtain d' log' where n: "dispatcher_next (d, log) op = (d', log')" by fastforce
  then show ?case using Cons next_inv by (simp add: run_Cons) blast
qed (simp add: dispatcher_run_def)

lemma two_clients_ok: "dispatcher_inv two_clients" "slot_ready (md_clients two_clients ! 1)"
proof -
  show "dispatcher_inv two_clients" by (simp add: two_clients_def dispatcher_run_inv dispatcher_init_inv)
  show "slot_ready (md_clients two_clients ! 1)" by code_simp
qed


end
