(* ===== verification/Net_Sockets.thy ===== *)
theory Net_Sockets
  imports Uart_Backend
begin

text \<open>
  The sockets the listeners under \<open>src/network\<close> use. The system calls are functions the development is
  parametrised by, over a type \<open>'n\<close> of the state of the network behind them; only their documented
  shape is fixed: a result, the data they store, the state afterwards. \<open>net_errno\<close> is the value of \<open>errno\<close>.
\<close>

abbreviation AF_INET :: u16 where "AF_INET \<equiv> 2"
abbreviation INADDR_NONE :: u32 where "INADDR_NONE \<equiv> 0xffffffff"
abbreviation O_NONBLOCK :: u32 where "O_NONBLOCK \<equiv> 0x800"

datatype socket_type = SOCK_STREAM | SOCK_DGRAM
datatype socket_option = SO_REUSEADDR | TCP_NODELAY

text \<open>\<open>struct sockaddr_in\<close>, with port and address in host order.\<close>

record sockaddr_in =
  sin_family :: u16
  sin_port :: u16
  sin_addr :: u32

definition zero_sockaddr :: sockaddr_in where
  "zero_sockaddr = \<lparr>sin_family = 0, sin_port = 0, sin_addr = 0\<rparr>"

text \<open>
  \<open>net_recvfrom\<close> also returns the address and whether its size was that of an IPv4 address.
\<close>

record 'n net_calls =
  net_inet_addr :: "string \<Rightarrow> u32"
  net_socket :: "'n \<Rightarrow> socket_type \<Rightarrow> int \<times> 'n"
  net_setsockopt :: "'n \<Rightarrow> int \<Rightarrow> socket_option \<Rightarrow> 'n"
  net_getfl :: "'n \<Rightarrow> int \<Rightarrow> int \<times> 'n"
  net_setfl :: "'n \<Rightarrow> int \<Rightarrow> u32 \<Rightarrow> int \<times> 'n"
  net_bind :: "'n \<Rightarrow> int \<Rightarrow> sockaddr_in \<Rightarrow> int \<times> 'n"
  net_listen :: "'n \<Rightarrow> int \<Rightarrow> int \<Rightarrow> int \<times> 'n"
  net_accept :: "'n \<Rightarrow> int \<Rightarrow> int \<times> 'n"
  net_recv :: "'n \<Rightarrow> int \<Rightarrow> nat \<Rightarrow> int \<times> u8 list \<times> 'n"
  net_send :: "'n \<Rightarrow> int \<Rightarrow> u8 list \<Rightarrow> int \<times> 'n"
  net_recvfrom :: "'n \<Rightarrow> int \<Rightarrow> nat \<Rightarrow> int \<times> u8 list \<times> sockaddr_in \<times> bool \<times> 'n"
  net_sendto :: "'n \<Rightarrow> int \<Rightarrow> u8 list \<Rightarrow> sockaddr_in \<Rightarrow> int \<times> 'n"
  net_close :: "'n \<Rightarrow> int \<Rightarrow> 'n"
  net_errno :: "'n \<Rightarrow> int"

text \<open>\<open>EAGAIN\<close>, \<open>EWOULDBLOCK\<close> and \<open>EINTR\<close> are no failures.\<close>

definition transient :: "int \<Rightarrow> bool" where
  "transient e \<longleftrightarrow> e = EAGAIN \<or> e = EWOULDBLOCK \<or> e = EINTR"

definition nonblocking :: "'n net_calls \<Rightarrow> 'n \<Rightarrow> int \<Rightarrow> int \<times> 'n" where
  "nonblocking sk n f =
     (let (flags, n) = net_getfl sk n f in
      if flags < 0 then (- 1, n)
      else let (r, n) = net_setfl sk n f (of_int flags OR O_NONBLOCK) in (if r < 0 then - 1 else 0, n))"

definition endpoint :: "'n net_calls \<Rightarrow> string \<Rightarrow> u16 \<Rightarrow> sockaddr_in" where
  "endpoint sk address port = \<lparr>sin_family = AF_INET, sin_port = port, sin_addr = net_inet_addr sk address\<rparr>"

text \<open>A network on which everything succeeds and nothing arrives, the base of the examples.\<close>

definition idle_net :: "'n net_calls" where
  "idle_net = \<lparr>net_inet_addr = \<lambda>s. 0, net_socket = \<lambda>n t. (3, n), net_setsockopt = \<lambda>n f opt. n,
     net_getfl = \<lambda>n f. (0, n), net_setfl = \<lambda>n f v. (0, n), net_bind = \<lambda>n f a. (0, n), net_listen = \<lambda>n f b. (0, n),
     net_accept = \<lambda>n f. (- 1, n), net_recv = \<lambda>n f cap. (- 1, [], n),
     net_send = \<lambda>n f bs. (int (length bs), n), net_recvfrom = \<lambda>n f cap. (- 1, [], zero_sockaddr, True, n),
     net_sendto = \<lambda>n f bs a. (int (length bs), n), net_close = \<lambda>n f. n, net_errno = \<lambda>n. EAGAIN\<rparr>"

end
