(* ===== verification/Modbus_Tcp_Listener.thy ===== *)
theory Modbus_Tcp_Listener
  imports Modbus_Dispatcher Net_Sockets
begin

text \<open>
  The Modbus/TCP listener of \<open>src/network/modbus_tcp_listener.c\<close>: up to eight connections, each with a deframer
  and a ring of four answers, a dispatcher in front of the port, and the completion callback through
  which the port hands the answers back. A client the C code points to is given by its index;
  the port the listener points to is an argument of the operations that use it. The optional trace on
  stderr is left out.
\<close>

abbreviation MODBUS_LISTENER_CLIENT_MAX :: nat where "MODBUS_LISTENER_CLIENT_MAX \<equiv> 8"
abbreviation MODBUS_TX_QUEUE_MAX :: nat where "MODBUS_TX_QUEUE_MAX \<equiv> 4"
abbreviation MODBUS_SOCKET_IO_STEP_MAX :: nat where "MODBUS_SOCKET_IO_STEP_MAX \<equiv> 256"
abbreviation MODBUS_INPUT_TIMEOUT :: tick where "MODBUS_INPUT_TIMEOUT \<equiv> 5000"
abbreviation MODBUS_WRITE_TIMEOUT :: tick where "MODBUS_WRITE_TIMEOUT \<equiv> 5000"
abbreviation MODBUS_IDLE_TIMEOUT :: tick where "MODBUS_IDLE_TIMEOUT \<equiv> 30000"

text \<open>A slot of the output ring is the list of its bytes.\<close>

record modbus_tcp_client =
  cl_fd :: int
  cl_id :: u32
  cl_epoch :: u32
  peer_eof :: bool
  cl_rx :: mbap_stream
  cl_tx :: "u8 list list"
  cl_head :: nat
  cl_count :: nat
  cl_offset :: nat
  connected_at :: tick
  last_progress :: tick
  frame_started_at :: tick
  write_started_at :: tick

record modbus_listener_stats =
  ls_accepted :: u32
  ls_refused :: u32
  ls_closed :: u32
  ls_malformed :: u32
  ls_rx_overflow :: u32
  ls_tx_overflow :: u32
  ls_write_deadline_expired :: u32
  ls_output_peer_errors :: u32
  ls_stale_completions :: u32
  ls_invalid_responses :: u32
  ls_gateway_target_no_response :: u32
  ls_gateway_path_unavailable :: u32
  ls_timeout_exceptions_queued :: u32
  ls_timeout_exceptions_obsolete_epoch :: u32
  ls_timeout_exception_output_failures :: u32
  ls_downstream_crc_failures :: u32
  ls_downstream_framing_failures :: u32
  ls_downstream_unit_mismatches :: u32
  ls_downstream_function_mismatches :: u32
  ls_downstream_leading_garbage :: u32
  ls_rx_bytes :: u32
  ls_tx_bytes :: u32
  ls_scheduler_steps :: u32
  ls_max_clients :: u32

record 'n modbus_tcp_listener =
  listen_fd :: int
  next_epoch :: u32
  tcp_clients :: "modbus_tcp_client list"
  dispatcher :: modbus_dispatcher
  tl_now :: tick
  tcp_stats :: modbus_listener_stats
  net :: "'n net_calls"
  net_state :: 'n

abbreviation tally ::
  "((u32 \<Rightarrow> u32) \<Rightarrow> modbus_listener_stats \<Rightarrow> modbus_listener_stats) \<Rightarrow>
   'n modbus_tcp_listener \<Rightarrow> 'n modbus_tcp_listener" where
  "tally field l \<equiv> l\<lparr>tcp_stats := field increment (tcp_stats l)\<rparr>"

section \<open>Clients\<close>

definition closed_client :: modbus_tcp_client where
  "closed_client = \<lparr>cl_fd = - 1, cl_id = 0, cl_epoch = 0, peer_eof = False,
     cl_rx = mbap_stream_init, cl_tx = replicate MODBUS_TX_QUEUE_MAX [], cl_head = 0, cl_count = 0,
     cl_offset = 0, connected_at = 0, last_progress = 0, frame_started_at = 0, write_started_at = 0\<rparr>"

abbreviation client_at :: "'n modbus_tcp_listener \<Rightarrow> nat \<Rightarrow> modbus_tcp_client" where
  "client_at l k \<equiv> tcp_clients l ! k"

definition set_client :: "'n modbus_tcp_listener \<Rightarrow> nat \<Rightarrow> modbus_tcp_client \<Rightarrow> 'n modbus_tcp_listener" where
  "set_client l k c = l\<lparr>tcp_clients := (tcp_clients l)[k := c]\<rparr>"

definition close_client :: "'n modbus_tcp_listener \<Rightarrow> nat \<Rightarrow> 'n modbus_tcp_listener" where
  "close_client l k =
     (let c = client_at l k;
          l = (if cl_fd c \<ge> 0
               then tally ls_closed_update (l\<lparr>
                 dispatcher := modbus_dispatcher_disconnect (dispatcher l) (cl_id c) (cl_epoch c),
                 net_state := net_close (net l) (net_state l) (cl_fd c)\<rparr>)
               else l)
      in set_client l k closed_client)"

definition current_client :: "'n modbus_tcp_listener \<Rightarrow> u32 \<Rightarrow> u32 \<Rightarrow> nat option" where
  "current_client l i epoch =
     find_index (\<lambda>c. cl_fd c \<ge> 0 \<and> cl_id c = i \<and> cl_epoch c = epoch) (tcp_clients l)"

text \<open>The callback of the deframer.\<close>

definition admit :: "u32 \<Rightarrow> u32 \<Rightarrow> modbus_dispatcher mbap_adu_fn" where
  "admit i epoch d adu =
     (let (r, d) = modbus_dispatcher_enqueue d (Some \<lparr>client_id = i, client_epoch = epoch, rq_adu = adu\<rparr>)
      in (if r = 0 then 0 else 1, d))"

section \<open>Answers\<close>

text \<open>The output ring of one client; \<open>None\<close> when it is full.\<close>

definition tx_push :: "modbus_tcp_client \<Rightarrow> u8 list \<Rightarrow> modbus_tcp_client option" where
  "tx_push c data =
     (if cl_count c \<ge> MODBUS_TX_QUEUE_MAX then None
      else Some (c\<lparr>cl_tx := (cl_tx c)[(cl_head c + cl_count c) mod MODBUS_TX_QUEUE_MAX := data],
                   cl_count := cl_count c + 1\<rparr>))"

definition modbus_tcp_listener_queue_response ::
  "'n modbus_tcp_listener \<Rightarrow> u32 \<Rightarrow> u32 \<Rightarrow> u8 list \<Rightarrow> int \<times> 'n modbus_tcp_listener"
where
  "modbus_tcp_listener_queue_response l i epoch data =
     (if data = [] \<or> length data > MBAP_ADU_MAX then (- 1, l)
      else case current_client l i epoch of
        None \<Rightarrow> (- 2, tally ls_stale_completions_update l)
      | Some k \<Rightarrow>
          (case tx_push (client_at l k) data of
             None \<Rightarrow> (- 3, close_client (tally ls_tx_overflow_update l) k)
           | Some c \<Rightarrow> (0, set_client l k
               (if cl_count (client_at l k) = 0 then c\<lparr>write_started_at := tl_now l\<rparr> else c))))"

text \<open>The branch of \<open>completion\<close> for a request that went out and was not answered in time.\<close>

definition complete_timeout :: "'n modbus_tcp_listener \<Rightarrow> core_transaction \<Rightarrow> 'n modbus_tcp_listener" where
  "complete_timeout l t =
     (let l = tally ls_gateway_target_no_response_update l in
      case current_client l (owner_id t) (transport_metadata t ! 2) of
        None \<Rightarrow> tally ls_stale_completions_update (tally ls_timeout_exceptions_obsolete_epoch_update l)
      | Some k \<Rightarrow>
          (case modbus_tcp_build_gateway_exception t MODBUS_EXCEPTION_GATEWAY_TARGET_NO_RESPONSE MBAP_ADU_MAX of
             (r, None) \<Rightarrow> tally ls_timeout_exception_output_failures_update l
           | (r, Some output) \<Rightarrow>
               if r \<noteq> 0 then tally ls_timeout_exception_output_failures_update l
               else
                 let (r, l) = modbus_tcp_listener_queue_response l (cl_id (client_at l k)) (cl_epoch (client_at l k)) output
                 in if r = 0 then tally ls_timeout_exceptions_queued_update l
                    else tally ls_timeout_exception_output_failures_update l))"

text \<open>The counters for an answer the serial side found malformed.\<close>

definition count_malformed ::
  "'n modbus_tcp_listener \<Rightarrow> core_transaction \<Rightarrow> u8 list \<Rightarrow> 'n modbus_tcp_listener" where
  "count_malformed l t response =
     (let metadata = transport_metadata t ! 1; n = length response;
          unit = ucast (drop_bit 8 metadata) :: u8; code = ucast (metadata AND 0xff) :: u8 in
      if n \<ge> 1 \<and> response ! 0 \<noteq> unit then
        tally ls_downstream_unit_mismatches_update
          (if n \<ge> 2 \<and> response ! 1 = unit then tally ls_downstream_leading_garbage_update l else l)
      else if n \<ge> 2 \<and> response ! 1 \<noteq> code \<and> response ! 1 \<noteq> ucast ((metadata AND 0xff) OR 0x80)
      then tally ls_downstream_function_mismatches_update l
      else if n \<ge> 4 then
        if modbus_crc16 (take (n - 2) response) \<noteq> crc_of_trailer (response ! (n - 2)) (response ! (n - 1))
        then tally ls_downstream_crc_failures_update l
        else tally ls_downstream_framing_failures_update l
      else tally ls_downstream_framing_failures_update l)"

definition complete_answer ::
  "'n modbus_tcp_listener \<Rightarrow> core_transaction \<Rightarrow> u8 list \<Rightarrow> 'n modbus_tcp_listener" where
  "complete_answer l t response =
     (case current_client l (owner_id t) (transport_metadata t ! 2) of
        None \<Rightarrow> tally ls_stale_completions_update l
      | Some k \<Rightarrow>
          (case modbus_tcp_build_response t response MBAP_ADU_MAX of
             (r, Some output) \<Rightarrow>
               snd (modbus_tcp_listener_queue_response l (cl_id (client_at l k)) (cl_epoch (client_at l k)) output)
           | (r, None) \<Rightarrow>
               let l = tally ls_invalid_responses_update l in
               if r = - 2 then tally ls_downstream_crc_failures_update l
               else if r = - 3 then tally ls_downstream_unit_mismatches_update l
               else if r = - 4 then tally ls_downstream_function_mismatches_update l
               else tally ls_downstream_framing_failures_update l))"

definition tcp_completion ::
  "'n modbus_tcp_listener \<Rightarrow> core_transaction \<Rightarrow> core_transaction_status \<Rightarrow> u8 list \<Rightarrow> 'n modbus_tcp_listener"
where
  "tcp_completion l t status response =
     (if status = CORE_TX_TIMED_OUT \<and> request_transmitted t then complete_timeout l t
      else if status \<noteq> CORE_TX_COMPLETED
      then (if status = CORE_TX_MALFORMED then count_malformed l t response else l)
      else complete_answer l t response)"

section \<open>Opening and closing\<close>

definition zero_listener_stats :: modbus_listener_stats where
  "zero_listener_stats = \<lparr>ls_accepted = 0, ls_refused = 0, ls_closed = 0, ls_malformed = 0, ls_rx_overflow = 0,
     ls_tx_overflow = 0, ls_write_deadline_expired = 0, ls_output_peer_errors = 0, ls_stale_completions = 0,
     ls_invalid_responses = 0, ls_gateway_target_no_response = 0, ls_gateway_path_unavailable = 0,
     ls_timeout_exceptions_queued = 0, ls_timeout_exceptions_obsolete_epoch = 0,
     ls_timeout_exception_output_failures = 0, ls_downstream_crc_failures = 0, ls_downstream_framing_failures = 0,
     ls_downstream_unit_mismatches = 0, ls_downstream_function_mismatches = 0, ls_downstream_leading_garbage = 0,
     ls_rx_bytes = 0, ls_tx_bytes = 0, ls_scheduler_steps = 0, ls_max_clients = 0\<rparr>"

text \<open>
  \<open>init\<close>: the listener itself; that it also becomes the completion context of its port is the business of
  the caller, who knows where the listener lives.
\<close>

definition modbus_tcp_listener_init :: "'n net_calls \<Rightarrow> 'n \<Rightarrow> 'n modbus_tcp_listener" where
  "modbus_tcp_listener_init sk n = \<lparr>listen_fd = - 1, next_epoch = 1,
     tcp_clients = replicate MODBUS_LISTENER_CLIENT_MAX closed_client, dispatcher = modbus_dispatcher_init,
     tl_now = 0, tcp_stats = zero_listener_stats, net = sk, net_state = n\<rparr>"

definition modbus_tcp_listener_open ::
  "'n modbus_tcp_listener \<Rightarrow> string option \<Rightarrow> u16 \<Rightarrow> int \<times> 'n modbus_tcp_listener" where
  "modbus_tcp_listener_open l address port =
     (if address = None \<or> listen_fd l \<ge> 0 then (- 1, l)
      else
        let sk = net l; (f, n) = net_socket sk (net_state l) SOCK_STREAM in
        if f < 0 then (- 1, l\<lparr>net_state := n\<rparr>)
        else
          let n = net_setsockopt sk n f SO_REUSEADDR;
              sa = endpoint sk (the address) port;
              (r, n) = (if sin_addr sa = INADDR_NONE then (- 1, n) else nonblocking sk n f);
              (r, n) = (if r < 0 then (- 1, n) else net_bind sk n f sa);
              (r, n) = (if r < 0 then (- 1, n) else net_listen sk n f 8)
          in if r < 0 then (- 1, l\<lparr>net_state := net_close sk n f\<rparr>)
             else (0, l\<lparr>listen_fd := f, net_state := n\<rparr>))"

definition modbus_tcp_listener_client_count :: "'n modbus_tcp_listener \<Rightarrow> u32" where
  "modbus_tcp_listener_client_count l = of_nat (length (filter (\<lambda>c. cl_fd c \<ge> 0) (tcp_clients l)))"

definition modbus_tcp_listener_close :: "'n modbus_tcp_listener \<Rightarrow> 'n modbus_tcp_listener" where
  "modbus_tcp_listener_close l =
     (let l = foldl close_client l [0..<MODBUS_LISTENER_CLIENT_MAX] in
      if listen_fd l \<ge> 0
      then l\<lparr>net_state := net_close (net l) (net_state l) (listen_fd l), listen_fd := - 1\<rparr>
      else l)"

section \<open>The I/O step\<close>

definition accept_one :: "'n modbus_tcp_listener \<Rightarrow> tick \<Rightarrow> 'n modbus_tcp_listener" where
  "accept_one l now =
     (let sk = net l; (f, n) = net_accept sk (net_state l) (listen_fd l) in
      if f < 0 then l\<lparr>net_state := n\<rparr>
      else
        let n = net_setsockopt sk n f TCP_NODELAY; (r, n) = nonblocking sk n f in
        if r < 0 then l\<lparr>net_state := net_close sk n f\<rparr>
        else case find_index (\<lambda>c. cl_fd c < 0) (tcp_clients l) of
          None \<Rightarrow> (tally ls_refused_update l)\<lparr>net_state := net_close sk n f\<rparr>
        | Some k \<Rightarrow>
            let epoch = next_epoch l; i = of_nat k + 1;
                l = set_client (l\<lparr>net_state := n, next_epoch := (if epoch + 1 = 0 then 1 else epoch + 1)\<rparr>) k
                      (closed_client\<lparr>cl_fd := f, cl_id := i, cl_epoch := epoch, connected_at := now,
                                     last_progress := now\<rparr>);
                (r, d) = modbus_dispatcher_connect (dispatcher l) i epoch;
                l = l\<lparr>dispatcher := d\<rparr>
            in if r < 0 then close_client l k
               else
                 let l = tally ls_accepted_update l; m = modbus_tcp_listener_client_count l in
                 if m > ls_max_clients (tcp_stats l) then l\<lparr>tcp_stats := (tcp_stats l)\<lparr>ls_max_clients := m\<rparr>\<rparr> else l)"

definition client_has_core_work ::
  "'n modbus_tcp_listener \<Rightarrow> ('b, 'c) port_runtime \<Rightarrow> modbus_tcp_client \<Rightarrow> bool" where
  "client_has_core_work l p c \<longleftrightarrow>
     list_ex (\<lambda>s. cs_connected s \<and> cs_id s = cl_id c \<and> cs_epoch s = cl_epoch c \<and> cs_count s \<noteq> 0)
       (md_clients (dispatcher l)) \<or>
     (has_active p \<and> owner_id (pr_active p) = cl_id c \<and> transport_metadata (pr_active p) ! 2 = cl_epoch c) \<or>
     list_ex (\<lambda>i. let t = q_entries (pr_queue p) ! ((q_head (pr_queue p) + i) mod CORE_QUEUE_CAPACITY)
                  in owner_id t = cl_id c \<and> transport_metadata t ! 2 = cl_epoch c) [0..<q_count (pr_queue p)]"

text \<open>Feeding received bytes, or none, to the deframer of client \<open>k\<close>.\<close>

definition feed_client ::
  "'n modbus_tcp_listener \<Rightarrow> nat \<Rightarrow> u8 list \<Rightarrow> mbap_result \<times> 'n modbus_tcp_listener" where
  "feed_client l k data =
     (let c = client_at l k;
          (r, s, d) = mbap_stream_feed (cl_rx c) (Some data) (Some (admit (cl_id c) (cl_epoch c))) (dispatcher l)
      in (r, set_client (l\<lparr>dispatcher := d\<rparr>) k (c\<lparr>cl_rx := s\<rparr>)))"

definition read_client :: "'n modbus_tcp_listener \<Rightarrow> nat \<Rightarrow> tick \<Rightarrow> 'n modbus_tcp_listener" where
  "read_client l k now =
     (let c = client_at l k in
      if peer_eof c then l
      else
        let (got, bs, n) = net_recv (net l) (net_state l) (cl_fd c) MODBUS_SOCKET_IO_STEP_MAX;
            l = l\<lparr>net_state := n\<rparr> in
        if got > 0 then
          let c = (if ms_count (cl_rx c) = 0 then c\<lparr>frame_started_at := now\<rparr> else c);
              l = set_client l k (c\<lparr>last_progress := now\<rparr>);
              l = l\<lparr>tcp_stats := (tcp_stats l)\<lparr>ls_rx_bytes := ls_rx_bytes (tcp_stats l) + of_int got\<rparr>\<rparr>;
              (r, l) = feed_client l k (take (nat got) bs)
          in if r = MBAP_MALFORMED then close_client (tally ls_malformed_update l) k
             else if r = MBAP_OVERFLOW then close_client (tally ls_rx_overflow_update l) k
             else l
        else if got = 0 then set_client l k (c\<lparr>peer_eof := True\<rparr>)
        else if transient (net_errno (net l) n) then l
        else close_client l k)"

definition drain_parser :: "'n modbus_tcp_listener \<Rightarrow> nat \<Rightarrow> 'n modbus_tcp_listener" where
  "drain_parser l k =
     (let (r, l) = feed_client l k [] in
      if r = MBAP_MALFORMED then close_client (tally ls_malformed_update l) k else l)"

text \<open>What client \<open>c\<close> offers to the socket next, and its state once the socket took \<open>sent\<close> bytes.\<close>

definition tx_offer :: "modbus_tcp_client \<Rightarrow> u8 list" where
  "tx_offer c = take MODBUS_SOCKET_IO_STEP_MAX (drop (cl_offset c) (cl_tx c ! cl_head c))"

definition tx_advance :: "modbus_tcp_client \<Rightarrow> nat \<Rightarrow> tick \<Rightarrow> modbus_tcp_client" where
  "tx_advance c sent now =
     (let whole = length (cl_tx c ! cl_head c);
          c = c\<lparr>cl_offset := cl_offset c + sent, last_progress := now\<rparr> in
      if cl_offset c = whole then
        let c = c\<lparr>cl_offset := 0, cl_head := (cl_head c + 1) mod MODBUS_TX_QUEUE_MAX, cl_count := cl_count c - 1\<rparr>
        in if cl_count c \<noteq> 0 then c\<lparr>write_started_at := now\<rparr> else c
      else c)"

definition write_client :: "'n modbus_tcp_listener \<Rightarrow> nat \<Rightarrow> tick \<Rightarrow> 'n modbus_tcp_listener" where
  "write_client l k now =
     (let c = client_at l k in
      if cl_count c = 0 then l
      else
        let (sent, n) = net_send (net l) (net_state l) (cl_fd c) (tx_offer c); l = l\<lparr>net_state := n\<rparr> in
        if sent > 0 then
          set_client (l\<lparr>tcp_stats := (tcp_stats l)\<lparr>ls_tx_bytes := ls_tx_bytes (tcp_stats l) + of_int sent\<rparr>\<rparr>) k
            (tx_advance c (nat sent) now)
        else if sent < 0 \<and> \<not> transient (net_errno (net l) n)
        then close_client (tally ls_output_peer_errors_update l) k
        else l)"

text \<open>The tests at the end of the loop body, in their order.\<close>

definition expire_client ::
  "'n modbus_tcp_listener \<Rightarrow> ('b, 'c) port_runtime \<Rightarrow> nat \<Rightarrow> tick \<Rightarrow> 'n modbus_tcp_listener" where
  "expire_client l p k now =
     (let c = client_at l k in
      if cl_count c \<noteq> 0 \<and> core_elapsed (write_started_at c) now \<ge> MODBUS_WRITE_TIMEOUT
      then close_client (tally ls_write_deadline_expired_update l) k
      else if peer_eof c \<and> cl_count c = 0 \<and> \<not> client_has_core_work l p c then close_client l k
      else if ms_count (cl_rx c) = 0 \<and> cl_count c = 0 \<and> \<not> client_has_core_work l p c \<and>
              core_elapsed (last_progress c) now \<ge> MODBUS_IDLE_TIMEOUT then close_client l k
      else l)"

definition client_io ::
  "('b, 'c) port_runtime \<Rightarrow> tick \<Rightarrow> 'n modbus_tcp_listener \<Rightarrow> nat \<Rightarrow> 'n modbus_tcp_listener" where
  "client_io p now l k =
     (if cl_fd (client_at l k) < 0 then l
      else let l = drain_parser l k in
      if cl_fd (client_at l k) < 0 then l
      else let l = read_client l k now in
      if cl_fd (client_at l k) < 0 then l
      else if ms_count (cl_rx (client_at l k)) \<noteq> 0 \<and>
              core_elapsed (frame_started_at (client_at l k)) now \<ge> MODBUS_INPUT_TIMEOUT then close_client l k
      else let l = write_client l k now in
      if cl_fd (client_at l k) < 0 then l
      else expire_client l p k now)"

definition modbus_tcp_listener_step_io ::
  "'n modbus_tcp_listener \<Rightarrow> ('b, 'c) port_runtime \<Rightarrow> tick \<Rightarrow> 'n modbus_tcp_listener \<times> ('b, 'c) port_runtime"
where
  "modbus_tcp_listener_step_io l p now =
     (let l = l\<lparr>tl_now := now,
                tcp_stats := (tcp_stats l)\<lparr>ls_scheduler_steps := ls_scheduler_steps (tcp_stats l) + 1\<rparr>\<rparr>;
          l = (if listen_fd l \<ge> 0 then accept_one l now else l);
          l = foldl (client_io p now) l [0..<MODBUS_LISTENER_CLIENT_MAX];
          (r, d, p) = modbus_dispatcher_step (dispatcher l) p now 1000 1000
      in (l\<lparr>dispatcher := d\<rparr>, p))"

text \<open>For a port whose completion context is the listener alone.\<close>

definition listener_callback :: "'n modbus_tcp_listener core_completion_fn" where
  "listener_callback g l t status response = tcp_completion l t status response"

definition modbus_tcp_listener_step ::
  "('b, 'n modbus_tcp_listener) port_runtime \<Rightarrow> tick \<Rightarrow> ('b, 'n modbus_tcp_listener) port_runtime" where
  "modbus_tcp_listener_step p now =
     (let (l, p) = modbus_tcp_listener_step_io (completion_context p) p now
      in port_runtime_step (p\<lparr>completion_context := l\<rparr>) now)"

end
