(* ===== verification/Modbus_Udp_Listener.thy ===== *)
theory Modbus_Udp_Listener
  imports Modbus_Adapter Net_Sockets
begin

text \<open>
  The Modbus/UDP listener of \<open>src/network/modbus_udp_listener.c\<close>, for MBAP datagrams and for RTU frames in
  datagrams: eight peers with one request each, a check of the request before it may reach the serial line,
  the recognition of repeated requests, and the answers. A buffer with its length is a list of bytes.
\<close>

abbreviation MODBUS_OWNER_UDP :: u32 where "MODBUS_OWNER_UDP \<equiv> 2"
abbreviation MODBUS_UDP_PEERS :: nat where "MODBUS_UDP_PEERS \<equiv> 8"
abbreviation MODBUS_UDP_STEP_MAX :: nat where "MODBUS_UDP_STEP_MAX \<equiv> 8"
abbreviation MODBUS_UDP_QUEUE_TIMEOUT :: tick where "MODBUS_UDP_QUEUE_TIMEOUT \<equiv> 1000"
abbreviation MODBUS_UDP_RESPONSE_TIMEOUT :: tick where "MODBUS_UDP_RESPONSE_TIMEOUT \<equiv> 1000"
abbreviation MODBUS_UDP_CACHE_TIMEOUT :: tick where "MODBUS_UDP_CACHE_TIMEOUT \<equiv> 5000"
abbreviation MODBUS_UDP_IDLE_TIMEOUT :: tick where "MODBUS_UDP_IDLE_TIMEOUT \<equiv> 30000"

record modbus_udp_peer =
  up_address :: sockaddr_in
  up_used :: bool
  up_epoch :: u32
  up_pending :: bool
  up_submitted :: bool
  up_transaction_id :: u32
  up_cached :: bool
  up_tid :: u16
  up_rtu :: "u8 list"
  up_response :: "u8 list"
  up_admitted_at :: tick
  up_last_seen :: tick
  up_completed_at :: tick

record modbus_udp_stats =
  us_received :: u32
  us_accepted :: u32
  us_sent :: u32
  us_malformed :: u32
  us_crc_errors :: u32
  us_busy :: u32
  us_no_peer :: u32
  us_duplicates :: u32
  us_conflicts :: u32
  us_send_errors :: u32
  us_timeouts :: u32
  us_failures :: u32
  us_stale :: u32
  us_invalid_responses :: u32

record 'n modbus_udp_listener =
  ul_fd :: int
  rtu_mode :: bool
  ul_next_epoch :: u32
  next_peer :: nat
  ul_now :: tick
  peers :: "modbus_udp_peer list"
  udp_stats :: modbus_udp_stats
  unet :: "'n net_calls"
  unet_state :: 'n

abbreviation inc ::
  "((u32 \<Rightarrow> u32) \<Rightarrow> modbus_udp_stats \<Rightarrow> modbus_udp_stats) \<Rightarrow>
   'n modbus_udp_listener \<Rightarrow> 'n modbus_udp_listener" where
  "inc field l \<equiv> l\<lparr>udp_stats := field increment (udp_stats l)\<rparr>"

definition zero_peer :: modbus_udp_peer where
  "zero_peer = \<lparr>up_address = zero_sockaddr, up_used = False, up_epoch = 0, up_pending = False, up_submitted = False,
     up_transaction_id = 0, up_cached = False, up_tid = 0, up_rtu = [], up_response = [], up_admitted_at = 0,
     up_last_seen = 0, up_completed_at = 0\<rparr>"

abbreviation peer_at :: "'n modbus_udp_listener \<Rightarrow> nat \<Rightarrow> modbus_udp_peer" where
  "peer_at l k \<equiv> peers l ! k"

definition set_peer :: "'n modbus_udp_listener \<Rightarrow> nat \<Rightarrow> modbus_udp_peer \<Rightarrow> 'n modbus_udp_listener" where
  "set_peer l k p = l\<lparr>peers := (peers l)[k := p]\<rparr>"

section \<open>The request check\<close>

definition request_valid :: "u8 list \<Rightarrow> bool" where
  "request_valid r =
     (if length r < 8 \<or> r ! 0 = 0 \<or> r ! 0 > 247 then False
      else
        let n = length r; fc = unat (r ! 1); address = be16 (r ! 2) (r ! 3); count = be16 (r ! 4) (r ! 5) in
        if fc \<ge> 1 \<and> fc \<le> 4
        then n = 8 \<and> count > 0 \<and> count \<le> (if fc \<le> 2 then 2000 else 125) \<and> address + count \<le> 65536
        else if fc = 5 then n = 8 \<and> (count = 0 \<or> count = 0xff00)
        else if fc = 6 then n = 8
        else if fc \<noteq> 15 \<and> fc \<noteq> 16 then False
        else if n < 10 \<or> count = 0 \<or> count > (if fc = 15 then 1968 else 123) \<or> address + count > 65536 then False
        else let bytes = (if fc = 15 then (count + 7) div 8 else count * 2)
             in unat (r ! 6) = bytes \<and> n = bytes + 9)"

section \<open>Answers\<close>

definition send_response :: "'n modbus_udp_listener \<Rightarrow> modbus_udp_peer \<Rightarrow> 'n modbus_udp_listener" where
  "send_response l p =
     (if up_response p = [] \<or> ul_fd l < 0 then l
      else
        let (sent, n) = net_sendto (unet l) (unet_state l) (ul_fd l) (up_response p) (up_address p);
            l = l\<lparr>unet_state := n\<rparr>
        in if sent = int (length (up_response p)) then inc us_sent_update l else inc us_send_errors_update l)"

definition udp_finish :: "'n modbus_udp_listener \<Rightarrow> nat \<Rightarrow> 'n modbus_udp_listener" where
  "udp_finish l k =
     (let p = (peer_at l k)\<lparr>up_pending := False, up_submitted := False, up_cached := \<not> rtu_mode l,
               up_completed_at := ul_now l, up_last_seen := ul_now l\<rparr>
      in send_response (set_peer l k p) p)"

text \<open>The answer must match the request in length and echo; the code is that of the C variable \<open>result\<close>.\<close>

definition answer_result :: "core_transaction \<Rightarrow> u8 list \<Rightarrow> int \<times> u8 list option" where
  "answer_result t response =
     (let (result, mbap) = modbus_tcp_build_response t response MBAP_ADU_MAX in
      if result = 0 then
        if fst (modbus_rtu_frame_probe (payload t) response) \<noteq> UART_FRAME_COMPLETE then (- 5, mbap)
        else if response ! 1 AND 0x80 = 0 then
          let fc = unat (payload t ! 1); count = be16 (payload t ! 4) (payload t ! 5) in
          if fc \<le> 4 then
            if unat (response ! 2) \<noteq> (if fc \<le> 2 then (count + 7) div 8 else count * 2) then (- 5, mbap) else (0, mbap)
          else if take 4 (drop 2 response) \<noteq> take 4 (drop 2 (payload t)) then (- 5, mbap)
          else (0, mbap)
        else (0, mbap)
      else (result, mbap))"

text \<open>The port's generation is the first argument; the callback ignores an answer that is not for this peer.\<close>

definition udp_completion ::
  "u32 \<Rightarrow> 'n modbus_udp_listener \<Rightarrow> core_transaction \<Rightarrow> core_transaction_status \<Rightarrow> u8 list \<Rightarrow>
   'n modbus_udp_listener"
where
  "udp_completion g l t status response =
     (if ul_fd l < 0 \<or> owner_kind t \<noteq> MODBUS_OWNER_UDP \<or> unat (owner_id t) \<ge> MODBUS_UDP_PEERS then l
      else
        let k = unat (owner_id t); p = peer_at l k in
        if \<not> up_used p \<or> \<not> up_submitted p \<or> up_epoch p \<noteq> transport_metadata t ! 2 \<or>
           up_transaction_id p \<noteq> tx_id t \<or> (tx_generation t \<noteq> 0 \<and> tx_generation t \<noteq> g)
        then inc us_stale_update l
        else if status = CORE_TX_COMPLETED then
          (case answer_result t response of (result, mbap) \<Rightarrow>
             if result = 0
             then udp_finish (set_peer l k (p\<lparr>up_response := (if rtu_mode l then response else the mbap)\<rparr>)) k
             else
               let l = set_peer (inc us_invalid_responses_update l) k (p\<lparr>up_response := []\<rparr>);
                   l = (if result = - 2 then inc us_crc_errors_update l else l)
               in udp_finish l k)
        else
          let l = (if status = CORE_TX_TIMED_OUT then inc us_timeouts_update l else inc us_failures_update l);
              p = (if \<not> rtu_mode l \<and> status \<noteq> CORE_TX_CANCELLED
                   then case modbus_tcp_build_gateway_exception t
                          (if request_transmitted t then 0x0b else 0x0a) MBAP_ADU_MAX of
                          (r, None) \<Rightarrow> p\<lparr>up_response := []\<rparr> | (r, Some out) \<Rightarrow> p\<lparr>up_response := out\<rparr>
                   else p\<lparr>up_response := []\<rparr>)
          in udp_finish (set_peer l k p) k)"

section \<open>Opening and closing\<close>

definition zero_udp_stats :: modbus_udp_stats where
  "zero_udp_stats = \<lparr>us_received = 0, us_accepted = 0, us_sent = 0, us_malformed = 0, us_crc_errors = 0, us_busy = 0,
     us_no_peer = 0, us_duplicates = 0, us_conflicts = 0, us_send_errors = 0, us_timeouts = 0, us_failures = 0,
     us_stale = 0, us_invalid_responses = 0\<rparr>"

definition modbus_udp_listener_init :: "'n net_calls \<Rightarrow> 'n \<Rightarrow> bool \<Rightarrow> 'n modbus_udp_listener" where
  "modbus_udp_listener_init sk n rtu = \<lparr>ul_fd = - 1, rtu_mode = rtu, ul_next_epoch = 1, next_peer = 0, ul_now = 0,
     peers = replicate MODBUS_UDP_PEERS zero_peer, udp_stats = zero_udp_stats, unet = sk, unet_state = n\<rparr>"

definition modbus_udp_listener_open ::
  "'n modbus_udp_listener \<Rightarrow> string option \<Rightarrow> u16 \<Rightarrow> int \<times> 'n modbus_udp_listener" where
  "modbus_udp_listener_open l address port =
     (if address = None \<or> ul_fd l \<ge> 0 then (- 1, l)
      else
        let sk = unet l; sa = endpoint sk (the address) port in
        if sin_addr sa = INADDR_NONE then (- 1, l)
        else let (f, n) = net_socket sk (unet_state l) SOCK_DGRAM in
        if f < 0 then (- 1, l\<lparr>unet_state := n\<rparr>)
        else
          let (r, n) = nonblocking sk n f; (r, n) = (if r < 0 then (- 1, n) else net_bind sk n f sa)
          in if r < 0 then (- 1, l\<lparr>unet_state := net_close sk n f\<rparr>)
             else (0, l\<lparr>ul_fd := f, unet_state := n\<rparr>))"

definition modbus_udp_listener_close :: "'n modbus_udp_listener \<Rightarrow> 'n modbus_udp_listener" where
  "modbus_udp_listener_close l =
     (let l = (if ul_fd l \<ge> 0 then l\<lparr>unet_state := net_close (unet l) (unet_state l) (ul_fd l)\<rparr> else l)
      in l\<lparr>ul_fd := - 1, peers := replicate MODBUS_UDP_PEERS zero_peer\<rparr>)"

definition modbus_udp_listener_peer_count :: "'n modbus_udp_listener \<Rightarrow> u32" where
  "modbus_udp_listener_peer_count l = of_nat (length (filter up_used (peers l)))"

section \<open>Receiving\<close>

text \<open>The request in a datagram: \<open>Inl\<close> tells whether the checksum is what is wrong.\<close>

definition decode_datagram :: "bool \<Rightarrow> u8 list \<Rightarrow> bool + (u16 \<times> u8 list)" where
  "decode_datagram rtu data =
     (let n = length data in
      if rtu then
        if n < 4 \<or> n > MODBUS_RTU_ADU_MAX then Inl False
        else if modbus_crc16 (take (n - 2) data) \<noteq> crc_of_trailer (data ! (n - 2)) (data ! (n - 1)) then Inl True
        else Inr (0, data)
      else
        if n < 8 \<or> n > MBAP_ADU_MAX \<or> data ! 2 \<noteq> 0 \<or> data ! 3 \<noteq> 0 \<or> be16 (data ! 4) (data ! 5) \<noteq> n - 6 then Inl False
        else let body = drop 6 data in
             Inr (of_nat (be16 (data ! 0) (data ! 1)), body @ crc_trailer (modbus_crc16 body)))"

definition peer_idle :: "tick \<Rightarrow> modbus_udp_peer \<Rightarrow> bool" where
  "peer_idle now q \<longleftrightarrow> up_used q \<and> \<not> up_pending q \<and> core_elapsed (up_last_seen q) now \<ge> MODBUS_UDP_IDLE_TIMEOUT"

text \<open>The loop over the peers: idle ones are forgotten, a free one and the sender's are looked for.\<close>

definition scan_peer ::
  "sockaddr_in \<Rightarrow> tick \<Rightarrow> modbus_udp_peer list \<times> nat option \<times> nat option \<Rightarrow> nat \<Rightarrow>
   modbus_udp_peer list \<times> nat option \<times> nat option"
where
  "scan_peer source now s i =
     (case s of (ps, free, found) \<Rightarrow>
        let ps = (if peer_idle now (ps ! i) then ps[i := zero_peer] else ps) in
        if \<not> up_used (ps ! i) then (ps, if free = None then Some i else free, found)
        else (ps, free, if sin_addr (up_address (ps ! i)) = sin_addr source \<and>
                           sin_port (up_address (ps ! i)) = sin_port source then Some i else found))"

definition repeated :: "bool \<Rightarrow> tick \<Rightarrow> u16 \<Rightarrow> modbus_udp_peer \<Rightarrow> bool" where
  "repeated rtu now tid p \<longleftrightarrow> up_pending p \<or>
     (\<not> rtu \<and> up_cached p \<and> up_tid p = tid \<and> core_elapsed (up_completed_at p) now < MODBUS_UDP_CACHE_TIMEOUT)"

text \<open>What is done with a valid request of peer \<open>k\<close>.\<close>

definition admit_request ::
  "'n modbus_udp_listener \<Rightarrow> nat \<Rightarrow> u16 \<Rightarrow> u8 list \<Rightarrow> tick \<Rightarrow> int \<times> 'n modbus_udp_listener" where
  "admit_request l k tid rtu now =
     (let p = peer_at l k in
      if repeated (rtu_mode l) now tid p then
        (1, if up_tid p = tid \<and> up_rtu p = rtu then
              let l = inc us_duplicates_update l in if \<not> up_pending p then send_response l p else l
            else if \<not> rtu_mode l \<and> up_tid p = tid then inc us_conflicts_update l
            else inc us_busy_update l)
      else
        (0, inc us_accepted_update (set_peer l k
              (p\<lparr>up_tid := tid, up_rtu := rtu, up_pending := True, up_submitted := False, up_cached := False,
                 up_response := [], up_admitted_at := now, up_last_seen := now\<rparr>))))"

definition modbus_udp_listener_receive ::
  "'n modbus_udp_listener \<Rightarrow> sockaddr_in \<Rightarrow> u8 list \<Rightarrow> tick \<Rightarrow> int \<times> 'n modbus_udp_listener" where
  "modbus_udp_listener_receive l source data now =
     (if ul_fd l < 0 \<or> sin_family source \<noteq> AF_INET then (- 1, l)
      else
        let l = inc us_received_update (l\<lparr>ul_now := now\<rparr>) in
        case decode_datagram (rtu_mode l) data of
          Inl crc \<Rightarrow> (- 1, inc us_malformed_update (if crc then inc us_crc_errors_update l else l))
        | Inr (tid, rtu) \<Rightarrow>
            if \<not> request_valid rtu then (- 1, inc us_malformed_update l)
            else
              (case foldl (scan_peer source now) (peers l, None, None) [0..<MODBUS_UDP_PEERS] of
                (ps, free, found) \<Rightarrow>
                  let l = l\<lparr>peers := ps\<rparr> in
                  case found of
                    Some k \<Rightarrow> admit_request l k tid rtu now
                  | None \<Rightarrow>
                      (case free of None \<Rightarrow> (- 2, inc us_no_peer_update l)
                       | Some k \<Rightarrow>
                           let e = ul_next_epoch l;
                               l = set_peer l k (zero_peer\<lparr>up_used := True, up_address := source, up_epoch := e\<rparr>)
                           in admit_request (l\<lparr>ul_next_epoch := (if e + 1 = 0 then 1 else e + 1)\<rparr>) k tid rtu now)))"

section \<open>Dispatching\<close>

definition queue_exception :: "modbus_udp_peer \<Rightarrow> u8 list" where
  "queue_exception p = [ucast (drop_bit 8 (up_tid p)), ucast (up_tid p), 0, 0, 0, 3, up_rtu p ! 0,
     (up_rtu p ! 1) OR 0x80, 0x0a]"

definition udp_metadata :: "modbus_udp_peer \<Rightarrow> u32 list" where
  "udp_metadata p = [ucast (up_tid p), push_bit 8 (ucast (up_rtu p ! 0)) OR ucast (up_rtu p ! 1), up_epoch p, 0]"

text \<open>The loop over the peers from \<open>next_peer\<close> on; it returns after the first request it offers to the port.\<close>

primrec dispatch_peers ::
  "nat list \<Rightarrow> 'n modbus_udp_listener \<Rightarrow> ('b, 'c) port_runtime \<Rightarrow> tick \<Rightarrow>
   'n modbus_udp_listener \<times> ('b, 'c) port_runtime"
where
  "dispatch_peers [] l p now = (l, p)"
| "dispatch_peers (k # ks) l p now =
     (let q = peer_at l k in
      if \<not> up_pending q \<or> up_submitted q then dispatch_peers ks l p now
      else if core_elapsed (up_admitted_at q) now \<ge> MODBUS_UDP_QUEUE_TIMEOUT then
        let q = q\<lparr>up_response := (if rtu_mode l then [] else queue_exception q)\<rparr>
        in dispatch_peers ks (udp_finish (set_peer (inc us_timeouts_update l) k q) k) p now
      else
        let (result, tid, p) = port_runtime_submit_operation p (Some (up_rtu q)) MODBUS_OWNER_UDP (of_nat k)
              (Some (udp_metadata q)) (Some framed_operation) now
              (MODBUS_UDP_QUEUE_TIMEOUT - core_elapsed (up_admitted_at q) now) MODBUS_UDP_RESPONSE_TIMEOUT;
            q = (case tid of None \<Rightarrow> q | Some i \<Rightarrow> q\<lparr>up_transaction_id := i\<rparr>);
            q = (if result = CORE_ACCEPTED then q\<lparr>up_submitted := True\<rparr> else q)
        in ((set_peer l k q)\<lparr>next_peer := (k + 1) mod MODBUS_UDP_PEERS\<rparr>, p))"

definition dispatch_one ::
  "'n modbus_udp_listener \<Rightarrow> ('b, 'c) port_runtime \<Rightarrow> tick \<Rightarrow>
   'n modbus_udp_listener \<times> ('b, 'c) port_runtime" where
  "dispatch_one l p now =
     dispatch_peers (map (\<lambda>i. (next_peer l + i) mod MODBUS_UDP_PEERS) [0..<MODBUS_UDP_PEERS]) l p now"

text \<open>The receiving loop takes at most the given number of datagrams.\<close>

primrec receive_loop :: "nat \<Rightarrow> 'n modbus_udp_listener \<Rightarrow> tick \<Rightarrow> 'n modbus_udp_listener" where
  "receive_loop 0 l now = l"
| "receive_loop (Suc i) l now =
     (let (n, bs, source, ok, w) = net_recvfrom (unet l) (unet_state l) (ul_fd l) (MBAP_ADU_MAX + 1);
          l = l\<lparr>unet_state := w\<rparr> in
      if n < 0 then (if net_errno (unet l) w = EINTR then receive_loop i l now else l)
      else receive_loop i (if ok then snd (modbus_udp_listener_receive l source (take (nat n) bs) now) else l) now)"

definition forget_idle :: "'n modbus_udp_listener \<Rightarrow> tick \<Rightarrow> 'n modbus_udp_listener" where
  "forget_idle l now = l\<lparr>peers := map (\<lambda>q. if peer_idle now q then zero_peer else q) (peers l)\<rparr>"

definition modbus_udp_listener_step_io ::
  "'n modbus_udp_listener \<Rightarrow> ('b, 'c) port_runtime \<Rightarrow> tick \<Rightarrow> 'n modbus_udp_listener \<times> ('b, 'c) port_runtime"
where
  "modbus_udp_listener_step_io l p now =
     (if ul_fd l < 0 then (l, p)
      else
        let l = receive_loop MODBUS_UDP_STEP_MAX (l\<lparr>ul_now := now\<rparr>) now;
            (l, p) = dispatch_one l p now
        in (forget_idle l now, p))"

end
