(* ===== verification/Raw_Serial_Listener.thy ===== *)
theory Raw_Serial_Listener
  imports Uart_Backend Net_Sockets
begin

text \<open>
  The raw serial listener of \<open>src/network/raw_serial_listener.c\<close>: bytes of one network peer at a time are carried
  to the serial line and back, over TCP or UDP. The serial line is the backend of the port, which the listener
  shares with the port runtime, so its operations take the port along. A byte buffer with its length is a list.
\<close>

abbreviation RAW_BUFFER_SIZE :: nat where "RAW_BUFFER_SIZE \<equiv> 1024"
abbreviation RAW_NETWORK_BUDGET :: nat where "RAW_NETWORK_BUDGET \<equiv> 4"
abbreviation RAW_UDP_IDLE_MS :: tick where "RAW_UDP_IDLE_MS \<equiv> 30000"
abbreviation RAW_STALL_MS :: tick where "RAW_STALL_MS \<equiv> 5000"
abbreviation RAW_PACKET_GAP_MS :: tick where "RAW_PACKET_GAP_MS \<equiv> 10"
abbreviation RAW_OWNER_GUARD_MS :: tick where "RAW_OWNER_GUARD_MS \<equiv> 100"
abbreviation RAW_EOF_IDLE_MS :: tick where "RAW_EOF_IDLE_MS \<equiv> 1000"
abbreviation TCIOFLUSH :: int where "TCIOFLUSH \<equiv> 2"

record raw_serial_stats =
  rs_network_received :: u32
  rs_network_sent :: u32
  rs_serial_read :: u32
  rs_serial_written :: u32
  rs_rejected_peers :: u32
  rs_dropped_datagrams :: u32
  rs_discarded_serial :: u32
  rs_io_errors :: u32
  rs_stalls :: u32
  rs_releases :: u32

record 'n raw_serial_listener =
  rl_fd :: int
  rl_client_fd :: int
  rl_udp :: bool
  rl_owned :: bool
  rl_eof :: bool
  rl_guard :: bool
  rl_flush_pending :: bool
  rl_peer :: sockaddr_in
  rl_tx :: "u8 list"
  rl_rx :: "u8 list"
  rl_now :: tick
  rl_activity_at :: tick
  rl_tx_progress_at :: tick
  rl_rx_progress_at :: tick
  rl_serial_at :: tick
  rl_quiet_at :: tick
  rl_stats :: raw_serial_stats
  rl_net :: "'n net_calls"
  rl_net_state :: 'n

type_synonym ('w, 'c) line_port = "('w uart_backend, 'c) port_runtime"
type_synonym ('n, 'w, 'c) raw_state = "'n raw_serial_listener \<times> ('w, 'c) line_port"

text \<open>A counter that saturates.\<close>

definition add_count :: "nat \<Rightarrow> u32 \<Rightarrow> u32" where
  "add_count n v = add_counter v (of_nat n)"

abbreviation tally ::
  "((u32 \<Rightarrow> u32) \<Rightarrow> raw_serial_stats \<Rightarrow> raw_serial_stats) \<Rightarrow> nat \<Rightarrow> 'n raw_serial_listener \<Rightarrow> 'n raw_serial_listener" where
  "tally field n l \<equiv> l\<lparr>rl_stats := field (add_count n) (rl_stats l)\<rparr>"

abbreviation tally_line ::
  "((u32 \<Rightarrow> u32) \<Rightarrow> uart_backend_stats \<Rightarrow> uart_backend_stats) \<Rightarrow> nat \<Rightarrow> 'w uart_backend \<Rightarrow> 'w uart_backend" where
  "tally_line field n u \<equiv> u\<lparr>ub_stats := field (add_count n) (ub_stats u)\<rparr>"

section \<open>Releasing the owner\<close>

definition serial_fault :: "('n, 'w, 'c) raw_state \<Rightarrow> ('n, 'w, 'c) raw_state" where
  "serial_fault s =
     (let (l, p) = s; l = tally rs_io_errors_update 1 l
      in (l, snd (port_runtime_report_io_failure p (rl_now l) (Some ''raw serial I/O failed''))))"

definition flush_boundary :: "('n, 'w, 'c) raw_state \<Rightarrow> int \<times> ('n, 'w, 'c) raw_state" where
  "flush_boundary s =
     (let (l, p) = s; u = backend_context p in
      if \<not> rl_flush_pending l then (0, s)
      else if fd u < 0 then (- 1, s)
      else
        let (r, w) = tcflush_fn (sys u) (world u) (fd u) TCIOFLUSH; p = p\<lparr>backend_context := u\<lparr>world := w\<rparr>\<rparr> in
        if r \<noteq> 0 then (- 1, serial_fault (l, p))
        else (0, l\<lparr>rl_flush_pending := False, rl_guard := True, rl_quiet_at := rl_now l\<rparr>, p))"

definition release :: "('n, 'w, 'c) raw_state \<Rightarrow> int \<times> ('n, 'w, 'c) raw_state" where
  "release s =
     (let (l, p) = s;
          l = (if rl_client_fd l \<ge> 0 then l\<lparr>rl_net_state := net_close (rl_net l) (rl_net_state l) (rl_client_fd l)\<rparr> else l);
          l = l\<lparr>rl_client_fd := - 1\<rparr>;
          l = (if rl_owned l then (tally rs_releases_update 1 l)\<lparr>rl_flush_pending := True\<rparr> else l);
          (result, l, p) = flush_boundary (l, p)
      in (result, l\<lparr>rl_owned := False, rl_eof := False, rl_tx := [], rl_rx := [], rl_guard := True, rl_quiet_at := rl_now l\<rparr>, p))"

section \<open>Opening and closing\<close>

definition zero_raw_stats :: raw_serial_stats where
  "zero_raw_stats = \<lparr>rs_network_received = 0, rs_network_sent = 0, rs_serial_read = 0, rs_serial_written = 0,
     rs_rejected_peers = 0, rs_dropped_datagrams = 0, rs_discarded_serial = 0, rs_io_errors = 0, rs_stalls = 0,
     rs_releases = 0\<rparr>"

definition raw_serial_listener_init :: "'n net_calls \<Rightarrow> 'n \<Rightarrow> bool \<Rightarrow> 'n raw_serial_listener" where
  "raw_serial_listener_init sk n udp = \<lparr>rl_fd = - 1, rl_client_fd = - 1, rl_udp = udp, rl_owned = False, rl_eof = False,
     rl_guard = False, rl_flush_pending = False, rl_peer = zero_sockaddr, rl_tx = [], rl_rx = [], rl_now = 0,
     rl_activity_at = 0, rl_tx_progress_at = 0, rl_rx_progress_at = 0, rl_serial_at = 0, rl_quiet_at = 0,
     rl_stats = zero_raw_stats, rl_net = sk, rl_net_state = n\<rparr>"

definition raw_serial_listener_open ::
  "'n raw_serial_listener \<Rightarrow> string option \<Rightarrow> u16 \<Rightarrow> int \<times> 'n raw_serial_listener" where
  "raw_serial_listener_open l address port =
     (if address = None \<or> rl_fd l \<ge> 0 then (- 1, l)
      else
        let sk = rl_net l; sa = endpoint sk (the address) port in
        if sin_addr sa = INADDR_NONE then (- 1, l)
        else let (f, n) = net_socket sk (rl_net_state l) (if rl_udp l then SOCK_DGRAM else SOCK_STREAM) in
        if f < 0 then (- 1, l\<lparr>rl_net_state := n\<rparr>)
        else
          let n = (if \<not> rl_udp l then net_setsockopt sk n f SO_REUSEADDR else n);
              (r, n) = nonblocking sk n f;
              (r, n) = (if r < 0 then (- 1, n) else net_bind sk n f sa);
              (r, n) = (if r < 0 then (- 1, n) else if \<not> rl_udp l then net_listen sk n f 4 else (0, n))
          in if r < 0 then (- 1, l\<lparr>rl_net_state := net_close sk n f\<rparr>)
             else (0, l\<lparr>rl_fd := f, rl_net_state := n\<rparr>))"

definition raw_serial_listener_close :: "('n, 'w, 'c) raw_state \<Rightarrow> int \<times> ('n, 'w, 'c) raw_state" where
  "raw_serial_listener_close s =
     (let (result, l, p) = release s;
          l = (if rl_fd l \<ge> 0 then l\<lparr>rl_net_state := net_close (rl_net l) (rl_net_state l) (rl_fd l)\<rparr> else l)
      in (result, l\<lparr>rl_fd := - 1\<rparr>, p))"

section \<open>From the network\<close>

definition acquire :: "'n raw_serial_listener \<Rightarrow> 'n raw_serial_listener" where
  "acquire l = l\<lparr>rl_owned := True, rl_eof := False, rl_activity_at := rl_now l, rl_tx_progress_at := rl_now l,
     rl_rx_progress_at := rl_now l\<rparr>"

text \<open>Bytes for the serial line are stored.\<close>

definition store_tx :: "nat \<Rightarrow> u8 list \<Rightarrow> 'n raw_serial_listener \<Rightarrow> 'n raw_serial_listener" where
  "store_tx n bs l =
     (let l = (if rl_tx l = [] then l\<lparr>rl_tx_progress_at := rl_now l\<rparr> else l)
      in tally rs_network_received_update n (l\<lparr>rl_tx := rl_tx l @ take n bs, rl_activity_at := rl_now l\<rparr>))"

definition receive_datagram ::
  "'n raw_serial_listener \<Rightarrow> int \<Rightarrow> u8 list \<Rightarrow> sockaddr_in \<Rightarrow> bool \<Rightarrow> 'n raw_serial_listener" where
  "receive_datagram l n bs source ok =
     (if n = 0 \<or> n > int RAW_BUFFER_SIZE \<or> \<not> ok \<or> sin_family source \<noteq> AF_INET then tally rs_dropped_datagrams_update 1 l
      else if rl_guard l \<or> (rl_owned l \<and> (sin_addr source \<noteq> sin_addr (rl_peer l) \<or> sin_port source \<noteq> sin_port (rl_peer l)))
      then tally rs_rejected_peers_update 1 l
      else if nat n > RAW_BUFFER_SIZE - length (rl_tx l) then tally rs_dropped_datagrams_update 1 l
      else store_tx (nat n) bs (if \<not> rl_owned l then acquire (l\<lparr>rl_peer := source\<rparr>) else l))"

primrec receive_datagrams :: "nat \<Rightarrow> 'n raw_serial_listener \<Rightarrow> 'n raw_serial_listener" where
  "receive_datagrams 0 l = l"
| "receive_datagrams (Suc i) l =
     (let (n, bs, source, ok, w) = net_recvfrom (rl_net l) (rl_net_state l) (rl_fd l) (RAW_BUFFER_SIZE + 1);
          l = l\<lparr>rl_net_state := w\<rparr> in
      if n < 0 then (if \<not> transient (net_errno (rl_net l) w) then tally rs_io_errors_update 1 l else l)
      else receive_datagrams i (receive_datagram l n bs source ok))"

primrec accept_clients :: "nat \<Rightarrow> 'n raw_serial_listener \<Rightarrow> 'n raw_serial_listener" where
  "accept_clients 0 l = l"
| "accept_clients (Suc i) l =
     (let sk = rl_net l; (f, n) = net_accept sk (rl_net_state l) (rl_fd l) in
      if f < 0 then l\<lparr>rl_net_state := n\<rparr>
      else
        let (refused, n) = (if rl_owned l \<or> rl_guard l then (True, n) else let (r, n) = nonblocking sk n f in (r < 0, n)) in
        if refused
        then accept_clients i (tally rs_rejected_peers_update 1 (l\<lparr>rl_net_state := net_close sk n f\<rparr>))
        else accept_clients i (acquire (l\<lparr>rl_net_state := net_setsockopt sk n f TCP_NODELAY, rl_client_fd := f\<rparr>)))"

definition receive_stream :: "('n, 'w, 'c) raw_state \<Rightarrow> ('n, 'w, 'c) raw_state" where
  "receive_stream s =
     (let (l, p) = s in
      if \<not> rl_owned l \<or> rl_eof l \<or> length (rl_tx l) = RAW_BUFFER_SIZE then s
      else
        let (n, bs, w) = net_recv (rl_net l) (rl_net_state l) (rl_client_fd l) (RAW_BUFFER_SIZE - length (rl_tx l));
            l = l\<lparr>rl_net_state := w\<rparr> in
        if n > 0 then (store_tx (nat n) bs l, p)
        else if n = 0 then (l\<lparr>rl_eof := True, rl_activity_at := rl_now l\<rparr>, p)
        else if \<not> transient (net_errno (rl_net l) w) then snd (release (tally rs_io_errors_update 1 l, p))
        else (l, p))"

definition network_receive :: "('n, 'w, 'c) raw_state \<Rightarrow> ('n, 'w, 'c) raw_state" where
  "network_receive s =
     (let (l, p) = s in
      if rl_udp l then (receive_datagrams RAW_NETWORK_BUDGET l, p)
      else receive_stream (accept_clients RAW_NETWORK_BUDGET l, p))"

section \<open>The serial line\<close>

text \<open>The end of \<open>serial_read\<close> and \<open>serial_write\<close> on a hard error of the line.\<close>

definition line_failed :: "('n, 'w, 'c) raw_state \<Rightarrow> ('n, 'w, 'c) raw_state" where
  "line_failed s =
     (let (l, p) = s; p = p\<lparr>backend_context := tally_line hard_errors_update 1 (backend_context p)\<rparr>
      in serial_fault (snd (release (l, p))))"

definition read_capacity :: "'n raw_serial_listener \<Rightarrow> nat" where
  "read_capacity l =
     (let capacity = (if rl_owned l then RAW_BUFFER_SIZE - length (rl_rx l) else UART_IO_BUDGET)
      in if capacity > UART_IO_BUDGET then UART_IO_BUDGET else capacity)"

definition serial_read :: "('n, 'w, 'c) raw_state \<Rightarrow> ('n, 'w, 'c) raw_state" where
  "serial_read s =
     (let (l, p) = s in
      if read_capacity l = 0 then s
      else
        let (n, bs, u) = sys_read (tally_line read_calls_update 1 (backend_context p)) (read_capacity l) in
        if n > 0 then
          let l = tally rs_serial_read_update (nat n) l;
              p = p\<lparr>backend_context := tally_line bytes_read_update (nat n) u\<rparr> in
          if \<not> rl_owned l
          then ((tally rs_discarded_serial_update (nat n) l)\<lparr>rl_guard := True, rl_quiet_at := rl_now l\<rparr>, p)
          else
            let l = (if rl_rx l = [] then l\<lparr>rl_rx_progress_at := rl_now l\<rparr> else l)
            in (l\<lparr>rl_rx := rl_rx l @ take (nat n) bs, rl_activity_at := rl_now l, rl_serial_at := rl_now l\<rparr>, p)
        else
          let (error, u) = (if n < 0 then sys_last_error u else (0, u)) in
          if n < 0 \<and> \<not> transient error then line_failed (l, p\<lparr>backend_context := u\<rparr>)
          else
            let (error, u) = (if n < 0 then sys_last_error u else (0, u)); p = p\<lparr>backend_context := u\<rparr> in
            if n < 0 \<and> error = EINTR
            then (if \<not> rl_owned l then (l\<lparr>rl_guard := True, rl_quiet_at := rl_now l\<rparr>, p) else (l, p))
            else if \<not> rl_owned l \<and> rl_guard l \<and> core_elapsed (rl_quiet_at l) (rl_now l) \<ge> RAW_OWNER_GUARD_MS
            then (l\<lparr>rl_guard := False\<rparr>, p)
            else (l, p))"

definition serial_write :: "('n, 'w, 'c) raw_state \<Rightarrow> ('n, 'w, 'c) raw_state" where
  "serial_write s =
     (let (l, p) = s; bs = take UART_IO_BUDGET (rl_tx l) in
      if rl_tx l = [] then s
      else
        let (n, u) = sys_write (tally_line write_calls_update 1 (backend_context p)) bs in
        if n > 0 then
          let u = (if nat n < length bs then tally_line short_writes_update 1 u else u);
              l = l\<lparr>rl_tx := drop (nat n) (rl_tx l), rl_tx_progress_at := rl_now l, rl_activity_at := rl_now l\<rparr>
          in (tally rs_serial_written_update (nat n) l, p\<lparr>backend_context := tally_line bytes_written_update (nat n) u\<rparr>)
        else
          let (error, u) = (if n < 0 then sys_last_error u else (0, u)); p = p\<lparr>backend_context := u\<rparr> in
          if n < 0 \<and> \<not> transient error then line_failed (l, p) else (l, p))"

section \<open>To the network\<close>

definition network_send :: "('n, 'w, 'c) raw_state \<Rightarrow> ('n, 'w, 'c) raw_state" where
  "network_send s =
     (let (l, p) = s in
      if \<not> rl_owned l \<or> rl_rx l = [] then s
      else if rl_udp l \<and> length (rl_rx l) < RAW_BUFFER_SIZE \<and> core_elapsed (rl_serial_at l) (rl_now l) < RAW_PACKET_GAP_MS
      then s
      else
        let (n, w) = (if rl_udp l then net_sendto (rl_net l) (rl_net_state l) (rl_fd l) (rl_rx l) (rl_peer l)
                      else net_send (rl_net l) (rl_net_state l) (rl_client_fd l) (rl_rx l));
            l = l\<lparr>rl_net_state := w\<rparr> in
        if rl_udp l \<and> n \<ge> 0 \<and> n \<noteq> int (length (rl_rx l)) then snd (release (tally rs_io_errors_update 1 l, p))
        else if n > 0
        then (tally rs_network_sent_update (nat n)
                (l\<lparr>rl_rx := drop (nat n) (rl_rx l), rl_rx_progress_at := rl_now l, rl_activity_at := rl_now l\<rparr>), p)
        else if n < 0 \<and> \<not> transient (net_errno (rl_net l) w) then snd (release (tally rs_io_errors_update 1 l, p))
        else (l, p))"

section \<open>A step\<close>

definition session_over :: "'n raw_serial_listener \<Rightarrow> tick \<Rightarrow> bool" where
  "session_over l now \<longleftrightarrow> rl_owned l \<and>
     ((rl_udp l \<and> core_elapsed (rl_activity_at l) now \<ge> RAW_UDP_IDLE_MS) \<or>
      (rl_eof l \<and> rl_tx l = [] \<and> rl_rx l = [] \<and> core_elapsed (rl_activity_at l) now \<ge> RAW_EOF_IDLE_MS))"

definition session_stalled :: "'n raw_serial_listener \<Rightarrow> tick \<Rightarrow> bool" where
  "session_stalled l now \<longleftrightarrow> rl_owned l \<and>
     ((rl_tx l \<noteq> [] \<and> core_elapsed (rl_tx_progress_at l) now \<ge> RAW_STALL_MS) \<or>
      (rl_rx l \<noteq> [] \<and> core_elapsed (rl_rx_progress_at l) now \<ge> RAW_STALL_MS))"

definition when_ready :: "(('n, 'w, 'c) raw_state \<Rightarrow> ('n, 'w, 'c) raw_state) \<Rightarrow> ('n, 'w, 'c) raw_state \<Rightarrow> ('n, 'w, 'c) raw_state" where
  "when_ready f s = (if pr_state (snd s) \<noteq> PORT_READY then s else f s)"

definition raw_serial_listener_step :: "('n, 'w, 'c) raw_state \<Rightarrow> tick \<Rightarrow> ('n, 'w, 'c) raw_state" where
  "raw_serial_listener_step s now =
     (let (l, p) = s in
      if rl_fd l < 0 \<or> fd (backend_context p) < 0 \<or> pr_state p \<noteq> PORT_READY \<or> has_active p \<or> q_count (pr_queue p) \<noteq> 0
      then s
      else
        let (r, l, p) = flush_boundary (l\<lparr>rl_now := now\<rparr>, p) in
        if r \<noteq> 0 then (l, p)
        else
          let s = (if session_over l now then snd (release (l, p)) else (l, p));
              s = (if session_stalled (fst s) now then (case s of (l, p) \<Rightarrow> snd (release (tally rs_stalls_update 1 l, p))) else s)
          in when_ready network_send (when_ready serial_write (when_ready network_receive (when_ready serial_read s))))"

end
