(* ===== verification/Raw_Session.thy ===== *)
theory Raw_Session
  imports Raw_Serial_Listener "HOL-Library.Sublist"
begin

text \<open>
  Sessions of the raw serial listener: a new owner is admitted only behind a flushed and quiet line, and within a
  session the bytes of both directions are carried unchanged and in order. The traffic is observed by recording, beside
  the state of arbitrary socket functions and system calls, what they delivered and accepted.
\<close>

section \<open>Recording the traffic\<close>

record 'n net_log =
  nl_base :: 'n
  nl_got :: "(sockaddr_in \<times> u8 list) list"
  nl_gave :: "u8 list"

definition note_got :: "int \<Rightarrow> sockaddr_in \<Rightarrow> u8 list \<Rightarrow> 'n net_log \<Rightarrow> 'n net_log" where
  "note_got r source bs n = (if r > 0 then n\<lparr>nl_got := nl_got n @ [(source, take (nat r) bs)]\<rparr> else n)"

definition note_gave :: "int \<Rightarrow> u8 list \<Rightarrow> 'n net_log \<Rightarrow> 'n net_log" where
  "note_gave r bs n = n\<lparr>nl_gave := nl_gave n @ take (nat r) bs\<rparr>"

definition logged_net :: "'n net_calls \<Rightarrow> 'n net_log net_calls" where
  "logged_net sk = \<lparr>net_inet_addr = net_inet_addr sk,
     net_socket = \<lambda>n t. (case net_socket sk (nl_base n) t of (r, b) \<Rightarrow> (r, n\<lparr>nl_base := b\<rparr>)),
     net_setsockopt = \<lambda>n f opt. n\<lparr>nl_base := net_setsockopt sk (nl_base n) f opt\<rparr>,
     net_getfl = \<lambda>n f. (case net_getfl sk (nl_base n) f of (r, b) \<Rightarrow> (r, n\<lparr>nl_base := b\<rparr>)),
     net_setfl = \<lambda>n f v. (case net_setfl sk (nl_base n) f v of (r, b) \<Rightarrow> (r, n\<lparr>nl_base := b\<rparr>)),
     net_bind = \<lambda>n f a. (case net_bind sk (nl_base n) f a of (r, b) \<Rightarrow> (r, n\<lparr>nl_base := b\<rparr>)),
     net_listen = \<lambda>n f b. (case net_listen sk (nl_base n) f b of (r, b) \<Rightarrow> (r, n\<lparr>nl_base := b\<rparr>)),
     net_accept = \<lambda>n f. (case net_accept sk (nl_base n) f of (r, b) \<Rightarrow> (r, n\<lparr>nl_base := b\<rparr>)),
     net_recv = \<lambda>n f cap. (case net_recv sk (nl_base n) f cap of (r, bs, b) \<Rightarrow>
       (r, bs, note_got r zero_sockaddr bs (n\<lparr>nl_base := b\<rparr>))),
     net_send = \<lambda>n f bs. (case net_send sk (nl_base n) f bs of (r, b) \<Rightarrow> (r, note_gave r bs (n\<lparr>nl_base := b\<rparr>))),
     net_recvfrom = \<lambda>n f cap. (case net_recvfrom sk (nl_base n) f cap of (r, bs, source, ok, b) \<Rightarrow>
       (r, bs, source, ok, note_got r source bs (n\<lparr>nl_base := b\<rparr>))),
     net_sendto = \<lambda>n f bs a. (case net_sendto sk (nl_base n) f bs a of (r, b) \<Rightarrow> (r, note_gave r bs (n\<lparr>nl_base := b\<rparr>))),
     net_close = \<lambda>n f. n\<lparr>nl_base := net_close sk (nl_base n) f\<rparr>,
     net_errno = \<lambda>n. net_errno sk (nl_base n)\<rparr>"

record 'w line_log =
  ll_base :: 'w
  ll_read :: "u8 list"
  ll_wrote :: "u8 list"

definition logged_line :: "'w uart_syscalls \<Rightarrow> 'w line_log uart_syscalls" where
  "logged_line sc = \<lparr>open_fn = \<lambda>w d v. (case open_fn sc (ll_base w) d v of (r, b) \<Rightarrow> (r, w\<lparr>ll_base := b\<rparr>)),
     close_fn = \<lambda>w f. (case close_fn sc (ll_base w) f of (r, b) \<Rightarrow> (r, w\<lparr>ll_base := b\<rparr>)),
     read_fn = \<lambda>w f n. (case read_fn sc (ll_base w) f n of (r, bs, b) \<Rightarrow>
       (r, bs, w\<lparr>ll_base := b, ll_read := ll_read w @ take (nat r) bs\<rparr>)),
     write_fn = \<lambda>w f bs. (case write_fn sc (ll_base w) f bs of (r, b) \<Rightarrow>
       (r, w\<lparr>ll_base := b, ll_wrote := ll_wrote w @ take (nat r) bs\<rparr>)),
     ioctl_fn = \<lambda>w f q v. (case ioctl_fn sc (ll_base w) f q v of (r, v, b) \<Rightarrow> (r, v, w\<lparr>ll_base := b\<rparr>)),
     tcgetattr_fn = \<lambda>w f v. (case tcgetattr_fn sc (ll_base w) f v of (r, v, b) \<Rightarrow> (r, v, w\<lparr>ll_base := b\<rparr>)),
     tcsetattr_fn = \<lambda>w f a v. (case tcsetattr_fn sc (ll_base w) f a v of (r, b) \<Rightarrow> (r, w\<lparr>ll_base := b\<rparr>)),
     tcflush_fn = \<lambda>w f q. (case tcflush_fn sc (ll_base w) f q of (r, b) \<Rightarrow> (r, w\<lparr>ll_base := b\<rparr>)),
     last_error_fn = \<lambda>w. (case last_error_fn sc (ll_base w) of (r, b) \<Rightarrow> (r, w\<lparr>ll_base := b\<rparr>))\<rparr>"

definition writes_at_most :: "'w uart_syscalls \<Rightarrow> bool" where
  "writes_at_most sc \<longleftrightarrow> (\<forall>w f bs. fst (write_fn sc w f bs) \<le> int (length bs))"

definition observed :: "'n net_calls \<Rightarrow> 'w uart_syscalls \<Rightarrow> ('n net_log, 'w line_log, 'c) raw_state \<Rightarrow> bool" where
  "observed sk sc s \<longleftrightarrow> rl_net (fst s) = logged_net sk \<and> sys (backend_context (snd s)) = logged_line sc"

abbreviation line_of :: "('n, 'w, 'c) raw_state \<Rightarrow> 'w" where "line_of s \<equiv> world (backend_context (snd s))"
abbreviation net_of :: "('n, 'w, 'c) raw_state \<Rightarrow> 'n" where "net_of s \<equiv> rl_net_state (fst s)"

section \<open>The state between two calls\<close>

definition raw_wf :: "'n raw_serial_listener \<Rightarrow> bool" where
  "raw_wf l \<longleftrightarrow> (\<not> rl_owned l \<longrightarrow> rl_tx l = [] \<and> rl_rx l = [] \<and> \<not> rl_eof l \<and> rl_client_fd l < 0) \<and>
     (rl_owned l \<longrightarrow> \<not> rl_guard l \<and> \<not> rl_flush_pending l) \<and> (rl_flush_pending l \<longrightarrow> rl_guard l) \<and>
     length (rl_tx l) \<le> RAW_BUFFER_SIZE \<and> (rl_udp l \<longrightarrow> rl_client_fd l < 0)"

text \<open>Nobody owns the line and nobody can until the line has been quiet.\<close>

definition fenced :: "'n raw_serial_listener \<Rightarrow> bool" where
  "fenced l \<longleftrightarrow> raw_wf l \<and> \<not> rl_owned l \<and> rl_guard l \<and> rl_quiet_at l = rl_now l"

lemma report_keeps [simp]: "backend_context (snd (port_runtime_report_io_failure p now m)) = backend_context p"
  by (simp add: port_runtime_report_io_failure_def begin_recovery_def port_runtime_transition_def set_error_def Let_def)

lemma serial_fault_frame [simp]:
  "fst (serial_fault s) = tally rs_io_errors_update 1 (fst s)" "backend_context (snd (serial_fault s)) = backend_context (snd s)"
  by (simp_all add: serial_fault_def Let_def split_beta)

text \<open>Statistics and time stamps do not matter for the state.\<close>

lemma raw_wf_update [simp]:
  "raw_wf (l\<lparr>rl_stats := a\<rparr>) = raw_wf l" "raw_wf (l\<lparr>rl_net_state := n\<rparr>) = raw_wf l" "raw_wf (l\<lparr>rl_now := t\<rparr>) = raw_wf l"
  "raw_wf (l\<lparr>rl_activity_at := t\<rparr>) = raw_wf l" "raw_wf (l\<lparr>rl_tx_progress_at := t\<rparr>) = raw_wf l"
  "raw_wf (l\<lparr>rl_rx_progress_at := t\<rparr>) = raw_wf l" "raw_wf (l\<lparr>rl_serial_at := t\<rparr>) = raw_wf l"
  "raw_wf (l\<lparr>rl_quiet_at := t\<rparr>) = raw_wf l" "raw_wf (l\<lparr>rl_fd := f\<rparr>) = raw_wf l"
  "fenced (l\<lparr>rl_stats := a\<rparr>) = fenced l" "fenced (l\<lparr>rl_net_state := n\<rparr>) = fenced l"
  by (simp_all add: raw_wf_def fenced_def)

lemma flush_frame:
  assumes "flush_boundary s = (r, s')"
  shows "rl_net (fst s') = rl_net (fst s)" "rl_net_state (fst s') = rl_net_state (fst s)" "rl_udp (fst s') = rl_udp (fst s)"
    "rl_peer (fst s') = rl_peer (fst s)" "rl_now (fst s') = rl_now (fst s)" "rl_owned (fst s') = rl_owned (fst s)"
    "rl_tx (fst s') = rl_tx (fst s)" "rl_rx (fst s') = rl_rx (fst s)" "rl_client_fd (fst s') = rl_client_fd (fst s)"
    "rl_eof (fst s') = rl_eof (fst s)" "sys (backend_context (snd s')) = sys (backend_context (snd s))"
    "rl_flush_pending (fst s') \<longrightarrow> rl_flush_pending (fst s)" "r = 0 \<longrightarrow> \<not> rl_flush_pending (fst s')"
    "\<not> rl_flush_pending (fst s) \<longrightarrow> s' = s" "rl_guard (fst s) \<longrightarrow> rl_guard (fst s')"
    "rl_flush_pending (fst s) \<and> r = 0 \<longrightarrow> rl_guard (fst s') \<and> rl_quiet_at (fst s') = rl_now (fst s)"
    "rl_fd (fst s') = rl_fd (fst s)"
  using assms unfolding flush_boundary_def Let_def split_beta
  by (auto split: if_splits)

lemma release_frame:
  assumes "release s = (r, s')"
  shows "rl_net (fst s') = rl_net (fst s)" "rl_udp (fst s') = rl_udp (fst s)" "rl_now (fst s') = rl_now (fst s)"
    "sys (backend_context (snd s')) = sys (backend_context (snd s))" "fenced (fst s')"
proof -
  obtain l p where s: "s = (l, p)" by (cases s)
  define l1 where "l1 = (let l = (if rl_client_fd l \<ge> 0 then l\<lparr>rl_net_state := net_close (rl_net l) (rl_net_state l) (rl_client_fd l)\<rparr> else l);
          l = l\<lparr>rl_client_fd := - 1\<rparr>
      in if rl_owned l then (tally rs_releases_update 1 l)\<lparr>rl_flush_pending := True\<rparr> else l)"
  obtain r1 l2 p2 where f: "flush_boundary (l1, p) = (r1, l2, p2)" by (cases "flush_boundary (l1, p)") auto
  have s': "s' = (l2\<lparr>rl_owned := False, rl_eof := False, rl_tx := [], rl_rx := [], rl_guard := True, rl_quiet_at := rl_now l2\<rparr>, p2)"
    using assms f by (simp add: release_def s l1_def Let_def)
  note fr = flush_frame [OF f, simplified]
  have l1: "rl_net l1 = rl_net l" "rl_udp l1 = rl_udp l" "rl_now l1 = rl_now l" "rl_client_fd l1 = - 1"
    by (simp_all add: l1_def Let_def)
  show "rl_net (fst s') = rl_net (fst s)" "rl_udp (fst s') = rl_udp (fst s)" "rl_now (fst s') = rl_now (fst s)"
    "sys (backend_context (snd s')) = sys (backend_context (snd s))" using fr l1 by (simp_all add: s s')
  show "fenced (fst s')" using fr l1 by (simp add: s' fenced_def raw_wf_def)
qed

section \<open>One session\<close>

definition same_setup :: "('n, 'w, 'c) raw_state \<Rightarrow> ('n, 'w, 'c) raw_state \<Rightarrow> bool" where
  "same_setup s s' \<longleftrightarrow> rl_net (fst s') = rl_net (fst s) \<and> sys (backend_context (snd s')) = sys (backend_context (snd s)) \<and>
     rl_udp (fst s') = rl_udp (fst s) \<and> rl_now (fst s') = rl_now (fst s)"

lemma same_refl [simp]: "same_setup s s"
  by (simp add: same_setup_def)

lemma same_trans: "same_setup a b \<Longrightarrow> same_setup b c \<Longrightarrow> same_setup a c"
  by (simp add: same_setup_def)

lemma same_observed: "same_setup s s' \<Longrightarrow> observed sk sc s' = observed sk sc s"
  by (simp add: same_setup_def observed_def)

definition of_peer :: "sockaddr_in \<Rightarrow> sockaddr_in \<times> u8 list \<Rightarrow> bool" where
  "of_peer peer x \<longleftrightarrow> sin_addr (fst x) = sin_addr peer \<and> sin_port (fst x) = sin_port peer"

text \<open>Whether a new owner may be admitted.\<close>

definition admits :: "'n raw_serial_listener \<Rightarrow> bool" where
  "admits l \<longleftrightarrow> \<not> rl_guard l \<or> core_elapsed (rl_quiet_at l) (rl_now l) \<ge> RAW_OWNER_GUARD_MS"

text \<open>
  The traffic between two states of a session, or from an unowned line into a session: the serial line took the
  stored and then the accepted network bytes in order, the network took the stored and then the read serial bytes in
  order. Over TCP every received chunk is accepted, over UDP a selection of the owner's datagrams. An owner
  stays, and where there was none, the line was open for one.
\<close>

definition traffic ::
  "('n net_log, 'w line_log, 'c) raw_state \<Rightarrow> ('n net_log, 'w line_log, 'c) raw_state \<Rightarrow> bool"
where
  "traffic s s' \<longleftrightarrow> (\<exists>got taken gave read wrote.
     nl_got (net_of s') = nl_got (net_of s) @ got \<and> nl_gave (net_of s') = nl_gave (net_of s) @ gave \<and>
     ll_read (line_of s') = ll_read (line_of s) @ read \<and> ll_wrote (line_of s') = ll_wrote (line_of s) @ wrote \<and>
     subseq taken got \<and> (if rl_udp (fst s) then \<forall>x \<in> set taken. of_peer (rl_peer (fst s')) x else taken = got) \<and>
     wrote @ rl_tx (fst s') = rl_tx (fst s) @ concat (map snd taken) \<and> gave @ rl_rx (fst s') = rl_rx (fst s) @ read \<and>
     (\<not> rl_owned (fst s') \<longrightarrow> taken = [])) \<and>
     (rl_owned (fst s) \<longrightarrow> rl_owned (fst s') \<and> rl_peer (fst s') = rl_peer (fst s))"

definition carried ::
  "('n net_log, 'w line_log, 'c) raw_state \<Rightarrow> ('n net_log, 'w line_log, 'c) raw_state \<Rightarrow> bool"
where
  "carried s s' \<longleftrightarrow> traffic s s' \<and> (\<not> rl_owned (fst s) \<longrightarrow> admits (fst s') \<longrightarrow> admits (fst s)) \<and>
     (\<not> rl_owned (fst s') \<longrightarrow> ll_read (line_of s') = ll_read (line_of s))"

lemma carriedI:
  assumes "nl_got (net_of s') = nl_got (net_of s) @ got" "nl_gave (net_of s') = nl_gave (net_of s) @ gave"
    "ll_read (line_of s') = ll_read (line_of s) @ read" "ll_wrote (line_of s') = ll_wrote (line_of s) @ wrote"
    "subseq taken got" "if rl_udp (fst s) then \<forall>x \<in> set taken. of_peer (rl_peer (fst s')) x else taken = got"
    "wrote @ rl_tx (fst s') = rl_tx (fst s) @ concat (map snd taken)" "gave @ rl_rx (fst s') = rl_rx (fst s) @ read"
    "\<not> rl_owned (fst s') \<longrightarrow> taken = []" "rl_owned (fst s) \<longrightarrow> rl_owned (fst s') \<and> rl_peer (fst s') = rl_peer (fst s)"
    "\<not> rl_owned (fst s) \<longrightarrow> admits (fst s') \<longrightarrow> admits (fst s)" "\<not> rl_owned (fst s') \<longrightarrow> read = []"
  shows "carried s s'"
proof -
  have "\<not> rl_owned (fst s') \<longrightarrow> ll_read (line_of s') = ll_read (line_of s)" using assms(3,12) by auto
  then show ?thesis unfolding carried_def traffic_def using assms by blast
qed

lemma carried_refl: "carried s s"
  by (rule carriedI [of _ _ "[]" "[]" "[]" "[]" "[]"]) simp_all

lemma traffic_trans:
  assumes "traffic a b" "traffic b c" "rl_udp (fst b) = rl_udp (fst a)"
  shows "traffic a c"
proof -
  obtain g1 t1 v1 r1 w1 where 1: "nl_got (net_of b) = nl_got (net_of a) @ g1" "nl_gave (net_of b) = nl_gave (net_of a) @ v1"
    "ll_read (line_of b) = ll_read (line_of a) @ r1" "ll_wrote (line_of b) = ll_wrote (line_of a) @ w1"
    "subseq t1 g1" "if rl_udp (fst a) then \<forall>x \<in> set t1. of_peer (rl_peer (fst b)) x else t1 = g1"
    "w1 @ rl_tx (fst b) = rl_tx (fst a) @ concat (map snd t1)" "v1 @ rl_rx (fst b) = rl_rx (fst a) @ r1"
    "\<not> rl_owned (fst b) \<longrightarrow> t1 = []" using assms(1) unfolding traffic_def by blast
  obtain g2 t2 v2 r2 w2 where 2: "nl_got (net_of c) = nl_got (net_of b) @ g2" "nl_gave (net_of c) = nl_gave (net_of b) @ v2"
    "ll_read (line_of c) = ll_read (line_of b) @ r2" "ll_wrote (line_of c) = ll_wrote (line_of b) @ w2"
    "subseq t2 g2" "if rl_udp (fst b) then \<forall>x \<in> set t2. of_peer (rl_peer (fst c)) x else t2 = g2"
    "w2 @ rl_tx (fst c) = rl_tx (fst b) @ concat (map snd t2)" "v2 @ rl_rx (fst c) = rl_rx (fst b) @ r2"
    "\<not> rl_owned (fst c) \<longrightarrow> t2 = []" using assms(2) unfolding traffic_def by blast
  have o: "rl_owned (fst a) \<longrightarrow> rl_owned (fst b) \<and> rl_peer (fst b) = rl_peer (fst a)"
    "rl_owned (fst b) \<longrightarrow> rl_owned (fst c) \<and> rl_peer (fst c) = rl_peer (fst b)"
    using assms(1,2) unfolding traffic_def by blast+
  have w: "(w1 @ w2) @ rl_tx (fst c) = rl_tx (fst a) @ concat (map snd (t1 @ t2))"
    using 1(7) 2(7) by (metis append.assoc concat_append map_append)
  have v: "(v1 @ v2) @ rl_rx (fst c) = rl_rx (fst a) @ (r1 @ r2)" using 1(8) 2(8) by (metis append.assoc)
  have t: "if rl_udp (fst a) then \<forall>x \<in> set (t1 @ t2). of_peer (rl_peer (fst c)) x else t1 @ t2 = g1 @ g2"
    using 1(6,9) 2(6) o(2) assms(3) by (cases "rl_owned (fst b)") (auto split: if_splits)
  have n: "\<not> rl_owned (fst c) \<longrightarrow> t1 @ t2 = []" using 1(9) 2(9) o(2) by auto
  have e: "nl_got (net_of c) = nl_got (net_of a) @ (g1 @ g2)" "nl_gave (net_of c) = nl_gave (net_of a) @ (v1 @ v2)"
    "ll_read (line_of c) = ll_read (line_of a) @ (r1 @ r2)" "ll_wrote (line_of c) = ll_wrote (line_of a) @ (w1 @ w2)"
    "subseq (t1 @ t2) (g1 @ g2)" "rl_owned (fst a) \<longrightarrow> rl_owned (fst c) \<and> rl_peer (fst c) = rl_peer (fst a)"
    using 1(1-5) 2(1-5) o by (simp_all add: list_emb_append_mono)
  show ?thesis unfolding traffic_def using e w v t n by blast
qed

lemma carried_trans:
  assumes "carried a b" "carried b c" "same_setup a b" "raw_wf (fst b)"
  shows "carried a c"
proof -
  have "rl_owned (fst b) \<longrightarrow> admits (fst b)" using assms(4) by (simp add: raw_wf_def admits_def)
  moreover have "rl_owned (fst b) \<longrightarrow> rl_owned (fst c)" using assms(2) by (auto simp: carried_def traffic_def)
  ultimately show ?thesis using assms(1-3) traffic_trans [of a b c] unfolding carried_def same_setup_def by auto
qed

text \<open>What every part of a step does: it carries on, or the line is fenced.\<close>

definition session_part ::
  "('n net_log, 'w line_log, 'c) raw_state \<Rightarrow> ('n net_log, 'w line_log, 'c) raw_state \<Rightarrow> bool" where
  "session_part s s' \<longleftrightarrow> same_setup s s' \<and> raw_wf (fst s') \<and>
     (carried s s' \<and> \<not> rl_flush_pending (fst s') \<or> fenced (fst s'))"

abbreviation going :: "'n raw_serial_listener \<Rightarrow> bool" where
  "going l \<equiv> raw_wf l \<and> \<not> rl_flush_pending l"

lemma session_part_refl: "going (fst s) \<Longrightarrow> session_part s s"
  by (simp add: session_part_def carried_refl)

lemma session_part_trans:
  assumes "session_part a b" "going (fst b) \<Longrightarrow> session_part b c" "fenced (fst b) \<Longrightarrow> same_setup b c \<and> fenced (fst c)"
  shows "session_part a c"
proof (cases "fenced (fst b)")
  case True
  then show ?thesis using assms(1,3) same_trans [of a b c] by (auto simp: session_part_def fenced_def)
next
  case False
  then have "carried a b" "session_part b c" "same_setup a b" "raw_wf (fst b)" using assms(1,2) by (auto simp: session_part_def)
  then show ?thesis using carried_trans [of a b c] same_trans [of a b c] by (auto simp: session_part_def)
qed

lemma session_part_release:
  assumes "release s = (r, s')" "same_setup s0 s"
  shows "session_part s0 s'"
  using release_frame [OF assms(1)] assms(2) by (simp add: session_part_def same_setup_def fenced_def)

lemma line_failed_part:
  assumes "same_setup s0 s"
  shows "session_part s0 (line_failed s)"
proof -
  obtain l p where s: "s = (l, p)" by (cases s)
  obtain r s' where r: "release (l, p\<lparr>backend_context := tally_line hard_errors_update 1 (backend_context p)\<rparr>) = (r, s')"
    by (cases "release (l, p\<lparr>backend_context := tally_line hard_errors_update 1 (backend_context p)\<rparr>)")
  have "line_failed s = serial_fault s'" using r by (simp add: line_failed_def s)
  then show ?thesis using release_frame [OF r] assms by (simp add: session_part_def same_setup_def fenced_def s)
qed

section \<open>The parts of a step\<close>

lemma log_read:
  assumes "sys u = logged_line sc" "sys_read u k = (n, bs, u')"
  shows "sys u' = sys u" "ll_read (world u') = ll_read (world u) @ take (nat n) bs" "ll_wrote (world u') = ll_wrote (world u)"
  using assms by (auto simp: sys_read_def logged_line_def split_beta Let_def)

lemma log_write:
  assumes "sys u = logged_line sc" "sys_write u bs = (n, u')"
  shows "sys u' = sys u" "ll_read (world u') = ll_read (world u)" "ll_wrote (world u') = ll_wrote (world u) @ take (nat n) bs"
    "writes_at_most sc \<Longrightarrow> n \<le> int (length bs)"
  using assms by (auto simp: sys_write_def logged_line_def split_beta Let_def writes_at_most_def)

lemma log_error:
  assumes "sys u = logged_line sc" "sys_last_error u = (e, u')"
  shows "sys u' = sys u" "ll_read (world u') = ll_read (world u)" "ll_wrote (world u') = ll_wrote (world u)"
  using assms by (auto simp: sys_last_error_def logged_line_def split_beta Let_def)

lemma serial_write_part:
  assumes "observed sk sc s" "writes_at_most sc" "going (fst s)"
  shows "session_part s (serial_write s)"
proof -
  obtain l p where s: "s = (l, p)" by (cases s)
  define u where "u = tally_line write_calls_update 1 (backend_context p)"
  obtain n u1 where w: "sys_write u (take 64 (rl_tx l)) = (n, u1)" by (cases "sys_write u (take 64 (rl_tx l))")
  have u: "sys u = logged_line sc" "world u = world (backend_context p)"
    using assms(1) by (simp_all add: u_def observed_def s)
  note lw = log_write [OF u(1) w]
  have n: "n \<le> int (length (take 64 (rl_tx l)))"
    using lw(4) [OF assms(2)] .
  consider (none) "rl_tx l = []" | (some) "rl_tx l \<noteq> []" "n > 0" | (err) "rl_tx l \<noteq> []" "\<not> n > 0" by blast
  then show ?thesis
  proof cases
    case none
    then show ?thesis using session_part_refl [OF assms(3)] by (simp add: serial_write_def s)
  next
    case some
    have t: "take (nat n) (take 64 (rl_tx l)) @ drop (nat n) (rl_tx l) = rl_tx l"
    proof -
      have "nat n \<le> 64" using n by (simp split: if_splits)
      then show ?thesis by (simp add: min_absorb1)
    qed
    have e: "fst (serial_write s) = tally rs_serial_written_update (nat n)
        (l\<lparr>rl_tx := drop (nat n) (rl_tx l), rl_tx_progress_at := rl_now l, rl_activity_at := rl_now l\<rparr>)"
      "sys (backend_context (snd (serial_write s))) = sys u1" "line_of (serial_write s) = world u1"
      using some w by (simp_all add: serial_write_def s Let_def u_def)
    have "carried s (serial_write s)"
      by (rule carriedI [of _ _ "[]" "[]" "[]" "take (nat n) (take 64 (rl_tx l))" "[]"])
        (use e lw u t in \<open>simp_all add: s admits_def\<close>)
    moreover have "raw_wf (fst (serial_write s))"
      using assms(3) le_trans [OF diff_le_self, of "length (rl_tx l)" RAW_BUFFER_SIZE "nat n"]
      unfolding e(1) by (auto simp: raw_wf_def s)
    ultimately show ?thesis using e lw u assms(3) by (simp add: session_part_def same_setup_def s u_def)
  next
    case err
    define u2 where "u2 = (if n < 0 then snd (sys_last_error u1) else u1)"
    have u2: "sys u2 = sys u" "ll_read (world u2) = ll_read (world u)" "ll_wrote (world u2) = ll_wrote (world u)"
      using log_error [of u1 sc "fst (sys_last_error u1)" u2] lw u err(2) by (auto simp: u2_def)
    have same: "same_setup s (l, p\<lparr>backend_context := u2\<rparr>)" using u2 by (simp add: same_setup_def s u_def)
    have "serial_write s = line_failed (l, p\<lparr>backend_context := u2\<rparr>) \<or> serial_write s = (l, p\<lparr>backend_context := u2\<rparr>)"
      using err w by (auto simp: serial_write_def s Let_def u_def u2_def split_beta)
    moreover have "carried s (l, p\<lparr>backend_context := u2\<rparr>)"
      by (rule carriedI [of _ _ "[]" "[]" "[]" "[]" "[]"]) (use u2 u in \<open>simp_all add: s\<close>)
    ultimately show ?thesis using line_failed_part [OF same] same assms(3) by (auto simp: session_part_def s)
  qed
qed

lemma serial_read_part:
  assumes "observed sk sc s" "going (fst s)"
  shows "session_part s (serial_read s)"
proof -
  obtain l p where s: "s = (l, p)" by (cases s)
  let ?cap = "read_capacity l"
  define u where "u = tally_line read_calls_update 1 (backend_context p)"
  obtain n bs u1 where w: "sys_read u ?cap = (n, bs, u1)" by (rule prod_cases3)
  have u: "sys u = logged_line sc" "world u = world (backend_context p)"
    using assms(1) by (simp_all add: u_def observed_def s)
  note lw = log_read [OF u(1) w]
  consider (none) "?cap = 0" | (some) "?cap \<noteq> 0" "n > 0" "rl_owned l" | (idle) "?cap \<noteq> 0" "n > 0" "\<not> rl_owned l"
    | (err) "?cap \<noteq> 0" "\<not> n > 0" by blast
  then show ?thesis
  proof cases
    case none
    then have "serial_read s = s" by (simp add: serial_read_def s)
    then show ?thesis using session_part_refl [OF assms(2)] by simp
  next
    case some
    have e: "rl_rx (fst (serial_read s)) = rl_rx l @ take (nat n) bs" "rl_tx (fst (serial_read s)) = rl_tx l"
      "rl_net_state (fst (serial_read s)) = rl_net_state l" "rl_net (fst (serial_read s)) = rl_net l"
      "rl_udp (fst (serial_read s)) = rl_udp l" "rl_now (fst (serial_read s)) = rl_now l" "rl_owned (fst (serial_read s))"
      "rl_peer (fst (serial_read s)) = rl_peer l" "going (fst (serial_read s))"
      "sys (backend_context (snd (serial_read s))) = sys u1" "line_of (serial_read s) = world u1"
      using some w assms(2) by (simp_all add: serial_read_def s Let_def u_def raw_wf_def)
    have "carried s (serial_read s)"
      by (rule carriedI [of _ _ "[]" "[]" "take (nat n) bs" "[]" "[]"]) (use e lw u some(3) in \<open>simp_all add: s\<close>)
    then show ?thesis using e lw u by (simp add: session_part_def same_setup_def s u_def)
  next
    case idle
    then show ?thesis using w assms(2) lw(1) u(1) assms(1)
      by (simp add: serial_read_def s Let_def u_def session_part_def same_setup_def fenced_def raw_wf_def observed_def)
  next
    case err
    define u2 where "u2 = (if n < 0 then snd (sys_last_error u1) else u1)"
    have u2: "sys u2 = sys u" "ll_read (world u2) = ll_read (world u)" "ll_wrote (world u2) = ll_wrote (world u)"
      using log_error [of u1 sc "fst (sys_last_error u1)" u2] lw u err(2) by (auto simp: u2_def)
    define u3 where "u3 = (if n < 0 then snd (sys_last_error u2) else u2)"
    have u3: "sys u3 = sys u" "ll_read (world u3) = ll_read (world u)" "ll_wrote (world u3) = ll_wrote (world u)"
      using log_error [of u2 sc "fst (sys_last_error u2)" u3] u2 u by (auto simp: u3_def)
    have same: "same_setup s (l, p\<lparr>backend_context := u2\<rparr>)" using u2 by (simp add: same_setup_def s u_def)
    have k: "session_part s (l', p\<lparr>backend_context := u3\<rparr>)"
      if "l' = l \<or> \<not> rl_owned l \<and> l' = l\<lparr>rl_guard := True, rl_quiet_at := rl_now l\<rparr> \<or>
        \<not> rl_owned l \<and> admits l \<and> l' = l\<lparr>rl_guard := False\<rparr>" for l'
    proof -
      have f: "rl_net l' = rl_net l" "rl_udp l' = rl_udp l" "rl_now l' = rl_now l" "going l'"
        using that assms(2) by (auto simp: s raw_wf_def)
      have "carried s (l', p\<lparr>backend_context := u3\<rparr>)" if "l' = l \<or> \<not> rl_owned l \<and> admits l \<and> l' = l\<lparr>rl_guard := False\<rparr>"
        by (rule carriedI [of _ _ "[]" "[]" "[]" "[]" "[]"]) (use u3 u that in \<open>auto simp: s\<close>)
      moreover have "fenced l'" if "\<not> rl_owned l" "l' = l\<lparr>rl_guard := True, rl_quiet_at := rl_now l\<rparr>"
        using that assms(2) by (auto simp: s raw_wf_def fenced_def)
      ultimately show ?thesis using that f u3 by (auto simp: session_part_def same_setup_def s u_def)
    qed
    have "serial_read s = line_failed (l, p\<lparr>backend_context := u2\<rparr>) \<or> serial_read s = (l, p\<lparr>backend_context := u3\<rparr>) \<or>
      \<not> rl_owned l \<and> serial_read s = (l\<lparr>rl_guard := True, rl_quiet_at := rl_now l\<rparr>, p\<lparr>backend_context := u3\<rparr>) \<or>
      \<not> rl_owned l \<and> admits l \<and> serial_read s = (l\<lparr>rl_guard := False\<rparr>, p\<lparr>backend_context := u3\<rparr>)"
      using err w by (auto simp: serial_read_def s Let_def u_def u2_def u3_def split_beta admits_def)
    then show ?thesis using line_failed_part [OF same] k by metis
  qed
qed

text \<open>Receiving from the network.\<close>

lemma logged_net_simps [simp]:
  "net_errno (logged_net sk) n = net_errno sk (nl_base n)"
  "nl_got (net_setsockopt (logged_net sk) n f opt) = nl_got n" "nl_gave (net_setsockopt (logged_net sk) n f opt) = nl_gave n"
  "nl_got (net_close (logged_net sk) n f) = nl_got n" "nl_gave (net_close (logged_net sk) n f) = nl_gave n"
  by (simp_all add: logged_net_def)

lemma log_accept:
  assumes "net_accept (logged_net sk) n f = (r, n')"
  shows "nl_got n' = nl_got n" "nl_gave n' = nl_gave n"
  using assms by (auto simp: logged_net_def split_beta)

lemma log_nonblocking:
  assumes "nonblocking (logged_net sk) n f = (r, n')"
  shows "nl_got n' = nl_got n" "nl_gave n' = nl_gave n"
  using assms by (auto simp: logged_net_def nonblocking_def split_beta Let_def split: if_splits)

lemma log_recvfrom:
  assumes "net_recvfrom (logged_net sk) n f cap = (r, bs, source, ok, n')"
  shows "nl_got n' = nl_got n @ (if r > 0 then [(source, take (nat r) bs)] else [])" "nl_gave n' = nl_gave n"
  using assms by (auto simp: logged_net_def note_got_def split_beta)

lemma log_recv:
  assumes "net_recv (logged_net sk) n f cap = (r, bs, n')"
  shows "nl_got n' = nl_got n @ (if r > 0 then [(zero_sockaddr, take (nat r) bs)] else [])" "nl_gave n' = nl_gave n"
  using assms by (auto simp: logged_net_def note_got_def split_beta)

lemma log_send:
  assumes "net_send (logged_net sk) n f bs = (r, n')"
  shows "nl_got n' = nl_got n" "nl_gave n' = nl_gave n @ take (nat r) bs"
  using assms by (auto simp: logged_net_def note_gave_def split_beta)

lemma log_sendto:
  assumes "net_sendto (logged_net sk) n f bs a = (r, n')"
  shows "nl_got n' = nl_got n" "nl_gave n' = nl_gave n @ take (nat r) bs"
  using assms by (auto simp: logged_net_def note_gave_def split_beta)

text \<open>Accepting: connections that arrive during a session or behind the fence are turned away.\<close>

lemma accept_fenced:
  assumes "fenced l"
  shows "fenced (accept_clients i l) \<and> same_setup (l, p) (accept_clients i l, p)"
  using assms
proof (induction i arbitrary: l)
  case (Suc i)
  obtain f n where a: "net_accept (rl_net l) (rl_net_state l) (rl_fd l) = (f, n)"
    by (cases "net_accept (rl_net l) (rl_net_state l) (rl_fd l)")
  show ?case
  proof (cases "f < 0")
    case True
    then show ?thesis using a Suc.prems by (simp add: same_setup_def Let_def)
  next
    case False
    define l1 where "l1 = tally rs_rejected_peers_update 1 (l\<lparr>rl_net_state := net_close (rl_net l) n f\<rparr>)"
    have "accept_clients (Suc i) l = accept_clients i l1" using a False Suc.prems by (simp add: Let_def l1_def fenced_def)
    moreover have "fenced l1" "same_setup (l, p) (l1, p)" using Suc.prems by (simp_all add: l1_def same_setup_def)
    ultimately show ?thesis using Suc.IH [of l1] same_trans by metis
  qed
qed (simp add: same_setup_def)

lemma accept_part:
  assumes "rl_net l = logged_net sk" "going l" "\<not> rl_udp l"
  shows "session_part (l, p) (accept_clients i l, p) \<and> going (accept_clients i l)"
  using assms
proof (induction i arbitrary: l)
  case 0
  then show ?case using session_part_refl [of "(l, p)"] by simp
next
  case (Suc i)
  obtain f n1 where a: "net_accept (rl_net l) (rl_net_state l) (rl_fd l) = (f, n1)"
    by (cases "net_accept (rl_net l) (rl_net_state l) (rl_fd l)")
  note la = log_accept [OF a [unfolded Suc.prems(1)]]
  have quiet: "session_part (l, p) (l\<lparr>rl_net_state := n, rl_stats := c\<rparr>, p)"
    if "nl_got n = nl_got (rl_net_state l)" "nl_gave n = nl_gave (rl_net_state l)" for n c
  proof -
    have "carried (l, p) (l\<lparr>rl_net_state := n, rl_stats := c\<rparr>, p)"
      by (rule carriedI [of _ _ "[]" "[]" "[]" "[]" "[]"]) (use that in \<open>simp_all add: admits_def\<close>)
    then show ?thesis using Suc.prems by (simp add: session_part_def same_setup_def)
  qed
  show ?case
  proof (cases "f < 0")
    case True
    then show ?thesis using a quiet [of n1 "rl_stats l"] la Suc.prems by (simp add: Let_def)
  next
    case False
    obtain r n2 where nb: "nonblocking (rl_net l) n1 f = (r, n2)" by (cases "nonblocking (rl_net l) n1 f")
    note ln = log_nonblocking [OF nb [unfolded Suc.prems(1)]]
    have "\<exists>l1. accept_clients (Suc i) l = accept_clients i l1 \<and> session_part (l, p) (l1, p) \<and> going l1 \<and> \<not> rl_udp l1 \<and>
      rl_net l1 = logged_net sk"
    proof (cases "rl_owned l \<or> rl_guard l \<or> r < 0")
      case True
      define n where "n = net_close (rl_net l) (if rl_owned l \<or> rl_guard l then n1 else n2) f"
      define l1 where "l1 = tally rs_rejected_peers_update 1 (l\<lparr>rl_net_state := n\<rparr>)"
      have "accept_clients (Suc i) l = accept_clients i l1" using a False True nb by (auto simp: Let_def l1_def n_def)
      moreover have "session_part (l, p) (l1, p)"
        using quiet [of n] la ln Suc.prems(1) by (simp add: l1_def n_def)
      ultimately show ?thesis using Suc.prems by (intro exI [of _ l1]) (simp add: l1_def)
    next
      case acq: False
      define n where "n = net_setsockopt (rl_net l) n2 f TCP_NODELAY"
      define l1 where "l1 = acquire (l\<lparr>rl_net_state := n, rl_client_fd := f\<rparr>)"
      have e: "accept_clients (Suc i) l = accept_clients i l1" using a False acq nb by (simp add: Let_def l1_def n_def)
      have n: "nl_got n = nl_got (rl_net_state l)" "nl_gave n = nl_gave (rl_net_state l)"
        using la ln Suc.prems(1) by (simp_all add: n_def)
      have "carried (l, p) (l1, p)"
        by (rule carriedI [of _ _ "[]" "[]" "[]" "[]" "[]"])
          (use n acq Suc.prems(3) in \<open>simp_all add: admits_def l1_def acquire_def\<close>)
      then have "session_part (l, p) (l1, p) \<and> going l1 \<and> \<not> rl_udp l1 \<and> rl_net l1 = logged_net sk"
        using Suc.prems acq False by (simp add: session_part_def same_setup_def l1_def acquire_def raw_wf_def)
      then show ?thesis using e by blast
    qed
    then obtain l1 where l1: "accept_clients (Suc i) l = accept_clients i l1" "session_part (l, p) (l1, p)" "going l1" "\<not> rl_udp l1"
      "rl_net l1 = logged_net sk" by blast
    note IH = Suc.IH [OF l1(5,3,4)]
    have "session_part (l, p) (accept_clients i l1, p)"
      by (rule session_part_trans [OF l1(2)]) (use IH l1(3) accept_fenced [of l1 i p] in auto)
    then show ?thesis using IH l1(1) by simp
  qed
qed

lemma store_tx_frame [simp]:
  "rl_net (store_tx n bs l) = rl_net l" "rl_net_state (store_tx n bs l) = rl_net_state l" "rl_udp (store_tx n bs l) = rl_udp l"
  "rl_now (store_tx n bs l) = rl_now l" "rl_owned (store_tx n bs l) = rl_owned l" "rl_peer (store_tx n bs l) = rl_peer l"
  "rl_tx (store_tx n bs l) = rl_tx l @ take n bs" "rl_rx (store_tx n bs l) = rl_rx l" "rl_guard (store_tx n bs l) = rl_guard l"
  "rl_flush_pending (store_tx n bs l) = rl_flush_pending l" "rl_client_fd (store_tx n bs l) = rl_client_fd l"
  "rl_eof (store_tx n bs l) = rl_eof l" "rl_fd (store_tx n bs l) = rl_fd l" "rl_quiet_at (store_tx n bs l) = rl_quiet_at l"
  by (simp_all add: store_tx_def Let_def)

lemma raw_wf_store:
  "raw_wf l \<Longrightarrow> rl_owned l \<Longrightarrow> length (rl_tx l @ take n bs) \<le> RAW_BUFFER_SIZE \<Longrightarrow> raw_wf (store_tx n bs l)"
  by (simp add: raw_wf_def)

text \<open>\<open>recv\<close> delivers no more than was asked for.\<close>

definition recv_at_most :: "'n net_calls \<Rightarrow> bool" where
  "recv_at_most sk \<longleftrightarrow> (\<forall>n f cap. fst (net_recv sk n f cap) \<le> int cap)"

lemma receive_stream_part:
  assumes "observed sk sc s" "recv_at_most sk" "going (fst s)" "\<not> rl_udp (fst s)"
  shows "session_part s (receive_stream s)"
proof (cases "\<not> rl_owned (fst s) \<or> rl_eof (fst s) \<or> length (rl_tx (fst s)) = RAW_BUFFER_SIZE")
  case True
  then have "receive_stream s = s" by (cases s) (auto simp: receive_stream_def)
  then show ?thesis using session_part_refl assms(3) by metis
next
  case False
  obtain l p where s: "s = (l, p)" by (cases s)
  obtain n bs w where r: "net_recv (rl_net l) (rl_net_state l) (rl_client_fd l) (RAW_BUFFER_SIZE - length (rl_tx l)) = (n, bs, w)"
    by (rule prod_cases3)
  have net: "rl_net l = logged_net sk" using assms(1) by (simp add: observed_def s)
  note lr = log_recv [OF r [unfolded net]]
  define l1 where "l1 = l\<lparr>rl_net_state := w\<rparr>"
  have o: "rl_owned l" "\<not> rl_eof l" "\<not> rl_udp l" "going l" using False assms(3,4) by (simp_all add: s)
  have "n \<le> int (RAW_BUFFER_SIZE - length (rl_tx l))"
    using r assms(2) unfolding net recv_at_most_def by (auto simp: logged_net_def split_beta)
  then have n: "nat n \<le> RAW_BUFFER_SIZE - length (rl_tx l)" by simp
  consider (data) "n > 0" | (eof) "n = 0" | (err) "n < 0" by linarith
  then show ?thesis
  proof cases
    case data
    have e: "receive_stream s = (store_tx (nat n) bs l1, p)" using data False r by (simp add: receive_stream_def s l1_def)
    have "length (rl_tx l) \<le> RAW_BUFFER_SIZE" using o(4) by (simp add: raw_wf_def)
    moreover have "length (rl_tx l @ take (nat n) bs) \<le> length (rl_tx l) + nat n" by simp
    ultimately have "length (rl_tx l @ take (nat n) bs) \<le> RAW_BUFFER_SIZE" using n by linarith
    then have "length (rl_tx l1 @ take (nat n) bs) \<le> RAW_BUFFER_SIZE" by (simp add: l1_def)
    then have "raw_wf (store_tx (nat n) bs l1)" using o by (intro raw_wf_store) (simp_all add: l1_def)
    moreover have "carried s (store_tx (nat n) bs l1, p)"
      by (rule carriedI [of _ _ "[(zero_sockaddr, take (nat n) bs)]" "[]" "[]" "[]" "[(zero_sockaddr, take (nat n) bs)]"])
        (use lr o data in \<open>simp_all add: s l1_def\<close>)
    ultimately show ?thesis unfolding e using o by (simp add: session_part_def same_setup_def s l1_def)
  next
    case eof
    have e: "receive_stream s = (l1\<lparr>rl_eof := True, rl_activity_at := rl_now l\<rparr>, p)"
      using eof False r by (simp add: receive_stream_def s l1_def)
    have "carried s (l1\<lparr>rl_eof := True, rl_activity_at := rl_now l\<rparr>, p)"
      by (rule carriedI [of _ _ "[]" "[]" "[]" "[]" "[]"]) (use lr o eof in \<open>simp_all add: s l1_def\<close>)
    then show ?thesis unfolding e using o by (simp add: session_part_def same_setup_def s l1_def raw_wf_def)
  next
    case err
    obtain q s2 where q: "release (tally rs_io_errors_update 1 l1, p) = (q, s2)" by (cases "release (tally rs_io_errors_update 1 l1, p)")
    have "receive_stream s = s2 \<or> receive_stream s = (l1, p)"
      using err False r q by (auto simp: receive_stream_def s l1_def Let_def)
    moreover have "session_part s s2" by (rule session_part_release [OF q]) (simp add: same_setup_def s l1_def)
    moreover have "carried s (l1, p)"
      by (rule carriedI [of _ _ "[]" "[]" "[]" "[]" "[]"]) (use lr o err in \<open>simp_all add: s l1_def\<close>)
    then have "session_part s (l1, p)" using o by (simp add: session_part_def same_setup_def s l1_def)
    ultimately show ?thesis by metis
  qed
qed

text \<open>A datagram is stored, of the owner or of a new one, or only counted.\<close>

definition sender :: "sockaddr_in \<Rightarrow> 'n raw_serial_listener \<Rightarrow> 'n raw_serial_listener" where
  "sender source l = (if \<not> rl_owned l then acquire (l\<lparr>rl_peer := source\<rparr>) else l)"

lemma receive_datagram_cases:
  assumes "going l" "n \<ge> 0"
  obtains (count) c where "receive_datagram l n bs source ok = l\<lparr>rl_stats := c\<rparr>"
  | (store) "n > 0" "\<not> rl_guard l" "of_peer (rl_peer (sender source l)) (source, take (nat n) bs)"
      "length (rl_tx l @ take (nat n) bs) \<le> RAW_BUFFER_SIZE"
      "receive_datagram l n bs source ok = store_tx (nat n) bs (sender source l)"
proof -
  let ?bad = "n = 0 \<or> n > int RAW_BUFFER_SIZE \<or> \<not> ok \<or> sin_family source \<noteq> AF_INET"
  let ?other = "rl_guard l \<or> (rl_owned l \<and> (sin_addr source \<noteq> sin_addr (rl_peer l) \<or> sin_port source \<noteq> sin_port (rl_peer l)))"
  let ?big = "nat n > RAW_BUFFER_SIZE - length (rl_tx l)"
  have d: "receive_datagram l n bs source ok =
    (if ?bad then tally rs_dropped_datagrams_update 1 l else if ?other then tally rs_rejected_peers_update 1 l
     else if ?big then tally rs_dropped_datagrams_update 1 l else store_tx (nat n) bs (sender source l))"
    by (simp only: receive_datagram_def sender_def)
  consider ?bad | "\<not> ?bad" ?other | "\<not> ?bad" "\<not> ?other" ?big | "\<not> ?bad" "\<not> ?other" "\<not> ?big" by blast
  then show ?thesis
  proof cases
    case 1
    show ?thesis by (rule count) (simp only: d 1 if_True)
  next
    case 2
    show ?thesis by (rule count) (simp only: d 2 if_True if_False)
  next
    case 3
    show ?thesis by (rule count) (simp only: d 3 if_True if_False)
  next
    case 4
    have "length (rl_tx l @ take (nat n) bs) \<le> length (rl_tx l) + nat n" by simp
    moreover have "length (rl_tx l) \<le> RAW_BUFFER_SIZE" "nat n \<le> RAW_BUFFER_SIZE - length (rl_tx l)"
      using 4 assms by (simp_all add: raw_wf_def)
    ultimately have "length (rl_tx l @ take (nat n) bs) \<le> RAW_BUFFER_SIZE" by linarith
    moreover have "of_peer (rl_peer (sender source l)) (source, take (nat n) bs)"
      using 4(2) by (simp add: of_peer_def sender_def acquire_def)
    moreover have "n > 0" "\<not> rl_guard l" using 4(1,2) assms(2) by linarith+
    moreover have "receive_datagram l n bs source ok = store_tx (nat n) bs (sender source l)"
      by (simp only: d 4 if_False)
    ultimately show ?thesis by (intro store)
  qed
qed

lemma guarded_datagram:
  assumes "rl_guard l"
  shows "\<exists>c. receive_datagram l n bs source ok = l\<lparr>rl_stats := c\<rparr>"
proof (cases "n = 0 \<or> n > int RAW_BUFFER_SIZE \<or> \<not> ok \<or> sin_family source \<noteq> AF_INET")
  case True
  have "receive_datagram l n bs source ok = tally rs_dropped_datagrams_update 1 l"
    by (simp only: receive_datagram_def True if_True)
  then show ?thesis by blast
next
  case False
  have "receive_datagram l n bs source ok = tally rs_rejected_peers_update 1 l"
    by (simp only: receive_datagram_def False assms simp_thms if_True if_False)
  then show ?thesis by blast
qed

lemma receive_datagrams_fenced:
  assumes "fenced l"
  shows "fenced (receive_datagrams i l) \<and> same_setup (l, p) (receive_datagrams i l, p)"
  using assms
proof (induction i arbitrary: l)
  case (Suc i)
  obtain n bs source ok w where r: "net_recvfrom (rl_net l) (rl_net_state l) (rl_fd l) (RAW_BUFFER_SIZE + 1) = (n, bs, source, ok, w)"
    by (metis prod_cases5)
  show ?case
  proof (cases "n < 0")
    case True
    then show ?thesis using r Suc.prems by (simp add: same_setup_def Let_def)
  next
    case False
    have "rl_guard (l\<lparr>rl_net_state := w\<rparr>)" using Suc.prems by (simp add: fenced_def)
    then obtain c where c: "receive_datagram (l\<lparr>rl_net_state := w\<rparr>) n bs source ok = l\<lparr>rl_net_state := w, rl_stats := c\<rparr>"
      using guarded_datagram [of "l\<lparr>rl_net_state := w\<rparr>"] by blast
    have "fenced (l\<lparr>rl_net_state := w, rl_stats := c\<rparr>)" using Suc.prems by simp
    note Suc.IH [OF this]
    then show ?thesis using r False c by (simp add: same_setup_def)
  qed
qed (simp add: same_setup_def)

lemma receive_datagrams_part:
  assumes "rl_net l = logged_net sk" "going l" "rl_udp l"
  shows "session_part (l, p) (receive_datagrams i l, p)"
  using assms
proof (induction i arbitrary: l)
  case 0
  then show ?case using session_part_refl [of "(l, p)"] by simp
next
  case (Suc i)
  obtain n bs source ok w where r: "net_recvfrom (rl_net l) (rl_net_state l) (rl_fd l) (RAW_BUFFER_SIZE + 1) = (n, bs, source, ok, w)"
    by (metis prod_cases5)
  note lr = log_recvfrom [OF r [unfolded Suc.prems(1)]]
  define l1 where "l1 = l\<lparr>rl_net_state := w\<rparr>"
  have only: "session_part (l, p) (l1\<lparr>rl_stats := c\<rparr>, p)" for c
  proof -
    have "carried (l, p) (l1\<lparr>rl_stats := c\<rparr>, p)"
      by (rule carriedI [of _ _ "if n > 0 then [(source, take (nat n) bs)] else []" "[]" "[]" "[]" "[]"])
        (use lr Suc.prems(3) in \<open>simp_all add: l1_def admits_def\<close>)
    then show ?thesis using Suc.prems by (simp add: session_part_def same_setup_def l1_def)
  qed
  show ?case
  proof (cases "n < 0")
    case True
    have "receive_datagrams (Suc i) l = l1\<lparr>rl_stats := rl_stats l1\<rparr> \<or>
      receive_datagrams (Suc i) l = tally rs_io_errors_update 1 l1"
      using True r by (simp add: l1_def Let_def)
    then show ?thesis using only by metis
  next
    case False
    define l2 where "l2 = receive_datagram l1 n bs source ok"
    have e: "receive_datagrams (Suc i) l = receive_datagrams i l2" using False r by (simp add: l1_def l2_def)
    have g1: "going l1" "n \<ge> 0" using Suc.prems False by (simp_all add: l1_def)
    have s2: "session_part (l, p) (l2, p) \<and> rl_net l2 = logged_net sk \<and> rl_udp l2 \<and> going l2"
    proof (cases rule: receive_datagram_cases [OF g1, of bs source ok])
      case (1 c)
      then show ?thesis using only Suc.prems unfolding l2_def by (simp add: l1_def)
    next
      case 2
      define l0 where "l0 = sender source l1"
      have l0: "rl_net l0 = rl_net l" "rl_net_state l0 = w" "rl_udp l0" "rl_now l0 = rl_now l" "rl_owned l0" "rl_tx l0 = rl_tx l"
        "rl_rx l0 = rl_rx l" "rl_owned l \<longrightarrow> rl_peer l0 = rl_peer l" "going l0"
        using Suc.prems 2(2) by (auto simp: l0_def sender_def acquire_def l1_def raw_wf_def)
      have l2: "l2 = store_tx (nat n) bs l0" using 2(5) by (simp add: l2_def l0_def)
      have w2: "raw_wf l2" unfolding l2 by (rule raw_wf_store) (use l0 2(4) in \<open>simp_all add: l1_def\<close>)
      have "admits l" using 2(2) by (simp add: admits_def l1_def)
      then have "carried (l, p) (l2, p)"
        by (intro carriedI [of _ _ "[(source, take (nat n) bs)]" "[]" "[]" "[]" "[(source, take (nat n) bs)]"])
          (use lr Suc.prems(3) 2(1,3) l0 in \<open>simp_all add: l2 l0_def [symmetric]\<close>)
      then show ?thesis using w2 l0 Suc.prems(1,3) by (simp add: session_part_def same_setup_def l2)
    qed
    then have a: "session_part (l, p) (l2, p)" "rl_net l2 = logged_net sk" "rl_udp l2" "going l2" by blast+
    have "session_part (l, p) (receive_datagrams i l2, p)"
      by (rule session_part_trans [OF a(1)]) (use Suc.IH [OF a(2,4,3)] receive_datagrams_fenced [of l2 i p] in auto)
    then show ?thesis unfolding e .
  qed
qed

lemma network_receive_part:
  assumes "observed sk sc s" "recv_at_most sk" "going (fst s)"
  shows "session_part s (network_receive s)"
proof -
  obtain l p where s: "s = (l, p)" by (cases s)
  have net: "rl_net l = logged_net sk" "going l" using assms by (simp_all add: observed_def s)
  show ?thesis
  proof (cases "rl_udp l")
    case True
    then show ?thesis using receive_datagrams_part [OF net True, of p] by (simp add: network_receive_def s)
  next
    case False
    note a = accept_part [OF net False, of p RAW_NETWORK_BUDGET]
    define l1 where "l1 = accept_clients RAW_NETWORK_BUDGET l"
    have l1: "session_part s (l1, p)" "going l1" using a by (simp_all add: l1_def s)
    have "same_setup s (l1, p)" using l1 by (simp add: session_part_def)
    then have "observed sk sc (l1, p)" "\<not> rl_udp l1"
      using assms(1) False same_observed [of s "(l1, p)" sk sc] by (simp_all add: same_setup_def s)
    then have p: "session_part (l1, p) (receive_stream (l1, p))" using receive_stream_part assms(2) l1(2) by fastforce
    have "session_part s (receive_stream (l1, p))"
      by (rule session_part_trans [OF l1(1) p]) (simp add: fenced_def receive_stream_def)
    then show ?thesis using False by (simp add: network_receive_def s l1_def)
  qed
qed

lemma network_send_part:
  assumes "observed sk sc s" "going (fst s)"
  shows "session_part s (network_send s)"
proof -
  obtain l p where s: "s = (l, p)" by (cases s)
  have net: "rl_net l = logged_net sk" using assms(1) by (simp add: observed_def s)
  define call where "call = (if rl_udp l then net_sendto (rl_net l) (rl_net_state l) (rl_fd l) (rl_rx l) (rl_peer l)
    else net_send (rl_net l) (rl_net_state l) (rl_client_fd l) (rl_rx l))"
  obtain n w where c: "call = (n, w)" by (cases call)
  have lg: "nl_got w = nl_got (rl_net_state l)" "nl_gave w = nl_gave (rl_net_state l) @ take (nat n) (rl_rx l)"
    using c log_send log_sendto unfolding call_def net by (metis (full_types))+
  define l1 where "l1 = l\<lparr>rl_net_state := w\<rparr>"
  obtain q s2 where q: "release (tally rs_io_errors_update 1 l1, p) = (q, s2)" by (cases "release (tally rs_io_errors_update 1 l1, p)")
  have rel: "session_part s s2" by (rule session_part_release [OF q]) (simp add: same_setup_def s l1_def)
  show ?thesis
  proof (cases "\<not> rl_owned l \<or> rl_rx l = [] \<or>
      rl_udp l \<and> length (rl_rx l) < RAW_BUFFER_SIZE \<and> core_elapsed (rl_serial_at l) (rl_now l) < RAW_PACKET_GAP_MS")
    case True
    then have "network_send s = s" by (auto simp: network_send_def s)
    then show ?thesis using session_part_refl [OF assms(2)] by simp
  next
    case False
    have e: "network_send s = (if rl_udp l1 \<and> n \<ge> 0 \<and> n \<noteq> int (length (rl_rx l1)) then s2
        else if n > 0
        then (tally rs_network_sent_update (nat n)
                (l1\<lparr>rl_rx := drop (nat n) (rl_rx l1), rl_rx_progress_at := rl_now l1, rl_activity_at := rl_now l1\<rparr>), p)
        else if n < 0 \<and> \<not> transient (net_errno (rl_net l1) w) then s2 else (l1, p))"
    proof -
      have f: "(\<not> rl_owned l \<or> rl_rx l = []) = False"
        "(rl_udp l \<and> length (rl_rx l) < RAW_BUFFER_SIZE \<and> core_elapsed (rl_serial_at l) (rl_now l) < RAW_PACKET_GAP_MS) = False"
        using False by blast+
      have r: "snd (release (tally rs_io_errors_update 1 (l\<lparr>rl_net_state := w\<rparr>), p)) = s2" using q by (simp add: l1_def)
      show ?thesis unfolding l1_def
        by (simp only: r network_send_def s Let_def prod.case call_def [symmetric] c f if_False snd_conv)
    qed
    have o: "rl_owned l" "going l" using False assms(2) by (simp_all add: s)
    have "session_part s (tally rs_network_sent_update (nat n)
        (l1\<lparr>rl_rx := drop (nat n) (rl_rx l1), rl_rx_progress_at := rl_now l1, rl_activity_at := rl_now l1\<rparr>), p)" (is "session_part s ?s")
    proof -
      have "carried s ?s"
        by (rule carriedI [of _ _ "[]" "take (nat n) (rl_rx l)" "[]" "[]" "[]"]) (use lg o in \<open>simp_all add: s l1_def\<close>)
      then show ?thesis using o by (simp add: session_part_def same_setup_def s l1_def raw_wf_def)
    qed
    moreover have "session_part s (l1, p)" if "\<not> n > 0"
    proof -
      have "carried s (l1, p)"
        by (rule carriedI [of _ _ "[]" "[]" "[]" "[]" "[]"]) (use lg o that in \<open>simp_all add: s l1_def\<close>)
      then show ?thesis using o by (simp add: session_part_def same_setup_def s l1_def)
    qed
    ultimately show ?thesis unfolding e using rel by simp
  qed
qed

section \<open>Behind the fence\<close>

lemma serial_read_fenced:
  assumes "fenced (fst s)"
  shows "same_setup s (serial_read s) \<and> fenced (fst (serial_read s))"
proof -
  obtain l p where s: "s = (l, p)" by (cases s)
  define u where "u = tally_line read_calls_update 1 (backend_context p)"
  obtain n bs u1 where w: "sys_read u (read_capacity l) = (n, bs, u1)" by (rule prod_cases3)
  have l: "fenced l" "\<not> rl_owned l" "rl_guard l" "rl_quiet_at l = rl_now l" using assms by (simp_all add: s fenced_def)
  have keep: "fenced (l\<lparr>rl_stats := c, rl_guard := True, rl_quiet_at := rl_now l\<rparr>)" for c
    using l by (simp add: fenced_def raw_wf_def)
  have u1: "sys u1 = sys u" using w by (auto simp: sys_read_def split_beta Let_def)
  define u2 where "u2 = (if n < 0 then snd (sys_last_error u1) else u1)"
  define u3 where "u3 = (if n < 0 then snd (sys_last_error u2) else u2)"
  have u: "sys u2 = sys u" "sys u3 = sys u" using u1 by (simp_all add: u2_def u3_def sys_last_error_def split_beta Let_def)
  have same: "same_setup s (l, p\<lparr>backend_context := u2\<rparr>)" using u by (simp add: same_setup_def s u_def)
  have f: "same_setup s (line_failed (l, p\<lparr>backend_context := u2\<rparr>)) \<and> fenced (fst (line_failed (l, p\<lparr>backend_context := u2\<rparr>)))"
  proof -
    define p2 where "p2 = p\<lparr>backend_context := tally_line hard_errors_update 1 u2\<rparr>"
    obtain r s' where r: "release (l, p2) = (r, s')" by (cases "release (l, p2)")
    have "line_failed (l, p\<lparr>backend_context := u2\<rparr>) = serial_fault s'" using r by (simp add: line_failed_def p2_def)
    then show ?thesis using release_frame [OF r] u by (simp add: same_setup_def s p2_def u_def)
  qed
  have z: "core_elapsed (rl_now l) (rl_now l) = 0" by (simp add: core_elapsed_def)
  consider "read_capacity l = 0" | "read_capacity l \<noteq> 0" "n > 0" | "read_capacity l \<noteq> 0" "\<not> n > 0" by blast
  then show ?thesis
  proof cases
    case 1
    then show ?thesis using assms by (simp add: serial_read_def s)
  next
    case 2
    then show ?thesis using w l keep u1 by (simp add: serial_read_def s Let_def u_def same_setup_def)
  next
    case 3
    then have "serial_read s = line_failed (l, p\<lparr>backend_context := u2\<rparr>) \<or> serial_read s = (l, p\<lparr>backend_context := u3\<rparr>) \<or>
      serial_read s = (l\<lparr>rl_guard := True, rl_quiet_at := rl_now l\<rparr>, p\<lparr>backend_context := u3\<rparr>)"
      using w l(2-4) z by (auto simp: serial_read_def s Let_def u_def u2_def u3_def split_beta)
    moreover have "fenced (l\<lparr>rl_guard := True, rl_quiet_at := rl_now l\<rparr>)" using l by (simp add: fenced_def raw_wf_def)
    moreover have "same_setup s (l, p\<lparr>backend_context := u3\<rparr>)" "same_setup s (l\<lparr>rl_guard := True, rl_quiet_at := rl_now l\<rparr>, p\<lparr>backend_context := u3\<rparr>)"
      using u by (simp_all add: same_setup_def s u_def)
    ultimately show ?thesis using f l(1) by (metis fst_conv)
  qed
qed

lemma idle_parts:
  assumes "fenced (fst s)"
  shows "serial_write s = s" "network_send s = s" "receive_stream s = s"
  using assms by (cases s; simp add: fenced_def raw_wf_def serial_write_def network_send_def receive_stream_def)+

lemma idle_fenced:
  "fenced (fst s) \<Longrightarrow> same_setup s (serial_write s) \<and> fenced (fst (serial_write s))"
  "fenced (fst s) \<Longrightarrow> same_setup s (network_send s) \<and> fenced (fst (network_send s))"
  by (simp_all add: idle_parts)

lemma network_receive_fenced:
  assumes "fenced (fst s)"
  shows "same_setup s (network_receive s) \<and> fenced (fst (network_receive s))"
proof -
  obtain l p where s: "s = (l, p)" by (cases s)
  have l: "fenced l" using assms by (simp add: s)
  note a = accept_fenced [OF l, of RAW_NETWORK_BUDGET p]
  then show ?thesis using receive_datagrams_fenced [OF l, of RAW_NETWORK_BUDGET p]
    idle_parts(3) [of "(accept_clients RAW_NETWORK_BUDGET l, p)"]
    by (simp add: network_receive_def s)
qed

section \<open>A step\<close>

lemma when_ready_part:
  assumes "going (fst s) \<Longrightarrow> session_part s (f s)" "fenced (fst s) \<Longrightarrow> same_setup s (f s) \<and> fenced (fst (f s))" "session_part a s"
  shows "session_part a (when_ready f s)"
proof (cases "pr_state (snd s) = PORT_READY")
  case True
  then show ?thesis using session_part_trans [OF assms(3), of "f s"] assms(1,2) by (simp add: when_ready_def)
next
  case False
  then show ?thesis using assms(3) by (simp add: when_ready_def)
qed

definition at_time :: "tick \<Rightarrow> ('n, 'w, 'c) raw_state \<Rightarrow> ('n, 'w, 'c) raw_state" where
  "at_time now s = ((fst s)\<lparr>rl_now := now\<rparr>, snd s)"

lemma flush_reads:
  assumes "observed sk sc s" "flush_boundary s = (r, s')"
  shows "ll_read (line_of s') = ll_read (line_of s)"
proof -
  have "ll_read (snd (tcflush_fn (logged_line sc) w f q)) = ll_read w" for w f q
    by (simp add: logged_line_def split: prod.split)
  then show ?thesis
    using assms unfolding observed_def flush_boundary_def Let_def split_beta by (auto split: if_splits)
qed

lemma step_part:
  assumes "observed sk sc s" "writes_at_most sc" "recv_at_most sk" "raw_wf (fst s)"
  shows "raw_serial_listener_step s now = s \<or>
    (\<not> rl_owned (fst s) \<and> \<not> rl_owned (fst (raw_serial_listener_step s now)) \<and>
     same_setup (at_time now s) (raw_serial_listener_step s now) \<and> raw_wf (fst (raw_serial_listener_step s now)) \<and>
     (fenced (fst (raw_serial_listener_step s now)) \<or>
      rl_guard (fst (raw_serial_listener_step s now)) \<and> ll_read (line_of (raw_serial_listener_step s now)) = ll_read (line_of s))) \<or>
    (\<not> rl_flush_pending (fst s) \<and> session_part (at_time now s) (raw_serial_listener_step s now))"
proof -
  obtain l p where s: "s = (l, p)" by (cases s)
  define s0 where "s0 = at_time now s"
  have s0: "s0 = (l\<lparr>rl_now := now\<rparr>, p)" by (simp add: s0_def at_time_def s)
  obtain r s1 where f: "flush_boundary s0 = (r, s1)" by (cases "flush_boundary s0")
  note fr = flush_frame [OF f]
  define s2 where "s2 = (if session_over (fst s1) now then snd (release s1) else s1)"
  define s3 where "s3 = (if session_stalled (fst s2) now
    then snd (release (tally rs_stalls_update 1 (fst s2), snd s2)) else s2)"
  define s4 where "s4 = when_ready network_send (when_ready serial_write (when_ready network_receive (when_ready serial_read s3)))"
  show ?thesis
  proof (cases "rl_fd l < 0 \<or> fd (backend_context p) < 0 \<or> pr_state p \<noteq> PORT_READY \<or> has_active p \<or> q_count (pr_queue p) \<noteq> 0")
    case True
    then have "raw_serial_listener_step s now = s" by (simp only: raw_serial_listener_step_def s prod.case if_True Let_def)
    then show ?thesis by blast
  next
    case False
    have e: "raw_serial_listener_step s now = (if r \<noteq> 0 then s1 else s4)"
    proof -
      obtain l1 p1 where s1: "s1 = (l1, p1)" by (cases s1)
      have "raw_serial_listener_step s now = (case flush_boundary s0 of (r, l, p) \<Rightarrow>
        if r \<noteq> 0 then (l, p)
        else
          let s = (if session_over l now then snd (release (l, p)) else (l, p));
              s = (if session_stalled (fst s) now then (case s of (l, p) \<Rightarrow> snd (release (tally rs_stalls_update 1 l, p))) else s)
          in when_ready network_send (when_ready serial_write (when_ready network_receive (when_ready serial_read s))))"
        using False by (simp only: raw_serial_listener_step_def s s0 prod.case if_False Let_def)
      then show ?thesis unfolding f s1 by (simp add: s4_def s3_def s2_def s1 Let_def split_beta)
    qed
    have obs: "observed sk sc s0" using assms(1) by (simp add: observed_def s0 s)
    have wf0: "raw_wf (fst s0)" using assms(4) by (simp add: s0 s)
    have parts: "session_part s0 s4" if g: "session_part s0 s3"
    proof -
      have o: "observed sk sc x" if "session_part s0 x" for x
        using same_observed [of s0 x sk sc] that obs by (simp add: session_part_def)
      have 1: "session_part s0 (when_ready serial_read s3)"
        by (rule when_ready_part [where f = serial_read, OF serial_read_part [OF o [OF g]] serial_read_fenced g])
      have 2: "session_part s0 (when_ready network_receive (when_ready serial_read s3))"
        by (rule when_ready_part [where f = network_receive, OF network_receive_part [OF o [OF 1] assms(3)] network_receive_fenced 1])
      have 3: "session_part s0 (when_ready serial_write (when_ready network_receive (when_ready serial_read s3)))"
        by (rule when_ready_part [where f = serial_write, OF serial_write_part [OF o [OF 2] assms(2)] idle_fenced(1) 2])
      show ?thesis unfolding s4_def
        by (rule when_ready_part [where f = network_send, OF network_send_part [OF o [OF 3]] idle_fenced(2) 3])
    qed
    show ?thesis
    proof (cases "rl_flush_pending l")
      case True
      then have no: "\<not> rl_owned l" using assms(4) by (auto simp: raw_wf_def s)
      have i: "\<not> rl_owned (fst s1)" "same_setup s0 s1" using fr no by (simp_all add: s0 same_setup_def)
      have w1: "raw_wf (fst s1)" using fr wf0 no unfolding raw_wf_def by (simp add: s0)
      show ?thesis
      proof (cases "r = 0")
        case r: False
        have "rl_guard (fst s1)" using fr(15) wf0 True by (simp add: s0 raw_wf_def)
        moreover have "ll_read (line_of s1) = ll_read (line_of s)" using flush_reads [OF obs f] by (simp add: s0 s)
        ultimately show ?thesis using e i w1 no r by (simp add: s0_def s)
      next
        case r: True
        have "fenced (fst s1)" using fr True r w1 i by (simp add: fenced_def s0)
        moreover have "s3 = s1" using i(1) by (simp add: s3_def s2_def session_over_def session_stalled_def)
        ultimately have k: "fenced (fst s3)" "same_setup s0 s3" using i by simp_all
        have fk: "fenced (fst (when_ready f x)) \<and> same_setup s0 (when_ready f x)"
          if "fenced (fst x)" "same_setup s0 x" "fenced (fst x) \<Longrightarrow> same_setup x (f x) \<and> fenced (fst (f x))" for f x
          using that same_trans [of s0 x "f x"] by (simp add: when_ready_def)
        have "fenced (fst s4) \<and> same_setup s0 s4"
        proof -
          note 1 = fk [where f = serial_read, OF k serial_read_fenced]
          note 2 = fk [where f = network_receive, OF conjunct1 [OF 1] conjunct2 [OF 1] network_receive_fenced]
          note 3 = fk [where f = serial_write, OF conjunct1 [OF 2] conjunct2 [OF 2] idle_fenced(1)]
          show ?thesis unfolding s4_def by (rule fk [where f = network_send, OF conjunct1 [OF 3] conjunct2 [OF 3] idle_fenced(2)])
        qed
        then show ?thesis using e r no by (simp add: s0_def s fenced_def)
      qed
    next
      case np: False
      have s1: "s1 = s0" using fr(14) np by (simp add: s0)
      have r: "r = 0" using f np by (simp add: flush_boundary_def s0)
      have g0: "going (fst s0)" using wf0 np by (simp add: s0)
      obtain q0 x0 where rel0: "release s0 = (q0, x0)" by (cases "release s0")
      have 2: "session_part s0 s2"
        using session_part_refl [OF g0] session_part_release [OF rel0 same_refl] rel0 by (simp add: s2_def s1)
      obtain q x where rel: "release (tally rs_stalls_update 1 (fst s2), snd s2) = (q, x)"
        by (cases "release (tally rs_stalls_update 1 (fst s2), snd s2)")
      have "same_setup s0 (tally rs_stalls_update 1 (fst s2), snd s2)" using 2 by (simp add: session_part_def same_setup_def)
      note session_part_release [OF rel this]
      then have "session_part s0 s3" using 2 rel by (simp add: s3_def)
      note parts [OF this]
      moreover have "raw_serial_listener_step s now = s4" using e r by simp
      ultimately show ?thesis using np by (simp add: s0_def s)
    qed
  qed
qed

section \<open>What the sessions guarantee\<close>

text \<open>The calls that change a listener, each with the port it works on at that time.\<close>

datatype ('w, 'c) raw_op =
  Raw_Open "string option" u16
| Raw_Close "('w, 'c) line_port"
| Raw_Step "('w, 'c) line_port" tick

primrec raw_exec :: "'n raw_serial_listener \<Rightarrow> ('w, 'c) raw_op \<Rightarrow> 'n raw_serial_listener" where
  "raw_exec l (Raw_Open address port) = snd (raw_serial_listener_open l address port)"
| "raw_exec l (Raw_Close p) = fst (snd (raw_serial_listener_close (l, p)))"
| "raw_exec l (Raw_Step p now) = fst (raw_serial_listener_step (l, p) now)"

definition raw_run :: "'n net_calls \<Rightarrow> 'n \<Rightarrow> bool \<Rightarrow> ('w, 'c) raw_op list \<Rightarrow> 'n raw_serial_listener" where
  "raw_run sk n udp ops = foldl raw_exec (raw_serial_listener_init sk n udp) ops"

text \<open>All ports of the calls have the recorded line.\<close>

primrec on_line :: "'w uart_syscalls \<Rightarrow> ('w line_log, 'c) raw_op \<Rightarrow> bool" where
  "on_line sc (Raw_Open address port) = True"
| "on_line sc (Raw_Close p) = (sys (backend_context p) = logged_line sc)"
| "on_line sc (Raw_Step p now) = (sys (backend_context p) = logged_line sc)"

lemma raw_exec_inv:
  assumes "raw_wf l" "rl_net l = logged_net sk" "on_line sc op" "writes_at_most sc" "recv_at_most sk"
  shows "raw_wf (raw_exec l op) \<and> rl_net (raw_exec l op) = logged_net sk"
proof (cases op)
  case (Raw_Open address port)
  then show ?thesis using assms(1,2) by (simp add: raw_serial_listener_open_def Let_def split_beta)
next
  case (Raw_Close p)
  obtain r s where r: "release (l, p) = (r, s)" by (cases "release (l, p)")
  note release_frame [OF r]
  then show ?thesis using Raw_Close r assms(2)
    by (simp add: raw_serial_listener_close_def Let_def split_beta fenced_def)
next
  case (Raw_Step p now)
  have o: "observed sk sc (l, p)" using assms(2,3) Raw_Step by (simp add: observed_def)
  show ?thesis using step_part [OF o assms(4,5), of now] assms(1,2) Raw_Step
    by (auto simp: session_part_def same_setup_def at_time_def)
qed

lemma raw_run_inv:
  assumes "\<forall>op \<in> set ops. on_line sc op" "writes_at_most sc" "recv_at_most sk"
  shows "raw_wf (raw_run (logged_net sk) n udp ops) \<and> rl_net (raw_run (logged_net sk) n udp ops) = logged_net sk"
  using assms(1)
proof (induction ops rule: rev_induct)
  case Nil
  then show ?case by (simp add: raw_run_def raw_serial_listener_init_def raw_wf_def)
next
  case (snoc op ops)
  then have "raw_wf (raw_run (logged_net sk) n udp ops)" "rl_net (raw_run (logged_net sk) n udp ops) = logged_net sk" "on_line sc op"
    by simp_all
  note raw_exec_inv [OF this assms(2,3)]
  then show ?case by (simp add: raw_run_def)
qed

text \<open>
  C25. A new owner waits for a quiet line: a step admits an owner only if no flush of the line is left to do and, while
  the guard is set, the last 100 milliseconds were quiet. A step that ends a session leaves no byte of it
  behind, sets the guard and starts the wait; a step that reads bytes from the line while nobody owns it sets the guard
  and starts the wait anew; and the guard is lifted only after the wait. Before the first byte
  and the first session, right after initialisation, the guard is clear and the first owner is served at once.
\<close>

theorem owner_waits_for_quiet_line:
  assumes "\<forall>op \<in> set ops. on_line sc op" "writes_at_most sc" "recv_at_most sk"
    "l = raw_run (logged_net sk) n udp ops" "sys (backend_context p) = logged_line sc"
    "raw_serial_listener_step (l, p) now = (l', p')"
  shows "(\<not> rl_owned l \<and> rl_owned l' \<longrightarrow>
      \<not> rl_flush_pending l \<and> (rl_guard l \<longrightarrow> core_elapsed (rl_quiet_at l) now \<ge> RAW_OWNER_GUARD_MS)) \<and>
    (rl_owned l \<and> \<not> rl_owned l' \<longrightarrow> rl_tx l' = [] \<and> rl_rx l' = [] \<and> rl_guard l' \<and> rl_quiet_at l' = now) \<and>
    (\<not> rl_owned l \<and> \<not> rl_owned l' \<and> ll_read (line_of (l', p')) \<noteq> ll_read (line_of (l, p)) \<longrightarrow> rl_guard l' \<and> rl_quiet_at l' = now) \<and>
    (rl_guard l \<and> \<not> rl_guard l' \<longrightarrow> core_elapsed (rl_quiet_at l) now \<ge> RAW_OWNER_GUARD_MS)"
proof -
  have inv: "raw_wf l" "observed sk sc (l, p)" using raw_run_inv [OF assms(1-3), of n udp] assms(4,5) by (simp_all add: observed_def)
  let ?same = "(l', p') = (l, p)"
  let ?flush = "\<not> rl_owned l \<and> \<not> rl_owned l' \<and> same_setup (at_time now (l, p)) (l', p') \<and>
      (fenced l' \<or> rl_guard l' \<and> ll_read (line_of (l', p')) = ll_read (line_of (l, p)))"
  let ?part = "\<not> rl_flush_pending l \<and> session_part (at_time now (l, p)) (l', p')"
  have "?same \<or> ?flush \<or> ?part" using step_part [OF inv(2) assms(2,3), of now] inv(1) unfolding assms(6) by auto
  then consider ?same | ?flush | "\<not> rl_flush_pending l" "fenced l'" "rl_now l' = now"
    | "\<not> rl_flush_pending l" "carried (at_time now (l, p)) (l', p')" "raw_wf l'"
    unfolding session_part_def same_setup_def at_time_def by fastforce
  then show ?thesis
  proof cases
    case 1
    then show ?thesis by simp
  next
    case 2
    then have "rl_now l' = now" by (simp add: same_setup_def at_time_def)
    then show ?thesis using 2 by (auto simp: fenced_def)
  next
    case 3
    then show ?thesis by (simp add: fenced_def raw_wf_def)
  next
    case 4
    have t: "traffic (l, p) (l', p')" using 4(2) by (simp add: carried_def traffic_def at_time_def)
    have o: "rl_owned l \<longrightarrow> rl_owned l'" using t by (simp add: traffic_def)
    have a: "\<not> rl_owned l \<and> admits l' \<longrightarrow> admits (l\<lparr>rl_now := now\<rparr>)" using 4(2) by (simp add: carried_def at_time_def)
    have g: "rl_guard l \<longrightarrow> \<not> rl_owned l" "rl_owned l' \<longrightarrow> \<not> rl_guard l'" using inv(1) 4(3) by (auto simp: raw_wf_def)
    moreover have "\<not> rl_owned l' \<longrightarrow> ll_read (line_of (l', p')) = ll_read (line_of (l, p))" using 4(2) by (simp add: carried_def at_time_def)
    ultimately show ?thesis using 4(1) o a by (auto simp: admits_def)
  qed
qed

lemma session_step:
  assumes "observed sk sc s" "writes_at_most sc" "recv_at_most sk" "raw_wf (fst s)"
    "rl_owned (fst (raw_serial_listener_step s now))"
  shows "traffic s (raw_serial_listener_step s now) \<and> raw_wf (fst (raw_serial_listener_step s now)) \<and>
    observed sk sc (raw_serial_listener_step s now) \<and> rl_udp (fst (raw_serial_listener_step s now)) = rl_udp (fst s)"
proof -
  have at: "traffic (at_time now s) x = traffic s x" for x by (simp add: traffic_def at_time_def)
  consider "raw_serial_listener_step s now = s" | "session_part (at_time now s) (raw_serial_listener_step s now)"
    using step_part [OF assms(1-4), of now] assms(5) by blast
  then show ?thesis
  proof cases
    case 1
    then show ?thesis using assms(1,4) carried_refl [of s] by (simp add: carried_def)
  next
    case 2
    then have "carried (at_time now s) (raw_serial_listener_step s now)" using assms(5) by (auto simp: session_part_def fenced_def)
    then have t: "traffic s (raw_serial_listener_step s now)" by (simp add: carried_def at)
    have "raw_wf (fst (raw_serial_listener_step s now)) \<and> same_setup (at_time now s) (raw_serial_listener_step s now)"
      using 2 by (simp add: session_part_def)
    then show ?thesis using t assms(1) by (simp add: same_setup_def observed_def at_time_def)
  qed
qed

text \<open>
  C26. Bytes of a session: whatever the sockets and the line deliver, over any number of steps of one session, from the
  unowned line on, the bytes the serial line took followed by the bytes still stored are those received
  from the owner, in order and nothing else: over TCP all of them, over UDP those of a selection of the owner's
  datagrams, as a datagram for which the buffer has no room is dropped whole. The bytes the network took followed by those still stored are the bytes read from the line.
\<close>

theorem session_carries_bytes:
  assumes "\<forall>op \<in> set ops. on_line sc op" "writes_at_most sc" "recv_at_most sk"
    "l = raw_run (logged_net sk) n udp ops" "sys (backend_context p) = logged_line sc"
    "\<forall>k < length ts. rl_owned (fst (foldl raw_serial_listener_step (l, p) (take (Suc k) ts)))"
  shows "traffic (l, p) (foldl raw_serial_listener_step (l, p) ts)"
proof -
  have inv: "raw_wf l" "observed sk sc (l, p)" using raw_run_inv [OF assms(1-3), of n udp] assms(4,5) by (simp_all add: observed_def)
  have "traffic (l, p) (foldl raw_serial_listener_step (l, p) ts) \<and> raw_wf (fst (foldl raw_serial_listener_step (l, p) ts)) \<and>
    observed sk sc (foldl raw_serial_listener_step (l, p) ts) \<and>
    rl_udp (fst (foldl raw_serial_listener_step (l, p) ts)) = rl_udp l"
    using assms(6)
  proof (induction ts rule: rev_induct)
    case Nil
    have "traffic (l, p) (l, p)" using carried_refl [of "(l, p)"] by (simp add: carried_def)
    then show ?case using inv by simp
  next
    case (snoc now ts)
    define s where "s = foldl raw_serial_listener_step (l, p) ts"
    have "rl_owned (fst (foldl raw_serial_listener_step (l, p) (take (Suc k) ts)))" if "k < length ts" for k
      using snoc.prems that by (auto dest: spec [of _ k])
    then have IH: "traffic (l, p) s" "raw_wf (fst s)" "observed sk sc s" "rl_udp (fst s) = rl_udp l"
      using snoc.IH by (simp_all add: s_def)
    have "rl_owned (fst (foldl raw_serial_listener_step (l, p) (take (Suc (length ts)) (ts @ [now]))))"
      using snoc.prems by (auto dest: spec [of _ "length ts"])
    then have o: "rl_owned (fst (raw_serial_listener_step s now))" by (simp add: s_def)
    note st = session_step [OF IH(3) assms(2,3) IH(2) o]
    have "traffic (l, p) (raw_serial_listener_step s now)" by (rule traffic_trans [OF IH(1)]) (use st IH(4) in simp_all)
    then show ?case using st IH(4) by (simp add: s_def [symmetric])
  qed
  then show ?thesis by blast
qed

section \<open>A session\<close>

text \<open>A network on which one peer connects and sends two bytes, and a silent line that accepts all it is given.\<close>

definition one_peer :: "nat net_calls" where
  "one_peer = idle_net\<lparr>net_accept := \<lambda>n f. (if n = 0 then (5, 1) else (- 1, n)),
     net_recv := \<lambda>n f cap. (if n = 1 \<and> cap \<ge> 2 then (2, [7, 8], 2) else (- 1, [], n))\<rparr>"

definition silent_line :: "unit uart_syscalls" where
  "silent_line = \<lparr>open_fn = \<lambda>w d v. (3, w), close_fn = \<lambda>w f. (0, w), read_fn = \<lambda>w f n. (- 1, [], w),
     write_fn = \<lambda>w f bs. (int (length bs), w), ioctl_fn = \<lambda>w f q v. (0, v, w), tcgetattr_fn = \<lambda>w f v. (0, v, w),
     tcsetattr_fn = \<lambda>w f a v. (0, w), tcflush_fn = \<lambda>w f q. (0, w), last_error_fn = \<lambda>w. (EAGAIN, w)\<rparr>"

lemma sample_calls: "writes_at_most silent_line" "recv_at_most one_peer"
  by (simp_all add: writes_at_most_def silent_line_def recv_at_most_def one_peer_def)

definition line_config :: core_port_config where
  "line_config = \<lparr>cc_revision = 1, cc_mode = 0, cc_baud = 9600, cc_data_bits = 8, cc_parity = 0, cc_stop_bits = 1,
     cc_special_baud_enabled = 0, cc_special_baud = 0, cc_transport = 3, cc_endpoint_port = 4001\<rparr>"

definition line_port :: "(unit line_log, unit) line_port" where
  "line_port = (port_runtime_init 0 line_config (Some uart_backend_ops)
     ((the (snd (uart_backend_init 0 (Some line_config) (Some (logged_line silent_line)) \<lparr>ll_base = (), ll_read = [], ll_wrote = []\<rparr>)))
        \<lparr>fd := 3\<rparr>) ())\<lparr>pr_state := PORT_READY\<rparr>"

definition opened_raw :: "(unit line_log, unit) raw_op list" where
  "opened_raw = [Raw_Open (Some ''0.0.0.0'') 4001]"

abbreviation no_traffic :: "nat net_log" where
  "no_traffic \<equiv> \<lparr>nl_base = 0, nl_got = [], nl_gave = []\<rparr>"

lemma line_port_sys: "sys (backend_context line_port) = logged_line silent_line"
  by (simp add: line_port_def port_runtime_init_def uart_backend_init_def uart_config_validate_def line_config_def standard_speed_def)

lemma session_starts:
  "\<not> rl_owned (raw_run (logged_net one_peer) no_traffic False opened_raw)"
  "rl_owned (fst (raw_serial_listener_step (raw_run (logged_net one_peer) no_traffic False opened_raw, line_port) 7))"
  "rl_owned (fst (raw_serial_listener_step (raw_serial_listener_step
     (raw_run (logged_net one_peer) no_traffic False opened_raw, line_port) 7) 20))"
  by code_simp+

theorem owner_waits_for_quiet_line_witness:
  "let l = raw_run (logged_net one_peer) no_traffic False opened_raw; l' = fst (raw_serial_listener_step (l, line_port) 7)
   in rl_owned l' \<and> \<not> rl_owned l \<and> \<not> rl_flush_pending l"
  using owner_waits_for_quiet_line [of opened_raw silent_line one_peer _ no_traffic False line_port 7, OF _ sample_calls refl
      line_port_sys surjective_pairing] session_starts(1,2)
  by (simp add: Let_def opened_raw_def)

theorem session_carries_bytes_witness:
  "let l = raw_run (logged_net one_peer) no_traffic False opened_raw
   in traffic (l, line_port) (foldl raw_serial_listener_step (l, line_port) [7, 20])"
  unfolding Let_def
proof (rule session_carries_bytes [OF _ sample_calls refl line_port_sys])
  show "\<forall>op \<in> set opened_raw. on_line silent_line op" by (simp add: opened_raw_def)
  show "\<forall>k < length [7, 20]. rl_owned (fst (foldl raw_serial_listener_step
      (raw_run (logged_net one_peer) no_traffic False opened_raw, line_port) (take (Suc k) [7, 20])))"
    using session_starts(2,3) by (auto simp: less_Suc_eq)
qed

end
