(* ===== verification/Gateway_Adapter.thy ===== *)
theory Gateway_Adapter
  imports Gateway_Lifecycle Modbus_Tcp_Listener Modbus_Udp_Listener Raw_Session
begin

text \<open>
  The adapter of \<open>src/gateway/gateway_real_adapter.c\<close>: it ties a port's serial backend and the listener of the
  configured transport to the controller. The listeners are the state behind the completion callback of the port.
  Only one of an adapter's three listeners is in use at a time, and it is initialised when it is started,
  so the model keeps that one; which driver table is in force is given by its kind. The application passes
  the builtin drivers only, so drivers of a test are left out. All listeners of an adapter use the same network.
\<close>

datatype 'n port_listener =
  Tcp "'n modbus_tcp_listener"
| Udp "'n modbus_udp_listener"
| Raw "'n raw_serial_listener"

type_synonym ('w, 'n) adapter_port = "('w uart_backend, 'n port_listener) port_runtime"

record gateway_real_adapter =
  ad_bind_address :: string
  ad_port_index :: nat
  listener_started :: bool
  ad_attached :: bool

definition listener_net :: "'n port_listener \<Rightarrow> 'n net_calls \<times> 'n" where
  "listener_net c = (case c of Tcp l \<Rightarrow> (net l, net_state l) | Udp l \<Rightarrow> (unet l, unet_state l) | Raw l \<Rightarrow> (rl_net l, rl_net_state l))"

text \<open>The completion callbacks the listeners register.\<close>

definition listener_completion :: "'n port_listener core_completion_fn" where
  "listener_completion g c t status response =
     (case c of Tcp l \<Rightarrow> Tcp (tcp_completion l t status response)
      | Udp l \<Rightarrow> Udp (udp_completion g l t status response)
      | Raw l \<Rightarrow> Raw l)"

section \<open>The driver tables\<close>

datatype listener_driver = Real_Driver | Udp_Mbap_Driver | Udp_Rtu_Driver | Raw_Tcp_Driver | Raw_Udp_Driver

definition driver_init :: "listener_driver \<Rightarrow> ('w, 'n) adapter_port \<Rightarrow> ('w, 'n) adapter_port" where
  "driver_init d p =
     (let (sk, n) = listener_net (completion_context p) in
      case d of
        Real_Driver \<Rightarrow> port_runtime_set_completion p (Some listener_completion) (Tcp (modbus_tcp_listener_init sk n))
      | Udp_Mbap_Driver \<Rightarrow> port_runtime_set_completion p (Some listener_completion) (Udp (modbus_udp_listener_init sk n False))
      | Udp_Rtu_Driver \<Rightarrow> port_runtime_set_completion p (Some listener_completion) (Udp (modbus_udp_listener_init sk n True))
      | Raw_Tcp_Driver \<Rightarrow> port_runtime_set_completion p None (Raw (raw_serial_listener_init sk n False))
      | Raw_Udp_Driver \<Rightarrow> port_runtime_set_completion p None (Raw (raw_serial_listener_init sk n True)))"

definition driver_open :: "('w, 'n) adapter_port \<Rightarrow> string \<Rightarrow> u16 \<Rightarrow> int \<times> ('w, 'n) adapter_port" where
  "driver_open p address port =
     (case completion_context p of
        Tcp l \<Rightarrow> (case modbus_tcp_listener_open l (Some address) port of (r, l) \<Rightarrow> (r, p\<lparr>completion_context := Tcp l\<rparr>))
      | Udp l \<Rightarrow> (case modbus_udp_listener_open l (Some address) port of (r, l) \<Rightarrow> (r, p\<lparr>completion_context := Udp l\<rparr>))
      | Raw l \<Rightarrow> (case raw_serial_listener_open l (Some address) port of (r, l) \<Rightarrow> (r, p\<lparr>completion_context := Raw l\<rparr>)))"

definition driver_step :: "('w, 'n) adapter_port \<Rightarrow> tick \<Rightarrow> ('w, 'n) adapter_port" where
  "driver_step p now =
     (case completion_context p of
        Tcp l \<Rightarrow> (case modbus_tcp_listener_step_io l p now of (l, p) \<Rightarrow> p\<lparr>completion_context := Tcp l\<rparr>)
      | Udp l \<Rightarrow> (case modbus_udp_listener_step_io l p now of (l, p) \<Rightarrow> p\<lparr>completion_context := Udp l\<rparr>)
      | Raw l \<Rightarrow> (case raw_serial_listener_step (l, p) now of (l, p) \<Rightarrow> p\<lparr>completion_context := Raw l\<rparr>))"

definition driver_close :: "('w, 'n) adapter_port \<Rightarrow> int \<times> ('w, 'n) adapter_port" where
  "driver_close p =
     (case completion_context p of
        Tcp l \<Rightarrow> (0, p\<lparr>completion_context := Tcp (modbus_tcp_listener_close l)\<rparr>)
      | Udp l \<Rightarrow> (0, p\<lparr>completion_context := Udp (modbus_udp_listener_close l)\<rparr>)
      | Raw l \<Rightarrow> (case raw_serial_listener_close (l, p) of (r, l, p) \<Rightarrow> (r, p\<lparr>completion_context := Raw l\<rparr>)))"

definition driver_clients :: "'n port_listener \<Rightarrow> u32" where
  "driver_clients c =
     (case c of Tcp l \<Rightarrow> modbus_tcp_listener_client_count l
      | Udp l \<Rightarrow> modbus_udp_listener_peer_count l
      | Raw l \<Rightarrow> (if rl_owned l then 1 else 0))"

definition driver_crc :: "'n port_listener \<Rightarrow> u32" where
  "driver_crc c =
     (case c of Tcp l \<Rightarrow> ls_downstream_crc_failures (tcp_stats l) | Udp l \<Rightarrow> us_crc_errors (udp_stats l) | Raw l \<Rightarrow> 0)"

definition driver_framing :: "'n port_listener \<Rightarrow> u32" where
  "driver_framing c =
     (case c of Tcp l \<Rightarrow> ls_downstream_framing_failures (tcp_stats l) | Udp l \<Rightarrow> us_malformed (udp_stats l) | Raw l \<Rightarrow> 0)"

definition real_diagnostics :: "'n modbus_tcp_listener \<Rightarrow> gateway_transport_diagnostics" where
  "real_diagnostics l = zero_diagnostics\<lparr>td_clients := modbus_tcp_listener_client_count l,
     td_malformed_mbap := ls_malformed (tcp_stats l), td_tx_overflow := ls_tx_overflow (tcp_stats l),
     td_write_deadline_expired := ls_write_deadline_expired (tcp_stats l),
     td_gateway_target_no_response := ls_gateway_target_no_response (tcp_stats l),
     td_gateway_path_unavailable := ls_gateway_path_unavailable (tcp_stats l),
     td_crc_failures := ls_downstream_crc_failures (tcp_stats l),
     td_framing_failures := ls_downstream_framing_failures (tcp_stats l),
     td_unit_mismatches := ls_downstream_unit_mismatches (tcp_stats l),
     td_function_mismatches := ls_downstream_function_mismatches (tcp_stats l),
     td_leading_garbage := ls_downstream_leading_garbage (tcp_stats l)\<rparr>"

definition udp_diagnostics :: "'n modbus_udp_listener \<Rightarrow> gateway_transport_diagnostics" where
  "udp_diagnostics l = zero_diagnostics\<lparr>td_clients := modbus_udp_listener_peer_count l,
     td_malformed_mbap := us_malformed (udp_stats l), td_crc_failures := us_crc_errors (udp_stats l),
     td_framing_failures := us_invalid_responses (udp_stats l), td_gateway_target_no_response := us_timeouts (udp_stats l),
     td_gateway_path_unavailable := us_failures (udp_stats l), td_tx_overflow := us_send_errors (udp_stats l)\<rparr>"

definition raw_diagnostics :: "'n raw_serial_listener \<Rightarrow> gateway_transport_diagnostics" where
  "raw_diagnostics l = zero_diagnostics\<lparr>td_clients := (if rl_owned l then 1 else 0),
     td_tx_overflow := rs_dropped_datagrams (rl_stats l), td_write_deadline_expired := rs_stalls (rl_stats l),
     td_gateway_path_unavailable := rs_io_errors (rl_stats l), td_raw_network_received := rs_network_received (rl_stats l),
     td_raw_network_sent := rs_network_sent (rl_stats l), td_raw_serial_read := rs_serial_read (rl_stats l),
     td_raw_serial_written := rs_serial_written (rl_stats l), td_raw_rejected_peers := rs_rejected_peers (rl_stats l),
     td_raw_discarded_serial := rs_discarded_serial (rl_stats l)\<rparr>"

section \<open>The transport\<close>

text \<open>The driver that the builtin adapter takes for a transport.\<close>

definition driver_of :: "u32 \<Rightarrow> listener_driver option" where
  "driver_of transport =
     (if transport = TRANSPORT_MODBUS_TCP then Some Real_Driver
      else if transport = TRANSPORT_MODBUS_UDP then Some Udp_Mbap_Driver
      else if transport = TRANSPORT_RTU_UDP then Some Udp_Rtu_Driver
      else if transport = TRANSPORT_RAW_TCP then Some Raw_Tcp_Driver
      else if transport = TRANSPORT_RAW_UDP then Some Raw_Udp_Driver
      else None)"

definition real_transport_start ::
  "gateway_real_adapter \<Rightarrow> ('w, 'n) adapter_port \<Rightarrow> gateway_port_config \<Rightarrow> int \<times> gateway_real_adapter \<times> ('w, 'n) adapter_port"
where
  "real_transport_start a p config =
     (let n = length (gc_bind_address config) in
      if \<not> ad_attached a \<or> listener_started a \<or> n = 0 \<or> n \<ge> GATEWAY_BIND_ADDRESS_LENGTH then (- 1, a, p)
      else
        let a = a\<lparr>ad_bind_address := gc_bind_address config\<rparr> in
        case driver_of (gc_transport config) of None \<Rightarrow> (- 1, a, p)
        | Some d \<Rightarrow>
            let (r, p) = driver_open (driver_init d p) (ad_bind_address a) (ucast (gc_endpoint_port config))
            in if r \<noteq> 0 then (- 1, a, p) else (0, a\<lparr>listener_started := True\<rparr>, p))"

definition real_transport_step ::
  "gateway_real_adapter \<Rightarrow> ('w, 'n) adapter_port \<Rightarrow> tick \<Rightarrow> gateway_real_adapter \<times> ('w, 'n) adapter_port" where
  "real_transport_step a p now = (a, if listener_started a then driver_step p now else p)"

definition real_transport_stop ::
  "gateway_real_adapter \<Rightarrow> ('w, 'n) adapter_port \<Rightarrow> int \<times> gateway_real_adapter \<times> ('w, 'n) adapter_port" where
  "real_transport_stop a p =
     (if \<not> listener_started a then (0, a, p)
      else let (result, p) = driver_close p in (result, if result = 0 then a\<lparr>listener_started := False\<rparr> else a, p))"

definition adapter_clients :: "gateway_real_adapter \<Rightarrow> ('w, 'n) adapter_port \<Rightarrow> u32" where
  "adapter_clients a p = (if listener_started a then driver_clients (completion_context p) else 0)"

definition adapter_crc_errors :: "gateway_real_adapter \<Rightarrow> ('w, 'n) adapter_port \<Rightarrow> u32" where
  "adapter_crc_errors a p = driver_crc (completion_context p)"

definition adapter_framing_errors :: "gateway_real_adapter \<Rightarrow> ('w, 'n) adapter_port \<Rightarrow> u32" where
  "adapter_framing_errors a p = driver_framing (completion_context p)"

definition adapter_diagnostics :: "gateway_real_adapter \<Rightarrow> ('w, 'n) adapter_port \<Rightarrow> gateway_transport_diagnostics" where
  "adapter_diagnostics a p =
     (case completion_context p of Tcp l \<Rightarrow> real_diagnostics l | Udp l \<Rightarrow> udp_diagnostics l | Raw l \<Rightarrow> raw_diagnostics l)"

definition real_transport_ops ::
  "('w uart_backend, 'n port_listener, gateway_real_adapter) gateway_transport_ops" where
  "real_transport_ops = \<lparr>tr_start = Some real_transport_start, tr_step = Some real_transport_step,
     tr_stop = Some real_transport_stop, tr_client_count = Some adapter_clients,
     tr_crc_errors = Some adapter_crc_errors, tr_framing_errors = Some adapter_framing_errors,
     tr_diagnostics = Some adapter_diagnostics\<rparr>"

section \<open>The adapter\<close>

text \<open>
  The listener of an adapter that was cleared with \<open>memset\<close> and not started yet: the driver in force is that of
  Modbus/TCP, and all of the listener's words are zero, the descriptors too.
\<close>

definition zero_tcp_listener :: "'n net_calls \<Rightarrow> 'n \<Rightarrow> 'n modbus_tcp_listener" where
  "zero_tcp_listener sk n = (modbus_tcp_listener_init sk n)\<lparr>listen_fd := 0, next_epoch := 0,
     tcp_clients := replicate MODBUS_LISTENER_CLIENT_MAX (closed_client\<lparr>cl_fd := 0\<rparr>)\<rparr>"

definition gateway_real_adapter_init ::
  "nat \<Rightarrow> gateway_port_config \<Rightarrow> 'w uart_syscalls \<Rightarrow> 'w \<Rightarrow> int \<times> (gateway_real_adapter \<times> 'w uart_backend) option" where
  "gateway_real_adapter_init index config sc w =
     (let n = length (gc_bind_address config) in
      if index \<ge> GATEWAY_PORT_COUNT \<or> n = 0 \<or> n \<ge> GATEWAY_BIND_ADDRESS_LENGTH then (- 1, None)
      else
        case uart_backend_init (of_nat index) (Some (core_config config)) (Some sc) w of
          (r, None) \<Rightarrow> (- 1, None)
        | (r, Some u) \<Rightarrow>
            if r \<noteq> 0 then (- 1, None)
            else (0, Some (\<lparr>ad_bind_address = gc_bind_address config, ad_port_index = index, listener_started = False,
                   ad_attached = False\<rparr>, uart_backend_set_frame_probe u (Some modbus_rtu_frame_probe))))"

definition gateway_real_adapter_attach :: "gateway_real_adapter \<Rightarrow> gateway_real_adapter" where
  "gateway_real_adapter_attach a = a\<lparr>ad_attached := True\<rparr>"

definition gateway_real_adapter_binding ::
  "gateway_real_adapter \<times> 'w uart_backend \<Rightarrow> ('w uart_backend, 'n port_listener, gateway_real_adapter) gateway_port_binding" where
  "gateway_real_adapter_binding a = \<lparr>backend_ops = Some uart_backend_ops, binding_backend = snd a,
     transport_ops = Some real_transport_ops, transport_context = fst a\<rparr>"

section \<open>The adapter keeps the contract of a transport\<close>

lemma live_update [simp]:
  "live (p\<lparr>completion_context := c\<rparr>) = live p" "live (p\<lparr>backend_context := b\<rparr>) = live p"
  "live (port_runtime_set_completion p f c) = live p"
  by (simp_all add: live_def port_runtime_set_completion_def)

lemma inv_context [simp]: "port_inv (p\<lparr>completion_context := c\<rparr>) = port_inv p"
  by (simp add: port_inv_def)

lemma keeps_update:
  "keeps_port p (p\<lparr>completion_context := c\<rparr>)" "keeps_port p (p\<lparr>backend_context := b\<rparr>)"
  "keeps_port p (port_runtime_set_completion p f c)"
  by (simp_all add: keeps_port_def inv_set_completion)

lemma submit_keeps: "keeps_port p (snd (snd (port_runtime_submit_operation p d k ow m op now qt rt)))"
proof -
  have "pr_state (snd (snd (port_runtime_submit_operation p d k ow m op now qt rt))) = pr_state p"
    by (cases rule: submit_cases [of p d k ow m op now qt rt]) (simp_all add: update_depth_def Let_def)
  then show ?thesis using inv_submit [of p d k ow m op now qt rt] by (simp add: keeps_port_def live_def)
qed

lemma tcp_step_keeps: "modbus_tcp_listener_step_io l p now = (l', p') \<Longrightarrow> keeps_port p p'"
proof -
  have "keeps_port p (snd (snd (modbus_tcp_submit p rq now qt rt)))" for rq qt rt
    by (simp add: modbus_tcp_submit_def submit_keeps Let_def split: option.split)
  then have "keeps_port p (snd (snd (modbus_dispatcher_step d p now qt rt)))" for d qt rt
    by (simp add: modbus_dispatcher_step_def Let_def split_beta split: option.split)
  then show "modbus_tcp_listener_step_io l p now = (l', p') \<Longrightarrow> keeps_port p p'"
    by (auto simp: modbus_tcp_listener_step_io_def Let_def split_beta split: if_splits)
qed

lemma udp_step_keeps:
  assumes "modbus_udp_listener_step_io l p now = (l', p')"
  shows "keeps_port p p'"
proof -
  have "keeps_port p (snd (dispatch_peers ks m p now))" for ks m
    by (induction ks arbitrary: m) (simp_all add: Let_def split_beta submit_keeps)
  then show ?thesis using assms
    by (auto simp: modbus_udp_listener_step_io_def dispatch_one_def Let_def split_beta split: if_splits)
qed

text \<open>The raw listener changes the serial backend of its port and reports failures of the line.\<close>

abbreviation keeps :: "('n, 'w, 'c) raw_state \<Rightarrow> ('n, 'w, 'c) raw_state \<Rightarrow> bool" where
  "keeps s s' \<equiv> keeps_port (snd s) (snd s')"

lemma report_keeps_port: "keeps_port p (snd (port_runtime_report_io_failure p now m))"
proof -
  have "live (snd (port_runtime_report_io_failure p now m))" if "live p"
    using that by (simp add: port_runtime_report_io_failure_def live_recovery [where ?p0.0 = p])
  then show ?thesis by (simp add: keeps_port_def inv_report)
qed

lemma fault_keeps: "keeps_port p (snd (serial_fault (l, p)))"
  by (simp add: serial_fault_def Let_def report_keeps_port)

lemma fault_on_keeps: "keeps_port p (snd (serial_fault (l, p\<lparr>backend_context := u\<rparr>)))"
  by (rule keeps_port_trans [OF keeps_update(2) fault_keeps])

lemma flush_keeps: "keeps_port p (snd (snd (flush_boundary (l, p))))"
  by (simp add: flush_boundary_def Let_def split_beta keeps_update fault_on_keeps)

lemma release_keeps: "keeps_port p (snd (snd (release (l, p))))"
  by (simp add: release_def Let_def split_beta flush_keeps)

lemma release_after: "keeps_port p q \<Longrightarrow> keeps_port p (snd (snd (release (l, q))))"
  using keeps_port_trans release_keeps by blast

lemma line_failed_keeps: "keeps_port p (snd (line_failed (l, p)))"
proof -
  obtain r l1 p1 where r: "release (l, p\<lparr>backend_context := tally_line hard_errors_update 1 (backend_context p)\<rparr>) = (r, l1, p1)"
    by (rule prod_cases3)
  have "keeps_port p p1" using release_keeps [of "p\<lparr>backend_context := tally_line hard_errors_update 1 (backend_context p)\<rparr>" l] r
    keeps_port_trans [OF keeps_update(2)] by fastforce
  then show ?thesis using keeps_port_trans [OF _ fault_keeps] r by (simp add: line_failed_def)
qed

lemma line_failed_on_keeps: "keeps_port p (snd (line_failed (l, p\<lparr>backend_context := u\<rparr>)))"
  by (rule keeps_port_trans [OF keeps_update(2) line_failed_keeps])

lemma part_keeps:
  "keeps_port p (snd (serial_read (l, p)))" "keeps_port p (snd (serial_write (l, p)))"
  "keeps_port p (snd (network_receive (l, p)))" "keeps_port p (snd (network_send (l, p)))"
proof -
  show "keeps_port p (snd (serial_read (l, p)))"
    by (simp add: serial_read_def Let_def split_beta keeps_update line_failed_on_keeps)
  show "keeps_port p (snd (serial_write (l, p)))"
    by (simp add: serial_write_def Let_def split_beta keeps_update line_failed_on_keeps)
  show "keeps_port p (snd (network_receive (l, p)))"
    by (simp add: network_receive_def receive_stream_def Let_def split_beta release_keeps)
  show "keeps_port p (snd (network_send (l, p)))"
    by (simp add: network_send_def Let_def split_beta release_keeps)
qed

lemma when_ready_keeps:
  assumes "keeps_port p0 (snd s)" "\<And>l p. keeps_port p (snd (f (l, p)))"
  shows "keeps_port p0 (snd (when_ready f s))"
  using keeps_port_trans [OF assms(1) assms(2) [of "snd s" "fst s"]] assms(1) by (simp add: when_ready_def)

lemma raw_step_keeps:
  assumes "raw_serial_listener_step (l, p) now = (l', p')"
  shows "keeps_port p p'"
proof -
  obtain r l1 p1 where f: "flush_boundary (l\<lparr>rl_now := now\<rparr>, p) = (r, l1, p1)" by (rule prod_cases3)
  define s2 where "s2 = (if session_over l1 now then snd (release (l1, p1)) else (l1, p1))"
  define s3 where "s3 = (if session_stalled (fst s2) now then
      (case s2 of (l, p) \<Rightarrow> snd (release (tally rs_stalls_update 1 l, p))) else s2)"
  have 1: "keeps_port p p1" using flush_keeps [of p "l\<lparr>rl_now := now\<rparr>"] f by simp
  have 2: "keeps_port p (snd s2)" using 1 by (simp add: s2_def release_after)
  have 3: "keeps_port p (snd s3)" using 2 by (simp add: s3_def split_beta release_after)
  have 4: "keeps_port p (snd (when_ready network_send (when_ready serial_write (when_ready network_receive (when_ready serial_read s3)))))"
    by (intro when_ready_keeps part_keeps 3)
  show ?thesis
  proof (cases "rl_fd l < 0 \<or> fd (backend_context p) < 0 \<or> pr_state p \<noteq> PORT_READY \<or> has_active p \<or> q_count (pr_queue p) \<noteq> 0")
    case True
    then have "raw_serial_listener_step (l, p) now = (l, p)" by (simp only: raw_serial_listener_step_def prod.case if_True Let_def)
    then show ?thesis using assms by simp
  next
    case False
    then have "raw_serial_listener_step (l, p) now = (if r \<noteq> 0 then (l1, p1)
        else when_ready network_send (when_ready serial_write (when_ready network_receive (when_ready serial_read s3))))"
      using f by (simp only: raw_serial_listener_step_def prod.case if_False Let_def s3_def s2_def)
    then show ?thesis using 1 4 assms by (metis snd_conv)
  qed
qed

lemma raw_close_keeps: "raw_serial_listener_close (l, p) = (r, l', p') \<Longrightarrow> keeps_port p p'"
  using release_keeps [of p l] by (auto simp: raw_serial_listener_close_def Let_def split_beta)

lemma driver_keeps:
  "keeps_port p (driver_init d p)" "driver_open p a port = (r, p') \<Longrightarrow> keeps_port p p'" "keeps_port p (driver_step p now)"
  "driver_close p = (r, p') \<Longrightarrow> keeps_port p p'"
proof -
  show "keeps_port p (driver_init d p)"
    by (cases d) (simp_all add: driver_init_def keeps_update split: prod.split)
  show "driver_open p a port = (r, p') \<Longrightarrow> keeps_port p p'"
    by (auto simp: driver_open_def keeps_update split: port_listener.splits prod.splits)
  show "keeps_port p (driver_step p now)"
    using keeps_port_trans [OF tcp_step_keeps keeps_update(1)] keeps_port_trans [OF udp_step_keeps keeps_update(1)]
      keeps_port_trans [OF raw_step_keeps keeps_update(1)]
    by (auto simp: driver_step_def split: port_listener.split prod.split)
  show "driver_close p = (r, p') \<Longrightarrow> keeps_port p p'"
    using keeps_port_trans [OF raw_close_keeps keeps_update(1)]
    by (auto simp: driver_close_def keeps_update split: port_listener.splits prod.splits)
qed

interpretation real: transport_contract real_transport_ops listener_started
proof
  show "keeps_port rt rt'" if "tr_start real_transport_ops = Some f" "f t rt cfg = (r, t', rt')" for f t rt cfg r t' rt'
    using that driver_keeps(1,2) keeps_port_trans
    by (fastforce simp: real_transport_ops_def real_transport_start_def Let_def split: if_splits option.splits prod.splits)
  show "keeps_port rt rt'" if "tr_step real_transport_ops = Some g" "g t rt now = (t', rt')" for g t rt now t' rt'
    using that driver_keeps(3) by (auto simp: real_transport_ops_def real_transport_step_def split: if_splits)
  show "keeps_port rt rt'" if "tr_stop real_transport_ops = Some h" "h t rt = (r, t', rt')" for h t rt r t' rt'
    using that driver_keeps(4) by (auto simp: real_transport_ops_def real_transport_stop_def split: if_splits prod.splits)
  show "listener_started t' \<longleftrightarrow> r = 0 \<or> listener_started t"
    if "tr_start real_transport_ops = Some f" "f t rt cfg = (r, t', rt')" for f t rt cfg r t' rt'
    using that by (auto simp: real_transport_ops_def real_transport_start_def Let_def split: if_splits option.splits prod.splits)
  show "listener_started t' \<longleftrightarrow> listener_started t" if "tr_step real_transport_ops = Some g" "g t rt now = (t', rt')" for g t rt now t' rt'
    using that by (auto simp: real_transport_ops_def real_transport_step_def)
  show "listener_started t' \<longleftrightarrow> r \<noteq> 0 \<and> listener_started t"
    if "tr_stop real_transport_ops = Some h" "h t rt = (r, t', rt')" for h t rt r t' rt'
    using that by (auto simp: real_transport_ops_def real_transport_stop_def split: if_splits prod.splits)
  show "tr_stop real_transport_ops \<noteq> None" by (simp add: real_transport_ops_def)
qed

section \<open>What holds of every port\<close>

definition udp_port :: gateway_port_config where
  "udp_port = plain_port\<lparr>gc_transport := TRANSPORT_RTU_UDP\<rparr>"

text \<open>An adapter that was initialised and not started.\<close>

definition unstarted_adapter :: "gateway_real_adapter \<times> unit uart_backend" where
  "unstarted_adapter = the (snd (gateway_real_adapter_init 0 udp_port silent_line ()))"

lemma unstarted: "\<not> listener_started (fst unstarted_adapter)"
  by code_simp

text \<open>
  C27. Over all runs of the gateway, with the serial backends and listeners of the code and whatever sockets and
  serial lines do, from adapters that were not started: the controller owns the listener of a port exactly if the
  adapter of the port has started one; a READY port owns its listener and its runtime serves; a port that waits for
  the network has a serving runtime and no listener; a listener runs only for a READY port or one that broke down, or
  when stopping it failed; and the runtime of every port keeps its invariant.
\<close>

theorem ready_port_is_served:
  fixes adapter :: "nat \<Rightarrow> gateway_real_adapter \<times> 'w uart_backend" and listeners :: "'n port_listener list"
  assumes "\<And>i. i < GATEWAY_PORT_COUNT \<Longrightarrow> \<not> listener_started (fst (adapter i))"
  shows "list_all (\<lambda>p. port_ok p \<and> (listener_owned p \<longleftrightarrow> listener_started (transport_context (binding p))))
     (ctl_ports (ctl_run os (snd (gateway_controller_init ports
        (map (\<lambda>i. gateway_real_adapter_binding (adapter i)) [0..<GATEWAY_PORT_COUNT]) listeners))))"
proof -
  let ?b = "map (\<lambda>i. gateway_real_adapter_binding (adapter i)) [0..<GATEWAY_PORT_COUNT]
    :: ('w uart_backend, 'n port_listener, gateway_real_adapter) gateway_port_binding list"
  have "\<forall>b \<in> set ?b. transport_ops b = Some real_transport_ops \<and> \<not> listener_started (transport_context b)"
    using assms by (auto simp: gateway_real_adapter_binding_def)
  from real.reachable_ok [OF this, of os ports listeners] show ?thesis by (simp add: real.served_def list_all_iff)
qed

theorem ready_port_is_served_witness:
  "list_all (\<lambda>p. port_ok p \<and> (listener_owned p \<longleftrightarrow> listener_started (transport_context (binding p))))
     (ctl_ports (ctl_run [Start_All 0, Step_All 1, Step_All 2] (snd (gateway_controller_init (replicate GATEWAY_PORT_COUNT udp_port)
        (map (\<lambda>i. gateway_real_adapter_binding unstarted_adapter) [0..<GATEWAY_PORT_COUNT])
        (replicate GATEWAY_PORT_COUNT (Tcp (zero_tcp_listener idle_net ())))))))"
  by (rule ready_port_is_served) (rule unstarted)

section \<open>The listener of a transport\<close>

definition listens_as :: "u32 \<Rightarrow> 'n port_listener \<Rightarrow> bool" where
  "listens_as transport c =
     (case c of Tcp l \<Rightarrow> transport = TRANSPORT_MODBUS_TCP \<and> listen_fd l \<ge> 0
      | Udp l \<Rightarrow> transport = (if rtu_mode l then TRANSPORT_RTU_UDP else TRANSPORT_MODBUS_UDP) \<and> ul_fd l \<ge> 0
      | Raw l \<Rightarrow> transport = (if rl_udp l then TRANSPORT_RAW_UDP else TRANSPORT_RAW_TCP) \<and> rl_fd l \<ge> 0)"

lemma opened:
  "modbus_tcp_listener_open l a port = (0, l') \<Longrightarrow> listen_fd l' \<ge> 0"
  "modbus_udp_listener_open u a port = (0, u') \<Longrightarrow> ul_fd u' \<ge> 0 \<and> rtu_mode u' = rtu_mode u"
  "raw_serial_listener_open r a port = (0, r') \<Longrightarrow> rl_fd r' \<ge> 0 \<and> rl_udp r' = rl_udp r"
  by (auto simp: modbus_tcp_listener_open_def modbus_udp_listener_open_def raw_serial_listener_open_def Let_def split_beta
      split: if_splits)

lemma driver_opened:
  assumes "driver_open (driver_init d p) a port = (0, p')" "driver_of transport = Some d"
  shows "listens_as transport (completion_context p') \<and>
    completion p' = (case completion_context p' of Raw l \<Rightarrow> None | _ \<Rightarrow> Some listener_completion)"
  using assms
  by (cases d) (auto dest!: opened simp: driver_open_def driver_init_def port_runtime_set_completion_def listens_as_def driver_of_def
      modbus_udp_listener_init_def raw_serial_listener_init_def split: if_splits prod.splits)

text \<open>
  When the transport of a port starts, the listener of the configured kind is open, TCP or UDP, framed or raw, its
  completions and those of no other listener reach the port's answers, and the adapter counts it as started, at
  the configured address.
\<close>

theorem started_listener_matches_config:
  assumes "real_transport_start a p config = (0, a', p')"
  shows "listener_started a' \<and> ad_bind_address a' = gc_bind_address config \<and>
     listens_as (gc_transport config) (completion_context p') \<and>
     completion p' = (case completion_context p' of Raw l \<Rightarrow> None | _ \<Rightarrow> Some listener_completion)"
proof -
  obtain d where d: "driver_of (gc_transport config) = Some d"
    "driver_open (driver_init d p) (gc_bind_address config) (ucast (gc_endpoint_port config)) = (0, p')"
    "a' = a\<lparr>ad_bind_address := gc_bind_address config, listener_started := True\<rparr>"
    using assms by (auto simp: real_transport_start_def Let_def split: if_splits option.splits prod.splits)
  then show ?thesis using driver_opened [OF d(2,1)] by simp
qed

text \<open>An adapter on a network that opens every socket.\<close>

definition unstarted_port :: "(unit, unit) adapter_port" where
  "unstarted_port = port_runtime_init 0 (core_config udp_port) (Some uart_backend_ops) (snd unstarted_adapter)
     (Tcp (zero_tcp_listener idle_net ()))"

lemma fresh_start: "fst (real_transport_start (gateway_real_adapter_attach (fst unstarted_adapter)) unstarted_port udp_port) = 0"
  by code_simp

theorem started_listener_matches_config_witness:
  "let (r, a', p') = real_transport_start (gateway_real_adapter_attach (fst unstarted_adapter)) unstarted_port udp_port
   in listener_started a' \<and> listens_as TRANSPORT_RTU_UDP (completion_context p')"
proof -
  obtain a' p' where s: "real_transport_start (gateway_real_adapter_attach (fst unstarted_adapter)) unstarted_port udp_port = (0, a', p')"
    using fresh_start by (metis eq_fst_iff prod.collapse)
  have t: "gc_transport udp_port = TRANSPORT_RTU_UDP" by (simp add: udp_port_def)
  show ?thesis unfolding s using started_listener_matches_config [OF s] by (simp add: t)
qed

section \<open>A port that was never enabled\<close>

text \<open>What stays of such a port, whatever else the gateway is asked to do.\<close>

definition untouched :: "'n port_listener \<Rightarrow> ('w uart_backend, 'n port_listener, gateway_real_adapter) gateway_port_controller \<Rightarrow> bool" where
  "untouched c p \<longleftrightarrow> gc_enabled (gp_current p) = 0 \<and> (lifecycle p = GATEWAY_PORT_DISABLED \<or> lifecycle p = GATEWAY_PORT_ERROR) \<and>
     \<not> listener_owned p \<and> pr_state (runtime p) = PORT_DISABLED \<and> completion_context (runtime p) = c \<and>
     transport_ops (binding p) = Some real_transport_ops"

lemma untouched_start: "untouched c p \<Longrightarrow> untouched c (start_port p now)"
  by (simp add: untouched_def start_port_def)

lemma untouched_step: "untouched c p \<Longrightarrow> untouched c (step_port p now)"
  by (auto simp: untouched_def step_port_def transport_step_def port_runtime_step_def Let_def)

lemma untouched_wait: "untouched c p \<Longrightarrow> untouched c (snd (network_wait_port p w now))"
  by (auto simp: untouched_def network_wait_port_def Let_def)

lemma untouched_shutdown: "untouched c p \<Longrightarrow> untouched c (shutdown_port p now)"
  by (auto simp: untouched_def shutdown_port_def transport_stop_def Let_def)

lemma untouched_replace: "untouched c p \<Longrightarrow> gc_enabled cfg = 0 \<Longrightarrow> untouched c (snd (reconfigure_port k p cfg now))"
  by (auto simp: untouched_def reconfigure_port_def reconfigure_disable_def)

lemma untouched_exec:
  assumes "untouched c (ctl_ports g ! k)" "k < GATEWAY_PORT_COUNT" "length (ctl_ports g) = GATEWAY_PORT_COUNT"
    "next_port g < GATEWAY_PORT_COUNT" "\<And>cfg now. op = Replace k (Some cfg) now \<Longrightarrow> gc_enabled cfg = 0"
  shows "untouched c (ctl_ports (ctl_exec g op) ! k)"
proof (cases op)
  case (Start_All now)
  then show ?thesis using assms untouched_start by (simp add: gateway_controller_start_def)
next
  case (Step_All now)
  then show ?thesis using assms untouched_step by (simp add: controller_step_ports)
next
  case (Shut_Down now)
  then show ?thesis using assms untouched_shutdown by (simp add: gateway_controller_shutdown_def)
next
  case (Await_Network i w now)
  then show ?thesis using assms untouched_wait
    by (cases "i = k") (auto simp: gateway_controller_network_wait_def split_beta Let_def)
next
  case (Replace i cfg now)
  then show ?thesis using assms untouched_replace
    by (cases "i = k") (auto simp: gateway_controller_reconfigure_def split_beta Let_def)
qed

lemma untouched_run:
  assumes "untouched c (ctl_ports g ! k)" "k < GATEWAY_PORT_COUNT" "ctl_shape g"
    "\<And>cfg now. Replace k (Some cfg) now \<in> set os \<Longrightarrow> gc_enabled cfg = 0"
  shows "untouched c (ctl_ports (ctl_run os g) ! k) \<and> ctl_shape (ctl_run os g)"
  using assms(4)
proof (induction os rule: rev_induct)
  case (snoc op os)
  have "\<And>cfg now. Replace k (Some cfg) now \<in> set os \<Longrightarrow> gc_enabled cfg = 0" using snoc.prems by fastforce
  then have i: "untouched c (ctl_ports (ctl_run os g) ! k)" "ctl_shape (ctl_run os g)" using snoc.IH by blast+
  have "untouched c (ctl_ports (ctl_exec (ctl_run os g) op) ! k)"
    by (rule untouched_exec [OF i(1) assms(2)]) (use i(2) snoc.prems in \<open>auto simp: ctl_shape_def\<close>)
  then show ?case using shape_exec [OF i(2)] by (simp add: ctl_run_def)
qed (use assms in \<open>simp add: ctl_run_def\<close>)

lemma health_of_port:
  assumes "k < GATEWAY_PORT_COUNT"
  shows "health_ports (gateway_controller_health g) ! k = port_health k (ctl_ports g ! k)"
proof -
  have f: "health_ports (foldl count_health h qs) = health_ports h @ qs" for h qs
    by (induction qs arbitrary: h) (simp_all add: count_health_def)
  show ?thesis using assms by (simp add: gateway_controller_health_def f)
qed

lemma zero_listener_clients: "modbus_tcp_listener_client_count (zero_tcp_listener sk n) = 8"
  by (simp add: modbus_tcp_listener_client_count_def zero_tcp_listener_def)

text \<open>
  The listener of a port that was never started is cleared memory: whatever the gateway is asked to do, as long as the
  port is not enabled, its health names no connected client, but the diagnostics of its transport count eight, for each of
  the listener's client slots holds the descriptor zero.
\<close>

theorem unstarted_port_counts_eight_clients:
  fixes adapter :: "nat \<Rightarrow> gateway_real_adapter \<times> 'w uart_backend" and listeners :: "'n port_listener list"
  assumes "k < GATEWAY_PORT_COUNT" "gc_enabled (ports ! k) = 0" "listeners ! k = Tcp (zero_tcp_listener sk n)"
    "\<And>cfg now. Replace k (Some cfg) now \<in> set os \<Longrightarrow> gc_enabled cfg = 0"
  shows "let h = health_ports (gateway_controller_health (ctl_run os (snd (gateway_controller_init ports
        (map (\<lambda>i. gateway_real_adapter_binding (adapter i)) [0..<GATEWAY_PORT_COUNT]) listeners)))) ! k
     in ph_connected_clients h = 0 \<and> td_clients (ph_transport h) = 8"
proof -
  let ?b = "map (\<lambda>i. gateway_real_adapter_binding (adapter i)) [0..<GATEWAY_PORT_COUNT]
    :: ('w uart_backend, 'n port_listener, gateway_real_adapter) gateway_port_binding list"
  let ?g = "snd (gateway_controller_init ports ?b listeners)"
  have "untouched (Tcp (zero_tcp_listener sk n)) (ctl_ports ?g ! k)" "ctl_shape ?g"
    using assms(1-3) by (simp_all add: gateway_controller_init_def split_beta untouched_def init_port_def port_runtime_init_def
        gateway_real_adapter_binding_def ctl_shape_def)
  then have u: "untouched (Tcp (zero_tcp_listener sk n)) (ctl_ports (ctl_run os ?g) ! k)"
    using untouched_run [of _ ?g k os] assms(1,4) by blast
  have "adapter_diagnostics a (runtime (ctl_ports (ctl_run os ?g) ! k)) = real_diagnostics (zero_tcp_listener sk n)" for a
    using u by (simp add: adapter_diagnostics_def untouched_def)
  then show ?thesis
    using u assms(1) zero_listener_clients [of sk n]
    by (simp add: health_of_port port_health_def ask_transport_def untouched_def real_transport_ops_def real_diagnostics_def Let_def)
qed

theorem unstarted_port_counts_eight_clients_witness:
  "let h = health_ports (gateway_controller_health (ctl_run [Start_All 0, Step_All 1]
        (snd (gateway_controller_init (replicate GATEWAY_PORT_COUNT (plain_port\<lparr>gc_enabled := 0\<rparr>))
          (map (\<lambda>i. gateway_real_adapter_binding unstarted_adapter) [0..<GATEWAY_PORT_COUNT])
          (replicate GATEWAY_PORT_COUNT (Tcp (zero_tcp_listener idle_net ()))))))) ! 3
   in ph_connected_clients h = 0 \<and> td_clients (ph_transport h) = 8"
  by (rule unstarted_port_counts_eight_clients) simp_all

end
