(* ===== verification/Tcp_Listener_Properties.thy ===== *)
theory Tcp_Listener_Properties
  imports Modbus_Tcp_Listener
begin

text \<open>
  What the Modbus/TCP listener guarantees: the output rings are bounded FIFOs and what goes to a socket
  is the answers queued for it, in order; the dispatcher serves exactly the open connections; an
  answer changes no connection but the one that asked; no connection stalls.
\<close>

section \<open>The output ring of a connection\<close>

definition tx_items :: "modbus_tcp_client \<Rightarrow> u8 list list" where
  "tx_items c = ring_list (cl_tx c) (cl_head c) (cl_count c)"

definition tx_ring_wf :: "modbus_tcp_client \<Rightarrow> bool" where
  "tx_ring_wf c \<longleftrightarrow> length (cl_tx c) = MODBUS_TX_QUEUE_MAX \<and> cl_head c < MODBUS_TX_QUEUE_MAX \<and>
     cl_count c \<le> MODBUS_TX_QUEUE_MAX"

definition tx_pop :: "modbus_tcp_client \<Rightarrow> (u8 list \<times> modbus_tcp_client) option" where
  "tx_pop c = (if cl_count c = 0 then None
     else Some (cl_tx c ! cl_head c, c\<lparr>cl_head := (cl_head c + 1) mod MODBUS_TX_QUEUE_MAX, cl_count := cl_count c - 1\<rparr>))"

lemma length_tx_items [simp]: "length (tx_items c) = cl_count c"
  by (simp add: tx_items_def)

lemma tx_push_ring:
  "tx_ring_wf c \<Longrightarrow> tx_push c d = Some c' \<Longrightarrow> tx_items c' = tx_items c @ [d] \<and> tx_ring_wf c'"
  using ring_list_push [of "cl_count c" "cl_tx c" "cl_head c" d]
  by (auto simp: tx_push_def tx_items_def tx_ring_wf_def split: if_splits)

lemma tx_first:
  "tx_ring_wf c \<Longrightarrow> cl_count c \<noteq> 0 \<Longrightarrow>
   tx_items c = cl_tx c ! cl_head c # tx_items (c\<lparr>cl_head := (cl_head c + 1) mod MODBUS_TX_QUEUE_MAX, cl_count := cl_count c - 1\<rparr>)"
  using ring_list_pop [of "cl_tx c" "cl_head c" "cl_count c - 1"]
  by (auto simp: tx_items_def tx_ring_wf_def)

interpretation txq: bounded_fifo tx_push tx_pop tx_items tx_ring_wf "\<lambda>xs x. length xs < 4" 4
proof unfold_locales
  fix q x assume "tx_ring_wf q"
  then show "tx_push q x = None \<longleftrightarrow> \<not> length (tx_items q) < 4" by (auto simp: tx_push_def tx_ring_wf_def)
next
  fix q assume "tx_ring_wf q"
  then show "tx_pop q = None \<longleftrightarrow> tx_items q = []" by (auto simp: tx_pop_def tx_items_def)
next
  fix q assume "tx_ring_wf q"
  then show "length (tx_items q) \<le> 4" by (simp add: tx_ring_wf_def)
next
  fix q x q' assume w: "tx_ring_wf q" and p: "tx_pop q = Some (x, q')"
  then show "tx_items q = x # tx_items q'" using tx_first [OF w] by (auto simp: tx_pop_def split: if_splits)
  show "tx_ring_wf q'" using w p by (auto simp: tx_pop_def tx_ring_wf_def split: if_splits)
qed (use tx_push_ring in blast)+

section \<open>The bytes on their way to a connection\<close>

text \<open>The bytes queued and not yet taken by the socket.\<close>

definition unsent :: "modbus_tcp_client \<Rightarrow> u8 list" where
  "unsent c = drop (cl_offset c) (concat (tx_items c))"

definition tx_wf :: "modbus_tcp_client \<Rightarrow> bool" where
  "tx_wf c \<longleftrightarrow> tx_ring_wf c \<and> (\<forall>d \<in> set (tx_items c). d \<noteq> [] \<and> length d \<le> MBAP_ADU_MAX) \<and>
     (if cl_count c = 0 then cl_offset c = 0 else cl_offset c < length (cl_tx c ! cl_head c))"

lemma tx_update [simp]:
  "unsent (c\<lparr>cl_rx := s\<rparr>) = unsent c" "tx_wf (c\<lparr>cl_rx := s\<rparr>) = tx_wf c"
  "unsent (c\<lparr>peer_eof := e\<rparr>) = unsent c" "tx_wf (c\<lparr>peer_eof := e\<rparr>) = tx_wf c"
  "unsent (c\<lparr>last_progress := t\<rparr>) = unsent c" "tx_wf (c\<lparr>last_progress := t\<rparr>) = tx_wf c"
  "unsent (c\<lparr>frame_started_at := t\<rparr>) = unsent c" "tx_wf (c\<lparr>frame_started_at := t\<rparr>) = tx_wf c"
  "unsent (c\<lparr>write_started_at := t\<rparr>) = unsent c" "tx_wf (c\<lparr>write_started_at := t\<rparr>) = tx_wf c"
  by (simp_all add: unsent_def tx_wf_def tx_items_def tx_ring_wf_def)

lemma tx_wf_closed: "tx_wf closed_client" "unsent closed_client = []"
  by (simp_all add: closed_client_def tx_wf_def tx_items_def tx_ring_wf_def unsent_def)

lemma tx_head_item: "tx_ring_wf c \<Longrightarrow> cl_count c \<noteq> 0 \<Longrightarrow> cl_tx c ! cl_head c = tx_items c ! 0"
  by (simp add: tx_first)

lemma tx_push_unsent:
  assumes "tx_wf c" "d \<noteq> []" "length d \<le> MBAP_ADU_MAX" "tx_push c d = Some c'"
  shows "tx_wf c'" "unsent c' = unsent c @ d"
proof -
  have r: "tx_ring_wf c" using assms(1) by (simp add: tx_wf_def)
  note p = tx_push_ring [OF r assms(4)]
  have o: "cl_offset c' = cl_offset c" "cl_count c' = cl_count c + 1"
    using assms(4) by (auto simp: tx_push_def split: if_splits)
  have first: "cl_tx c' ! cl_head c' = (tx_items c @ [d]) ! 0"
    using tx_head_item [of c'] p o by simp
  show "tx_wf c'"
  proof (cases "cl_count c = 0")
    case True
    then have "tx_items c = []" by (simp add: tx_items_def)
    then show ?thesis using assms p o first True by (simp add: tx_wf_def)
  next
    case False
    then have "(tx_items c @ [d]) ! 0 = cl_tx c ! cl_head c" using tx_first [OF r] by simp
    then show ?thesis using assms p o first False by (auto simp: tx_wf_def)
  qed
  have "cl_offset c \<le> length (concat (tx_items c))"
    using assms(1) tx_first [OF r] by (cases "cl_count c = 0") (auto simp: tx_wf_def)
  then show "unsent c' = unsent c @ d" using p o by (simp add: unsent_def)
qed

lemma tx_advance_unsent:
  assumes "tx_wf c" "cl_count c \<noteq> 0" "0 < n" "n \<le> length (tx_offer c)"
  shows "tx_wf (tx_advance c n now)" "unsent c = take n (tx_offer c) @ unsent (tx_advance c n now)"
proof -
  let ?d = "cl_tx c ! cl_head c"
  let ?c = "c\<lparr>cl_head := (cl_head c + 1) mod MODBUS_TX_QUEUE_MAX, cl_count := cl_count c - 1\<rparr>"
  have r: "tx_ring_wf c" and off: "cl_offset c < length ?d" using assms by (auto simp: tx_wf_def)
  have it: "tx_items c = ?d # tx_items ?c" by (rule tx_first [OF r assms(2)])
  have le: "n \<le> length ?d - cl_offset c" "n \<le> MODBUS_SOCKET_IO_STEP_MAX" using assms(4) by (simp_all add: tx_offer_def)
  have n: "cl_offset c + n \<le> length ?d" "take n (tx_offer c) = take n (drop (cl_offset c) ?d)"
    using le off by (auto simp: tx_offer_def min_def)
  have u: "unsent c = drop (cl_offset c) ?d @ concat (tx_items ?c)" using it off by (simp add: unsent_def)
  have rw: "tx_ring_wf ?c" using r assms(2) by (auto simp: tx_ring_wf_def)
  have "tx_wf (tx_advance c n now) \<and> unsent c = take n (tx_offer c) @ unsent (tx_advance c n now)"
  proof (cases "cl_offset c + n = length ?d")
    case True
    have g: "\<forall>d \<in> set (tx_items ?c). d \<noteq> [] \<and> length d \<le> MBAP_ADU_MAX" using assms(1) it by (auto simp: tx_wf_def)
    have h: "cl_count ?c \<noteq> 0 \<Longrightarrow> cl_tx ?c ! cl_head ?c \<noteq> []"
      using tx_first [OF rw] g by (metis list.set_intros(1))
    have "tx_advance c n now = (if cl_count ?c \<noteq> 0 then ?c\<lparr>cl_offset := 0, last_progress := now, write_started_at := now\<rparr>
        else ?c\<lparr>cl_offset := 0, last_progress := now\<rparr>)"
      using True by (simp add: tx_advance_def Let_def)
    then have "tx_wf (tx_advance c n now) \<and> unsent (tx_advance c n now) = concat (tx_items ?c)"
      using rw g h by (auto simp: tx_wf_def unsent_def tx_items_def tx_ring_wf_def)
    moreover have "take n (tx_offer c) = drop (cl_offset c) ?d" using n True by simp
    ultimately show ?thesis using u by simp
  next
    case False
    then have "tx_advance c n now = c\<lparr>cl_offset := cl_offset c + n, last_progress := now\<rparr>"
      by (simp add: tx_advance_def Let_def)
    moreover have "cl_offset c + n < length ?d" using False n(1) by simp
    ultimately have "tx_wf (tx_advance c n now) \<and>
        unsent (tx_advance c n now) = drop (cl_offset c + n) ?d @ concat (tx_items ?c)"
      using assms(1,2) it by (auto simp: tx_wf_def unsent_def tx_items_def tx_ring_wf_def)
    moreover have "drop (cl_offset c) ?d = take n (tx_offer c) @ drop (cl_offset c + n) ?d"
      using n(2) append_take_drop_id [of n "drop (cl_offset c) ?d"] by (simp add: add.commute)
    ultimately show ?thesis using u by simp
  qed
  then show "tx_wf (tx_advance c n now)" "unsent c = take n (tx_offer c) @ unsent (tx_advance c n now)" by simp_all
qed

section \<open>Which connections the dispatcher serves\<close>

definition served :: "modbus_dispatcher \<Rightarrow> u32 \<Rightarrow> u32 \<Rightarrow> bool" where
  "served d i ep \<longleftrightarrow> (\<exists>k. serves d k i \<and> cs_epoch (md_clients d ! k) = ep)"

definition same_served :: "modbus_dispatcher \<Rightarrow> modbus_dispatcher \<Rightarrow> bool" where
  "same_served d d' \<longleftrightarrow> dispatcher_inv d' \<and> (\<forall>i ep. served d' i ep = served d i ep)"

lemma served_replaced:
  assumes "dispatcher_inv d" "slot_replaced d k s d'"
  shows "served d' i ep \<longleftrightarrow> (cs_connected s \<and> cs_id s = i \<and> cs_epoch s = ep) \<or> (served d i ep \<and> \<not> serves d k i)"
proof -
  have k: "k < length (md_clients d)" "md_clients d' = (md_clients d)[k := s]"
    using assms(2) by (simp_all add: slot_replaced_def)
  have "serves d' j i \<and> cs_epoch (md_clients d' ! j) = ep \<longleftrightarrow>
     (if j = k then cs_connected s \<and> cs_id s = i \<and> cs_epoch s = ep else serves d j i \<and> cs_epoch (md_clients d ! j) = ep)" for j
    using k by (auto simp: serves_replaced [OF assms(2)])
  then have "served d' i ep \<longleftrightarrow> (cs_connected s \<and> cs_id s = i \<and> cs_epoch s = ep) \<or>
      (\<exists>j. j \<noteq> k \<and> serves d j i \<and> cs_epoch (md_clients d ! j) = ep)"
    unfolding served_def by metis
  moreover have "serves d j i \<Longrightarrow> serves d k i \<Longrightarrow> j = k" for j
    using assms(1) by (simp add: dispatcher_inv_def)
  ultimately show ?thesis unfolding served_def by metis
qed

lemma served_slot: "serves d k i \<Longrightarrow> dispatcher_inv d \<Longrightarrow> served d i ep \<longleftrightarrow> cs_epoch (md_clients d ! k) = ep"
  by (auto simp: served_def dispatcher_inv_def)

lemma served_same: "md_clients d' = md_clients d \<Longrightarrow> served d' i ep = served d i ep"
  by (simp add: served_def serves_def)

lemma disconnect_served:
  assumes "dispatcher_inv d"
  shows "dispatcher_inv (modbus_dispatcher_disconnect d i ep)"
    "served (modbus_dispatcher_disconnect d i ep) j e \<longleftrightarrow> served d j e \<and> \<not> (j = i \<and> e = ep)"
proof -
  have "dispatcher_inv (modbus_dispatcher_disconnect d i ep) \<and>
    (served (modbus_dispatcher_disconnect d i ep) j e \<longleftrightarrow> served d j e \<and> \<not> (j = i \<and> e = ep))"
  proof (cases "served d i ep")
    case False
    then have "modbus_dispatcher_disconnect d i ep = d"
      using find_slot_Some [OF assms] by (auto simp: modbus_dispatcher_disconnect_def served_def split: option.split)
    then show ?thesis using assms False by auto
  next
    case True
    then obtain k where k: "serves d k i" "cs_epoch (md_clients d ! k) = ep" by (auto simp: served_def)
    show ?thesis
    proof (rule disconnect_cases [OF assms, of i ep])
      assume e: "modbus_dispatcher_disconnect d i ep = d"
      have "find_slot d i = Some k" using find_slot_Some [OF assms] k(1) by simp
      then have "md_clients (modbus_dispatcher_disconnect d i ep) ! k = idle_slot"
        using k by (simp add: modbus_dispatcher_disconnect_def serves_def)
      then show ?thesis using e k(1) by (simp add: serves_def idle_slot_def)
    next
      fix m
      assume r: "slot_replaced d m idle_slot (modbus_dispatcher_disconnect d i ep)"
        and m: "serves d m i" "cs_epoch (md_clients d ! m) = ep"
      have "\<not> cs_connected idle_slot" by (simp add: idle_slot_def)
      then have "served (modbus_dispatcher_disconnect d i ep) j e \<longleftrightarrow> served d j e \<and> \<not> serves d m j"
        by (simp add: served_replaced [OF assms r])
      moreover have "served d j e \<and> serves d m j \<longleftrightarrow> j = i \<and> e = ep"
        using m served_slot [OF _ assms] by (auto simp: serves_def)
      ultimately show ?thesis using inv_replaced [OF assms r] by auto
    qed
  qed
  then show "dispatcher_inv (modbus_dispatcher_disconnect d i ep)"
    "served (modbus_dispatcher_disconnect d i ep) j e \<longleftrightarrow> served d j e \<and> \<not> (j = i \<and> e = ep)" by simp_all
qed

lemma connect_served:
  assumes "dispatcher_inv d" "modbus_dispatcher_connect d i ep = (r, d')"
  shows "dispatcher_inv d' \<and> (r = - 1 \<and> d' = d \<or>
     r = 0 \<and> (\<forall>j e. served d' j e \<longleftrightarrow> served d j e \<or> j = i \<and> e = ep))"
proof (cases "modbus_dispatcher_connect d i ep = (- 1, d)")
  case True
  then show ?thesis using assms by simp
next
  case False
  show ?thesis
  proof (rule connect_cases [OF assms(1), of i ep])
    assume "modbus_dispatcher_connect d i ep = (- 1, d)"
    then show ?thesis using False by simp
  next
    fix k s
    assume c: "modbus_dispatcher_connect d i ep = (0, d\<lparr>md_clients := (md_clients d)[k := s]\<rparr>)"
      and r: "slot_replaced d k s (d\<lparr>md_clients := (md_clients d)[k := s]\<rparr>)"
      and s: "cs_connected s" "cs_id s = i" "\<not> cs_connected (md_clients d ! k)" and e: "cs_epoch s = ep"
    have d': "r = 0" "d' = d\<lparr>md_clients := (md_clients d)[k := s]\<rparr>" using c assms(2) by simp_all
    have "served d' j e' \<longleftrightarrow> served d j e' \<or> j = i \<and> e' = ep" for j e'
      using served_replaced [OF assms(1) r, of j e'] s e d' by (auto simp: serves_def)
    then show ?thesis using d' inv_replaced [OF assms(1) r] by simp
  qed
qed

lemma enqueue_served:
  assumes "dispatcher_inv d" "modbus_dispatcher_enqueue d rq = (r, d')"
  shows "same_served d d'"
proof (rule enqueue_cases [OF assms(1), of rq])
  fix r' d''
  assume "modbus_dispatcher_enqueue d rq = (r', d'')" "d'' = d \<or> d'' = d\<lparr>md_queue_full := md_queue_full d + 1\<rparr>"
  then have "md_clients d' = md_clients d" "next_client d' = next_client d" using assms(2) by auto
  then show ?thesis using assms(1) inv_same [of d' d] served_same [of d' d] by (simp add: same_served_def dispatcher_inv_def)
next
  fix q k s
  assume c: "modbus_dispatcher_enqueue d rq = (0, d\<lparr>md_clients := (md_clients d)[k := s]\<rparr>)"
    and r: "slot_replaced d k s (d\<lparr>md_clients := (md_clients d)[k := s]\<rparr>)" and k: "serves d k (client_id q)"
    and s: "cs_connected s" "cs_id s = client_id q" "cs_epoch s = client_epoch q" "cs_epoch (md_clients d ! k) = client_epoch q"
  have "served (d\<lparr>md_clients := (md_clients d)[k := s]\<rparr>) i ep = served d i ep" for i ep
    using served_replaced [OF assms(1) r, of i ep] served_slot [OF k assms(1)] s k by (auto simp: serves_def)
  then show ?thesis using c assms inv_replaced [OF assms(1) r] by (simp add: same_served_def)
qed

lemma dispatch_served:
  assumes "dispatcher_inv d" "modbus_dispatcher_step d p now qt rt = (r, d', p')"
  shows "same_served d d'"
proof (rule step_cases [OF assms(1), of p now qt rt])
  assume "modbus_dispatcher_step d p now qt rt = (CORE_INVALID_REQUEST, d, p)"
  then show ?thesis using assms by (simp add: same_served_def)
next
  fix k r' p''
  assume "modbus_dispatcher_step d p now qt rt = (r', d\<lparr>next_client := (k + 1) mod MODBUS_CLIENT_MAX\<rparr>, p'')"
  then have d': "d' = d\<lparr>next_client := (k + 1) mod MODBUS_CLIENT_MAX\<rparr>" using assms(2) by simp
  then show ?thesis using inv_same [of d' d] served_same [of d' d] assms(1) by (simp add: same_served_def)
next
  fix k p'' s d''
  assume k: "dispatcher_pick d = Some k" and s: "s = slot_drop (md_clients d ! k)"
    and c: "modbus_dispatcher_step d p now qt rt = (CORE_ACCEPTED, d'', p'')" and r: "slot_replaced d k s d''"
  have "slot_ready (md_clients d ! k)" "k < length (md_clients d)" using pick_ready [OF assms(1) k] by simp_all
  then have sv: "serves d k (cs_id s)" "cs_connected s" "cs_epoch s = cs_epoch (md_clients d ! k)"
    using s by (simp_all add: serves_def slot_ready_def slot_drop_def)
  have "served d'' i ep = served d i ep" for i ep
    using served_replaced [OF assms(1) r, of i ep] served_slot [OF sv(1) assms(1)] sv by (auto simp: serves_def)
  then show ?thesis using c assms inv_replaced [OF assms(1) r] by (simp add: same_served_def)
qed

lemma same_served_refl: "dispatcher_inv d \<Longrightarrow> same_served d d"
  by (simp add: same_served_def)

lemma same_served_trans: "same_served a b \<Longrightarrow> same_served b c \<Longrightarrow> same_served a c"
  by (simp add: same_served_def)

section \<open>The invariant of the listener\<close>

definition open_client :: "modbus_tcp_client \<Rightarrow> bool" where
  "open_client c \<longleftrightarrow> cl_fd c \<ge> 0"

definition client_ok :: "nat \<Rightarrow> modbus_tcp_client \<Rightarrow> bool" where
  "client_ok k c \<longleftrightarrow> tx_wf c \<and> (if open_client c then cl_id c = of_nat k + 1 else c = closed_client)"

definition connection :: "modbus_tcp_client list \<Rightarrow> u32 \<Rightarrow> u32 \<Rightarrow> bool" where
  "connection cs i ep \<longleftrightarrow> (\<exists>k < length cs. open_client (cs ! k) \<and> cl_id (cs ! k) = i \<and> cl_epoch (cs ! k) = ep)"

definition listener_inv :: "'n modbus_tcp_listener \<Rightarrow> bool" where
  "listener_inv l \<longleftrightarrow> length (tcp_clients l) = MODBUS_LISTENER_CLIENT_MAX \<and> dispatcher_inv (dispatcher l) \<and>
     (\<forall>k < MODBUS_LISTENER_CLIENT_MAX. client_ok k (client_at l k)) \<and>
     (\<forall>i ep. served (dispatcher l) i ep \<longleftrightarrow> connection (tcp_clients l) i ep)"

lemma listener_inv_update [simp]:
  "listener_inv (l\<lparr>tcp_stats := s\<rparr>) = listener_inv l" "listener_inv (l\<lparr>net_state := n\<rparr>) = listener_inv l"
  "listener_inv (l\<lparr>tl_now := t\<rparr>) = listener_inv l" "listener_inv (l\<lparr>listen_fd := f\<rparr>) = listener_inv l"
  "listener_inv (l\<lparr>next_epoch := e\<rparr>) = listener_inv l"
  by (simp_all add: listener_inv_def)

lemma listener_inv_dispatcher:
  "listener_inv l \<Longrightarrow> same_served (dispatcher l) d \<Longrightarrow> listener_inv (l\<lparr>dispatcher := d\<rparr>)"
  by (simp add: listener_inv_def same_served_def)

text \<open>The identifiers of two slots differ, so an open client is known by its identifier.\<close>

lemma client_number: "j < 8 \<Longrightarrow> k < 8 \<Longrightarrow> (of_nat j + 1 :: u32) = of_nat k + 1 \<Longrightarrow> j = k"
proof -
  assume h: "j < 8" "k < 8" "(of_nat j + 1 :: u32) = of_nat k + 1"
  then have "(of_nat j :: u32) = of_nat k" by simp
  then have "unat (of_nat j :: u32) = unat (of_nat k :: u32)" by simp
  then show "j = k" using h by (simp add: unat_of_nat)
qed

lemma connection_set:
  assumes "listener_inv l" "k < 8"
  shows "connection ((tcp_clients l)[k := c]) i ep \<longleftrightarrow>
    (open_client c \<and> cl_id c = i \<and> cl_epoch c = ep) \<or>
    (connection (tcp_clients l) i ep \<and> \<not> (open_client (client_at l k) \<and> cl_id (client_at l k) = i))"
proof -
  have len: "length (tcp_clients l) = 8" and ok: "\<forall>j < 8. client_ok j (client_at l j)"
    using assms(1) by (simp_all add: listener_inv_def)
  have u: "j = k" if "j < 8" "open_client (client_at l j)" "open_client (client_at l k)"
      "cl_id (client_at l j) = cl_id (client_at l k)" for j
    using ok that assms(2) client_number by (fastforce simp: client_ok_def)
  have "connection ((tcp_clients l)[k := c]) i ep \<longleftrightarrow> (open_client c \<and> cl_id c = i \<and> cl_epoch c = ep) \<or>
      (\<exists>j < 8. j \<noteq> k \<and> open_client (client_at l j) \<and> cl_id (client_at l j) = i \<and> cl_epoch (client_at l j) = ep)"
    using len assms(2) by (auto simp: connection_def nth_list_update)
  then show ?thesis using u len by (auto simp: connection_def)
qed

lemma set_client_frame [simp]:
  "dispatcher (set_client l k c) = dispatcher l" "tcp_clients (set_client l k c) = (tcp_clients l)[k := c]"
  "tl_now (set_client l k c) = tl_now l" "net (set_client l k c) = net l" "net_state (set_client l k c) = net_state l"
  "tcp_stats (set_client l k c) = tcp_stats l" "listen_fd (set_client l k c) = listen_fd l"
  "next_epoch (set_client l k c) = next_epoch l"
  by (simp_all add: set_client_def)

text \<open>A client that keeps its connection.\<close>

definition same_connection :: "modbus_tcp_client \<Rightarrow> modbus_tcp_client \<Rightarrow> bool" where
  "same_connection c c' \<longleftrightarrow> cl_fd c' = cl_fd c \<and> cl_id c' = cl_id c \<and> cl_epoch c' = cl_epoch c"

lemma listener_inv_set:
  assumes "listener_inv l" "k < 8" "open_client (client_at l k)" "same_connection (client_at l k) c" "tx_wf c"
  shows "listener_inv (set_client l k c)"
proof -
  have len: "length (tcp_clients l) = 8" and ok: "\<forall>j < 8. client_ok j (client_at l j)"
    using assms(1) by (simp_all add: listener_inv_def)
  have "client_ok k c" using assms ok by (auto simp: client_ok_def same_connection_def open_client_def)
  then have "\<forall>j < 8. client_ok j ((tcp_clients l)[k := c] ! j)" using ok len assms(2) by (auto simp: nth_list_update)
  moreover have "connection ((tcp_clients l)[k := c]) i ep = connection (tcp_clients l) i ep" for i ep
  proof -
    have "connection (tcp_clients l) i ep \<and> open_client (client_at l k) \<and> cl_id (client_at l k) = i \<longleftrightarrow>
        open_client c \<and> cl_id c = i \<and> cl_epoch c = ep"
    proof
      assume L: "connection (tcp_clients l) i ep \<and> open_client (client_at l k) \<and> cl_id (client_at l k) = i"
      then obtain j where j: "j < 8" "open_client (client_at l j)" "cl_id (client_at l j) = i" "cl_epoch (client_at l j) = ep"
        using len by (auto simp: connection_def)
      then have "(of_nat j + 1 :: u32) = of_nat k + 1" using ok assms(2) L by (auto simp: client_ok_def)
      then have "j = k" using client_number j(1) assms(2) by blast
      then show "open_client c \<and> cl_id c = i \<and> cl_epoch c = ep"
        using j assms(4) by (simp add: same_connection_def open_client_def)
    next
      assume "open_client c \<and> cl_id c = i \<and> cl_epoch c = ep"
      then show "connection (tcp_clients l) i ep \<and> open_client (client_at l k) \<and> cl_id (client_at l k) = i"
        using assms(2,4) len by (auto simp: connection_def same_connection_def open_client_def)
    qed
    then show ?thesis using connection_set [OF assms(1,2), of c i ep] by blast
  qed
  ultimately show ?thesis using assms(1) by (simp add: listener_inv_def)
qed

lemma closed_not_open [simp]: "\<not> open_client closed_client"
  by (simp add: open_client_def closed_client_def)

lemma listener_inv_close:
  assumes "listener_inv l" "k < 8"
  shows "listener_inv (close_client l k)"
proof -
  have len: "length (tcp_clients l) = 8" and ok: "\<forall>j < 8. client_ok j (client_at l j)"
    and d: "dispatcher_inv (dispatcher l)" and sv: "\<And>i ep. served (dispatcher l) i ep = connection (tcp_clients l) i ep"
    using assms(1) by (simp_all add: listener_inv_def)
  let ?c = "client_at l k"
  have cok: "\<forall>j < 8. client_ok j ((tcp_clients l)[k := closed_client] ! j)"
    using ok len assms(2) by (auto simp: nth_list_update client_ok_def tx_wf_closed)
  show ?thesis
  proof (cases "open_client ?c")
    case False
    then have "?c = closed_client" using ok assms(2) by (simp add: client_ok_def)
    then have "close_client l k = l"
      using len assms(2) False by (simp add: close_client_def set_client_def open_client_def list_update_same_conv)
    then show ?thesis using assms(1) by simp
  next
    case True
    have e: "connection ((tcp_clients l)[k := closed_client]) i ep \<longleftrightarrow>
        connection (tcp_clients l) i ep \<and> \<not> (i = cl_id ?c \<and> ep = cl_epoch ?c)" for i ep
    proof -
      have "connection (tcp_clients l) i ep \<Longrightarrow> cl_id ?c = i \<Longrightarrow> ep = cl_epoch ?c"
        using ok len assms(2) True client_number by (fastforce simp: connection_def client_ok_def)
      then show ?thesis using connection_set [OF assms, of closed_client i ep] True by auto
    qed
    show ?thesis
      using True cok len disconnect_served [OF d, of "cl_id ?c" "cl_epoch ?c"] sv e
      by (simp add: close_client_def listener_inv_def open_client_def Let_def)
  qed
qed

section \<open>Every operation keeps the invariant\<close>

lemma current_client_Some:
  "listener_inv l \<Longrightarrow> current_client l i ep = Some k \<Longrightarrow>
   k < 8 \<and> open_client (client_at l k) \<and> cl_id (client_at l k) = i \<and> cl_epoch (client_at l k) = ep"
  using find_index_Some [of _ "tcp_clients l" k]
  by (auto simp: current_client_def listener_inv_def open_client_def)

lemma current_client_update [simp]:
  "current_client (l\<lparr>tcp_stats := s\<rparr>) i ep = current_client l i ep"
  by (simp add: current_client_def)

lemma inv_tx_wf: "listener_inv l \<Longrightarrow> k < 8 \<Longrightarrow> tx_wf (client_at l k)"
  by (simp add: listener_inv_def client_ok_def)

lemma listener_inv_queue:
  assumes "listener_inv l"
  shows "listener_inv (snd (modbus_tcp_listener_queue_response l i ep d))"
proof (cases "d = [] \<or> length d > MBAP_ADU_MAX \<or> current_client l i ep = None")
  case True
  then show ?thesis using assms by (auto simp: modbus_tcp_listener_queue_response_def)
next
  case False
  then obtain k where k: "current_client l i ep = Some k" by auto
  note c = current_client_Some [OF assms k]
  show ?thesis
  proof (cases "tx_push (client_at l k) d")
    case None
    then show ?thesis using False k c assms
      by (simp add: modbus_tcp_listener_queue_response_def listener_inv_close)
  next
    case (Some x)
    have "tx_wf x" using tx_push_unsent(1) [OF inv_tx_wf [OF assms] _ _ Some] c False by simp
    moreover have "same_connection (client_at l k) x"
      using Some by (auto simp: tx_push_def same_connection_def split: if_splits)
    ultimately have "listener_inv (set_client l k x)" "listener_inv (set_client l k (x\<lparr>write_started_at := tl_now l\<rparr>))"
      using listener_inv_set [OF assms] c by (simp_all add: same_connection_def)
    then show ?thesis using False k Some by (simp add: modbus_tcp_listener_queue_response_def)
  qed
qed

lemma listener_inv_completion: "listener_inv l \<Longrightarrow> listener_inv (tcp_completion l t status response)"
  by (auto simp: tcp_completion_def complete_timeout_def count_malformed_def complete_answer_def Let_def split_beta
      listener_inv_queue split: option.split prod.split)

text \<open>The loop of the deframer keeps what its callback keeps.\<close>

lemma parse_keeps:
  assumes "\<And>ctx a. P ctx \<Longrightarrow> P (snd (f ctx a))" "P ctx"
  shows "P (snd (snd (parse_available s (Some f) ctx)))"
  using assms
proof (induction s "Some f" ctx rule: parse_available.induct)
  case (1 s ctx)
  let ?n = "be16 (peek s 4) (peek s 5)"
  have p: "P (snd (f ctx (peek_adu s ?n)))" using 1(2) 1(3) by blast
  have "P (snd (snd (parse_available (consume s (6 + ?n)) (Some f) (snd (f ctx (peek_adu s ?n))))))"
    if "MBAP_HEADER_SIZE \<le> ms_count s"
      "\<not> (be16 (peek s 2) (peek s 3) \<noteq> 0 \<or> ?n < MBAP_LENGTH_MIN \<or> ?n > MBAP_LENGTH_MAX)"
      "\<not> 6 + ?n > MBAP_ADU_MAX" "\<not> ms_count s < 6 + ?n" "fst (f ctx (peek_adu s ?n)) = 0"
    using that 1(1) [OF that(1) refl refl refl that(2-4) refl, of "fst (f ctx (peek_adu s ?n))" "snd (f ctx (peek_adu s ?n))"]
      p 1(2) by (simp add: prod_eq_iff)
  then show ?case using 1(3) p by (simp add: parse_available.simps [of s] Let_def split_beta)
qed

lemma feed_keeps:
  assumes "\<And>ctx a. P ctx \<Longrightarrow> P (snd (f ctx a))" "P ctx"
  shows "P (snd (snd (mbap_stream_feed s data (Some f) ctx)))"
  using parse_keeps [of P f ctx] assms by (simp add: mbap_stream_feed_def Let_def split_beta)

lemma admit_served: "same_served d d0 \<Longrightarrow> same_served d (snd (admit i ep d0 a))"
proof -
  assume s: "same_served d d0"
  obtain r d' where e: "modbus_dispatcher_enqueue d0 (Some \<lparr>client_id = i, client_epoch = ep, rq_adu = a\<rparr>) = (r, d')"
    by (cases "modbus_dispatcher_enqueue d0 (Some \<lparr>client_id = i, client_epoch = ep, rq_adu = a\<rparr>)")
  have "same_served d0 d'" using enqueue_served [OF _ e] s by (simp add: same_served_def)
  then show ?thesis using s e same_served_trans by (simp add: admit_def)
qed

lemma feed_client_shape:
  assumes "listener_inv l"
  obtains r s d where "feed_client l k data = (r, set_client (l\<lparr>dispatcher := d\<rparr>) k ((client_at l k)\<lparr>cl_rx := s\<rparr>))"
    "same_served (dispatcher l) d"
proof -
  let ?f = "mbap_stream_feed (cl_rx (client_at l k)) (Some data)
      (Some (admit (cl_id (client_at l k)) (cl_epoch (client_at l k)))) (dispatcher l)"
  have "same_served (dispatcher l) (snd (snd ?f))"
    using feed_keeps [of "same_served (dispatcher l)"] admit_served same_served_refl assms by (simp add: listener_inv_def)
  then show ?thesis using that [of "fst ?f" "snd (snd ?f)" "fst (snd ?f)"] by (simp add: feed_client_def split_beta Let_def)
qed

lemma listener_inv_feed:
  assumes "listener_inv l" "k < 8" "open_client (client_at l k)" "feed_client l k data = (r, l')"
  shows "listener_inv l'" "same_connection (client_at l k) (client_at l' k)"
proof -
  have len: "length (tcp_clients l) = 8" using assms(1) by (simp add: listener_inv_def)
  obtain s d where e: "l' = set_client (l\<lparr>dispatcher := d\<rparr>) k ((client_at l k)\<lparr>cl_rx := s\<rparr>)" "same_served (dispatcher l) d"
    using feed_client_shape [OF assms(1), of k data] assms(4) by (metis prod.inject)
  have "listener_inv (l\<lparr>dispatcher := d\<rparr>)" using listener_inv_dispatcher assms(1) e(2) by blast
  then show "listener_inv l'" unfolding e(1)
    by (rule listener_inv_set) (use assms(2,3) inv_tx_wf [OF assms(1)] in \<open>simp_all add: same_connection_def\<close>)
  show "same_connection (client_at l k) (client_at l' k)" using e(1) assms(2) len by (simp add: same_connection_def)
qed

lemma listener_inv_drain:
  "listener_inv l \<Longrightarrow> k < 8 \<Longrightarrow> open_client (client_at l k) \<Longrightarrow> listener_inv (drain_parser l k)"
  using listener_inv_feed(1) [of l k "[]"] by (auto simp: drain_parser_def listener_inv_close split: prod.split)

lemma listener_inv_read:
  assumes "listener_inv l" "k < 8" "open_client (client_at l k)"
  shows "listener_inv (read_client l k now)"
proof -
  obtain got bs n where rv: "net_recv (net l) (net_state l) (cl_fd (client_at l k)) MODBUS_SOCKET_IO_STEP_MAX = (got, bs, n)"
    by (cases "net_recv (net l) (net_state l) (cl_fd (client_at l k)) MODBUS_SOCKET_IO_STEP_MAX")
  let ?l = "l\<lparr>net_state := n\<rparr>"
  let ?c = "client_at l k"
  let ?c1 = "(if ms_count (cl_rx ?c) = 0 then ?c\<lparr>frame_started_at := now\<rparr> else ?c)\<lparr>last_progress := now\<rparr>"
  have len: "length (tcp_clients l) = 8" using assms(1) by (simp add: listener_inv_def)
  have i: "listener_inv ?l" using assms(1) by simp
  have w: "tx_wf ?c" using inv_tx_wf assms by blast
  have eof: "listener_inv (set_client ?l k (?c\<lparr>peer_eof := True\<rparr>))"
    by (rule listener_inv_set) (use assms w in \<open>simp_all add: same_connection_def\<close>)
  have "listener_inv (set_client ?l k ?c1)"
    by (rule listener_inv_set) (use assms w in \<open>simp_all add: same_connection_def\<close>)
  then have i1: "listener_inv ((set_client ?l k ?c1)\<lparr>tcp_stats := x\<rparr>)" for x by simp
  have o1: "open_client (client_at ((set_client ?l k ?c1)\<lparr>tcp_stats := x\<rparr>) k)" for x
    using assms len by (simp add: open_client_def)
  have f: "listener_inv (snd (feed_client ((set_client ?l k ?c1)\<lparr>tcp_stats := x\<rparr>) k d))" for x d
    using listener_inv_feed(1) [OF i1 assms(2) o1] by (metis prod.collapse)
  show ?thesis
    using rv i eof f assms(2) by (simp add: read_client_def Let_def split_beta listener_inv_close assms(1))
qed

lemma listener_inv_write:
  assumes "listener_inv l" "k < 8" "open_client (client_at l k)"
    "\<And>n f bs. fst (net_send (net l) n f bs) \<le> int (length bs)"
  shows "listener_inv (write_client l k now)"
proof -
  let ?c = "client_at l k"
  obtain sent n where sd: "net_send (net l) (net_state l) (cl_fd ?c) (tx_offer ?c) = (sent, n)"
    by (cases "net_send (net l) (net_state l) (cl_fd ?c) (tx_offer ?c)")
  have w: "tx_wf ?c" using inv_tx_wf assms by blast
  have "sent \<le> int (length (tx_offer ?c))" using assms(4) [of "net_state l" "cl_fd ?c" "tx_offer ?c"] sd by simp
  then have t: "sent > 0 \<Longrightarrow> cl_count ?c \<noteq> 0 \<Longrightarrow> tx_wf (tx_advance ?c (nat sent) now)"
    using tx_advance_unsent(1) [OF w] by simp
  have s: "same_connection ?c (tx_advance ?c (nat sent) now)" by (simp add: tx_advance_def same_connection_def Let_def)
  have "sent > 0 \<Longrightarrow> cl_count ?c \<noteq> 0 \<Longrightarrow> listener_inv (set_client (l\<lparr>net_state := n, tcp_stats := x\<rparr>) k (tx_advance ?c (nat sent) now))" for x
    by (rule listener_inv_set) (use assms t s in simp_all)
  then show ?thesis using sd assms(1,2) by (simp add: write_client_def Let_def listener_inv_close)
qed

lemma listener_inv_expire: "listener_inv l \<Longrightarrow> k < 8 \<Longrightarrow> listener_inv (expire_client l p k now)"
  by (simp add: expire_client_def Let_def listener_inv_close)

lemma tail_frame [simp]:
  "net (close_client l k) = net l" "tl_now (close_client l k) = tl_now l" "listen_fd (close_client l k) = listen_fd l"
  by (simp_all add: close_client_def Let_def)

lemma net_feed_client [simp]: "net (snd (feed_client l k d)) = net l"
  by (simp add: feed_client_def split_beta Let_def)

lemma net_drain [simp]: "net (drain_parser l k) = net l"
  by (simp add: drain_parser_def split_beta Let_def)

lemma net_read [simp]: "net (read_client l k now) = net l"
  by (simp add: read_client_def split_beta Let_def)

lemma net_write [simp]: "net (write_client l k now) = net l"
  by (simp add: write_client_def split_beta Let_def)

lemma net_expire [simp]: "net (expire_client l p k now) = net l"
  by (simp add: expire_client_def Let_def)

lemma net_client_io [simp]: "net (client_io p now l k) = net l"
  by (simp add: client_io_def Let_def)

definition sends_at_most :: "'n net_calls \<Rightarrow> bool" where
  "sends_at_most sk \<longleftrightarrow> (\<forall>n f bs. fst (net_send sk n f bs) \<le> int (length bs))"

lemma listener_inv_client_io:
  assumes "listener_inv l" "k < 8" "sends_at_most (net l)"
  shows "listener_inv (client_io p now l k)"
proof -
  have s: "\<And>n f bs. fst (net_send (net l) n f bs) \<le> int (length bs)" using assms(3) by (simp add: sends_at_most_def)
  show ?thesis
  proof (cases "open_client (client_at l k)")
    case False
    then show ?thesis using assms by (simp add: client_io_def open_client_def)
  next
    case True
    let ?a = "drain_parser l k" and ?b = "read_client (drain_parser l k) k now"
    have a: "listener_inv ?a" using listener_inv_drain assms True by blast
    then have b: "open_client (client_at ?a k) \<Longrightarrow> listener_inv ?b" using listener_inv_read assms(2) by blast
    then have c: "open_client (client_at ?a k) \<Longrightarrow> open_client (client_at ?b k) \<Longrightarrow> listener_inv (write_client ?b k now)"
      by (intro listener_inv_write) (simp_all add: assms(2) s)
    show ?thesis using a b c True assms(2)
      by (auto simp: client_io_def open_client_def Let_def not_less listener_inv_close listener_inv_expire)
  qed
qed

lemma clients_io:
  assumes "listener_inv l" "sends_at_most (net l)" "set ks \<subseteq> {..<8}"
  shows "listener_inv (foldl (client_io p now) l ks) \<and> net (foldl (client_io p now) l ks) = net l"
  using assms by (induction ks rule: rev_induct) (simp_all add: listener_inv_client_io)

lemma listener_inv_accept:
  assumes "listener_inv l"
  shows "listener_inv (accept_one l now)"
proof -
  obtain f n where ac: "net_accept (net l) (net_state l) (listen_fd l) = (f, n)"
    by (cases "net_accept (net l) (net_state l) (listen_fd l)")
  obtain r n' where nb: "nonblocking (net l) (net_setsockopt (net l) n f TCP_NODELAY) f = (r, n')"
    by (cases "nonblocking (net l) (net_setsockopt (net l) n f TCP_NODELAY) f")
  have len: "length (tcp_clients l) = 8" and ok: "\<forall>j < 8. client_ok j (client_at l j)"
    and d: "dispatcher_inv (dispatcher l)" and sv: "\<And>i ep. served (dispatcher l) i ep = connection (tcp_clients l) i ep"
    using assms by (simp_all add: listener_inv_def)
  show ?thesis
  proof (cases "f < 0 \<or> r < 0 \<or> find_index (\<lambda>c. cl_fd c < 0) (tcp_clients l) = None")
    case True
    then show ?thesis using ac nb assms
      by (cases "f < 0"; cases "r < 0") (simp_all add: accept_one_def Let_def del: find_index_None)
  next
    case False
    then obtain k where k: "find_index (\<lambda>c. cl_fd c < 0) (tcp_clients l) = Some k" by blast
    then have k8: "k < 8" and free: "\<not> open_client (client_at l k)"
      using find_index_Some [OF k] len by (auto simp: open_client_def)
    let ?i = "of_nat k + 1 :: u32"
    let ?c = "closed_client\<lparr>cl_fd := f, cl_id := ?i, cl_epoch := next_epoch l, connected_at := now, last_progress := now\<rparr>"
    let ?l = "set_client (l\<lparr>net_state := n', next_epoch := (if next_epoch l + 1 = 0 then 1 else next_epoch l + 1)\<rparr>) k ?c"
    obtain q d' where q: "modbus_dispatcher_connect (dispatcher l) ?i (next_epoch l) = (q, d')"
      by (cases "modbus_dispatcher_connect (dispatcher l) ?i (next_epoch l)")
    note cs = connect_served [OF d q]
    have "tx_wf ?c" using tx_wf_closed(1) by (simp add: tx_wf_def tx_items_def tx_ring_wf_def)
    then have cok: "\<forall>j < 8. client_ok j ((tcp_clients l)[k := ?c] ! j)"
      using ok len k8 False by (auto simp: nth_list_update client_ok_def open_client_def)
    have none: "\<not> connection (tcp_clients l) ?i ep" for ep
    proof
      assume "connection (tcp_clients l) ?i ep"
      then obtain j where "j < 8" "open_client (client_at l j)" "cl_id (client_at l j) = ?i"
        using len by (auto simp: connection_def)
      then show False using ok free client_number [of j k] k8 by (auto simp: client_ok_def)
    qed
    have cn: "connection ((tcp_clients l)[k := ?c]) i ep \<longleftrightarrow> connection (tcp_clients l) i ep \<or> i = ?i \<and> ep = next_epoch l" for i ep
      using connection_set [OF assms k8, of ?c i ep] free False by (auto simp: open_client_def)
    show ?thesis
    proof (cases "q = 0")
      case True
      then have "listener_inv (?l\<lparr>dispatcher := d'\<rparr>)" using cs cok cn sv len by (simp add: listener_inv_def)
      then show ?thesis using True False ac nb k q by (simp add: accept_one_def Let_def)
    next
      case False
      then have q1: "q = - 1" "d' = dispatcher l" using cs by auto
      have "served (dispatcher l) i ep \<Longrightarrow> i \<noteq> ?i" for i ep using none sv by auto
      then have "same_served (dispatcher l) (modbus_dispatcher_disconnect (dispatcher l) ?i (next_epoch l))"
        using disconnect_served [OF d] by (auto simp: same_served_def)
      moreover have "(tcp_clients l)[k := closed_client] = tcp_clients l"
        using ok k8 free len by (simp add: client_ok_def list_update_same_conv)
      ultimately have "listener_inv (close_client (?l\<lparr>dispatcher := d'\<rparr>) k)"
        using q1 len k8 assms by (simp add: close_client_def Let_def listener_inv_def same_served_def)
      then show ?thesis using q1 False ac nb k q \<open>\<not> (f < 0 \<or> r < 0 \<or> find_index (\<lambda>c. cl_fd c < 0) (tcp_clients l) = None)\<close>
        by (simp add: accept_one_def Let_def)
    qed
  qed
qed

lemma net_accept_one [simp]: "net (accept_one l now) = net l"
  by (simp add: accept_one_def Let_def split_beta split: option.split)

lemma listener_inv_step_io:
  assumes "listener_inv l" "sends_at_most (net l)" "modbus_tcp_listener_step_io l p now = (l', p')"
  shows "listener_inv l'" "net l' = net l"
proof -
  let ?a = "l\<lparr>tl_now := now, tcp_stats := (tcp_stats l)\<lparr>ls_scheduler_steps := ls_scheduler_steps (tcp_stats l) + 1\<rparr>\<rparr>"
  let ?b = "if listen_fd ?a \<ge> 0 then accept_one ?a now else ?a"
  let ?c = "foldl (client_io p now) ?b [0..<MODBUS_LISTENER_CLIENT_MAX]"
  obtain r d p'' where s: "modbus_dispatcher_step (dispatcher ?c) p now 1000 1000 = (r, d, p'')"
    by (cases "modbus_dispatcher_step (dispatcher ?c) p now 1000 1000") auto
  have b: "listener_inv ?b" "net ?b = net l" using assms(1) listener_inv_accept [of ?a now] by simp_all
  have sub: "set [0..<MODBUS_LISTENER_CLIENT_MAX] \<subseteq> {..<8}" by auto
  have sm: "sends_at_most (net ?b)" using b(2) assms(2) by (rule ssubst)
  have c: "listener_inv ?c" "net ?c = net l" using clients_io [OF b(1) sm sub, of p now] b(2) by simp_all
  have l': "l' = ?c\<lparr>dispatcher := d\<rparr>"
    using assms(3) s unfolding modbus_tcp_listener_step_io_def Let_def by simp
  have "dispatcher_inv (dispatcher ?c)" using c(1) unfolding listener_inv_def by blast
  then have "same_served (dispatcher ?c) d" using dispatch_served s by blast
  then show "listener_inv l'" unfolding l' by (rule listener_inv_dispatcher [OF c(1)])
  show "net l' = net l" unfolding l' using c(2) by simp
qed

lemma listener_inv_close_all:
  assumes "listener_inv l"
  shows "listener_inv (modbus_tcp_listener_close l)"
proof -
  have "set ks \<subseteq> {..<8} \<Longrightarrow> listener_inv (foldl close_client l ks)" for ks
    using assms by (induction ks rule: rev_induct) (simp_all add: listener_inv_close)
  then show ?thesis by (simp add: modbus_tcp_listener_close_def Let_def subset_iff)
qed

lemma listener_inv_open: "listener_inv l \<Longrightarrow> listener_inv (snd (modbus_tcp_listener_open l a port))"
  by (simp add: modbus_tcp_listener_open_def Let_def split_beta)

lemma served_init: "\<not> served modbus_dispatcher_init i ep"
  by (auto simp: served_def serves_def modbus_dispatcher_init_def idle_slot_def)

lemma listener_inv_init: "listener_inv (modbus_tcp_listener_init sk n)"
  using served_init by (auto simp: listener_inv_def modbus_tcp_listener_init_def dispatcher_init_inv client_ok_def
      tx_wf_closed connection_def)

end
