(* ===== verification/Tcp_Listener_Service.thy ===== *)
theory Tcp_Listener_Service
  imports Tcp_Listener_Properties
begin

text \<open>
  The properties of the Modbus/TCP listener as its clients see them, over the library of
  \<open>Tcp_Listener_Properties\<close>.
\<close>

section \<open>Runs of the listener\<close>

text \<open>What happens to a listener: an I/O step against a port in any state, an answer of the port, opening and closing.\<close>

datatype ('b, 'c) listener_event =
  Io "('b, 'c) port_runtime" tick | Answer core_transaction core_transaction_status "u8 list"
| Listen "string option" u16 | Shut

primrec listener_exec ::
  "'n modbus_tcp_listener \<Rightarrow> ('b, 'c) listener_event \<Rightarrow> 'n modbus_tcp_listener" where
  "listener_exec l (Io p now) = fst (modbus_tcp_listener_step_io l p now)"
| "listener_exec l (Answer t status response) = tcp_completion l t status response"
| "listener_exec l (Listen address port) = snd (modbus_tcp_listener_open l address port)"
| "listener_exec l Shut = modbus_tcp_listener_close l"

definition listener_run ::
  "('b, 'c) listener_event list \<Rightarrow> 'n modbus_tcp_listener \<Rightarrow> 'n modbus_tcp_listener" where
  "listener_run es l = foldl listener_exec l es"

lemma net_queue_response [simp]: "net (snd (modbus_tcp_listener_queue_response l i ep d)) = net l"
  by (simp add: modbus_tcp_listener_queue_response_def split: option.split)

lemma net_timeout [simp]: "net (complete_timeout l t) = net l"
  by (simp add: complete_timeout_def Let_def split_beta split: option.split)

lemma net_malformed [simp]: "net (count_malformed l t response) = net l"
  by (simp add: count_malformed_def Let_def)

lemma net_answer [simp]: "net (complete_answer l t response) = net l"
  by (simp add: complete_answer_def Let_def split_beta split: option.split)

lemma net_completion [simp]: "net (tcp_completion l t status response) = net l"
  by (simp add: tcp_completion_def)

lemma net_open [simp]: "net (snd (modbus_tcp_listener_open l a port)) = net l"
  by (simp add: modbus_tcp_listener_open_def Let_def split_beta)

lemma net_close_all [simp]: "net (modbus_tcp_listener_close l) = net l"
proof -
  have "net (foldl close_client l ks) = net l" for ks by (induction ks rule: rev_induct) simp_all
  then show ?thesis by (simp add: modbus_tcp_listener_close_def Let_def)
qed

lemma listener_exec_inv:
  assumes "listener_inv l" "sends_at_most (net l)"
  shows "listener_inv (listener_exec l e) \<and> net (listener_exec l e) = net l"
proof (cases e)
  case (Io p now)
  obtain l' p' where s: "modbus_tcp_listener_step_io l p now = (l', p')" by (cases "modbus_tcp_listener_step_io l p now")
  show ?thesis using listener_inv_step_io [OF assms s] Io s by simp
qed (use assms listener_inv_completion listener_inv_open listener_inv_close_all in simp_all)

lemma listener_run_inv:
  "listener_inv l \<Longrightarrow> sends_at_most (net l) \<Longrightarrow> listener_inv (listener_run es l) \<and> net (listener_run es l) = net l"
  by (induction es rule: rev_induct) (simp_all add: listener_run_def listener_exec_inv)

section \<open>A network for the examples\<close>

text \<open>One client is waiting to be accepted; nothing is received, and everything sent is taken.\<close>

definition one_caller :: "nat net_calls" where
  "one_caller = idle_net\<lparr>net_accept := \<lambda>n f. (if n = 0 then 5 else - 1, n + 1)\<rparr>"

lemma one_caller_sends: "sends_at_most one_caller"
  by (simp add: sends_at_most_def one_caller_def idle_net_def)

definition called_listener :: "nat modbus_tcp_listener" where
  "called_listener = listener_run [Listen (Some ''10.0.0.1'') 502, Io idle_port 7] (modbus_tcp_listener_init one_caller 0)"

lemma called_listener_ok: "listener_inv called_listener" "net called_listener = one_caller"
  unfolding called_listener_def
  using listener_run_inv [OF listener_inv_init, of one_caller 0 "[Listen (Some ''10.0.0.1'') 502, Io idle_port 7]"]
  by (simp_all add: one_caller_sends modbus_tcp_listener_init_def)

section \<open>Connections and dispatcher slots\<close>

text \<open>
  C22. The dispatcher serves exactly the open connections: in every state a listener reaches, through
  I/O steps against any port, answers in any order, openings and closings, a client slot of the dispatcher
  exists for an identifier and an epoch if and only if a connection with them is open, and
  no output ring holds more than four answers.
\<close>

theorem listener_serves_open_connections:
  assumes "sends_at_most sk"
  shows "let l = listener_run es (modbus_tcp_listener_init sk n) in
     (\<forall>i ep. served (dispatcher l) i ep = connection (tcp_clients l) i ep) \<and>
     (\<forall>c \<in> set (tcp_clients l). cl_count c \<le> MODBUS_TX_QUEUE_MAX)"
proof -
  let ?l = "listener_run es (modbus_tcp_listener_init sk n)"
  have "net (modbus_tcp_listener_init sk n) = sk" by (simp add: modbus_tcp_listener_init_def)
  then have inv: "listener_inv ?l" using listener_run_inv [OF listener_inv_init] assms by metis
  have "cl_count c \<le> MODBUS_TX_QUEUE_MAX" if "c \<in> set (tcp_clients ?l)" for c
    using inv that by (auto simp: listener_inv_def client_ok_def tx_wf_def tx_ring_wf_def in_set_conv_nth)
  then show ?thesis using inv by (simp add: listener_inv_def Let_def)
qed

theorem listener_serves_open_connections_witness:
  "let l = listener_run [Listen (Some ''10.0.0.1'') 502, Io idle_port 7] (modbus_tcp_listener_init one_caller 0) in
     (\<forall>i ep. served (dispatcher l) i ep = connection (tcp_clients l) i ep) \<and>
     (\<forall>c \<in> set (tcp_clients l). cl_count c \<le> MODBUS_TX_QUEUE_MAX)"
  by (rule listener_serves_open_connections [OF one_caller_sends])

section \<open>An answer goes to its asker only\<close>

definition one_client :: "nat \<Rightarrow> 'n modbus_tcp_listener \<Rightarrow> 'n modbus_tcp_listener \<Rightarrow> bool" where
  "one_client k l l' \<longleftrightarrow> (\<exists>c. tcp_clients l' = (tcp_clients l)[k := c])"

lemma one_client_refl: "one_client k l l"
  by (metis list_update_id one_client_def)

lemma one_client_trans: "one_client k a b \<Longrightarrow> one_client k b c \<Longrightarrow> one_client k a c"
  by (auto simp: one_client_def)

lemma one_client_same: "tcp_clients l' = tcp_clients l \<Longrightarrow> one_client k l l'"
  by (metis list_update_id one_client_def)

lemma one_client_other: "one_client k l l' \<Longrightarrow> j \<noteq> k \<Longrightarrow> client_at l' j = client_at l j"
  by (auto simp: one_client_def)

lemma clients_close: "tcp_clients (close_client l k) = (tcp_clients l)[k := closed_client]"
  by (simp add: close_client_def Let_def)

lemma one_client_close: "one_client k l (close_client l k)"
  by (auto simp: one_client_def clients_close)

lemma queue_clients:
  "tcp_clients (snd (modbus_tcp_listener_queue_response l i ep d)) = tcp_clients l \<or>
   (\<exists>k. current_client l i ep = Some k \<and> one_client k l (snd (modbus_tcp_listener_queue_response l i ep d)))"
  by (auto simp: modbus_tcp_listener_queue_response_def one_client_def clients_close split: option.split)

lemma current_client_self:
  assumes "listener_inv l" "current_client l i ep = Some k"
  shows "current_client l (cl_id (client_at l k)) (cl_epoch (client_at l k)) = Some k"
  using current_client_Some [OF assms] assms(2) by simp

lemma queue_one_client:
  assumes "current_client l i ep = Some k"
  shows "one_client k l (snd (modbus_tcp_listener_queue_response (l\<lparr>tcp_stats := s\<rparr>) i ep d))"
  using queue_clients [of "l\<lparr>tcp_stats := s\<rparr>" i ep d] assms one_client_same [of _ l k] by (auto simp: one_client_def)

lemma one_client_stats [simp]: "one_client k l (l'\<lparr>tcp_stats := x\<rparr>) = one_client k l l'"
  by (simp add: one_client_def)

lemma malformed_clients [simp]: "tcp_clients (count_malformed l t response) = tcp_clients l"
  by (simp add: count_malformed_def Let_def)

lemma completion_clients:
  assumes "listener_inv l"
  shows "tcp_clients (tcp_completion l t status response) = tcp_clients l \<or>
    (\<exists>k. current_client l (owner_id t) (transport_metadata t ! 2) = Some k \<and>
         one_client k l (tcp_completion l t status response))"
proof (cases "current_client l (owner_id t) (transport_metadata t ! 2)")
  case None
  then have "tcp_clients (complete_timeout l t) = tcp_clients l" "tcp_clients (complete_answer l t response) = tcp_clients l"
    by (simp_all add: complete_timeout_def complete_answer_def Let_def)
  then show ?thesis by (simp add: tcp_completion_def)
next
  case (Some k)
  note q = queue_one_client [OF current_client_self [OF assms Some]]
  have q0: "one_client k l (snd (modbus_tcp_listener_queue_response l (cl_id (client_at l k)) (cl_epoch (client_at l k)) d))" for d
    using q [of "tcp_stats l"] by simp
  have "one_client k l (complete_timeout l t)" using Some q one_client_refl [of k l]
    by (simp add: complete_timeout_def Let_def split_beta split: option.split)
  moreover have "one_client k l (complete_answer l t response)" using Some q0 one_client_refl [of k l]
    by (simp add: complete_answer_def Let_def split_beta split: option.split)
  ultimately show ?thesis using Some one_client_refl [of k l] one_client_same [of "count_malformed l t response" l k]
    by (simp add: tcp_completion_def)
qed

text \<open>
  An answer touches no connection but its asker's: whatever the outcome of a transaction and
  whatever the state of the listener, a connection that does not have both the identifier and the epoch the
  transaction carries keeps its socket, its queued bytes and its timers.
\<close>

theorem answer_touches_only_asker:
  assumes "listener_inv l" "j < MODBUS_LISTENER_CLIENT_MAX"
    "\<not> (open_client (client_at l j) \<and> cl_id (client_at l j) = owner_id t \<and>
        cl_epoch (client_at l j) = transport_metadata t ! 2)"
  shows "client_at (tcp_completion l t status response) j = client_at l j"
  using completion_clients [OF assms(1), of t status response]
proof
  assume "\<exists>k. current_client l (owner_id t) (transport_metadata t ! 2) = Some k \<and>
         one_client k l (tcp_completion l t status response)"
  then obtain k where k: "current_client l (owner_id t) (transport_metadata t ! 2) = Some k"
    "one_client k l (tcp_completion l t status response)" by blast
  then have "j \<noteq> k" using current_client_Some [OF assms(1) k(1)] assms(3) by blast
  then show ?thesis using one_client_other k(2) by blast
qed simp

theorem answer_touches_only_asker_witness:
  "client_at (tcp_completion called_listener sample_transaction CORE_TX_COMPLETED (rtu_frame sample_answer)) 3 =
   client_at called_listener 3"
proof (rule answer_touches_only_asker)
  show "listener_inv called_listener" by (rule called_listener_ok)
  show "\<not> (open_client (client_at called_listener 3) \<and> cl_id (client_at called_listener 3) = owner_id sample_transaction \<and>
        cl_epoch (client_at called_listener 3) = transport_metadata sample_transaction ! 2)" by code_simp
qed simp

section \<open>The asker gets its answer\<close>

lemma build_response_fits: "modbus_tcp_build_response t rtu cap = (r, Some out) \<Longrightarrow> length out \<le> cap"
  by (auto simp: modbus_tcp_build_response_def Let_def split: if_splits)

lemma answer_queued:
  assumes "listener_inv l" "current_client l (owner_id t) (transport_metadata t ! 2) = Some k"
    "carries t rq" "adu_ok (rq_adu rq)" "modbus_rtu_frame_probe (payload t) rtu = (UART_FRAME_COMPLETE, n)"
  shows "let c = client_at l k; c' = client_at (tcp_completion l t CORE_TX_COMPLETED rtu) k in
    if cl_count c < MODBUS_TX_QUEUE_MAX
    then \<exists>out a. unsent c' = unsent c @ out \<and> mbap_split out = ([a], [], True) \<and>
        adu_transaction_id a = adu_transaction_id (rq_adu rq) \<and> unit_id a = unit_id (rq_adu rq) \<and>
        pdu a = take (length rtu - 3) (drop 1 rtu)
    else c' = closed_client"
proof -
  obtain out a where o: "modbus_tcp_build_response t rtu 260 = (0, Some out)" "mbap_split out = ([a], [], True)"
    "adu_transaction_id a = adu_transaction_id (rq_adu rq)" "unit_id a = unit_id (rq_adu rq)"
    "pdu a = take (length rtu - 3) (drop 1 rtu)"
    using accepted_answer_parses [OF assms(3,4) order_refl assms(5)] by blast
  have ne: "out \<noteq> []" using o(2) split_short [of out] by auto
  note le = build_response_fits [OF o(1)]
  note k = current_client_Some [OF assms(1,2)]
  have len: "length (tcp_clients l) = 8" using assms(1) by (simp add: listener_inv_def)
  let ?c = "client_at l k"
  have e: "tcp_completion l t CORE_TX_COMPLETED rtu =
      snd (modbus_tcp_listener_queue_response l (cl_id ?c) (cl_epoch ?c) out)"
    using assms(2) o(1) by (simp add: tcp_completion_def complete_answer_def)
  show ?thesis
  proof (cases "tx_push ?c out")
    case None
    then have "\<not> cl_count ?c < MODBUS_TX_QUEUE_MAX" by (auto simp: tx_push_def split: if_splits)
    then show ?thesis using None e ne le k len current_client_self [OF assms(1,2)]
      by (simp add: modbus_tcp_listener_queue_response_def clients_close)
  next
    case (Some x)
    then have "cl_count ?c < MODBUS_TX_QUEUE_MAX" by (auto simp: tx_push_def split: if_splits)
    moreover have "unsent x = unsent ?c @ out" using tx_push_unsent(2) [OF inv_tx_wf [OF assms(1)] ne _ Some] k le by simp
    moreover have "client_at (tcp_completion l t CORE_TX_COMPLETED rtu) k \<in> {x, x\<lparr>write_started_at := tl_now l\<rparr>}"
      using Some e ne le k len current_client_self [OF assms(1,2)] by (simp add: modbus_tcp_listener_queue_response_def)
    ultimately show ?thesis using o by (auto simp: Let_def)
  qed
qed

text \<open>
  C21. The asker gets its answer: when a transaction that carries a request of an open connection completes
  with an answer the frame probe accepts, the bytes of exactly one ADU, with the transaction
  identifier of the request, its unit and the answer's PDU, are appended to what the connection is still to be
  sent; only if four answers are waiting already the connection is closed instead.
\<close>

theorem asker_gets_its_answer:
  assumes "listener_inv l" "current_client l (owner_id t) (transport_metadata t ! 2) = Some k"
    "carries t rq" "adu_ok (rq_adu rq)" "modbus_rtu_frame_probe (payload t) rtu = (UART_FRAME_COMPLETE, n)"
  shows "let c = client_at l k; c' = client_at (tcp_completion l t CORE_TX_COMPLETED rtu) k in
    if cl_count c < MODBUS_TX_QUEUE_MAX
    then \<exists>out a. unsent c' = unsent c @ out \<and> mbap_split out = ([a], [], True) \<and>
        adu_transaction_id a = adu_transaction_id (rq_adu rq) \<and> unit_id a = unit_id (rq_adu rq) \<and>
        pdu a = take (length rtu - 3) (drop 1 rtu)
    else c' = closed_client"
  using assms by (rule answer_queued)

definition asking :: core_transaction where
  "asking = sample_transaction\<lparr>owner_id := 1,
     transport_metadata := request_metadata (sample_tcp_request\<lparr>client_id := 1, client_epoch := 1\<rparr>)\<rparr>"

lemma asking_current: "current_client called_listener (owner_id asking) (transport_metadata asking ! 2) = Some 0"
proof -
  have "current_client called_listener 1 1 = Some 0" by code_simp
  then show ?thesis by (simp add: asking_def request_metadata_def)
qed

lemma asking_carries: "carries asking (sample_tcp_request\<lparr>client_id := 1, client_epoch := 1\<rparr>)"
  "adu_ok (rq_adu (sample_tcp_request\<lparr>client_id := 1, client_epoch := 1\<rparr>))"
  "modbus_rtu_frame_probe (payload asking) (rtu_frame sample_answer) = (UART_FRAME_COMPLETE, Some 7)"
  using sample_carries sample_probe by (simp_all add: carries_def asking_def sample_transaction_def)

lemma called_listener_room: "cl_count (client_at called_listener 0) < MODBUS_TX_QUEUE_MAX"
  by code_simp

theorem asker_gets_its_answer_witness:
  "\<exists>out a. unsent (client_at (tcp_completion called_listener asking CORE_TX_COMPLETED (rtu_frame sample_answer)) 0) =
       unsent (client_at called_listener 0) @ out \<and> mbap_split out = ([a], [], True) \<and>
     adu_transaction_id a = adu_transaction_id sample_request \<and> unit_id a = unit_id sample_request \<and>
     pdu a = take (length (rtu_frame sample_answer) - 3) (drop 1 (rtu_frame sample_answer))"
proof -
  show ?thesis using asker_gets_its_answer [OF called_listener_ok(1) asking_current asking_carries] called_listener_room
    by (simp add: Let_def sample_tcp_request_def)
qed

section \<open>Answers leave in order\<close>

text \<open>
  What a connection is sent is its answers, in the order they were queued and without a gap: of the bytes
  still to be sent, a write step takes away exactly those the socket accepted, from the front, however few they
  are, unless it closes the connection.
\<close>

theorem write_sends_in_order:
  assumes "listener_inv l" "k < MODBUS_LISTENER_CLIENT_MAX" "sends_at_most (net l)" "cl_count (client_at l k) \<noteq> 0"
  shows "let c = client_at l k; c' = client_at (write_client l k now) k;
      sent = fst (net_send (net l) (net_state l) (cl_fd c) (tx_offer c)) in
    c' = closed_client \<or> unsent c = take (nat sent) (tx_offer c) @ unsent c'"
proof -
  let ?c = "client_at l k"
  obtain sent n where sd: "net_send (net l) (net_state l) (cl_fd ?c) (tx_offer ?c) = (sent, n)"
    by (cases "net_send (net l) (net_state l) (cl_fd ?c) (tx_offer ?c)")
  have len: "length (tcp_clients l) = 8" using assms(1) by (simp add: listener_inv_def)
  have le: "sent \<le> int (length (tx_offer ?c))"
    using assms(3) sd by (metis fst_conv sends_at_most_def)
  show ?thesis
  proof (cases "sent > 0")
    case True
    then have "unsent ?c = take (nat sent) (tx_offer ?c) @ unsent (tx_advance ?c (nat sent) now)"
      using tx_advance_unsent(2) [OF inv_tx_wf [OF assms(1,2)] assms(4)] le by simp
    then show ?thesis using True sd len assms(2,4) by (simp add: write_client_def Let_def)
  next
    case False
    then show ?thesis using sd len assms(2,4) by (simp add: write_client_def Let_def clients_close)
  qed
qed

lemma unsent_none: "cl_count c = 0 \<Longrightarrow> unsent c = []"
  by (simp add: unsent_def tx_items_def)

definition answered_listener :: "nat modbus_tcp_listener" where
  "answered_listener = tcp_completion called_listener asking CORE_TX_COMPLETED (rtu_frame sample_answer)"

theorem write_sends_in_order_witness:
  "let c = client_at answered_listener 0; c' = client_at (write_client answered_listener 0 9) 0;
      sent = fst (net_send (net answered_listener) (net_state answered_listener) (cl_fd c) (tx_offer c)) in
    c' = closed_client \<or> unsent c = take (nat sent) (tx_offer c) @ unsent c'"
proof (rule write_sends_in_order)
  have "net answered_listener = one_caller" by (simp add: answered_listener_def called_listener_ok)
  then show "sends_at_most (net answered_listener)" by (simp add: one_caller_sends)
  show "listener_inv answered_listener"
    unfolding answered_listener_def by (rule listener_inv_completion) (rule called_listener_ok)
  obtain out a where "unsent (client_at answered_listener 0) = unsent (client_at called_listener 0) @ out"
      "mbap_split out = ([a], [], True)"
    using answer_queued [OF called_listener_ok(1) asking_current asking_carries] called_listener_room
    by (auto simp: Let_def answered_listener_def)
  then have "unsent (client_at answered_listener 0) \<noteq> []" using split_short [of out] by auto
  then show "cl_count (client_at answered_listener 0) \<noteq> 0" using unsent_none by blast
qed simp

section \<open>No connection stalls\<close>

lemma feed_one_client: "one_client k l (snd (feed_client l k d))"
  by (auto simp: feed_client_def split_beta Let_def one_client_def)

lemma one_client_dispatcher [simp]: "one_client k (l\<lparr>net_state := n\<rparr>) l' = one_client k l l'"
  "one_client k (l\<lparr>tcp_stats := x\<rparr>) l' = one_client k l l'" "one_client k l (l'\<lparr>net_state := n\<rparr>) = one_client k l l'"
  by (simp_all add: one_client_def)

lemma one_client_set: "one_client k l (set_client l k c)"
  by (auto simp: one_client_def)

lemma one_client_then_close: "one_client k l l' \<Longrightarrow> one_client k l (close_client l' k)"
  using one_client_trans one_client_close by blast

lemma one_client_drain: "one_client k l (drain_parser l k)"
  using feed_one_client [of k l "[]"] by (simp add: drain_parser_def split_beta one_client_then_close)

lemma one_client_read: "one_client k l (read_client l k now)"
proof -
  have f: "one_client k l (snd (feed_client ((set_client (l\<lparr>net_state := n\<rparr>) k c)\<lparr>tcp_stats := x\<rparr>) k d))" for n c x d
    using one_client_trans [OF one_client_set [of k "l\<lparr>net_state := n\<rparr>" c] feed_one_client [of k _ d]]
      feed_one_client [of k "(set_client (l\<lparr>net_state := n\<rparr>) k c)\<lparr>tcp_stats := x\<rparr>" d] by (auto simp: one_client_def)
  have e: "one_client k l (set_client (l\<lparr>net_state := n\<rparr>) k c)" for n c by (auto simp: one_client_def)
  have t: "one_client k l (close_client (l\<lparr>net_state := n\<rparr>) k)" for n by (auto simp: one_client_def clients_close)
  show ?thesis using f e t one_client_refl [of k l]
    by (simp add: read_client_def Let_def split_beta one_client_then_close)
qed

lemma one_client_write: "one_client k l (write_client l k now)"
  using one_client_refl [of k l] by (auto simp: write_client_def Let_def split_beta one_client_def clients_close)

lemma one_client_expire: "one_client k l (expire_client l p k now)"
  using one_client_refl [of k l] by (auto simp: expire_client_def Let_def one_client_def clients_close)

lemma one_client_io: "one_client k l (client_io p now l k)"
proof -
  let ?a = "drain_parser l k" let ?b = "read_client ?a k now" let ?c = "write_client ?b k now"
  have a: "one_client k l ?a" by (rule one_client_drain)
  have b: "one_client k l ?b" using one_client_trans [OF a one_client_read] .
  have c: "one_client k l ?c" using one_client_trans [OF b one_client_write] .
  have d: "one_client k l (expire_client ?c p k now)" using one_client_trans [OF c one_client_expire] .
  show ?thesis using a b c d one_client_refl [of k l] one_client_then_close [OF b] by (simp add: client_io_def Let_def)
qed

text \<open>A connection whose incomplete request and whose output are younger than their limits.\<close>

definition prompt_client :: "tick \<Rightarrow> modbus_tcp_client \<Rightarrow> bool" where
  "prompt_client now c \<longleftrightarrow> open_client c \<longrightarrow>
     (ms_count (cl_rx c) \<noteq> 0 \<longrightarrow> core_elapsed (frame_started_at c) now < MODBUS_INPUT_TIMEOUT) \<and>
     (cl_count c \<noteq> 0 \<longrightarrow> core_elapsed (write_started_at c) now < MODBUS_WRITE_TIMEOUT)"

lemma write_input:
  assumes "k < length (tcp_clients l)" "open_client (client_at (write_client l k now) k)"
  shows "cl_rx (client_at (write_client l k now) k) = cl_rx (client_at l k) \<and>
    frame_started_at (client_at (write_client l k now) k) = frame_started_at (client_at l k)"
proof -
  have "cl_rx (tx_advance c n now) = cl_rx c" "frame_started_at (tx_advance c n now) = frame_started_at c" for c n
    by (simp_all add: tx_advance_def Let_def)
  then show ?thesis using assms by (auto simp: write_client_def Let_def split_beta clients_close split: if_splits)
qed

lemma expire_prompt:
  assumes "k < length (tcp_clients l)"
    "ms_count (cl_rx (client_at l k)) \<noteq> 0 \<longrightarrow> core_elapsed (frame_started_at (client_at l k)) now < MODBUS_INPUT_TIMEOUT"
  shows "prompt_client now (client_at (expire_client l p k now) k)"
  using assms by (auto simp: expire_client_def Let_def prompt_client_def clients_close not_le split: if_splits)

lemma one_client_length: "one_client k l l' \<Longrightarrow> length (tcp_clients l') = length (tcp_clients l)"
  by (auto simp: one_client_def)

lemma client_io_prompt:
  assumes "k < length (tcp_clients l)"
  shows "prompt_client now (client_at (client_io p now l k) k)"
proof -
  let ?a = "drain_parser l k" let ?b = "read_client ?a k now" let ?c = "write_client ?b k now"
  have la: "k < length (tcp_clients ?a)" using one_client_length [OF one_client_drain] assms by metis
  then have lb: "k < length (tcp_clients ?b)" using one_client_length [OF one_client_read] by metis
  then have lc: "k < length (tcp_clients ?c)" using one_client_length [OF one_client_write] by metis
  have cl: "prompt_client now (client_at (close_client ?b k) k)" using lb by (simp add: clients_close prompt_client_def)
  have nf: "cl_fd c < 0 \<Longrightarrow> prompt_client now c" for c by (simp add: prompt_client_def open_client_def)
  have e: "prompt_client now (client_at (expire_client ?c p k now) k)"
    if "\<not> cl_fd (client_at ?c k) < 0" "\<not> (ms_count (cl_rx (client_at ?b k)) \<noteq> 0 \<and>
      core_elapsed (frame_started_at (client_at ?b k)) now \<ge> MODBUS_INPUT_TIMEOUT)"
    by (rule expire_prompt [OF lc]) (use write_input [OF lb] that in \<open>auto simp: open_client_def not_le\<close>)
  show ?thesis using cl nf e by (simp add: client_io_def Let_def)
qed

lemma clients_io_prompt:
  assumes "set ks \<subseteq> {..<length (tcp_clients l)}" "distinct ks"
  shows "\<forall>k \<in> set ks. prompt_client now (client_at (foldl (client_io p now) l ks) k)"
  using assms
proof (induction ks rule: rev_induct)
  case (snoc k ks)
  let ?l = "foldl (client_io p now) l ks"
  have len: "length (tcp_clients (foldl (client_io p now) l js)) = length (tcp_clients l)" for js
    by (induction js rule: rev_induct) (simp_all add: one_client_length [OF one_client_io])
  have "prompt_client now (client_at (client_io p now ?l k) k)" using snoc.prems len by (intro client_io_prompt) simp
  moreover have "client_at (client_io p now ?l k) j = client_at ?l j" if "j \<in> set ks" for j
    using one_client_other [OF one_client_io] that snoc.prems by (metis distinct_append not_distinct_conv_prefix)
  ultimately show ?case using snoc by auto
qed simp

lemma accept_length [simp]: "length (tcp_clients (accept_one l now)) = length (tcp_clients l)"
  by (simp add: accept_one_def Let_def split_beta clients_close split: option.split)

text \<open>The two timers of a connection: a request that still lacks bytes, and the answer at the head of the output.\<close>

definition unfinished_request :: "mbap_stream \<Rightarrow> bool" where
  "unfinished_request s \<longleftrightarrow> ms_count s \<noteq> 0 \<and>
     (ms_count s < MBAP_HEADER_SIZE \<or>
      (let n = be16 (peek s 4) (peek s 5) in be16 (peek s 2) (peek s 3) = 0 \<and> MBAP_LENGTH_MIN \<le> n \<and> n \<le> MBAP_LENGTH_MAX \<and>
        ms_count s < 6 + n))"

definition keeps_timers :: "modbus_tcp_client \<Rightarrow> modbus_tcp_client \<Rightarrow> bool" where
  "keeps_timers c c' \<longleftrightarrow> open_client c \<and> open_client c' \<longrightarrow>
     (unfinished_request (cl_rx c) \<longrightarrow> frame_started_at c' = frame_started_at c) \<and>
     (cl_count c \<noteq> 0 \<and> cl_head c' = cl_head c \<longrightarrow> write_started_at c' = write_started_at c)"

lemma unfinished_parse: "unfinished_request s \<Longrightarrow> parse_available s f ctx = (0, s, ctx)"
  by (subst parse_available.simps) (auto simp: unfinished_request_def Let_def)

lemma feed_length: "length (tcp_clients (snd (feed_client l k d))) = length (tcp_clients l)"
  using one_client_length [OF feed_one_client] .

lemma rx_same: "c\<lparr>cl_rx := cl_rx c\<rparr> = (c :: modbus_tcp_client)"
  by (cases c) simp

lemma unfinished_feed:
  assumes "unfinished_request (cl_rx (client_at l k))"
  shows "tcp_clients (snd (feed_client l k [])) = tcp_clients l"
  by (simp add: feed_client_def mbap_stream_feed_def feed_copy.simps [of _ "[]"] unfinished_parse [OF assms] rx_same Let_def)

lemma not_open_closed: "\<not> open_client closed_client"
  by (simp add: open_client_def closed_client_def)

lemma drain_feed:
  assumes "k < length (tcp_clients l)" "open_client (client_at (drain_parser l k) k)"
  shows "client_at (drain_parser l k) k = client_at (snd (feed_client l k [])) k"
  using assms not_open_closed
  by (auto simp: drain_parser_def split_beta Let_def clients_close feed_length split: if_splits)

lemma drain_timers:
  assumes "k < length (tcp_clients l)" "open_client (client_at (drain_parser l k) k)"
  shows "unfinished_request (cl_rx (client_at l k)) \<Longrightarrow> client_at (drain_parser l k) k = client_at l k"
    "cl_count (client_at (drain_parser l k) k) = cl_count (client_at l k)"
    "cl_head (client_at (drain_parser l k) k) = cl_head (client_at l k)"
    "write_started_at (client_at (drain_parser l k) k) = write_started_at (client_at l k)"
  unfolding drain_feed [OF assms] using assms(1) by (simp add: unfinished_feed, simp_all add: feed_client_def split_beta Let_def)

lemma read_timers:
  assumes "k < length (tcp_clients l)" "open_client (client_at (read_client l k now) k)"
  shows "ms_count (cl_rx (client_at l k)) \<noteq> 0 \<Longrightarrow> frame_started_at (client_at (read_client l k now) k) = frame_started_at (client_at l k)"
    "cl_count (client_at (read_client l k now) k) = cl_count (client_at l k)"
    "cl_head (client_at (read_client l k now) k) = cl_head (client_at l k)"
    "write_started_at (client_at (read_client l k now) k) = write_started_at (client_at l k)"
  using assms not_open_closed by (auto simp: read_client_def feed_client_def Let_def split_beta clients_close split: if_splits)

lemma write_timers:
  assumes "k < length (tcp_clients l)" "open_client (client_at (write_client l k now) k)" "cl_head (client_at l k) < 4"
    "cl_count (client_at l k) \<noteq> 0" "cl_head (client_at (write_client l k now) k) = cl_head (client_at l k)"
  shows "write_started_at (client_at (write_client l k now) k) = write_started_at (client_at l k)"
proof -
  have m: "Suc h mod 4 \<noteq> h" if "h < 4" for h :: nat using that by (cases "h = 3") auto
  show ?thesis
    using assms m [OF assms(3)] not_open_closed
    by (auto simp: write_client_def tx_advance_def Let_def split_beta clients_close split: if_splits)
qed

lemma expire_same:
  assumes "k < length (tcp_clients l)" "open_client (client_at (expire_client l p k now) k)"
  shows "client_at (expire_client l p k now) k = client_at l k"
  using assms not_open_closed by (auto simp: expire_client_def Let_def clients_close split: if_splits)

lemma client_io_keeps:
  assumes "k < length (tcp_clients l)" "cl_head (client_at l k) < 4"
  shows "keeps_timers (client_at l k) (client_at (client_io p now l k) k)"
  unfolding keeps_timers_def
proof (intro impI)
  let ?a = "drain_parser l k" let ?b = "read_client ?a k now" let ?c = "write_client ?b k now" let ?l = "client_io p now l k"
  assume o: "open_client (client_at l k) \<and> open_client (client_at ?l k)"
  have la: "k < length (tcp_clients ?a)" using one_client_length [OF one_client_drain] assms(1) by metis
  then have lb: "k < length (tcp_clients ?b)" using one_client_length [OF one_client_read] by metis
  then have lc: "k < length (tcp_clients ?c)" using one_client_length [OF one_client_write] by metis
  have "\<not> open_client (client_at (close_client ?b k) k)" using lb not_open_closed by (simp add: clients_close)
  then have c: "open_client (client_at ?a k)" "open_client (client_at ?b k)" "open_client (client_at ?c k)"
      "?l = expire_client ?c p k now"
    using o by (auto simp: client_io_def Let_def open_client_def split: if_splits)
  note d = drain_timers [OF assms(1) c(1)] and r = read_timers [OF la c(2)]
  have e: "client_at ?l k = client_at ?c k" using expire_same [OF lc, of p now] o c(4) by simp
  have "frame_started_at (client_at ?l k) = frame_started_at (client_at l k)" if "unfinished_request (cl_rx (client_at l k))"
    using write_input [OF lb c(3)] r(1) d(1) [OF that] that e by (simp add: unfinished_request_def)
  moreover have "write_started_at (client_at ?l k) = write_started_at (client_at l k)"
    if "cl_count (client_at l k) \<noteq> 0" "cl_head (client_at ?l k) = cl_head (client_at l k)"
    using write_timers [OF lb c(3)] assms(2) r(2-4) d(2-4) e that by simp
  ultimately show "(unfinished_request (cl_rx (client_at l k)) \<longrightarrow>
        frame_started_at (client_at ?l k) = frame_started_at (client_at l k)) \<and>
      (cl_count (client_at l k) \<noteq> 0 \<and> cl_head (client_at ?l k) = cl_head (client_at l k) \<longrightarrow>
        write_started_at (client_at ?l k) = write_started_at (client_at l k))"
    by blast
qed

lemma clients_io_length: "length (tcp_clients (foldl (client_io p now) l ks)) = length (tcp_clients l)"
  by (induction ks rule: rev_induct) (simp_all add: one_client_length [OF one_client_io])

lemma clients_io_other: "k \<notin> set ks \<Longrightarrow> client_at (foldl (client_io p now) l ks) k = client_at l k"
  by (induction ks rule: rev_induct) (auto simp: one_client_other [OF one_client_io])

lemma keeps_refl: "keeps_timers c c"
  by (simp add: keeps_timers_def)

lemma clients_io_keeps:
  assumes "distinct ks" "k < length (tcp_clients l)" "cl_head (client_at l k) < 4"
  shows "keeps_timers (client_at l k) (client_at (foldl (client_io p now) l ks) k)"
proof (cases "k \<in> set ks")
  case True
  then obtain xs ys where s: "ks = xs @ k # ys" by (meson split_list)
  then have n: "k \<notin> set xs" "k \<notin> set ys" using assms(1) by simp_all
  let ?l = "foldl (client_io p now) l xs"
  have "keeps_timers (client_at ?l k) (client_at (client_io p now ?l k) k)"
    by (rule client_io_keeps) (use assms n clients_io_other [of k xs p now l] clients_io_length [of p now l xs] in simp_all)
  then show ?thesis using s clients_io_other [OF n(1), of p now l] clients_io_other [OF n(2), of p now "client_io p now ?l k"] by simp
qed (simp add: clients_io_other keeps_refl)

lemma accept_open:
  assumes "k < length (tcp_clients l)" "open_client (client_at l k)"
  shows "client_at (accept_one l now) k = client_at l k"
proof -
  have "j \<noteq> k" if "find_index (\<lambda>c. cl_fd c < 0) (tcp_clients l) = Some j" for j
    using find_index_holds [OF that] assms by (auto simp: open_client_def)
  then show ?thesis
    by (auto simp: accept_one_def Let_def split_beta clients_close set_client_def split: option.split)
qed

lemma step_io_clients:
  "tcp_clients (fst (modbus_tcp_listener_step_io l p now)) =
   tcp_clients (foldl (client_io p now) (let a = l\<lparr>tl_now := now, tcp_stats := (tcp_stats l)\<lparr>ls_scheduler_steps := ls_scheduler_steps (tcp_stats l) + 1\<rparr>\<rparr>
     in if listen_fd l \<ge> 0 then accept_one a now else a) [0..<MODBUS_LISTENER_CLIENT_MAX])"
  unfolding modbus_tcp_listener_step_io_def Let_def split_beta by simp

lemma closed_keeps: "keeps_timers c closed_client"
  by (simp add: keeps_timers_def not_open_closed)

lemma answer_keeps:
  assumes "listener_inv l" "k < MODBUS_LISTENER_CLIENT_MAX"
  shows "keeps_timers (client_at l k) (client_at (tcp_completion l t status response) k)"
proof -
  have len: "length (tcp_clients l) = 8" using assms(1) by (simp add: listener_inv_def)
  have q: "keeps_timers (client_at l k) (client_at (snd (modbus_tcp_listener_queue_response (l\<lparr>tcp_stats := s\<rparr>) i ep d)) k)" for s i ep d
    using assms(2) len by (cases "current_client l i ep = Some k") (auto simp: modbus_tcp_listener_queue_response_def tx_push_def
        clients_close set_client_def keeps_timers_def not_open_closed split: option.split)
  have q0: "keeps_timers (client_at l k) (client_at (snd (modbus_tcp_listener_queue_response l i ep d)) k)" for i ep d
    using q [of "tcp_stats l"] by simp
  show ?thesis using q q0 keeps_refl
    by (simp add: tcp_completion_def complete_timeout_def complete_answer_def Let_def split_beta split: option.split)
qed

lemma open_clients: "tcp_clients (snd (modbus_tcp_listener_open l a port)) = tcp_clients l"
  by (simp add: modbus_tcp_listener_open_def Let_def split_beta)

lemma shut_clients:
  assumes "length (tcp_clients l) = MODBUS_LISTENER_CLIENT_MAX" "k < MODBUS_LISTENER_CLIENT_MAX"
  shows "client_at (modbus_tcp_listener_close l) k = closed_client"
proof -
  have "length (tcp_clients (foldl close_client l ks)) = length (tcp_clients l) \<and>
      (\<forall>j \<in> set ks. j < length (tcp_clients l) \<longrightarrow> client_at (foldl close_client l ks) j = closed_client)" for ks
  proof (induction ks rule: rev_induct)
    case (snoc x xs)
    have "client_at (close_client (foldl close_client l xs) x) j = closed_client" if "j \<in> set (xs @ [x])" "j < length (tcp_clients l)" for j
      using snoc that by (cases "j = x") (auto simp: clients_close)
    then show ?case using snoc by (simp add: clients_close)
  qed simp
  from this [of "[0..<8]"] show ?thesis using assms by (simp add: modbus_tcp_listener_close_def Let_def)
qed

text \<open>
  C23. No connection stalls: after every I/O step, whatever the network did, each connection that is still open has begun
  its unfinished request, if it has one, less than five seconds ago, and has been writing the answer at the head of its
  output for less than five seconds; any other has been closed. The two times cannot be pushed forward: as long as a
  request lacks bytes, and as long as the same answer is at the head, no I/O step, no answer, no opening and no closing
  changes them, so neither a client that sends single bytes nor one that takes single bytes holds its slot for longer.
  The time of the head starts anew when the next of the four answers takes its place.
\<close>

theorem no_connection_stalls:
  assumes "listener_inv l" "k < MODBUS_LISTENER_CLIENT_MAX"
  shows "keeps_timers (client_at l k) (client_at (listener_exec l e) k) \<and>
    (case e of Io p now \<Rightarrow> prompt_client now (client_at (listener_exec l e) k) | _ \<Rightarrow> True)"
proof (cases e)
  case (Io p now)
  have len: "length (tcp_clients l) = 8" using assms(1) by (simp add: listener_inv_def)
  let ?a = "l\<lparr>tl_now := now, tcp_stats := (tcp_stats l)\<lparr>ls_scheduler_steps := ls_scheduler_steps (tcp_stats l) + 1\<rparr>\<rparr>"
  let ?b = "if listen_fd l \<ge> 0 then accept_one ?a now else ?a"
  have lb: "length (tcp_clients ?b) = 8" using len by simp
  then have "\<forall>k \<in> set [0..<8]. prompt_client now (client_at (foldl (client_io p now) ?b [0..<8]) k)"
    by (intro clients_io_prompt) auto
  moreover have "keeps_timers (client_at l k) (client_at (foldl (client_io p now) ?b [0..<8]) k)"
  proof (cases "open_client (client_at l k)")
    case True
    then have "client_at ?b k = client_at l k" using accept_open [of k ?a now] len assms(2) by simp
    moreover have "cl_head (client_at l k) < 4" using inv_tx_wf [OF assms] by (simp add: tx_wf_def tx_ring_wf_def)
    ultimately show ?thesis using clients_io_keeps [of "[0..<8]" k ?b p now] lb assms(2) by simp
  qed (simp add: keeps_timers_def)
  ultimately show ?thesis using assms(2) Io by (simp add: step_io_clients Let_def)
next
  case Shut
  then show ?thesis using assms shut_clients [of l k] closed_keeps by (simp add: listener_inv_def)
qed (use assms answer_keeps keeps_refl in \<open>simp_all add: open_clients\<close>)

theorem no_connection_stalls_witness:
  "keeps_timers (client_at answered_listener 0) (client_at (listener_exec answered_listener (Io idle_port 12)) 0) \<and>
    prompt_client 12 (client_at (listener_exec answered_listener (Io idle_port 12)) 0)"
proof -
  have "listener_inv answered_listener"
    unfolding answered_listener_def by (rule listener_inv_completion) (rule called_listener_ok)
  from no_connection_stalls [OF this, of 0 "Io idle_port 12"] show ?thesis by simp
qed

end
