(* ===== verification/Udp_Listener_Service.thy ===== *)
theory Udp_Listener_Service
  imports Modbus_Udp_Listener
begin

text \<open>
  What the Modbus/UDP listener guarantees: only requests that passed the check reach the port, and a
  repeated datagram is never executed twice.
\<close>

section \<open>The scan of the peers\<close>

definition from_peer :: "sockaddr_in \<Rightarrow> modbus_udp_peer \<Rightarrow> bool" where
  "from_peer source q \<longleftrightarrow> up_used q \<and> sin_addr (up_address q) = sin_addr source \<and> sin_port (up_address q) = sin_port source"

definition forget :: "tick \<Rightarrow> modbus_udp_peer \<Rightarrow> modbus_udp_peer" where
  "forget now q = (if peer_idle now q then zero_peer else q)"

lemma zero_peer_simps [simp]: "\<not> up_used zero_peer" "\<not> up_cached zero_peer" "\<not> up_pending zero_peer" "\<not> up_submitted zero_peer" "\<not> peer_idle now zero_peer"
  by (simp_all add: zero_peer_def peer_idle_def)

lemma scan_peers:
  assumes "n \<le> length ps" "foldl (scan_peer source now) (ps, None, None) [0..<n] = (qs, free, found)"
  shows "length qs = length ps \<and> (\<forall>j < length ps. qs ! j = (if j < n then forget now (ps ! j) else ps ! j)) \<and>
    (\<forall>j. free = Some j \<longrightarrow> j < n \<and> \<not> up_used (qs ! j)) \<and>
    (\<forall>j. found = Some j \<longrightarrow> j < n \<and> from_peer source (qs ! j)) \<and>
    (found = None \<longrightarrow> (\<forall>j < n. \<not> from_peer source (qs ! j)))"
  using assms
proof (induction n arbitrary: qs free found)
  case (Suc n)
  obtain rs fr fo where r: "foldl (scan_peer source now) (ps, None, None) [0..<n] = (rs, fr, fo)"
    by (cases "foldl (scan_peer source now) (ps, None, None) [0..<n]") auto
  have n: "n < length ps" using Suc.prems(1) by simp
  note IH = Suc.IH [OF _ r]
  have ih: "length rs = length ps" "\<forall>j < length ps. rs ! j = (if j < n then forget now (ps ! j) else ps ! j)"
    "\<forall>j. fr = Some j \<longrightarrow> j < n \<and> \<not> up_used (rs ! j)" "\<forall>j. fo = Some j \<longrightarrow> j < n \<and> from_peer source (rs ! j)"
    "fo = None \<longrightarrow> (\<forall>j < n. \<not> from_peer source (rs ! j))"
    using IH n by auto
  have "rs ! n = ps ! n" using ih(2) n by simp
  define us where "us = (if peer_idle now (ps ! n) then rs[n := zero_peer] else rs)"
  have "scan_peer source now (rs, fr, fo) n = (us, if \<not> up_used (us ! n) \<and> fr = None then Some n else fr,
      if from_peer source (us ! n) then Some n else fo)"
    using \<open>rs ! n = ps ! n\<close> ih(1) n by (simp add: scan_peer_def from_peer_def us_def)
  then have q: "qs = us" "free = (if \<not> up_used (us ! n) \<and> fr = None then Some n else fr)"
    "found = (if from_peer source (us ! n) then Some n else fo)"
    using Suc.prems(2) r by auto
  have l: "length us = length ps" using ih(1) by (simp add: us_def)
  have v: "us ! j = (if j < Suc n then forget now (ps ! j) else ps ! j)" if "j < length ps" for j
    using ih(1,2) n that by (cases "j = n") (auto simp: forget_def us_def)
  have k: "us ! j = rs ! j" if "j \<noteq> n" for j using that by (simp add: us_def)
  show ?case using l v k ih(3-5) q by (auto simp: less_Suc_eq)
qed simp

section \<open>The invariant\<close>

definition checked :: "u8 list \<Rightarrow> bool" where
  "checked r \<longleftrightarrow> request_valid r \<and> crc_ok r \<and> length r \<le> MODBUS_RTU_ADU_MAX"

definition peer_ok :: "modbus_udp_peer \<Rightarrow> bool" where
  "peer_ok q \<longleftrightarrow> (up_pending q \<longrightarrow> up_used q \<and> checked (up_rtu q)) \<and> (up_submitted q \<longrightarrow> up_pending q) \<and>
     (up_cached q \<longrightarrow> up_last_seen q = up_completed_at q)"

definition udp_inv :: "'n modbus_udp_listener \<Rightarrow> bool" where
  "udp_inv l \<longleftrightarrow> length (peers l) = MODBUS_UDP_PEERS \<and> next_peer l < MODBUS_UDP_PEERS \<and> (\<forall>q \<in> set (peers l). peer_ok q) \<and>
     (\<forall>j < MODBUS_UDP_PEERS. \<forall>k < MODBUS_UDP_PEERS. up_used (peer_at l j) \<and> up_used (peer_at l k) \<and>
        from_peer (up_address (peer_at l j)) (peer_at l k) \<longrightarrow> j = k)"

lemma udp_inv_update [simp]:
  "udp_inv (l\<lparr>udp_stats := s\<rparr>) = udp_inv l" "udp_inv (l\<lparr>unet_state := n\<rparr>) = udp_inv l"
  "udp_inv (l\<lparr>ul_now := t\<rparr>) = udp_inv l" "udp_inv (l\<lparr>ul_fd := f\<rparr>) = udp_inv l"
  "udp_inv (l\<lparr>ul_next_epoch := e\<rparr>) = udp_inv l"
  by (simp_all add: udp_inv_def)

lemma set_peer_frame [simp]:
  "peers (set_peer l k p) = (peers l)[k := p]" "ul_fd (set_peer l k p) = ul_fd l" "rtu_mode (set_peer l k p) = rtu_mode l"
  "unet (set_peer l k p) = unet l" "next_peer (set_peer l k p) = next_peer l" "ul_now (set_peer l k p) = ul_now l"
  "udp_stats (set_peer l k p) = udp_stats l" "unet_state (set_peer l k p) = unet_state l"
  by (simp_all add: set_peer_def)

lemma send_frame [simp]: "peers (send_response l p) = peers l" "next_peer (send_response l p) = next_peer l"
  "rtu_mode (send_response l p) = rtu_mode l" "ul_fd (send_response l p) = ul_fd l" "unet (send_response l p) = unet l"
  by (simp_all add: send_response_def Let_def split_beta)

lemma udp_inv_send [simp]: "udp_inv (send_response l p) = udp_inv l"
  by (simp add: udp_inv_def)

text \<open>Changing a peer that stays at its address, or taking one into use at an address no peer has.\<close>

lemma udp_inv_set:
  assumes "udp_inv l" "peer_ok q"
    "\<not> up_used q \<or> (up_used (peer_at l k) \<and> up_address q = up_address (peer_at l k)) \<or>
     (\<forall>j < MODBUS_UDP_PEERS. \<not> from_peer (up_address q) (peer_at l j))"
  shows "udp_inv (set_peer l k q)"
proof (cases "k < 8")
  case False
  then have "set_peer l k q = l" using assms(1) by (simp add: set_peer_def udp_inv_def list_update_beyond)
  then show ?thesis using assms(1) by simp
next
  case True
  have len: "length (peers l) = 8" using assms(1) by (simp add: udp_inv_def)
  have a: "\<forall>x \<in> set ((peers l)[k := q]). peer_ok x"
    using assms(1,2) set_update_subset_insert [of "peers l" k q] by (auto simp: udp_inv_def)
  have sym: "from_peer (up_address x) y \<Longrightarrow> up_used x \<Longrightarrow> from_peer (up_address y) x" for x y
    by (simp add: from_peer_def)
  have "i = j" if h: "i < 8" "j < 8" "up_used ((peers l)[k := q] ! i)" "up_used ((peers l)[k := q] ! j)"
      "from_peer (up_address ((peers l)[k := q] ! i)) ((peers l)[k := q] ! j)" for i j
  proof (cases "i = k"; cases "j = k")
    assume "i \<noteq> k" "j \<noteq> k"
    then show "i = j" using h assms(1) by (simp add: udp_inv_def)
  next
    assume ij: "i = k" "j \<noteq> k"
    then have "up_used q" "from_peer (up_address q) (peer_at l j)" using h True len by simp_all
    then have "up_used (peer_at l k)" "from_peer (up_address (peer_at l k)) (peer_at l j)" using assms(3) h(2) by auto
    then show "i = j" using assms(1) h(2) True ij by (auto simp: udp_inv_def from_peer_def)
  next
    assume ij: "i \<noteq> k" "j = k"
    then have "up_used q" "from_peer (up_address q) (peer_at l i)" using h True len sym by auto
    then have "up_used (peer_at l k)" "from_peer (up_address (peer_at l k)) (peer_at l i)" using assms(3) h(1) by auto
    then show "i = j" using assms(1) h(1) True ij by (auto simp: udp_inv_def from_peer_def)
  qed simp
  then show ?thesis using a assms(1) len by (simp add: udp_inv_def)
qed

lemma udp_inv_peer: "udp_inv l \<Longrightarrow> k < 8 \<Longrightarrow> peer_ok (peer_at l k)"
  by (simp add: udp_inv_def)

lemma udp_inv_finish:
  assumes "udp_inv l" "k < 8"
  shows "udp_inv (udp_finish l k)"
  unfolding udp_finish_def Let_def udp_inv_send
  by (rule udp_inv_set) (use assms in \<open>auto simp: peer_ok_def udp_inv_def\<close>)

lemma udp_inv_response:
  "udp_inv l \<Longrightarrow> k < 8 \<Longrightarrow> udp_inv (set_peer l k ((peer_at l k)\<lparr>up_response := r\<rparr>))"
  by (rule udp_inv_set) (use udp_inv_peer in \<open>auto simp: peer_ok_def\<close>)

lemma udp_inv_respond:
  "udp_inv l \<Longrightarrow> k < 8 \<Longrightarrow> udp_inv (udp_finish (set_peer l k ((peer_at l k)\<lparr>up_response := r\<rparr>)) k)"
  by (simp add: udp_inv_finish udp_inv_response)

lemma set_peer_stats [simp]: "(set_peer l k q)\<lparr>udp_stats := s\<rparr> = set_peer (l\<lparr>udp_stats := s\<rparr>) k q"
  by (simp add: set_peer_def)

lemma udp_inv_set_peer_stats [simp]: "udp_inv (set_peer (l\<lparr>udp_stats := s\<rparr>) k q) = udp_inv (set_peer l k q)"
  by (simp add: udp_inv_def)

lemma udp_inv_completion:
  assumes "udp_inv l"
  shows "udp_inv (udp_completion g l t status response)"
proof -
  have f: "udp_inv (udp_finish (set_peer (l\<lparr>udp_stats := s\<rparr>) k ((peer_at l k)\<lparr>up_response := r\<rparr>)) k)" if "k < 8" for k s r
    using udp_inv_respond [of "l\<lparr>udp_stats := s\<rparr>" k r] assms that by simp
  have g: "udp_inv (udp_finish (set_peer l k ((peer_at l k)\<lparr>up_response := r\<rparr>)) k)" if "k < 8" for k r
    using udp_inv_respond [of l k r] assms that by simp
  show ?thesis
    by (simp add: udp_completion_def Let_def split_beta f g assms not_le split: option.split)
qed

section \<open>Receiving keeps the invariant\<close>

lemma scan_all:
  assumes "length ps = 8"
  obtains free found where
    "foldl (scan_peer source now) (ps, None, None) [0..<8] = (map (forget now) ps, free, found)"
    "free = None \<or> (\<exists>j < 8. free = Some j \<and> \<not> up_used (map (forget now) ps ! j))"
    "(found = None \<and> (\<forall>j < 8. \<not> from_peer source (map (forget now) ps ! j))) \<or>
     (\<exists>j < 8. found = Some j \<and> from_peer source (map (forget now) ps ! j))"
proof -
  obtain qs free found where r: "foldl (scan_peer source now) (ps, None, None) [0..<8] = (qs, free, found)"
    by (cases "foldl (scan_peer source now) (ps, None, None) [0..<8]") auto
  note sp = scan_peers [OF _ r]
  have q: "qs = map (forget now) ps" using sp assms by (intro nth_equalityI) auto
  show thesis
  proof (rule that)
    show "foldl (scan_peer source now) (ps, None, None) [0..<8] = (map (forget now) ps, free, found)" using r q by simp
    show "free = None \<or> (\<exists>j < 8. free = Some j \<and> \<not> up_used (map (forget now) ps ! j))"
      using sp assms q by (cases free) auto
    show "(found = None \<and> (\<forall>j < 8. \<not> from_peer source (map (forget now) ps ! j))) \<or>
      (\<exists>j < 8. found = Some j \<and> from_peer source (map (forget now) ps ! j))"
      using sp assms q by (cases found) auto
  qed
qed

lemma forget_simps: "up_used (forget now q) = (up_used q \<and> \<not> peer_idle now q)" "up_used (forget now q) \<Longrightarrow> forget now q = q"
  "from_peer source (forget now q) \<Longrightarrow> forget now q = q" "forget now q = q \<or> forget now q = zero_peer"
  by (auto simp: forget_def from_peer_def)

lemma udp_inv_forget:
  assumes "udp_inv l"
  shows "udp_inv (l\<lparr>peers := map (forget now) (peers l)\<rparr>)"
proof -
  have "peer_ok (forget now q)" if "peer_ok q" for q
    using that by (auto simp: forget_def peer_ok_def zero_peer_def)
  moreover have "from_peer (up_address q) r" if "from_peer (up_address (forget now q)) (forget now r)" "up_used (forget now q)" for q r
    using that forget_simps by metis
  ultimately show ?thesis using assms by (auto simp: udp_inv_def forget_simps(1))
qed

lemma decode_checked:
  assumes "decode_datagram m data = Inr (tid, rtu)"
  shows "crc_ok rtu \<and> length rtu \<le> MODBUS_RTU_ADU_MAX"
proof (cases m)
  case True
  then show ?thesis using assms by (auto simp: decode_datagram_def crc_ok_def Let_def split: if_splits)
next
  case False
  then have "rtu = drop 6 data @ crc_trailer (modbus_crc16 (drop 6 data))" "length data \<le> 260"
    using assms by (auto simp: decode_datagram_def Let_def split: if_splits)
  then show ?thesis by (simp add: crc_ok_def crc_trailer_def crc_of_crc_trailer nth_append)
qed

lemma udp_inv_admit:
  assumes "udp_inv l" "k < 8" "up_used (peer_at l k)" "checked rtu"
  shows "udp_inv (snd (admit_request l k tid rtu now))"
proof -
  have "udp_inv (set_peer l k ((peer_at l k)\<lparr>up_tid := tid, up_rtu := rtu, up_pending := True, up_submitted := False,
    up_cached := False, up_response := [], up_admitted_at := now, up_last_seen := now\<rparr>))"
    by (rule udp_inv_set) (use assms in \<open>auto simp: peer_ok_def\<close>)
  then show ?thesis using assms(1) by (simp add: admit_request_def Let_def)
qed

lemma udp_inv_receive:
  assumes "udp_inv l"
  shows "udp_inv (snd (modbus_udp_listener_receive l source data now))"
proof (cases "ul_fd l < 0 \<or> sin_family source \<noteq> AF_INET")
  case True
  then show ?thesis using assms by (simp add: modbus_udp_listener_receive_def)
next
  case f: False
  show ?thesis
  proof (cases "decode_datagram (rtu_mode l) data")
    case (Inl crc)
    then show ?thesis using f assms by (simp add: modbus_udp_listener_receive_def Let_def)
  next
    case (Inr x)
    obtain tid rtu where x: "x = (tid, rtu)" by (cases x)
    show ?thesis
    proof (cases "request_valid rtu")
      case False
      then show ?thesis using f Inr x assms by (simp add: modbus_udp_listener_receive_def Let_def)
    next
      case True
      have c: "checked rtu" using True decode_checked [of "rtu_mode l" data tid rtu] Inr x by (simp add: checked_def)
      have len: "length (peers l) = 8" using assms by (simp add: udp_inv_def)
      obtain free found where s:
        "foldl (scan_peer source now) (peers l, None, None) [0..<8] = (map (forget now) (peers l), free, found)"
        "free = None \<or> (\<exists>j < 8. free = Some j \<and> \<not> up_used (map (forget now) (peers l) ! j))"
        "(found = None \<and> (\<forall>j < 8. \<not> from_peer source (map (forget now) (peers l) ! j))) \<or>
         (\<exists>j < 8. found = Some j \<and> from_peer source (map (forget now) (peers l) ! j))"
        by (rule scan_all [OF len])
      define l1 where "l1 = l\<lparr>ul_now := now, udp_stats := us_received_update increment (udp_stats l), peers := map (forget now) (peers l)\<rparr>"
      have i1: "udp_inv l1"
        using udp_inv_forget [of "l\<lparr>ul_now := now, udp_stats := us_received_update increment (udp_stats l)\<rparr>" now] assms
        by (simp add: l1_def)
      have p1: "peers l1 = map (forget now) (peers l)" by (simp add: l1_def)
      show ?thesis
      proof (cases found)
        case (Some k)
        then have "k < 8" "up_used (peer_at l1 k)" using s(3) p1 by (auto simp: from_peer_def)
        then have "udp_inv (snd (admit_request l1 k tid rtu now))" using udp_inv_admit i1 c by blast
        then show ?thesis using f Inr x True s(1) Some by (simp add: modbus_udp_listener_receive_def Let_def l1_def)
      next
        case None
        show ?thesis
        proof (cases free)
          case None
          then show ?thesis using f Inr x True s(1) \<open>found = None\<close> udp_inv_forget [of "l\<lparr>ul_now := now\<rparr>" now] assms
            by (simp add: modbus_udp_listener_receive_def Let_def)
        next
          case (Some k)
          define e where "e = ul_next_epoch l1"
          define l2 where "l2 = set_peer l1 k (zero_peer\<lparr>up_used := True, up_address := source, up_epoch := e\<rparr>)"
          have k: "k < 8" using s(2) Some by simp
          have "udp_inv l2" unfolding l2_def
            by (rule udp_inv_set [OF i1]) (use s(3) None p1 in \<open>auto simp: peer_ok_def zero_peer_def\<close>)
          moreover have "up_used (peer_at l2 k)" using k len p1 by (simp add: l2_def)
          ultimately have "udp_inv (snd (admit_request (l2\<lparr>ul_next_epoch := (if e + 1 = 0 then 1 else e + 1)\<rparr>) k tid rtu now))"
            using udp_inv_admit [of "l2\<lparr>ul_next_epoch := (if e + 1 = 0 then 1 else e + 1)\<rparr>" k rtu tid now] k c by simp
          moreover have "modbus_udp_listener_receive l source data now =
              admit_request (l2\<lparr>ul_next_epoch := (if e + 1 = 0 then 1 else e + 1)\<rparr>) k tid rtu now"
            using f Inr x True s(1) None Some by (simp add: modbus_udp_listener_receive_def Let_def l1_def l2_def e_def)
          ultimately show ?thesis by simp
        qed
      qed
    qed
  qed
qed

section \<open>Dispatching keeps the invariant\<close>

text \<open>What one pass offers to the port: nothing, or one checked request of a peer that waits for its answer.\<close>

definition offers_checked ::
  "'n modbus_udp_listener \<Rightarrow> ('b, 'c) port_runtime \<Rightarrow> tick \<Rightarrow> ('b, 'c) port_runtime \<Rightarrow> bool" where
  "offers_checked l p now p' \<longleftrightarrow> p' = p \<or>
     (\<exists>k < MODBUS_UDP_PEERS. \<exists>meta queue_time. up_pending (peer_at l k) \<and> checked (up_rtu (peer_at l k)) \<and>
        queue_time \<le> MODBUS_UDP_QUEUE_TIMEOUT \<and>
        p' = snd (snd (port_runtime_submit_operation p (Some (up_rtu (peer_at l k))) MODBUS_OWNER_UDP (of_nat k)
               (Some meta) (Some framed_operation) now queue_time MODBUS_UDP_RESPONSE_TIMEOUT)))"

lemma dispatch_peers_inv:
  assumes "udp_inv l" "\<forall>k \<in> set ks. k < 8" "dispatch_peers ks l p now = (l', p')"
  shows "udp_inv l' \<and> offers_checked l' p now p'"
  using assms
proof (induction ks arbitrary: l)
  case Nil
  then show ?case by (simp add: offers_checked_def)
next
  case (Cons k ks)
  have k: "k < 8" "\<forall>k \<in> set ks. k < 8" using Cons.prems(2) by auto
  have ok: "peer_ok (peer_at l k)" and len: "length (peers l) = 8" using Cons.prems(1) k(1) by (simp_all add: udp_inv_def)
  consider (skip) "\<not> up_pending (peer_at l k) \<or> up_submitted (peer_at l k)"
    | (late) "up_pending (peer_at l k)" "\<not> up_submitted (peer_at l k)"
        "core_elapsed (up_admitted_at (peer_at l k)) now \<ge> MODBUS_UDP_QUEUE_TIMEOUT"
    | (offer) "up_pending (peer_at l k)" "\<not> up_submitted (peer_at l k)"
        "\<not> core_elapsed (up_admitted_at (peer_at l k)) now \<ge> MODBUS_UDP_QUEUE_TIMEOUT" by blast
  then show ?case
  proof cases
    case skip
    then have "dispatch_peers ks l p now = (l', p')" using Cons.prems(3) by (auto simp: Let_def)
    then show ?thesis using Cons.IH [OF Cons.prems(1) k(2)] by blast
  next
    case late
    then have "dispatch_peers ks (udp_finish (set_peer (inc us_timeouts_update l) k
        ((peer_at l k)\<lparr>up_response := (if rtu_mode l then [] else queue_exception (peer_at l k))\<rparr>)) k) p now = (l', p')"
      using Cons.prems(3) by (simp add: Let_def)
    moreover have "udp_inv (udp_finish (set_peer (inc us_timeouts_update l) k
        ((peer_at l k)\<lparr>up_response := (if rtu_mode l then [] else queue_exception (peer_at l k))\<rparr>)) k)"
      using udp_inv_respond [of "inc us_timeouts_update l" k] Cons.prems(1) k(1) by simp
    ultimately show ?thesis using Cons.IH k(2) by blast
  next
    case offer
    define meta where "meta = udp_metadata (peer_at l k)"
    define qt where "qt = MODBUS_UDP_QUEUE_TIMEOUT - core_elapsed (up_admitted_at (peer_at l k)) now"
    obtain result tid p1 where r: "port_runtime_submit_operation p (Some (up_rtu (peer_at l k))) MODBUS_OWNER_UDP (of_nat k)
        (Some meta) (Some framed_operation) now qt MODBUS_UDP_RESPONSE_TIMEOUT = (result, tid, p1)" by (rule prod_cases3)
    define q where "q = (case tid of None \<Rightarrow> peer_at l k | Some i \<Rightarrow> (peer_at l k)\<lparr>up_transaction_id := i\<rparr>)"
    define q' where "q' = (if result = CORE_ACCEPTED then q\<lparr>up_submitted := True\<rparr> else q)"
    have e: "l' = (set_peer l k q')\<lparr>next_peer := (k + 1) mod MODBUS_UDP_PEERS\<rparr>" "p' = p1"
      using Cons.prems(3) offer r
      by (cases "result = CORE_ACCEPTED"; simp add: Let_def meta_def qt_def q_def q'_def)+
    have q: "up_rtu q' = up_rtu (peer_at l k)" "up_pending q'" "up_used q' = up_used (peer_at l k)"
      "up_address q' = up_address (peer_at l k)" "up_cached q' = up_cached (peer_at l k)"
      "up_last_seen q' = up_last_seen (peer_at l k)" "up_completed_at q' = up_completed_at (peer_at l k)"
      using offer(1) by (simp_all add: q'_def q_def split: option.split)
    have "udp_inv (set_peer l k q')"
      by (rule udp_inv_set [OF Cons.prems(1)]) (use ok offer q in \<open>auto simp: peer_ok_def\<close>)
    then have "udp_inv l'" by (simp add: e udp_inv_def)
    moreover have "qt \<le> MODBUS_UDP_QUEUE_TIMEOUT"
      using offer(3) unfolding qt_def by (simp add: word_le_nat_alt word_less_nat_alt unat_sub)
    moreover have "peer_at l' k = q'" using k(1) len by (simp add: e)
    moreover have "checked (up_rtu (peer_at l k))" using ok offer(1) by (simp add: peer_ok_def)
    ultimately show ?thesis
      unfolding offers_checked_def using r k(1) q e(2) by (metis snd_conv)
  qed
qed

lemma forget_idle_map: "forget_idle l now = l\<lparr>peers := map (forget now) (peers l)\<rparr>"
  by (simp add: forget_idle_def forget_def [abs_def])

lemma udp_inv_receive_loop: "udp_inv l \<Longrightarrow> udp_inv (receive_loop n l now)"
  by (induction n arbitrary: l) (simp_all add: Let_def split_beta udp_inv_receive)

lemma step_io_inv:
  assumes "udp_inv l" "modbus_udp_listener_step_io l p now = (l', p')"
  shows "udp_inv l' \<and> offers_checked l' p now p'"
proof (cases "ul_fd l < 0")
  case True
  then show ?thesis using assms by (simp add: modbus_udp_listener_step_io_def offers_checked_def)
next
  case False
  define l1 where "l1 = receive_loop MODBUS_UDP_STEP_MAX (l\<lparr>ul_now := now\<rparr>) now"
  obtain l2 p2 where d: "dispatch_one l1 p now = (l2, p2)" by (cases "dispatch_one l1 p now")
  have l': "l' = forget_idle l2 now" "p' = p2"
    using assms(2) False d by (simp_all add: modbus_udp_listener_step_io_def Let_def l1_def)
  have "udp_inv l1" using assms(1) by (simp add: l1_def udp_inv_receive_loop)
  moreover have "\<forall>k \<in> set (map (\<lambda>i. (next_peer l1 + i) mod MODBUS_UDP_PEERS) [0..<MODBUS_UDP_PEERS]). k < 8" by auto
  ultimately have i: "udp_inv l2" "offers_checked l2 p now p2"
    using dispatch_peers_inv d unfolding dispatch_one_def by blast+
  have "peer_at l' k = peer_at l2 k" if "up_pending (peer_at l2 k)" "k < 8" for k
    using that i(1) by (simp add: l' forget_idle_map forget_def peer_idle_def udp_inv_def)
  then have "offers_checked l' p now p'" using i(2) unfolding offers_checked_def l'(2) by metis
  moreover have "udp_inv l'" using udp_inv_forget i(1) by (simp add: l' forget_idle_map)
  ultimately show ?thesis by simp
qed

lemma udp_inv_no_peers: "next_peer l < 8 \<Longrightarrow> udp_inv (l\<lparr>peers := replicate 8 zero_peer\<rparr>)"
  by (auto simp: udp_inv_def peer_ok_def)

lemma udp_inv_init: "udp_inv (modbus_udp_listener_init sk n rtu)"
  using udp_inv_no_peers [of "modbus_udp_listener_init sk n rtu"] by (simp add: modbus_udp_listener_init_def)

lemma udp_inv_close: "udp_inv l \<Longrightarrow> udp_inv (modbus_udp_listener_close l)"
  using udp_inv_no_peers [of "modbus_udp_listener_close l"]
  by (simp add: modbus_udp_listener_close_def Let_def udp_inv_def)

lemma udp_inv_open: "udp_inv l \<Longrightarrow> udp_inv (snd (modbus_udp_listener_open l address port))"
  by (simp add: modbus_udp_listener_open_def Let_def split_beta)

section \<open>Runs\<close>

text \<open>The calls that change a listener: the gateway's steps, with a port and a time, and the port's answers.\<close>

datatype ('b, 'c) udp_op =
  Udp_Open "string option" u16
| Udp_Close
| Udp_Receive sockaddr_in "u8 list" tick
| Udp_Step "('b, 'c) port_runtime" tick
| Udp_Answer u32 core_transaction core_transaction_status "u8 list"

primrec udp_exec :: "'n modbus_udp_listener \<Rightarrow> ('b, 'c) udp_op \<Rightarrow> 'n modbus_udp_listener" where
  "udp_exec l (Udp_Open address port) = snd (modbus_udp_listener_open l address port)"
| "udp_exec l Udp_Close = modbus_udp_listener_close l"
| "udp_exec l (Udp_Receive source data now) = snd (modbus_udp_listener_receive l source data now)"
| "udp_exec l (Udp_Step p now) = fst (modbus_udp_listener_step_io l p now)"
| "udp_exec l (Udp_Answer g t status response) = udp_completion g l t status response"

definition udp_run ::
  "'n net_calls \<Rightarrow> 'n \<Rightarrow> bool \<Rightarrow> ('b, 'c) udp_op list \<Rightarrow> 'n modbus_udp_listener" where
  "udp_run sk n rtu ops = foldl udp_exec (modbus_udp_listener_init sk n rtu) ops"

lemma udp_exec_inv: "udp_inv l \<Longrightarrow> udp_inv (udp_exec l op)"
  by (cases op) (simp_all add: udp_inv_open udp_inv_close udp_inv_receive udp_inv_completion step_io_inv [OF _ surjective_pairing])

lemma udp_run_inv: "udp_inv (udp_run sk n rtu ops)"
  unfolding udp_run_def by (induction ops rule: rev_induct) (simp_all add: udp_inv_init udp_exec_inv)

text \<open>
  C24. Whatever datagrams, answers and time the listener has seen, a pass of it leaves the port as it is or offers it one
  request: the request of a peer that still waits, with a function code, address range and length that the check
  accepts, a correct checksum, at most 256 bytes, and no more queue time than the listener allows.
\<close>

theorem only_checked_requests_reach_port:
  "offers_checked (fst (modbus_udp_listener_step_io (udp_run sk n rtu ops) p now)) p now
     (snd (modbus_udp_listener_step_io (udp_run sk n rtu ops) p now))"
  by (rule step_io_inv [OF udp_run_inv surjective_pairing, THEN conjunct2])

section \<open>Repeated requests\<close>

lemma idle_not_repeated:
  assumes "peer_ok q" "repeated m now tid q"
  shows "\<not> peer_idle now q"
proof (cases "up_pending q")
  case False
  then have "up_last_seen q = up_completed_at q" "core_elapsed (up_completed_at q) now < 5000"
    using assms by (auto simp: repeated_def peer_ok_def)
  then show ?thesis by (auto simp: peer_idle_def word_le_nat_alt word_less_nat_alt)
qed (simp add: peer_idle_def)

lemma admit_repeated:
  assumes "repeated (rtu_mode l) now tid (peer_at l k)"
  shows "fst (admit_request l k tid rtu now) = 1" "peers (snd (admit_request l k tid rtu now)) = peers l"
  using assms by (simp_all add: admit_request_def Let_def)

lemma receive_known:
  assumes inv: "udp_inv l" and "ul_fd l \<ge> 0" "sin_family source = AF_INET" "decode_datagram (rtu_mode l) data = Inr (tid, rtu)"
    "request_valid rtu" "k < 8" "from_peer source (peer_at l k)" "\<not> peer_idle now (peer_at l k)"
  shows "modbus_udp_listener_receive l source data now =
    admit_request ((inc us_received_update (l\<lparr>ul_now := now\<rparr>))\<lparr>peers := map (forget now) (peers l)\<rparr>) k tid rtu now"
proof -
  have len: "length (peers l) = 8" using inv by (simp add: udp_inv_def)
  obtain free found where s:
    "foldl (scan_peer source now) (peers l, None, None) [0..<8] = (map (forget now) (peers l), free, found)"
    "free = None \<or> (\<exists>j < 8. free = Some j \<and> \<not> up_used (map (forget now) (peers l) ! j))"
    "(found = None \<and> (\<forall>j < 8. \<not> from_peer source (map (forget now) (peers l) ! j))) \<or>
     (\<exists>j < 8. found = Some j \<and> from_peer source (map (forget now) (peers l) ! j))"
    by (rule scan_all [OF len])
  have "map (forget now) (peers l) ! k = peer_at l k" using assms(6,8) len by (simp add: forget_def)
  then obtain j where j: "j < 8" "found = Some j" "from_peer source (map (forget now) (peers l) ! j)"
    using s(3) assms(6,7) by metis
  have "from_peer source (peer_at l j)" using j len forget_simps(3) by (metis nth_map)
  then have "from_peer (up_address (peer_at l j)) (peer_at l k)" "up_used (peer_at l j)" "up_used (peer_at l k)"
    using assms(7) by (auto simp: from_peer_def)
  then have "j = k" using inv assms(6) j(1) by (simp add: udp_inv_def)
  then show ?thesis using assms(2-5) s(1) j(2) by (simp add: modbus_udp_listener_receive_def Let_def)
qed

text \<open>
  A request is executed once: when a peer repeats a request, or sends another one, while its request waits for the
  answer, or repeats over MBAP the transaction id of an answer less than five seconds old, then the listener says so with
  1 and the peer's request, its port transaction and its answer stay as they are. No other peer changes but
  for being forgotten after thirty idle seconds.
\<close>

theorem repeated_request_runs_once:
  assumes "l = udp_run sk n m ops" "ul_fd l \<ge> 0" "sin_family source = AF_INET"
    "decode_datagram (rtu_mode l) data = Inr (tid, rtu)" "request_valid rtu"
    "k < MODBUS_UDP_PEERS" "from_peer source (peer_at l k)" "repeated (rtu_mode l) now tid (peer_at l k)"
    "modbus_udp_listener_receive l source data now = (result, l')"
  shows "result = 1 \<and> peer_at l' k = peer_at l k \<and> peers l' = map (forget now) (peers l)"
proof -
  have inv: "udp_inv l" using assms(1) udp_run_inv by simp
  have idle: "\<not> peer_idle now (peer_at l k)" using idle_not_repeated [OF udp_inv_peer [OF inv assms(6)] assms(8)] .
  define l1 where "l1 = (inc us_received_update (l\<lparr>ul_now := now\<rparr>))\<lparr>peers := map (forget now) (peers l)\<rparr>"
  have r: "admit_request l1 k tid rtu now = (result, l')"
    using receive_known [OF inv assms(2-7) idle] assms(9) by (simp add: l1_def)
  have k: "peer_at l1 k = peer_at l k"
    using assms(6) inv idle by (simp add: l1_def udp_inv_def forget_def)
  have "repeated (rtu_mode l1) now tid (peer_at l1 k)" using assms(8) k by (simp add: l1_def)
  note admit_repeated [OF this, of rtu]
  then show ?thesis using r k by (simp add: l1_def)
qed

text \<open>A peer that reads two registers.\<close>

definition reader :: sockaddr_in where
  "reader = \<lparr>sin_family = AF_INET, sin_port = 4000, sin_addr = 0xC0A80105\<rparr>"

definition read_datagram :: "u8 list" where "read_datagram = [0, 7, 0, 0, 0, 6, 1, 3, 0, 0, 0, 2]"

definition read_frame :: "u8 list" where "read_frame = [1, 3, 0, 0, 0, 2] @ crc_trailer (modbus_crc16 [1, 3, 0, 0, 0, 2])"

definition asked :: "(unit, unit) udp_op list" where
  "asked = [Udp_Open (Some ''0.0.0.0'') 502, Udp_Receive reader read_datagram 10]"

lemma read_decodes: "decode_datagram False read_datagram = Inr (7, read_frame)" "request_valid read_frame"
  by (simp_all add: decode_datagram_def read_datagram_def read_frame_def be16_def Let_def)
    (simp add: request_valid_def crc_trailer_def be16_def Let_def)

lemma asked_state:
  "ul_fd (udp_run idle_net () False asked) = 3 \<and> \<not> rtu_mode (udp_run idle_net () False asked) \<and>
   up_address (peer_at (udp_run idle_net () False asked) 0) = reader \<and>
   up_used (peer_at (udp_run idle_net () False asked) 0) \<and> up_pending (peer_at (udp_run idle_net () False asked) 0)"
  by (simp add: udp_run_def asked_def modbus_udp_listener_init_def modbus_udp_listener_open_def endpoint_def nonblocking_def
      idle_net_def Let_def modbus_udp_listener_receive_def read_decodes reader_def scan_peer_def peer_idle_def admit_request_def
      repeated_def set_peer_def upt_rec)

theorem repeated_request_runs_once_witness:
  "let l = udp_run idle_net () False asked; r = modbus_udp_listener_receive l reader read_datagram 20 in
   fst r = 1 \<and> peer_at (snd r) 0 = peer_at l 0 \<and> peers (snd r) = map (forget 20) (peers l)"
  unfolding Let_def
  by (rule repeated_request_runs_once [OF refl _ _ _ _ _ _ _ surjective_pairing])
    (use asked_state read_decodes in \<open>simp_all add: from_peer_def repeated_def reader_def\<close>)

end
