(* ===== verification/Dhcp_Client.thy ===== *)
theory Dhcp_Client
  imports Network_Settings
begin

text \<open>
  The DHCP client of \<open>src/network/gateway_dhcp_client.c\<close>: its state machine, the packets it builds and the replies
  it accepts. A packet with its length is a list of bytes; a \<open>char[16]\<close> field is the list of its characters.
\<close>

record gateway_dhcp_lease =
  dl_address :: string
  dl_netmask :: string
  dl_broadcast :: string
  dl_gateway :: string
  dl_dns :: "string list"
  dl_lifetime :: u32

datatype gateway_dhcp_state =
  GATEWAY_DHCP_OFF | GATEWAY_DHCP_SELECTING | GATEWAY_DHCP_REQUESTING | GATEWAY_DHCP_PROBING | GATEWAY_DHCP_BOUND
| GATEWAY_DHCP_RENEWING | GATEWAY_DHCP_REBINDING | GATEWAY_DHCP_BACKOFF

record gateway_dhcp_client =
  dh_state :: gateway_dhcp_state
  dh_lease :: gateway_dhcp_lease
  dh_mac :: "u8 list"
  dh_xid :: u32
  dh_server :: u32
  dh_requested_at :: tick
  dh_have_request :: bool
  dh_started :: tick
  dh_renew_at :: tick
  dh_rebind_at :: tick
  dh_expires_at :: tick
  dh_next_send :: tick
  dh_retries :: nat
  dh_send_type :: nat
  dh_valid :: bool
  dh_changed :: bool
  dh_probes :: nat
  dh_error :: nat

section \<open>Bytes and times\<close>

definition get32 :: "u8 list \<Rightarrow> u32" where
  "get32 p = push_bit 24 (ucast (p ! 0)) OR push_bit 16 (ucast (p ! 1)) OR push_bit 8 (ucast (p ! 2)) OR ucast (p ! 3)"

definition put32 :: "u32 \<Rightarrow> u8 list" where
  "put32 n = [ucast (drop_bit 24 n), ucast (drop_bit 16 n), ucast (drop_bit 8 n), ucast n]"

text \<open>\<open>(int32_t)(now - when) >= 0\<close>\<close>

definition due :: "tick \<Rightarrow> tick \<Rightarrow> bool" where
  "due now t \<longleftrightarrow> now - t < 0x80000000"

section \<open>The state machine\<close>

definition zero_lease :: gateway_dhcp_lease where
  "zero_lease = \<lparr>dl_address = zero_text, dl_netmask = zero_text, dl_broadcast = zero_text, dl_gateway = zero_text,
     dl_dns = [zero_text, zero_text], dl_lifetime = 0\<rparr>"

definition invalidate :: "gateway_dhcp_client \<Rightarrow> gateway_dhcp_client" where
  "invalidate d = d\<lparr>dh_changed := dh_valid d \<or> dh_changed d, dh_valid := False, dh_have_request := False, dh_lease := zero_lease\<rparr>"

definition gateway_dhcp_start :: "u8 list \<Rightarrow> u32 \<Rightarrow> tick \<Rightarrow> gateway_dhcp_client" where
  "gateway_dhcp_start mac xid now = \<lparr>dh_state = GATEWAY_DHCP_SELECTING, dh_lease = zero_lease, dh_mac = mac,
     dh_xid = (if xid \<noteq> 0 then xid else 1), dh_server = 0, dh_requested_at = 0, dh_have_request = False,
     dh_started = now, dh_renew_at = 0, dh_rebind_at = 0, dh_expires_at = 0, dh_next_send = now, dh_retries = 0,
     dh_send_type = 0, dh_valid = False, dh_changed = False, dh_probes = 0, dh_error = 0\<rparr>"

definition gateway_dhcp_stop :: "gateway_dhcp_client \<Rightarrow> gateway_dhcp_client" where
  "gateway_dhcp_stop d = (invalidate d)\<lparr>dh_state := GATEWAY_DHCP_OFF, dh_send_type := 0, dh_xid := dh_xid d + 1\<rparr>"

definition gateway_dhcp_conflict :: "gateway_dhcp_client \<Rightarrow> tick \<Rightarrow> gateway_dhcp_client" where
  "gateway_dhcp_conflict d now = d\<lparr>dh_valid := False, dh_changed := True, dh_error := 2, dh_send_type := 4,
     dh_state := GATEWAY_DHCP_BACKOFF, dh_next_send := now + 10000\<rparr>"

text \<open>Starting over with a new transaction.\<close>

definition restart :: "gateway_dhcp_client \<Rightarrow> tick \<Rightarrow> gateway_dhcp_client" where
  "restart d now = (invalidate d)\<lparr>dh_state := GATEWAY_DHCP_SELECTING, dh_started := now, dh_retries := 0, dh_xid := dh_xid d + 1\<rparr>"

text \<open>The end of \<open>step\<close> for a client that is not BACKOFF: renewing, giving up, and sending when it is time.\<close>

definition step_timers :: "gateway_dhcp_client \<Rightarrow> tick \<Rightarrow> gateway_dhcp_client" where
  "step_timers d now =
     (if dh_valid d \<and> due now (dh_rebind_at d) \<and> dh_state d \<noteq> GATEWAY_DHCP_REBINDING then
        (if dh_state d = GATEWAY_DHCP_BOUND
         then d\<lparr>dh_xid := dh_xid d + 1, dh_started := now, dh_have_request := False\<rparr> else d)
          \<lparr>dh_state := GATEWAY_DHCP_REBINDING, dh_next_send := now, dh_retries := 0\<rparr>
      else if dh_state d = GATEWAY_DHCP_BOUND \<and> due now (dh_renew_at d) then
        d\<lparr>dh_state := GATEWAY_DHCP_RENEWING, dh_started := now, dh_have_request := False, dh_next_send := now,
          dh_retries := 0, dh_xid := dh_xid d + 1\<rparr>
      else d)"

definition step_send :: "gateway_dhcp_client \<Rightarrow> tick \<Rightarrow> gateway_dhcp_client" where
  "step_send d now =
     (if \<not> dh_valid d \<and> now - dh_started d \<ge> 30000 then
        d\<lparr>dh_state := GATEWAY_DHCP_BACKOFF, dh_next_send := now + 10000, dh_send_type := 0, dh_error := 1\<rparr>
      else if due now (dh_next_send d) then
        let delay = (if dh_retries d < 4 then push_bit (dh_retries d) 1000 else 16000) in
        d\<lparr>dh_send_type := (if dh_state d = GATEWAY_DHCP_SELECTING then 1 else 3),
          dh_next_send := now + delay + (dh_xid d AND 255),
          dh_retries := (if dh_retries d < 4 then dh_retries d + 1 else dh_retries d)\<rparr>
      else d)"

definition gateway_dhcp_step :: "gateway_dhcp_client \<Rightarrow> tick \<Rightarrow> bool \<Rightarrow> gateway_dhcp_client" where
  "gateway_dhcp_step d now link =
     (if dh_state d = GATEWAY_DHCP_OFF then d
      else if \<not> link then
        (invalidate d)\<lparr>dh_state := GATEWAY_DHCP_BACKOFF, dh_next_send := now + 1000, dh_send_type := 0\<rparr>
      else
        let d = (if (dh_valid d \<or> dh_state d = GATEWAY_DHCP_PROBING) \<and> due now (dh_expires_at d)
                 then (restart d now)\<lparr>dh_next_send := now, dh_error := 3\<rparr> else d) in
        if dh_state d = GATEWAY_DHCP_BACKOFF \<and> \<not> due now (dh_next_send d) then d
        else
          let d = (if dh_state d = GATEWAY_DHCP_BACKOFF then restart d now else d) in
          if dh_state d = GATEWAY_DHCP_PROBING then d
          else
            let d = step_timers d now in
            if dh_state d = GATEWAY_DHCP_BOUND then d else step_send d now)"

section \<open>The options of a reply\<close>

record dhcp_options =
  do_lease :: gateway_dhcp_lease
  do_seen :: u32
  do_server :: u32
  do_lifetime :: u32
  do_t1 :: u32
  do_t2 :: u32
  do_type :: u8

text \<open>One option: its bit in \<open>seen\<close> and what it sets, or nothing when the reply is refused.\<close>

definition read_option :: "u8 \<Rightarrow> u8 list \<Rightarrow> dhcp_options \<Rightarrow> (u32 \<times> dhcp_options) option" where
  "read_option option v o' =
     (let n = length v; l = do_lease o' in
      if option = 53 then (if n \<noteq> 1 then None else Some (1, o'\<lparr>do_type := v ! 0\<rparr>))
      else if option = 54 then (if n \<noteq> 4 then None else Some (2, o'\<lparr>do_server := get32 v\<rparr>))
      else if option = 1 then
        (if n \<noteq> 4 then None else Some (4, o'\<lparr>do_lease := l\<lparr>dl_netmask := gateway_ipv4_format (get32 v) (dl_netmask l)\<rparr>\<rparr>))
      else if option = 3 then
        (if n = 0 \<or> n mod 4 \<noteq> 0 then None
         else Some (8, o'\<lparr>do_lease := l\<lparr>dl_gateway := gateway_ipv4_format (get32 v) (dl_gateway l)\<rparr>\<rparr>))
      else if option = 6 then
        (if n = 0 \<or> n mod 4 \<noteq> 0 then None
         else Some (16, o'\<lparr>do_lease := l\<lparr>dl_dns := [gateway_ipv4_format (get32 v) (dl_dns l ! 0),
                if n \<ge> 8 then gateway_ipv4_format (get32 (drop 4 v)) (dl_dns l ! 1) else dl_dns l ! 1]\<rparr>\<rparr>))
      else if option = 51 then (if n \<noteq> 4 then None else Some (32, o'\<lparr>do_lifetime := get32 v\<rparr>))
      else if option = 58 then (if n \<noteq> 4 then None else Some (64, o'\<lparr>do_t1 := get32 v\<rparr>))
      else if option = 59 then (if n \<noteq> 4 then None else Some (128, o'\<lparr>do_t2 := get32 v\<rparr>))
      else if option = 33 \<or> option = 121 \<or> option = 249 \<or> option = 52 then None
      else Some (0, o'))"

text \<open>The loop over the options; the flag tells whether the end option was there.\<close>

function read_options :: "u8 list \<Rightarrow> dhcp_options \<Rightarrow> (dhcp_options \<times> bool) option" where
  "read_options [] o' = Some (o', False)"
| "read_options (option # rest) o' =
     (if option = 0 then read_options rest o'
      else if option = 255 then Some (o', True)
      else case rest of [] \<Rightarrow> None
      | len # rest \<Rightarrow>
          if unat len > length rest then None
          else case read_option option (take (unat len) rest) o' of None \<Rightarrow> None
          | Some (b, o') \<Rightarrow>
              if do_seen o' AND b \<noteq> 0 then None
              else read_options (drop (unat len) rest) (o'\<lparr>do_seen := do_seen o' OR b\<rparr>))"
  by pat_completeness auto
termination by (relation "measure (\<lambda>(p, o'). length p)") auto

section \<open>Accepting a reply\<close>

definition zero_options :: dhcp_options where
  "zero_options = \<lparr>do_lease = zero_lease, do_seen = 0, do_server = 0, do_lifetime = 0, do_t1 = 0, do_t2 = 0, do_type = 0\<rparr>"

definition expects_reply :: "gateway_dhcp_state \<Rightarrow> bool" where
  "expects_reply s \<longleftrightarrow> s = GATEWAY_DHCP_SELECTING \<or> s = GATEWAY_DHCP_REQUESTING \<or> s = GATEWAY_DHCP_RENEWING \<or>
     s = GATEWAY_DHCP_REBINDING"

definition reply_header :: "gateway_dhcp_client \<Rightarrow> u8 list \<Rightarrow> bool" where
  "reply_header d p \<longleftrightarrow> length p \<ge> 241 \<and> length p \<le> 1500 \<and> p ! 0 = 2 \<and> p ! 1 = 1 \<and> p ! 2 = 6 \<and>
     get32 (drop 4 p) = dh_xid d \<and> take 6 (drop 28 p) = dh_mac d \<and> get32 (drop 236 p) = 0x63825363"

text \<open>Lease time, T1 and T2 in seconds, bounded and in order.\<close>

definition lease_times :: "dhcp_options \<Rightarrow> (u32 \<times> u32 \<times> u32) option" where
  "lease_times o' =
     (let lifetime = (if do_lifetime o' > 1728000 then 1728000 else do_lifetime o');
          t1 = (if do_t1 o' = 0 \<or> do_t1 o' \<ge> lifetime then lifetime div 2 else do_t1 o');
          t2 = (if do_t2 o' = 0 \<or> do_t2 o' \<ge> lifetime then lifetime * 7 div 8 else do_t2 o')
      in if t1 = 0 \<or> t1 \<ge> t2 \<or> t2 \<ge> lifetime then None else Some (lifetime, t1, t2))"

definition strcpy16 :: "string \<Rightarrow> string" where
  "strcpy16 s = c_string s @ replicate (GATEWAY_IPV4_TEXT_MAX - length (c_string s)) NUL"

text \<open>The settings a lease is checked as: a static LAN 1, and LAN 2 under DHCP.\<close>

definition lease_settings :: "gateway_dhcp_lease \<Rightarrow> gateway_network_settings" where
  "lease_settings l = gateway_network_settings_init\<lparr>
     lan := [\<lparr>lan_mode = GATEWAY_LAN_STATIC, lan_address = strcpy16 (dl_address l), lan_netmask = strcpy16 (dl_netmask l),
              lan_gateway = strcpy16 (dl_gateway l)\<rparr>,
             \<lparr>lan_mode = GATEWAY_LAN_DHCP_CLIENT, lan_address = zero_text, lan_netmask = zero_text, lan_gateway = zero_text\<rparr>],
     ns_dns := dl_dns l\<rparr>"

text \<open>What an acceptable offer or acknowledgement does to the client.\<close>

definition take_lease ::
  "gateway_dhcp_client \<Rightarrow> gateway_dhcp_lease \<Rightarrow> u32 \<Rightarrow> tick \<Rightarrow> u32 \<times> u32 \<times> u32 \<Rightarrow> tick \<Rightarrow> int \<times> gateway_dhcp_client"
where
  "take_lease d l server base ts now =
     (case ts of (lifetime, t1, t2) \<Rightarrow>
        if dh_state d = GATEWAY_DHCP_SELECTING then
          (0, d\<lparr>dh_lease := l, dh_server := server, dh_state := GATEWAY_DHCP_REQUESTING, dh_have_request := False,
                dh_send_type := 3, dh_next_send := now + 1000, dh_retries := 0\<rparr>)
        else
          let d = (if dh_valid d \<and> c_string (dl_address (dh_lease d)) = c_string (dl_address l) \<and>
                      c_string (dl_netmask (dh_lease d)) = c_string (dl_netmask l)
                   then d\<lparr>dh_state := GATEWAY_DHCP_BOUND\<rparr>
                   else d\<lparr>dh_state := GATEWAY_DHCP_PROBING, dh_valid := False, dh_probes := 0, dh_next_send := now\<rparr>)
          in (1, d\<lparr>dh_changed := True, dh_lease := l, dh_server := server, dh_send_type := 0, dh_error := 0,
                   dh_renew_at := base + t1 * 1000, dh_rebind_at := base + t2 * 1000,
                   dh_expires_at := base + lifetime * 1000\<rparr>))"

text \<open>The checks after the options; \<open>ip\<close> is the offered address.\<close>

definition accept_reply ::
  "gateway_dhcp_client \<Rightarrow> dhcp_options \<Rightarrow> bool \<Rightarrow> u32 \<Rightarrow> tick \<Rightarrow> int \<times> gateway_dhcp_client" where
  "accept_reply d o' ended ip now =
     (let server = do_server o'; selecting = (dh_state d = GATEWAY_DHCP_SELECTING) in
      if \<not> ended \<or> do_seen o' AND 3 \<noteq> 3 \<or> server = 0 \<or> drop_bit 24 server \<ge> 224 \<or> drop_bit 24 server = 127 then (- 1, d)
      else if (dh_state d = GATEWAY_DHCP_REQUESTING \<or> dh_state d = GATEWAY_DHCP_RENEWING) \<and> server \<noteq> dh_server d then (- 1, d)
      else if do_type o' = 6 \<and> \<not> selecting then
        (0, (invalidate d)\<lparr>dh_state := GATEWAY_DHCP_BACKOFF, dh_next_send := now + 1000, dh_send_type := 0, dh_error := 4\<rparr>)
      else if (selecting \<and> do_type o' \<noteq> 2) \<or> (\<not> selecting \<and> do_type o' \<noteq> 5) then (- 1, d)
      else if do_seen o' AND 36 \<noteq> 36 \<or> do_lifetime o' < 4 \<or> ip = 0 then (- 1, d)
      else
        case lease_times o' of None \<Rightarrow> (- 1, d)
        | Some (lifetime, t1, t2) \<Rightarrow>
            let base = (if dh_have_request d then dh_requested_at d else now);
                l = (do_lease o')\<lparr>dl_address := gateway_ipv4_format ip (dl_address (do_lease o')), dl_lifetime := lifetime\<rparr> in
            if now - base \<ge> lifetime * 1000 then (- 1, d)
            else if dh_state d = GATEWAY_DHCP_REQUESTING \<and> c_string (dl_address l) \<noteq> c_string (dl_address (dh_lease d))
            then (- 1, d)
            else if fst (gateway_network_settings_validate (Some (lease_settings l))) \<noteq> GATEWAY_NETWORK_SETTINGS_OK then (- 1, d)
            else
              let netmask = (case gateway_ipv4_parse (dl_netmask l) of Some m \<Rightarrow> m | None \<Rightarrow> 0);
                  l = l\<lparr>dl_broadcast := gateway_ipv4_format (ip OR NOT netmask) (dl_broadcast l)\<rparr>
              in take_lease d l server base (lifetime, t1, t2) now)"

definition gateway_dhcp_receive ::
  "gateway_dhcp_client \<Rightarrow> u8 list \<Rightarrow> tick \<Rightarrow> int \<times> gateway_dhcp_client" where
  "gateway_dhcp_receive d p now =
     (if \<not> reply_header d p \<or> \<not> expects_reply (dh_state d) then (- 1, d)
      else if dh_valid d \<and> due now (dh_expires_at d) then (- 1, gateway_dhcp_step d now True)
      else case read_options (drop 240 p) zero_options of None \<Rightarrow> (- 1, d)
      | Some (o', ended) \<Rightarrow> accept_reply d o' ended (get32 (drop 16 p)) now)"

definition gateway_dhcp_probed :: "gateway_dhcp_client \<Rightarrow> tick \<Rightarrow> int \<times> gateway_dhcp_client" where
  "gateway_dhcp_probed d now =
     (if dh_state d \<noteq> GATEWAY_DHCP_PROBING then (- 1, d)
      else if due now (dh_expires_at d) then (- 1, gateway_dhcp_step d now True)
      else (0, d\<lparr>dh_state := GATEWAY_DHCP_BOUND, dh_valid := True, dh_changed := True\<rparr>))"

section \<open>The packets of the client\<close>

definition lease_address :: "gateway_dhcp_client \<Rightarrow> u32" where
  "lease_address d = (case gateway_ipv4_parse (dl_address (dh_lease d)) of Some a \<Rightarrow> a | None \<Rightarrow> 0)"

definition packet_bytes :: "gateway_dhcp_client \<Rightarrow> tick \<Rightarrow> u8 list" where
  "packet_bytes d now =
     (let typ = dh_send_type d; seconds = (now - dh_started d) div 1000;
          seconds = (if seconds > 65535 then 65535 else seconds);
          header = [1, 1, 6, 0] @ put32 (dh_xid d) @
            [ucast (drop_bit 8 seconds), ucast seconds, if dh_valid d then 0 else 128, 0] @
            (if dh_valid d then put32 (lease_address d) else replicate 4 0) @ replicate 12 0 @
            dh_mac d @ replicate 10 0 @ replicate 192 0 @ put32 0x63825363;
          options = [53, 1, of_nat typ] @ [61, 7, 1] @ dh_mac d @
            (if typ = 3 \<or> typ = 4 then
               (if \<not> dh_valid d then [50, 4] @ put32 (lease_address d) else []) @
               (if dh_state d = GATEWAY_DHCP_REQUESTING \<or> typ = 4 then [54, 4] @ put32 (dh_server d) else [])
             else []) @
            [55, 6, 1, 3, 6, 51, 58, 59] @ [255];
          bytes = header @ options
      in bytes @ replicate (300 - length bytes) 0)"

text \<open>The bytes written, none when there is nothing to send.\<close>

definition gateway_dhcp_packet :: "gateway_dhcp_client \<Rightarrow> nat \<Rightarrow> tick \<Rightarrow> u8 list \<times> gateway_dhcp_client" where
  "gateway_dhcp_packet d cap now =
     (if dh_send_type d = 0 \<or> cap < 300 then ([], d)
      else
        let d' = (if dh_send_type d = 3 \<and> \<not> dh_have_request d then d\<lparr>dh_requested_at := now, dh_have_request := True\<rparr> else d)
        in (packet_bytes d now, d'\<lparr>dh_send_type := 0\<rparr>))"

end
