(* ===== verification/Dhcp_Lease.thy ===== *)
theory Dhcp_Lease
  imports Dhcp_Client
begin

text \<open>
  What the DHCP client of \<open>Dhcp_Client\<close> guarantees: the lease it holds is one a LAN can be run with, its timers
  are in order, a lease past its expiry is dropped, and a refused reply leaves no trace. The histories of a client
  are lists of the operations its owner (\<open>src/network/gateway_network_owner.c\<close>) calls and of the two updates it makes.
\<close>

section \<open>Histories\<close>

datatype dhcp_event =
  Dhcp_Stop | Dhcp_Conflict tick | Dhcp_Step tick bool | Dhcp_Receive "u8 list" tick | Dhcp_Probed tick | Dhcp_Packet nat tick
| Dhcp_Probe_Sent | Dhcp_Change_Seen

fun dhcp_exec :: "gateway_dhcp_client \<Rightarrow> dhcp_event \<Rightarrow> gateway_dhcp_client" where
  "dhcp_exec d Dhcp_Stop = gateway_dhcp_stop d"
| "dhcp_exec d (Dhcp_Conflict now) = gateway_dhcp_conflict d now"
| "dhcp_exec d (Dhcp_Step now link) = gateway_dhcp_step d now link"
| "dhcp_exec d (Dhcp_Receive p now) = snd (gateway_dhcp_receive d p now)"
| "dhcp_exec d (Dhcp_Probed now) = snd (gateway_dhcp_probed d now)"
| "dhcp_exec d (Dhcp_Packet cap now) = snd (gateway_dhcp_packet d cap now)"
| "dhcp_exec d Dhcp_Probe_Sent = d\<lparr>dh_probes := dh_probes d + 1\<rparr>"
| "dhcp_exec d Dhcp_Change_Seen = d\<lparr>dh_changed := False\<rparr>"

definition dhcp_run :: "u8 list \<Rightarrow> u32 \<Rightarrow> tick \<Rightarrow> dhcp_event list \<Rightarrow> gateway_dhcp_client" where
  "dhcp_run mac xid now es = foldl dhcp_exec (gateway_dhcp_start mac xid now) es"

section \<open>The text fields of a lease\<close>

definition text_field :: "string \<Rightarrow> bool" where
  "text_field s \<longleftrightarrow> length s = GATEWAY_IPV4_TEXT_MAX \<and> NUL \<in> set s"

definition lease_text :: "gateway_dhcp_lease \<Rightarrow> bool" where
  "lease_text l \<longleftrightarrow> text_field (dl_address l) \<and> text_field (dl_netmask l) \<and> text_field (dl_broadcast l) \<and>
     text_field (dl_gateway l) \<and> length (dl_dns l) = 2 \<and> list_all text_field (dl_dns l)"

lemma format_field [simp]: "text_field b \<Longrightarrow> text_field (gateway_ipv4_format a b)"
  using dotted_shape(2) [of a] by (simp add: text_field_def format_string)

lemma zero_lease_text [simp]: "lease_text zero_lease"
  by (simp add: lease_text_def zero_lease_def text_field_def zero_text_def)

lemma text_updates [simp]:
  "lease_text l \<Longrightarrow> lease_text (l\<lparr>dl_address := gateway_ipv4_format a (dl_address l)\<rparr>)"
  "lease_text l \<Longrightarrow> lease_text (l\<lparr>dl_netmask := gateway_ipv4_format a (dl_netmask l)\<rparr>)"
  "lease_text l \<Longrightarrow> lease_text (l\<lparr>dl_broadcast := gateway_ipv4_format a (dl_broadcast l)\<rparr>)"
  "lease_text l \<Longrightarrow> lease_text (l\<lparr>dl_gateway := gateway_ipv4_format a (dl_gateway l)\<rparr>)"
  "lease_text l \<Longrightarrow> lease_text (l\<lparr>dl_lifetime := n\<rparr>)"
  by (simp_all add: lease_text_def)

lemma c_string_strcpy16 [simp]: "c_string (strcpy16 b) = c_string b"
  by (auto simp: strcpy16_def c_string_def takeWhile_append dest: set_takeWhileD)

lemma strcpy16_field: "text_field b \<Longrightarrow> text_field (strcpy16 b)"
proof -
  assume b: "text_field b"
  have "length (c_string b) < length b"
    using b takeWhile_dropWhile_id [of "\<lambda>c. c \<noteq> NUL" b] takeWhile_eq_all_conv [of "\<lambda>c. c \<noteq> NUL" b]
      length_takeWhile_le [of "\<lambda>c. c \<noteq> NUL" b] unfolding text_field_def c_string_def
    by (metis append_self_conv length_append le_neq_implies_less length_0_conv add_cancel_right_right)
  then show ?thesis using b by (auto simp: text_field_def strcpy16_def)
qed

lemma parse_strcpy16: "text_field b \<Longrightarrow> gateway_ipv4_parse (strcpy16 b) = Some a \<longleftrightarrow> gateway_ipv4_parse b = Some a"
  using strcpy16_field [of b] dotted_shape [of a] c_string_iff [of "dotted a" b] c_string_iff [of "dotted a" "strcpy16 b"]
  by (simp add: text_field_def parse_iff)

lemma optional_strcpy16: "text_field b \<Longrightarrow> optional_address (strcpy16 b) = optional_address b"
proof -
  assume b: "text_field b"
  then obtain c r where c: "b = c # r" by (cases b) (auto simp: text_field_def)
  have "strcpy16 b ! 0 = NUL \<longleftrightarrow> b ! 0 = NUL" by (simp add: c strcpy16_def c_string_def)
  moreover have "gateway_ipv4_parse (strcpy16 b) = gateway_ipv4_parse b" using parse_strcpy16 [OF b] by (metis option.exhaust)
  ultimately show ?thesis by (simp add: optional_address_def)
qed

lemma read_option_text:
  "read_option k v o' = Some (b, r) \<Longrightarrow> lease_text (do_lease o') \<Longrightarrow> lease_text (do_lease r)"
  by (auto simp: read_option_def Let_def lease_text_def length_Suc_conv numeral_2_eq_2 split: if_splits)

lemma read_options_text:
  "read_options p o' = Some (r, e) \<Longrightarrow> lease_text (do_lease o') \<Longrightarrow> lease_text (do_lease r)"
proof (induction p o' arbitrary: r e rule: read_options.induct)
  case (2 k rest o')
  show ?case
    using 2 read_option_text [of k _ o']
    by (auto split: if_splits list.splits option.splits prod.splits)
qed auto

section \<open>The invariant\<close>

definition lease_sound :: "gateway_dhcp_lease \<Rightarrow> bool" where
  "lease_sound l \<longleftrightarrow> 4 \<le> dl_lifetime l \<and> dl_lifetime l \<le> 1728000 \<and>
     (\<exists>a m g. gateway_ipv4_parse (dl_address l) = Some a \<and> gateway_ipv4_parse (dl_netmask l) = Some m \<and>
        gateway_ipv4_parse (dl_broadcast l) = Some (a OR NOT m) \<and> optional_address (dl_gateway l) = Some g \<and>
        (\<exists>n. 2 \<le> n \<and> n \<le> 31 \<and> m = NOT (mask n)) \<and> host_in a m a \<and> (g = 0 \<or> (host_in a m g \<and> g \<noteq> a)))"

definition timers_in_order :: "gateway_dhcp_client \<Rightarrow> bool" where
  "timers_in_order d \<longleftrightarrow> (\<exists>base t1 t2. 0 < t1 \<and> t1 < t2 \<and> t2 < dl_lifetime (dh_lease d) \<and>
     dh_renew_at d = base + t1 * 1000 \<and> dh_rebind_at d = base + t2 * 1000 \<and>
     dh_expires_at d = base + dl_lifetime (dh_lease d) * 1000)"

definition in_use :: "gateway_dhcp_state \<Rightarrow> bool" where
  "in_use s \<longleftrightarrow> s = GATEWAY_DHCP_BOUND \<or> s = GATEWAY_DHCP_RENEWING \<or> s = GATEWAY_DHCP_REBINDING"

definition dhcp_wf :: "gateway_dhcp_client \<Rightarrow> bool" where
  "dhcp_wf d \<longleftrightarrow> (dh_valid d \<longleftrightarrow> in_use (dh_state d)) \<and> lease_text (dh_lease d) \<and> dh_retries d \<le> 4 \<and>
     dh_send_type d \<in> {0, 1, 3, 4} \<and> (dh_state d = GATEWAY_DHCP_REQUESTING \<longrightarrow> lease_sound (dh_lease d)) \<and>
     (in_use (dh_state d) \<or> dh_state d = GATEWAY_DHCP_PROBING \<longrightarrow> lease_sound (dh_lease d) \<and> timers_in_order d)"

lemma start_wf: "dhcp_wf (gateway_dhcp_start mac xid now)"
  by (simp add: dhcp_wf_def gateway_dhcp_start_def in_use_def)

lemma stop_wf: "dhcp_wf d \<Longrightarrow> dhcp_wf (gateway_dhcp_stop d)"
  by (simp add: dhcp_wf_def gateway_dhcp_stop_def invalidate_def in_use_def)

lemma conflict_wf: "dhcp_wf d \<Longrightarrow> dhcp_wf (gateway_dhcp_conflict d now)"
  by (simp add: dhcp_wf_def gateway_dhcp_conflict_def in_use_def)

lemma packet_wf: "dhcp_wf d \<Longrightarrow> dhcp_wf (snd (gateway_dhcp_packet d cap now))"
  by (auto simp: dhcp_wf_def gateway_dhcp_packet_def in_use_def timers_in_order_def Let_def)

lemma restart_wf: "dhcp_wf d \<Longrightarrow> dhcp_wf (restart d now)"
  by (auto simp: dhcp_wf_def restart_def invalidate_def in_use_def)

lemma timers_wf: "dhcp_wf d \<Longrightarrow> dhcp_wf (step_timers d now)"
  by (auto simp: dhcp_wf_def step_timers_def in_use_def timers_in_order_def)

lemma send_wf: "dhcp_wf d \<Longrightarrow> dhcp_wf (step_send d now)"
  by (auto simp: dhcp_wf_def step_send_def in_use_def timers_in_order_def Let_def)

text \<open>Fields the invariant does not mention.\<close>

lemma wf_updates [simp]:
  "dhcp_wf (d\<lparr>dh_next_send := t\<rparr>) = dhcp_wf d" "dhcp_wf (d\<lparr>dh_error := n\<rparr>) = dhcp_wf d"
  "dhcp_wf (d\<lparr>dh_probes := k\<rparr>) = dhcp_wf d" "dhcp_wf (d\<lparr>dh_changed := b\<rparr>) = dhcp_wf d"
  by (simp_all add: dhcp_wf_def timers_in_order_def)

lemma step_wf: "dhcp_wf d \<Longrightarrow> dhcp_wf (gateway_dhcp_step d now link)"
proof -
  assume d: "dhcp_wf d"
  have r: "dhcp_wf ((restart d now)\<lparr>dh_next_send := now, dh_error := 3\<rparr>)" using restart_wf [OF d] by simp
  have dead: "dhcp_wf ((invalidate d)\<lparr>dh_state := GATEWAY_DHCP_BACKOFF, dh_next_send := now + 1000, dh_send_type := 0\<rparr>)"
    using d by (simp add: dhcp_wf_def invalidate_def in_use_def)
  show ?thesis
    unfolding gateway_dhcp_step_def Let_def
    using d r dead restart_wf send_wf timers_wf by (auto split: if_splits)
qed

lemma probed_wf: "dhcp_wf d \<Longrightarrow> dhcp_wf (snd (gateway_dhcp_probed d now))"
  using step_wf [of d now True]
  by (auto simp: gateway_dhcp_probed_def) (auto simp: dhcp_wf_def in_use_def timers_in_order_def)

section \<open>Replies\<close>

lemma lease_times_ordered:
  "lease_times o' = Some (n, t1, t2) \<Longrightarrow> 4 \<le> do_lifetime o' \<Longrightarrow> 0 < t1 \<and> t1 < t2 \<and> t2 < n \<and> 4 \<le> n \<and> n \<le> 1728000"
  by (auto simp: lease_times_def Let_def word_gt_0 split: if_splits)

lemma validated_lan:
  assumes "fst (gateway_network_settings_validate (Some s)) = GATEWAY_NETWORK_SETTINGS_OK"
    "lan_mode (lan s ! 0) = GATEWAY_LAN_STATIC"
  shows "\<exists>a m. usable_lan s 0 a m"
proof -
  obtain a m where "validate_lan s 0 = Inr (a, m)"
    using assms(1) by (cases "validate_lan s 0")
      (auto simp: gateway_network_settings_validate_def validate_lan_error split: if_splits)
  then show ?thesis using validate_lan_usable [OF _ assms(2)] by blast
qed

lemma lease_settings_lan:
  "lan (lease_settings l) ! 0 = \<lparr>lan_mode = GATEWAY_LAN_STATIC, lan_address = strcpy16 (dl_address l),
     lan_netmask = strcpy16 (dl_netmask l), lan_gateway = strcpy16 (dl_gateway l)\<rparr>"
  by (simp add: lease_settings_def)

text \<open>A lease that passes the validation, with the broadcast address the client adds to it.\<close>

lemma validated_lease:
  assumes "lease_text l" "fst (gateway_network_settings_validate (Some (lease_settings l))) = GATEWAY_NETWORK_SETTINGS_OK"
    "gateway_ipv4_parse (dl_address l) = Some ip" "4 \<le> dl_lifetime l" "dl_lifetime l \<le> 1728000"
  shows "lease_sound (l\<lparr>dl_broadcast := gateway_ipv4_format
      (ip OR NOT (case gateway_ipv4_parse (dl_netmask l) of Some m \<Rightarrow> m | None \<Rightarrow> 0)) (dl_broadcast l)\<rparr>)"
proof -
  obtain a m where u: "usable_lan (lease_settings l) 0 a m"
    using validated_lan [OF assms(2)] by (auto simp: lease_settings_lan)
  have t: "text_field (dl_address l)" "text_field (dl_netmask l)" "text_field (dl_gateway l)" "length (dl_broadcast l) = GATEWAY_IPV4_TEXT_MAX"
    using assms(1) by (auto simp: lease_text_def text_field_def)
  have "gateway_ipv4_parse (dl_address l) = Some a" "gateway_ipv4_parse (dl_netmask l) = Some m"
    "\<exists>g. optional_address (dl_gateway l) = Some g \<and> (g = 0 \<or> (host_in a m g \<and> g \<noteq> a))"
    "\<exists>n. 2 \<le> n \<and> n \<le> 31 \<and> m = NOT (mask n)" "host_in a m a"
    using u unfolding usable_lan_def lease_settings_lan
    by (auto simp: parse_strcpy16 [OF t(1)] parse_strcpy16 [OF t(2)] optional_strcpy16 [OF t(3)])
  then show ?thesis
    using assms(3-5) parse_format [OF t(4), of "a OR NOT m"] by (auto simp: lease_sound_def)
qed

lemma take_lease_wf:
  assumes "dhcp_wf d" "lease_text l" "lease_sound l" "dl_lifetime l = n" "0 < t1" "t1 < t2" "t2 < n"
    "expects_reply (dh_state d)"
  shows "dhcp_wf (snd (take_lease d l server base (n, t1, t2) now))"
proof -
  have "timers_in_order (d'\<lparr>dh_lease := l, dh_renew_at := base + t1 * 1000, dh_rebind_at := base + t2 * 1000,
      dh_expires_at := base + n * 1000\<rparr>)" for d'
    unfolding timers_in_order_def using assms(4-7) by (intro exI [of _ base] exI [of _ t1] exI [of _ t2]) simp
  then show ?thesis
    using assms by (auto simp: take_lease_def Let_def dhcp_wf_def in_use_def timers_in_order_def expects_reply_def)
qed

text \<open>The ways the checks of a reply end.\<close>

lemma accept_cases:
  assumes "accept_reply d o' ended ip now = (r, d')"
  obtains (refused) "r = - 1" "d' = d"
  | (nak) "r = 0" "dh_state d \<noteq> GATEWAY_DHCP_SELECTING" "do_type o' = 6" "do_seen o' AND 3 = 3" "ended"
      "d' = (invalidate d)\<lparr>dh_state := GATEWAY_DHCP_BACKOFF, dh_next_send := now + 1000, dh_send_type := 0, dh_error := 4\<rparr>"
  | (taken) l n t1 t2 base where
      "l = (do_lease o')\<lparr>dl_address := gateway_ipv4_format ip (dl_address (do_lease o')), dl_lifetime := n\<rparr>"
      "lease_times o' = Some (n, t1, t2)" "4 \<le> do_lifetime o'"
      "base = (if dh_have_request d then dh_requested_at d else now)" "now - base < n * 1000"
      "fst (gateway_network_settings_validate (Some (lease_settings l))) = GATEWAY_NETWORK_SETTINGS_OK"
      "(r, d') = take_lease d (l\<lparr>dl_broadcast := gateway_ipv4_format
         (ip OR NOT (case gateway_ipv4_parse (dl_netmask l) of Some m \<Rightarrow> m | None \<Rightarrow> 0)) (dl_broadcast l)\<rparr>)
         (do_server o') base (n, t1, t2) now"
proof -
  define A where "A \<longleftrightarrow> \<not> ended \<or> do_seen o' AND 3 \<noteq> 3 \<or> do_server o' = 0 \<or>
    drop_bit 24 (do_server o') \<ge> 224 \<or> drop_bit 24 (do_server o') = 127"
  define B where "B \<longleftrightarrow> (dh_state d = GATEWAY_DHCP_REQUESTING \<or> dh_state d = GATEWAY_DHCP_RENEWING) \<and> do_server o' \<noteq> dh_server d"
  define N where "N \<longleftrightarrow> do_type o' = 6 \<and> dh_state d \<noteq> GATEWAY_DHCP_SELECTING"
  define C where "C \<longleftrightarrow> (dh_state d = GATEWAY_DHCP_SELECTING \<and> do_type o' \<noteq> 2) \<or> (dh_state d \<noteq> GATEWAY_DHCP_SELECTING \<and> do_type o' \<noteq> 5)"
  define D where "D \<longleftrightarrow> do_seen o' AND 36 \<noteq> 36 \<or> do_lifetime o' < 4 \<or> ip = 0"
  define base where "base = (if dh_have_request d then dh_requested_at d else now)"
  define l where "l n = (do_lease o')\<lparr>dl_address := gateway_ipv4_format ip (dl_address (do_lease o')), dl_lifetime := n\<rparr>" for n
  define G where "G n \<longleftrightarrow> dh_state d = GATEWAY_DHCP_REQUESTING \<and> c_string (dl_address (l n)) \<noteq> c_string (dl_address (dh_lease d))" for n
  define V where "V n \<longleftrightarrow> fst (gateway_network_settings_validate (Some (lease_settings (l n)))) \<noteq> GATEWAY_NETWORK_SETTINGS_OK" for n
  define b where "b n = (l n)\<lparr>dl_broadcast := gateway_ipv4_format
     (ip OR NOT (case gateway_ipv4_parse (dl_netmask (l n)) of Some m \<Rightarrow> m | None \<Rightarrow> 0)) (dl_broadcast (l n))\<rparr>" for n
  have eq: "accept_reply d o' ended ip now =
     (if A then (- 1, d) else if B then (- 1, d)
      else if N then (0, (invalidate d)\<lparr>dh_state := GATEWAY_DHCP_BACKOFF, dh_next_send := now + 1000, dh_send_type := 0, dh_error := 4\<rparr>)
      else if C then (- 1, d) else if D then (- 1, d)
      else case lease_times o' of None \<Rightarrow> (- 1, d)
      | Some (n, t1, t2) \<Rightarrow> if now - base \<ge> n * 1000 then (- 1, d) else if G n then (- 1, d) else if V n then (- 1, d)
          else take_lease d (b n) (do_server o') base (n, t1, t2) now)"
    unfolding accept_reply_def Let_def A_def B_def N_def C_def D_def base_def G_def V_def b_def l_def by (rule refl)
  show thesis
  proof (cases "A \<or> B")
    case True
    then show thesis using assms eq refused by (cases A) simp_all
  next
    case ab: False
    show thesis
    proof (cases N)
      case True
      moreover have "do_seen o' AND 3 = 3" ended using ab by (simp_all add: A_def)
      ultimately show thesis using assms ab nak unfolding eq by (simp add: N_def)
    next
      case n: False
      show thesis
      proof (cases "C \<or> D \<or> lease_times o' = None")
        case True
        then show thesis using assms ab n refused unfolding eq by (cases C; cases D) simp_all
      next
        case cd: False
        then obtain n t1 t2 where t: "lease_times o' = Some (n, t1, t2)" by auto
        show thesis
        proof (cases "now - base \<ge> n * 1000 \<or> G n \<or> V n")
          case True
          then show thesis using assms ab n cd t refused unfolding eq by (auto split: if_splits)
        next
          case False
          then have "(r, d') = take_lease d (b n) (do_server o') base (n, t1, t2) now"
            using assms ab n cd t unfolding eq by simp
          moreover have "4 \<le> do_lifetime o'" using cd by (simp add: D_def linorder_not_less)
          ultimately show thesis
            using taken [of "l n" n t1 t2 base] t False by (simp add: V_def b_def l_def base_def linorder_not_le)
        qed
      qed
    qed
  qed
qed

lemma accept_wf:
  assumes "dhcp_wf d" "lease_text (do_lease o')" "expects_reply (dh_state d)" "accept_reply d o' ended ip now = (r, d')"
  shows "dhcp_wf d'"
  using assms(4)
proof (cases rule: accept_cases)
  case nak
  then show ?thesis using assms(1) by (simp add: dhcp_wf_def invalidate_def in_use_def)
next
  case (taken l n t1 t2 base)
  let ?l = "l\<lparr>dl_broadcast := gateway_ipv4_format
    (ip OR NOT (case gateway_ipv4_parse (dl_netmask l) of Some m \<Rightarrow> m | None \<Rightarrow> 0)) (dl_broadcast l)\<rparr>"
  have "text_field (dl_address (do_lease o'))" using assms(2) by (simp add: lease_text_def)
  then have l: "lease_text l" "dl_lifetime l = n" "gateway_ipv4_parse (dl_address l) = Some ip"
    using assms(2) parse_format [of "dl_address (do_lease o')" ip] by (simp_all add: taken(1) text_field_def)
  note t = lease_times_ordered [OF taken(2,3)]
  have "lease_sound ?l" using t by (intro validated_lease [OF l(1) taken(6) l(3)]) (simp_all add: l(2))
  then have "dhcp_wf (snd (take_lease d ?l (do_server o') base (n, t1, t2) now))"
    using t l assms by (intro take_lease_wf) simp_all
  then show ?thesis using taken(7) by (metis snd_conv)
qed (simp add: assms(1))

lemma receive_cases:
  assumes "gateway_dhcp_receive d p now = (r, d')"
  obtains (refused) "r = - 1" "d' = d"
  | (expired) "r = - 1" "dh_valid d" "due now (dh_expires_at d)" "d' = gateway_dhcp_step d now True"
  | (checked) o' ended where "reply_header d p" "expects_reply (dh_state d)"
      "read_options (drop 240 p) zero_options = Some (o', ended)" "\<not> (dh_valid d \<and> due now (dh_expires_at d))"
      "accept_reply d o' ended (get32 (drop 16 p)) now = (r, d')"
proof (cases "\<not> reply_header d p \<or> \<not> expects_reply (dh_state d)")
  case True
  then show thesis using assms refused by (simp add: gateway_dhcp_receive_def)
next
  case h: False
  show thesis
  proof (cases "dh_valid d \<and> due now (dh_expires_at d)")
    case True
    then show thesis using assms h expired by (simp add: gateway_dhcp_receive_def)
  next
    case False
    then show thesis
      using assms h refused checked by (cases "read_options (drop 240 p) zero_options") (auto simp: gateway_dhcp_receive_def)
  qed
qed

lemma receive_wf:
  assumes "dhcp_wf d"
  shows "dhcp_wf (snd (gateway_dhcp_receive d p now))"
proof -
  obtain r d' where r: "gateway_dhcp_receive d p now = (r, d')" by fastforce
  then have "dhcp_wf d'"
  proof (cases rule: receive_cases)
    case expired
    then show ?thesis using step_wf [OF assms] by simp
  next
    case (checked o' ended)
    have "lease_text (do_lease o')" using read_options_text [OF checked(3)] by (simp add: zero_options_def)
    then show ?thesis using accept_wf [OF assms _ checked(2,5)] by simp
  qed (simp add: assms)
  then show ?thesis by (simp add: r)
qed

lemma exec_wf: "dhcp_wf d \<Longrightarrow> dhcp_wf (dhcp_exec d e)"
  by (cases e) (simp_all add: stop_wf conflict_wf step_wf receive_wf probed_wf packet_wf)

lemma run_wf: "dhcp_wf (dhcp_run mac xid now es)"
proof (induction es rule: rev_induct)
  case (snoc e es)
  then show ?case using exec_wf [of "dhcp_run mac xid now es" e] by (simp add: dhcp_run_def)
qed (simp add: dhcp_run_def start_wf)

text \<open>
  C28. Over all histories of a client, the lease it holds is valid exactly in the states BOUND, RENEWING and REBINDING;
  there, and while it is being probed, it has a unicast host address under a contiguous mask, a matching broadcast
  address, a gateway, if any, that is another host of the subnet, a life of at most twenty days, and the three timers
  in the order T1, T2, expiry from one base, at least a second apart.
\<close>

theorem lease_in_use_is_sound:
  "dhcp_wf (dhcp_run mac xid now es)"
  by (rule run_wf)

section \<open>Expiry\<close>

lemma due_self [simp]: "due t t" by (simp add: due_def)

lemma timers_valid [simp]: "dh_valid (step_timers d now) = dh_valid d" "dh_expires_at (step_timers d now) = dh_expires_at d"
  by (simp_all add: step_timers_def)

lemma send_valid [simp]: "dh_valid (step_send d now) = dh_valid d" "dh_expires_at (step_send d now) = dh_expires_at d"
  by (simp_all add: step_send_def Let_def)

lemma restart_invalid [simp]: "\<not> dh_valid (restart d now)" "dh_state (restart d now) = GATEWAY_DHCP_SELECTING"
  by (simp_all add: restart_def invalidate_def)

definition expired :: "gateway_dhcp_client \<Rightarrow> tick \<Rightarrow> bool" where
  "expired d now \<longleftrightarrow> (dh_valid d \<or> dh_state d = GATEWAY_DHCP_PROBING) \<and> due now (dh_expires_at d)"

lemma fresh_parts:
  "\<not> expired d now \<Longrightarrow> \<not> expired (step_timers d now) now" "\<not> expired d now \<Longrightarrow> \<not> expired (step_send d now) now"
  "\<not> expired (restart d now) now" "\<not> expired ((restart d now)\<lparr>dh_next_send := now, dh_error := 3\<rparr>) now"
  by (auto simp: expired_def step_timers_def step_send_def Let_def)

lemma step_drops_expired: "dhcp_wf d \<Longrightarrow> \<not> expired (gateway_dhcp_step d now link) now"
proof -
  assume d: "dhcp_wf d"
  define e where "e = (if (dh_valid d \<or> dh_state d = GATEWAY_DHCP_PROBING) \<and> due now (dh_expires_at d)
    then (restart d now)\<lparr>dh_next_send := now, dh_error := 3\<rparr> else d)"
  define f where "f = (if dh_state e = GATEWAY_DHCP_BACKOFF then restart e now else e)"
  have e: "\<not> expired e now" by (auto simp: e_def fresh_parts) (auto simp: expired_def)
  then have f: "\<not> expired f now" by (simp add: f_def fresh_parts)
  have "gateway_dhcp_step d now link = (if dh_state d = GATEWAY_DHCP_OFF then d
      else if \<not> link then
        (invalidate d)\<lparr>dh_state := GATEWAY_DHCP_BACKOFF, dh_next_send := now + 1000, dh_send_type := 0\<rparr>
      else if dh_state e = GATEWAY_DHCP_BACKOFF \<and> \<not> due now (dh_next_send e) then e
      else if dh_state f = GATEWAY_DHCP_PROBING then f
      else if dh_state (step_timers f now) = GATEWAY_DHCP_BOUND then step_timers f now
      else step_send (step_timers f now) now)"
    unfolding gateway_dhcp_step_def Let_def e_def f_def by (rule refl)
  moreover have "\<not> expired d now" if "dh_state d = GATEWAY_DHCP_OFF" using d that by (simp add: expired_def dhcp_wf_def in_use_def)
  moreover have "\<not> expired ((invalidate d)\<lparr>dh_state := GATEWAY_DHCP_BACKOFF, dh_next_send := now + 1000, dh_send_type := 0\<rparr>) now"
    by (simp add: expired_def invalidate_def)
  ultimately show ?thesis using e f fresh_parts(1) [OF f] fresh_parts(2) [OF fresh_parts(1) [OF f]] by simp
qed

text \<open>The expiry set by a reply lies ahead of the time it came in.\<close>

lemma fresh_expiry:
  fixes base :: tick
  assumes "now - base < n * 1000" "n \<le> 1728000"
  shows "\<not> due now (base + n * 1000)"
proof -
  define k where "k = now - base"
  have n: "unat (n * 1000) = unat n * 1000" "unat n \<le> 1728000"
    using assms(2) by (simp_all add: unat_word_ariths word_le_nat_alt)
  have "unat k < unat n * 1000" using assms(1) n by (simp add: word_less_nat_alt k_def)
  then have "unat (k - n * 1000) = 2 ^ 32 + unat k - unat n * 1000"
    using n by (simp add: unat_sub_if_size size_word.rep_eq word_le_nat_alt)
  then have "unat (k - n * 1000) \<ge> 0x80000000" using n by simp
  moreover have "now - (base + n * 1000) = k - n * 1000" unfolding k_def by (rule diff_diff_eq [symmetric])
  ultimately show ?thesis unfolding due_def by (simp only: word_less_nat_alt) simp
qed

lemma acknowledged_fresh:
  assumes "gateway_dhcp_receive d p now = (1, d')"
  shows "\<not> due now (dh_expires_at d')"
  using assms
proof (cases rule: receive_cases)
  case (checked o' ended)
  from checked(5) show ?thesis
  proof (cases rule: accept_cases)
    case (taken l n t1 t2 base)
    then have "dh_expires_at d' = base + n * 1000" by (auto simp: take_lease_def Let_def split: if_splits)
    then show ?thesis using fresh_expiry [OF taken(5)] lease_times_ordered [OF taken(2,3)] by simp
  qed simp_all
qed simp_all

text \<open>
  C29. A step leaves no lease that is in use or being probed past its expiry, whatever happened before; and neither an
  acknowledgement nor the end of probing brings one in.
\<close>

theorem no_expired_lease_in_use:
  "\<not> expired (gateway_dhcp_step (dhcp_run mac xid t es) now link) now \<and>
   \<not> (fst (gateway_dhcp_receive (dhcp_run mac xid t es) p now) = 1 \<and> expired (snd (gateway_dhcp_receive (dhcp_run mac xid t es) p now)) now) \<and>
   \<not> (fst (gateway_dhcp_probed (dhcp_run mac xid t es) now) = 0 \<and> expired (snd (gateway_dhcp_probed (dhcp_run mac xid t es) now)) now)"
proof (intro conjI)
  let ?d = "dhcp_run mac xid t es"
  show "\<not> expired (gateway_dhcp_step ?d now link) now" using step_drops_expired run_wf by blast
  show "\<not> (fst (gateway_dhcp_receive ?d p now) = 1 \<and> expired (snd (gateway_dhcp_receive ?d p now)) now)"
    using acknowledged_fresh [of ?d p now] by (metis expired_def prod.collapse)
  show "\<not> (fst (gateway_dhcp_probed ?d now) = 0 \<and> expired (snd (gateway_dhcp_probed ?d now)) now)"
    by (simp add: gateway_dhcp_probed_def expired_def)
qed

section \<open>What a reply does\<close>

text \<open>
  A reply is refused, and then leaves the client as it was but for dropping a lease past its expiry; or it is for
  this client and this transaction and refuses the lease, offers one, or acknowledges one. An acknowledged lease
  counts from the first request, has the address the reply carries, and is probed first unless it is
  the lease already in use.
\<close>

theorem reply_outcome:
  "case gateway_dhcp_receive d p now of (r, d') \<Rightarrow>
     (r = - 1 \<and> (d' = d \<or> (dh_valid d \<and> due now (dh_expires_at d) \<and> d' = gateway_dhcp_step d now True))) \<or>
     (reply_header d p \<and> expects_reply (dh_state d) \<and>
       ((r = 0 \<and> dh_state d \<noteq> GATEWAY_DHCP_SELECTING \<and> dh_state d' = GATEWAY_DHCP_BACKOFF \<and> dh_lease d' = zero_lease \<and>
           dh_valid d' = False) \<or>
        (r = 0 \<and> dh_state d = GATEWAY_DHCP_SELECTING \<and> dh_state d' = GATEWAY_DHCP_REQUESTING \<and> dh_send_type d' = 3 \<and>
           dh_valid d' = dh_valid d \<and> c_string (dl_address (dh_lease d')) = dotted (get32 (drop 16 p))) \<or>
        (r = 1 \<and> dh_state d \<noteq> GATEWAY_DHCP_SELECTING \<and> dh_send_type d' = 0 \<and>
           c_string (dl_address (dh_lease d')) = dotted (get32 (drop 16 p)) \<and>
           dh_expires_at d' = (if dh_have_request d then dh_requested_at d else now) + dl_lifetime (dh_lease d') * 1000 \<and>
           dh_state d' = (if dh_valid d \<and> c_string (dl_address (dh_lease d)) = c_string (dl_address (dh_lease d')) \<and>
               c_string (dl_netmask (dh_lease d)) = c_string (dl_netmask (dh_lease d'))
             then GATEWAY_DHCP_BOUND else GATEWAY_DHCP_PROBING) \<and>
           dh_valid d' = (dh_state d' = GATEWAY_DHCP_BOUND))))"
proof -
  obtain r d' where r: "gateway_dhcp_receive d p now = (r, d')" by fastforce
  then show ?thesis
  proof (cases rule: receive_cases)
    case (checked o' ended)
    have f: "c_string (gateway_ipv4_format a b) = dotted a" if "text_field b" for a b
      using dotted_shape [of a] that by (subst c_string_iff) (auto simp: text_field_def format_string)
    have "lease_text (do_lease o')" using read_options_text [OF checked(3)] by (simp add: zero_options_def)
    then have a: "text_field (dl_address (do_lease o'))" by (simp add: lease_text_def)
    from checked(5) show ?thesis
    proof (cases rule: accept_cases)
      case (taken l n t1 t2 base)
      then show ?thesis
        using checked(1,2) f [OF a] by (auto simp: r take_lease_def Let_def split: if_splits)
    qed (use checked(1,2) in \<open>simp_all add: r invalidate_def\<close>)
  qed (simp_all add: r)
qed

section \<open>The packets\<close>

lemma get_put32: "get32 (put32 n @ rest) = n"
proof -
  have m: "k + (i - k) = max k i" for k i :: nat by simp
  show ?thesis by (rule bit_word_eqI) (auto simp: get32_def put32_def bit_simps m max_def)
qed

lemma put32_length [simp]: "length (put32 n) = 4"
  by (simp add: put32_def)

lemma option_type: "read_option 53 [v] o' = Some (1, o'\<lparr>do_type := v\<rparr>)"
  by (simp add: read_option_def)


lemma read_type: "read_options (53 # 1 # v # rest) zero_options =
    read_options rest (zero_options\<lparr>do_type := v, do_seen := 1\<rparr>)"
  by (simp add: read_option_def zero_options_def Let_def)

lemma read_client_id:
  "length m = 6 \<Longrightarrow> read_options (61 # 7 # 1 # m @ rest) o' = read_options rest o'"
  by (simp add: read_option_def Let_def)

lemma read_address: "read_options (50 # 4 # put32 a @ rest) o' = read_options rest o'"
  by (simp add: read_option_def Let_def)

lemma read_server: "do_seen o' = 1 \<Longrightarrow>
    read_options (54 # 4 # put32 a @ rest) o' = read_options rest (o'\<lparr>do_server := a, do_seen := 3\<rparr>)"
  using get_put32 [of a "[]"] by (simp add: read_option_def Let_def)

lemma read_wanted: "read_options (55 # 6 # 1 # 3 # 6 # 51 # 58 # 59 # 255 # rest) o' = Some (o', True)"
  by (simp add: read_option_def Let_def)

lemma step_mac [simp]: "dh_mac (gateway_dhcp_step d now link) = dh_mac d"
proof -
  have [simp]: "dh_mac (restart d now) = dh_mac d" "dh_mac (step_timers d now) = dh_mac d" "dh_mac (step_send d now) = dh_mac d" for d
    by (simp_all add: restart_def invalidate_def step_timers_def step_send_def Let_def)
  show ?thesis by (simp add: gateway_dhcp_step_def Let_def invalidate_def)
qed

lemma receive_mac [simp]: "dh_mac (snd (gateway_dhcp_receive d p now)) = dh_mac d"
proof -
  obtain r d' where r: "gateway_dhcp_receive d p now = (r, d')" by fastforce
  then have "dh_mac d' = dh_mac d"
  proof (cases rule: receive_cases)
    case (checked o' ended)
    from checked(5) show ?thesis
    proof (cases rule: accept_cases)
      case (taken l n t1 t2 base)
      then show ?thesis by (auto simp: take_lease_def Let_def split: if_splits)
    qed (simp_all add: invalidate_def)
  qed simp_all
  then show ?thesis by (simp add: r)
qed

lemma run_mac: "dh_mac (dhcp_run mac xid now es) = mac"
proof -
  have "dh_mac (dhcp_exec d e) = dh_mac d" for d e
    by (cases e) (simp_all add: gateway_dhcp_stop_def gateway_dhcp_conflict_def gateway_dhcp_probed_def gateway_dhcp_packet_def
      invalidate_def Let_def)
  then have "dh_mac (foldl dhcp_exec d es) = dh_mac d" for d by (induction es arbitrary: d) simp_all
  then show ?thesis by (simp add: dhcp_run_def gateway_dhcp_start_def)
qed

lemma packet_parts:
  assumes "length (dh_mac d) = 6"
  obtains h rest where "packet_bytes d now = h @ rest" "length h = 240" "length rest = 60"
    "take 6 (drop 28 h) = dh_mac d" "get32 (drop 4 h) = dh_xid d" "get32 (drop 236 h) = 0x63825363"
    "\<exists>pad. rest = [53, 1, of_nat (dh_send_type d)] @ [61, 7, 1] @ dh_mac d @
       (if dh_send_type d = 3 \<or> dh_send_type d = 4 then
          (if \<not> dh_valid d then [50, 4] @ put32 (lease_address d) else []) @
          (if dh_state d = GATEWAY_DHCP_REQUESTING \<or> dh_send_type d = 4 then [54, 4] @ put32 (dh_server d) else [])
        else []) @ [55, 6, 1, 3, 6, 51, 58, 59] @ [255] @ pad"
proof -
  define k where "k = (let seconds = (now - dh_started d) div 1000 in if seconds > 65535 then 65535 else seconds)"
  define a where "a = [ucast (drop_bit 8 k), ucast k, if dh_valid d then 0 else 128, 0 :: u8] @
      (if dh_valid d then put32 (lease_address d) else replicate 4 0) @ replicate 12 0"
  define h where "h = [1, 1, 6, 0] @ put32 (dh_xid d) @ a @ dh_mac d @ replicate 10 0 @ replicate 192 0 @ put32 0x63825363"
  define opts where "opts = [53, 1, of_nat (dh_send_type d)] @ [61, 7, 1] @ dh_mac d @
       (if dh_send_type d = 3 \<or> dh_send_type d = 4 then
          (if \<not> dh_valid d then [50, 4] @ put32 (lease_address d) else []) @
          (if dh_state d = GATEWAY_DHCP_REQUESTING \<or> dh_send_type d = 4 then [54, 4] @ put32 (dh_server d) else [])
        else []) @ [55, 6, 1, 3, 6, 51, 58, 59] @ [255]"
  have a: "length a = 20" by (simp add: a_def)
  have h: "length h = 240" using assms a by (simp add: h_def)
  have o60: "length opts \<le> 60" using assms by (simp add: opts_def)
  have "packet_bytes d now = h @ (opts @ replicate (60 - length opts) 0)"
    using h o60 by (simp add: packet_bytes_def Let_def h_def a_def k_def opts_def)
  moreover have "take 6 (drop 28 h) = dh_mac d" using assms a by (simp add: h_def)
  moreover have "get32 (drop 4 h) = dh_xid d" by (simp add: h_def get_put32)
  moreover have "get32 (drop 236 h) = 0x63825363" using assms a get_put32 [of "0x63825363" "[]"] by (simp add: h_def)
  ultimately show thesis
    using that [of h "opts @ replicate (60 - length opts) 0"] h o60 unfolding opts_def by simp
qed

definition names_server :: "gateway_dhcp_client \<Rightarrow> bool" where
  "names_server d \<longleftrightarrow> dh_send_type d = 4 \<or> (dh_send_type d = 3 \<and> dh_state d = GATEWAY_DHCP_REQUESTING)"

text \<open>
  C33. In every history, a client with something to send writes one packet of 300 bytes; the reader of replies finds in it
  the client's transaction and hardware address, the message type that was to be sent, and the identifier of the server
  exactly in a request for an offer and in a decline.
\<close>

theorem own_packet_reads_back:
  "let d = dhcp_run [m0, m1, m2, m3, m4, m5] xid t es; p = packet_bytes d now in
    fst (gateway_dhcp_packet d 300 now) = (if dh_send_type d = 0 then [] else p) \<and>
    length p = 300 \<and> get32 (drop 4 p) = dh_xid d \<and> take 6 (drop 28 p) = [m0, m1, m2, m3, m4, m5] \<and>
    get32 (drop 236 p) = 0x63825363 \<and>
    read_options (drop 240 p) zero_options =
      Some (zero_options\<lparr>do_type := of_nat (dh_send_type d), do_server := if names_server d then dh_server d else 0,
        do_seen := if names_server d then 3 else 1\<rparr>, True)"
proof -
  define d where "d = dhcp_run [m0, m1, m2, m3, m4, m5] xid t es"
  have m: "dh_mac d = [m0, m1, m2, m3, m4, m5]" by (simp add: d_def run_mac)
  then have l: "length (dh_mac d) = 6" by simp
  obtain h rest where p: "packet_bytes d now = h @ rest" "length h = 240" "length rest = 60"
    "take 6 (drop 28 h) = dh_mac d" "get32 (drop 4 h) = dh_xid d" "get32 (drop 236 h) = 0x63825363" and
    r: "\<exists>pad. rest = [53, 1, of_nat (dh_send_type d)] @ [61, 7, 1] @ dh_mac d @
       (if dh_send_type d = 3 \<or> dh_send_type d = 4 then
          (if \<not> dh_valid d then [50, 4] @ put32 (lease_address d) else []) @
          (if dh_state d = GATEWAY_DHCP_REQUESTING \<or> dh_send_type d = 4 then [54, 4] @ put32 (dh_server d) else [])
        else []) @ [55, 6, 1, 3, 6, 51, 58, 59] @ [255] @ pad"
    by (rule packet_parts [OF l, of now])
  have g: "get32 (drop 4 (h @ rest)) = get32 (drop 4 h)" "get32 (drop 236 (h @ rest)) = get32 (drop 236 h)"
    using p(2) by (simp_all add: get32_def nth_append)
  have "read_options rest zero_options = Some (zero_options\<lparr>do_type := of_nat (dh_send_type d),
      do_server := if names_server d then dh_server d else 0, do_seen := if names_server d then 3 else 1\<rparr>, True)"
    using r by (auto simp: read_type read_client_id [OF l] read_address read_server read_wanted names_server_def
      simp del: read_options.simps) (simp_all add: zero_options_def)
  then show ?thesis unfolding Let_def d_def [symmetric] using p g m by (simp add: gateway_dhcp_packet_def Let_def)
qed

end
