(* ===== verification/Dhcp_Wire.thy ===== *)
theory Dhcp_Wire
  imports Dhcp_Lease
begin

text \<open>
  The Ethernet, IPv4, UDP and ARP frames of the DHCP client (\<open>src/network/gateway_dhcp_wire.c\<close>): what it takes from
  the wire and what it puts on it. A frame with its length is a list of bytes. Words and sums are numbers: a frame has at
  most 1514 bytes, so that no sum of words reaches \<open>2 ^ 32\<close> and \<open>unsigned long\<close> never wraps.
\<close>

section \<open>Words, sums and checksums\<close>

definition get16 :: "u8 list \<Rightarrow> nat" where
  "get16 p = unat (p ! 0) * 256 + unat (p ! 1)"

definition put16 :: "nat \<Rightarrow> u8 list" where
  "put16 n = [of_nat (n div 256), of_nat n]"

fun wire_sum :: "u8 list \<Rightarrow> nat \<Rightarrow> nat" where
  "wire_sum (a # b # p) v = wire_sum p (v + get16 [a, b])"
| "wire_sum [a] v = v + unat a * 256"
| "wire_sum [] v = v"

text \<open>The loop of \<open>checksum\<close>, which carries the high half into the low one.\<close>

function fold_carry :: "nat \<Rightarrow> nat" where
  "fold_carry v = (if v div 65536 \<noteq> 0 then fold_carry (v mod 65536 + v div 65536) else v)"
  by pat_completeness auto
termination
proof (relation "measure id")
  show "(v mod 65536 + v div 65536, v) \<in> measure id" if "v div 65536 \<noteq> 0" for v :: nat
    using that div_mult_mod_eq [of v 65536] by (simp only: in_measure id_apply)
qed simp

declare fold_carry.simps [simp del]

definition wire_checksum :: "nat \<Rightarrow> nat" where
  "wire_checksum v = 65535 - fold_carry v"

section \<open>Frames received\<close>

definition broadcast_mac :: "u8 list" where
  "broadcast_mac = replicate 6 255"

text \<open>The Ethernet header, then the IPv4 header of \<open>header\<close> bytes, both up to the guards of the first two tests.\<close>

definition for_client :: "gateway_dhcp_client \<Rightarrow> u8 list \<Rightarrow> bool" where
  "for_client d p \<longleftrightarrow> length p \<ge> 42 \<and> length p \<le> 1514 \<and> get16 (drop 12 p) = 0x0800 \<and>
     (take 6 p = dh_mac d \<or> take 6 p = broadcast_mac) \<and> take 6 (drop 6 p) \<noteq> dh_mac d"

definition ip_header_length :: "u8 list \<Rightarrow> nat" where
  "ip_header_length v = unat (v ! 0 AND 15) * 4"

definition ip_header_ok :: "u8 list \<Rightarrow> nat \<Rightarrow> bool" where
  "ip_header_ok v n \<longleftrightarrow> (let header = ip_header_length v; total = get16 (drop 2 v) in
     drop_bit 4 (v ! 0) = 4 \<and> header \<ge> 20 \<and> header \<le> 60 \<and> total \<ge> header + 8 \<and> total \<le> n - 14 \<and> v ! 9 = 17 \<and>
     get16 (drop 6 v) mod 0x4000 = 0 \<and> wire_checksum (wire_sum (take header v) 0) = 0)"

definition gateway_dhcp_frame :: "gateway_dhcp_client \<Rightarrow> u8 list \<Rightarrow> tick \<Rightarrow> int \<times> gateway_dhcp_client" where
  "gateway_dhcp_frame d p now =
     (if \<not> for_client d p then (- 1, d)
      else
        let v = drop 14 p; header = ip_header_length v; total = get16 (drop 2 v) in
        if \<not> ip_header_ok v (length p) then (- 1, d)
        else
          let udp = drop header v; len = get16 (drop 4 udp) in
          if get16 udp \<noteq> 67 \<or> get16 (drop 2 udp) \<noteq> 68 \<or> len \<noteq> total - header then (- 1, d)
          else
            let pseudo = wire_sum (take 8 (drop 12 v)) (17 + len) in
            if get16 (drop 6 udp) \<noteq> 0 \<and> wire_checksum (wire_sum (take len udp) pseudo) \<noteq> 0 then (- 1, d)
            else gateway_dhcp_receive d (take (len - 8) (drop 8 udp)) now)"

section \<open>Frames sent\<close>

text \<open>The frame and the client, no frame when there is nothing to send.\<close>

definition gateway_dhcp_broadcast :: "gateway_dhcp_client \<Rightarrow> nat \<Rightarrow> tick \<Rightarrow> u8 list \<times> gateway_dhcp_client" where
  "gateway_dhcp_broadcast d cap now =
     (if cap < 342 then ([], d)
      else
        let (packet, d) = gateway_dhcp_packet d (cap - 42) now; n = length packet in
        if n = 0 then ([], d)
        else
          let source = (if dh_valid d then lease_address d else 0);
              header = (\<lambda>c. [0x45, 0] @ put16 (n + 28) @ [0, 0, 0, 0, 64, 17] @ put16 c @ put32 source @ replicate 4 255)
          in (broadcast_mac @ dh_mac d @ put16 0x0800 @ header (wire_checksum (wire_sum (header 0) 0)) @
                put16 68 @ put16 67 @ put16 (n + 8) @ [0, 0] @ packet, d))"

definition gateway_dhcp_arp :: "gateway_dhcp_client \<Rightarrow> nat \<Rightarrow> bool \<Rightarrow> u8 list" where
  "gateway_dhcp_arp d cap announce =
     (case gateway_ipv4_parse (dl_address (dh_lease d)) of None \<Rightarrow> []
      | Some target \<Rightarrow>
          if cap < 42 then []
          else broadcast_mac @ dh_mac d @ put16 0x0806 @ put16 1 @ put16 0x0800 @ [6, 4] @ put16 1 @ dh_mac d @
            (if announce then put32 target else replicate 4 0) @ replicate 6 0 @ put32 target)"

definition gateway_dhcp_arp_conflict :: "gateway_dhcp_client \<Rightarrow> u8 list \<Rightarrow> bool" where
  "gateway_dhcp_arp_conflict d p =
     (if length p < 42 \<or> length p > 1514 \<or> get16 (drop 12 p) \<noteq> 0x0806 \<or> get16 (drop 14 p) \<noteq> 1 \<or> get16 (drop 16 p) \<noteq> 0x0800 \<or>
         p ! 18 \<noteq> 6 \<or> p ! 19 \<noteq> 4 \<or> (get16 (drop 20 p) \<noteq> 1 \<and> get16 (drop 20 p) \<noteq> 2) \<or> take 6 (drop 22 p) = dh_mac d
      then False
      else case gateway_ipv4_parse (dl_address (dh_lease d)) of None \<Rightarrow> False
      | Some target \<Rightarrow>
          take 4 (drop 28 p) = put32 target \<or> (take 4 (drop 28 p) = replicate 4 0 \<and> take 4 (drop 38 p) = put32 target))"

section \<open>The checksum\<close>

lemma fold_carry_props: "fold_carry v mod 65535 = v mod 65535" "fold_carry v < 65536" "fold_carry v = 0 \<longleftrightarrow> v = 0"
proof (induction v rule: fold_carry.induct)
  case (1 v)
  { case 1
    have "v = v mod 65536 + v div 65536 + v div 65536 * 65535" using div_mult_mod_eq [of v 65536] by linarith
    then have "(v mod 65536 + v div 65536) mod 65535 = v mod 65535" by (metis mod_mult_self1)
    then show ?case using "1.IH"(1) by (subst (1) fold_carry.simps) simp }
  { case 2
    show ?case using "1.IH"(2) by (subst fold_carry.simps) (auto simp: div_eq_0_iff) }
  { case 3
    show ?case using "1.IH"(3) by (subst fold_carry.simps) auto }
qed

lemma checksum_zero: "wire_checksum v = 0 \<longleftrightarrow> v \<noteq> 0 \<and> v mod 65535 = 0"
proof -
  have "fold_carry v = 65535 \<longleftrightarrow> fold_carry v \<noteq> 0 \<and> fold_carry v mod 65535 = 0"
  proof (cases "fold_carry v < 65535")
    case False
    then have "fold_carry v = 65535" using fold_carry_props(2) [of v] by simp
    then show ?thesis by simp
  qed auto
  then show ?thesis using fold_carry_props [of v] by (auto simp: wire_checksum_def)
qed

lemma sum_shift: "wire_sum p (v + w) = wire_sum p v + w"
  by (induction p v rule: wire_sum.induct) (simp_all add: algebra_simps)

lemma sum_start: "wire_sum p v = v + wire_sum p 0"
  using sum_shift [of p 0 v] by simp

lemma sum_append: "even (length p) \<Longrightarrow> wire_sum (p @ q) v = wire_sum p v + wire_sum q 0"
proof (induction p v rule: wire_sum.induct)
  case (3 v)
  show ?case using sum_start [of q v] by simp
qed simp_all

lemma get_put16: "n < 65536 \<Longrightarrow> get16 (put16 n @ rest) = n"
proof -
  assume "n < 65536"
  then have "n div 256 < 256" by (simp add: less_mult_imp_div_less)
  then have "unat (of_nat (n div 256) :: u8) = n div 256" "unat (of_nat n :: u8) = n mod 256" by (simp_all add: unat_of_nat)
  then show ?thesis using div_mult_mod_eq [of n 256] by (simp add: get16_def put16_def)
qed

text \<open>A sum that contains its own checksum checks.\<close>

lemma checksum_checks: "wire_checksum (s + wire_checksum s) = 0"
proof -
  have "s mod 65535 = fold_carry s mod 65535" "fold_carry s \<le> 65535" using fold_carry_props [of s] by simp_all
  then have "(s + (65535 - fold_carry s)) mod 65535 = 0" by (metis le_add_diff_inverse mod_add_left_eq mod_self)
  moreover have "s + (65535 - fold_carry s) \<noteq> 0" using fold_carry_props [of s] by (cases "s = 0") auto
  ultimately show ?thesis unfolding checksum_zero [of "s + wire_checksum s"] unfolding wire_checksum_def by blast
qed

section \<open>Whole datagrams\<close>

text \<open>A datagram of a server as RFC 791 and RFC 768 lay it out, without IP options, and whatever pads the Ethernet frame.\<close>

definition ip_header :: "nat \<Rightarrow> u8 \<times> u8 \<times> u8 \<times> u8 \<times> u8 \<Rightarrow> u32 \<Rightarrow> u32 \<Rightarrow> nat \<Rightarrow> u8 list" where
  "ip_header size16 fs src dst c = (case fs of (tos, i0, i1, flags, ttl) \<Rightarrow>
     ([0x45, tos] @ put16 size16 @ [i0, i1, flags, 0, ttl, 17]) @ put16 c @ put32 src @ put32 dst)"

definition server_datagram :: "nat \<Rightarrow> u8 list \<Rightarrow> u8 list" where
  "server_datagram c payload = put16 67 @ put16 68 @ put16 (length payload + 8) @ put16 c @ payload"

definition checked_header :: "nat \<Rightarrow> u8 \<times> u8 \<times> u8 \<times> u8 \<times> u8 \<Rightarrow> u32 \<Rightarrow> u32 \<Rightarrow> u8 list" where
  "checked_header size16 fs src dst =
     ip_header size16 fs src dst (wire_checksum (wire_sum (ip_header size16 fs src dst 0) 0))"

definition checked_datagram :: "u32 \<Rightarrow> u32 \<Rightarrow> u8 list \<Rightarrow> u8 list" where
  "checked_datagram src dst payload = server_datagram (wire_checksum (wire_sum (server_datagram 0 payload)
     (wire_sum (put32 src @ put32 dst) (17 + (length payload + 8))))) payload"

definition server_frame ::
  "u8 list \<Rightarrow> u8 list \<Rightarrow> u8 \<times> u8 \<times> u8 \<times> u8 \<times> u8 \<Rightarrow> u32 \<Rightarrow> u32 \<Rightarrow> u8 list \<Rightarrow> u8 list \<Rightarrow> u8 list" where
  "server_frame to from fs src dst payload pad = to @ from @ put16 0x0800 @
     checked_header (length payload + 28) fs src dst @ checked_datagram src dst payload @ pad"

lemma put16_length [simp]: "length (put16 n) = 2"
  by (simp add: put16_def)

lemma sum_put16: "n < 65536 \<Longrightarrow> wire_sum (put16 n) 0 = n"
  using get_put16 [of n "[]"] by (simp add: put16_def get16_def)

lemma checksum_small: "wire_checksum v < 65536"
  by (simp add: wire_checksum_def)

lemma put16_swap: "even (length a) \<Longrightarrow> c < 65536 \<Longrightarrow> wire_sum (a @ put16 c @ b) v = wire_sum (a @ put16 0 @ b) v + c"
  by (simp add: sum_append sum_start [of "put16 _ @ _" "wire_sum a v"] sum_start [of b "_ + _"] sum_put16)

lemma header_checks: "wire_checksum (wire_sum (checked_header size16 fs src dst) 0) = 0"
proof -
  obtain tos i0 i1 flags ttl where fs: "fs = (tos, i0, i1, flags, ttl)" by (metis prod_cases5)
  define a where "a = [0x45, tos] @ put16 size16 @ [i0, i1, flags, 0, ttl, 17]"
  have "even (length a)" by (simp add: a_def)
  then have "wire_sum (ip_header size16 fs src dst c) 0 = wire_sum (ip_header size16 fs src dst 0) 0 + c" if "c < 65536" for c
    using put16_swap [of a c "put32 src @ put32 dst" 0] that by (simp add: ip_header_def fs a_def)
  then show ?thesis unfolding checked_header_def using checksum_small checksum_checks by metis
qed

lemma datagram_checks:
  "wire_checksum (wire_sum (checked_datagram src dst payload) (wire_sum (put32 src @ put32 dst) (17 + (length payload + 8)))) = 0"
proof -
  have "wire_sum (server_datagram c payload) v = wire_sum (server_datagram 0 payload) v + c" if "c < 65536" for c v
    using put16_swap [of "put16 67 @ put16 68 @ put16 (length payload + 8)" c payload v] that by (simp add: server_datagram_def)
  then show ?thesis unfolding checked_datagram_def using checksum_small checksum_checks by metis
qed

lemma header_fields:
  assumes "size16 < 65536" "flags = 0 \<or> flags = 0x40"
  shows "length (checked_header size16 (tos, i0, i1, flags, ttl) src dst) = 20"
    "ip_header_length (checked_header size16 (tos, i0, i1, flags, ttl) src dst @ r) = 20"
    "drop_bit 4 ((checked_header size16 (tos, i0, i1, flags, ttl) src dst @ r) ! 0) = 4"
    "get16 (drop 2 (checked_header size16 (tos, i0, i1, flags, ttl) src dst @ r)) = size16"
    "get16 (drop 6 (checked_header size16 (tos, i0, i1, flags, ttl) src dst @ r)) mod 0x4000 = 0"
    "(checked_header size16 (tos, i0, i1, flags, ttl) src dst @ r) ! 9 = 17"
    "take 8 (drop 12 (checked_header size16 (tos, i0, i1, flags, ttl) src dst @ r)) = put32 src @ put32 dst"
  using assms get_put16 [OF assms(1)]
  by (auto simp: checked_header_def ip_header_def ip_header_length_def put16_def put32_def get16_def)

lemma datagram_fields:
  assumes "length payload + 8 < 65536"
  shows "length (checked_datagram src dst payload) = length payload + 8"
    "get16 (checked_datagram src dst payload @ r) = 67" "get16 (drop 2 (checked_datagram src dst payload @ r)) = 68"
    "get16 (drop 4 (checked_datagram src dst payload @ r)) = length payload + 8"
    "drop 8 (checked_datagram src dst payload @ r) = payload @ r"
  using get_put16 [OF assms]
  by (auto simp: checked_datagram_def server_datagram_def get_put16 [of 67] get_put16 [of 68])

text \<open>
  C31. A complete datagram of a server to the client or to everyone, with correct checksums, any identification, type of service and
  time to live, fragmented or not allowed to be, is handed to the client as its payload and nothing else; the bytes that
  pad the frame are not part of it.
\<close>

theorem server_datagram_delivered:
  assumes "length to = 6" "length from = 6" "to = dh_mac d \<or> to = broadcast_mac" "from \<noteq> dh_mac d"
    "flags = 0 \<or> flags = 0x40" "length payload + length pad \<le> 1472"
  shows "gateway_dhcp_frame d (server_frame to from (tos, i0, i1, flags, ttl) src dst payload pad) now =
    gateway_dhcp_receive d payload now"
proof -
  define H where "H = checked_header (length payload + 28) (tos, i0, i1, flags, ttl) src dst"
  define D where "D = checked_datagram src dst payload"
  define p where "p = server_frame to from (tos, i0, i1, flags, ttl) src dst payload pad"
  have n: "length payload + 28 < 65536" "length payload + 8 < 65536" using assms(6) by simp_all
  note h = header_fields [OF n(1) assms(5), where tos = tos and ?i0.0 = i0 and ?i1.0 = i1 and ttl = ttl and src = src and dst = dst, folded H_def]
  note u = datagram_fields [OF n(2), where src = src and dst = dst, folded D_def]
  have p: "p = (to @ from) @ put16 0x0800 @ H @ D @ pad" by (simp add: p_def server_frame_def H_def D_def)
  have "length p = 42 + length payload + length pad" using assms(1,2) h(1) u(1) by (simp add: p)
  moreover have "get16 (drop 12 p) = 0x0800" using assms(1,2) get_put16 [of 2048] by (simp add: p)
  moreover have "take 6 p = to" "take 6 (drop 6 p) = from" using assms(1,2) by (simp_all add: p)
  ultimately have f: "for_client d p" "length p = 42 + length payload + length pad" using assms(3,4,6) by (auto simp: for_client_def)
  have v: "drop 14 p = H @ D @ pad" using assms(1,2) by (simp add: p)
  define k where "k = length payload + 8"
  have ok: "ip_header_ok (drop 14 p) (length p)"
    unfolding ip_header_ok_def Let_def v h(2-7)
    using f(2) h(1) header_checks [of "length payload + 28" "(tos, i0, i1, flags, ttl)" src dst, folded H_def] by simp
  have d: "drop 20 (drop 14 p) = D @ pad" using h(1) by (simp add: v)
  have k: "get16 (drop 4 (D @ pad)) = k" "get16 (drop 2 (drop 14 p)) - 20 = k" "k - 8 = length payload"
    unfolding v h(4) using u(4) by (simp_all add: k_def)
  have c: "wire_checksum (wire_sum (take k (D @ pad)) (wire_sum (take 8 (drop 12 (drop 14 p))) (17 + k))) = 0"
    unfolding v h(7) using datagram_checks [of src dst payload, folded D_def] u(1) by (simp add: k_def)
  have l: "ip_header_length (drop 14 p) = 20" unfolding v by (rule h(2))
  have "gateway_dhcp_frame d p now = gateway_dhcp_receive d (take (k - 8) (drop 8 (D @ pad))) now"
    unfolding gateway_dhcp_frame_def Let_def l d k(1,2) c u(2,3) using f(1) ok by simp
  also have "take (k - 8) (drop 8 (D @ pad)) = payload" unfolding u(5) k(3) by simp
  finally show ?thesis unfolding p_def .
qed

theorem server_datagram_delivered_witness:
  "gateway_dhcp_frame (gateway_dhcp_start [2, 0, 0, 0, 0, 1] 1 0)
     (server_frame broadcast_mac [2, 0, 0, 0, 0, 9] (0, 0, 1, 0x40, 64) 0x0a000001 0xffffffff [2, 1, 6] (replicate 15 0)) 5 =
   gateway_dhcp_receive (gateway_dhcp_start [2, 0, 0, 0, 0, 1] 1 0) [2, 1, 6] 5"
  by (rule server_datagram_delivered) (simp_all add: broadcast_mac_def gateway_dhcp_start_def)

text \<open>
  C30. Whatever comes from the wire, the client either is left alone, or is handed exactly the payload of one UDP datagram from port 67 to
  port 68 that lies within the frame, is no fragment, fills the length its IPv4 header gives, and whose header checksum,
  and UDP checksum where there is one, are right.
\<close>

theorem only_whole_datagrams_delivered:
  "gateway_dhcp_frame d p now = (- 1, d) \<or>
   (\<exists>h n. for_client d p \<and> h = ip_header_length (drop 14 p) \<and> 20 \<le> h \<and> h \<le> 60 \<and> 8 \<le> n \<and> 14 + h + n \<le> length p \<and>
      get16 (drop 16 p) = h + n \<and> get16 (drop 20 p) mod 0x4000 = 0 \<and> wire_sum (take h (drop 14 p)) 0 mod 65535 = 0 \<and>
      get16 (drop (14 + h) p) = 67 \<and> get16 (drop (16 + h) p) = 68 \<and> get16 (drop (18 + h) p) = n \<and>
      (get16 (drop (20 + h) p) = 0 \<or>
       wire_sum (take n (drop (14 + h) p)) (wire_sum (take 8 (drop 26 p)) (17 + n)) mod 65535 = 0) \<and>
      gateway_dhcp_frame d p now = gateway_dhcp_receive d (take (n - 8) (drop (22 + h) p)) now)"
proof (cases "gateway_dhcp_frame d p now = (- 1, d)")
  case False
  define v where "v = drop 14 p"
  define h where "h = ip_header_length v"
  define n where "n = get16 (drop 4 (drop h v))"
  have c: "for_client d p" using False by (auto simp: gateway_dhcp_frame_def split: if_splits)
  have i: "ip_header_ok v (length p)" using False by (auto simp: gateway_dhcp_frame_def Let_def v_def split: if_splits)
  have u: "get16 (drop h v) = 67" "get16 (drop 2 (drop h v)) = 68" "n = get16 (drop 2 v) - h"
    using False by (auto simp: gateway_dhcp_frame_def Let_def v_def h_def n_def split: if_splits)
  have k: "get16 (drop 6 (drop h v)) = 0 \<or> wire_checksum (wire_sum (take n (drop h v)) (wire_sum (take 8 (drop 12 v)) (17 + n))) = 0"
    using False c i u by (auto simp: gateway_dhcp_frame_def Let_def v_def h_def n_def split: if_splits)
  have r: "gateway_dhcp_frame d p now = gateway_dhcp_receive d (take (n - 8) (drop 8 (drop h v))) now"
    using c i u k by (auto simp: gateway_dhcp_frame_def Let_def v_def h_def n_def)
  have l: "20 \<le> h" "h \<le> 60" "h + 8 \<le> get16 (drop 2 v)" "get16 (drop 2 v) \<le> length p - 14" "get16 (drop 6 v) mod 0x4000 = 0"
    "wire_sum (take h v) 0 mod 65535 = 0"
    using i by (auto simp: ip_header_ok_def Let_def h_def checksum_zero)
  have n': "8 \<le> n" "14 + h + n \<le> length p" "get16 (drop 2 v) = h + n" using l u(3) c by (auto simp: for_client_def)
  have e: "drop h v = drop (14 + h) p" "drop 2 (drop (14 + h) p) = drop (16 + h) p" "drop 4 (drop (14 + h) p) = drop (18 + h) p"
    "drop 6 (drop (14 + h) p) = drop (20 + h) p" "drop 8 (drop (14 + h) p) = drop (22 + h) p" "drop 2 v = drop 16 p"
    "drop 6 v = drop 20 p" "drop 12 v = drop 26 p"
    by (simp_all add: v_def add.commute)
  note f = u(1,2) [unfolded e] n_def [unfolded e, symmetric] r [unfolded e] n' [unfolded e] l(5,6) [unfolded e]
  have "get16 (drop (20 + h) p) = 0 \<or>
      wire_sum (take n (drop (14 + h) p)) (wire_sum (take 8 (drop 26 p)) (17 + n)) mod 65535 = 0"
    using k [unfolded e checksum_zero] by (elim disjE conjE) (rule disjI1, assumption, rule disjI2, assumption)
  moreover have "h = ip_header_length (drop 14 p)" "wire_sum (take h (drop 14 p)) 0 mod 65535 = 0" using f by (simp_all add: h_def v_def)
  ultimately show ?thesis
    using c l(1,2) f by - (rule disjI2, rule exI [of _ h], rule exI [of _ n], intro conjI; assumption)
qed simp

lemma zeros: "replicate 4 x = [x, x, x, x]" "replicate 6 x = [x, x, x, x, x, x]"
  by (simp_all add: numeral_eq_Suc)

text \<open>The frame the client sends has a checked header too, and carries the packet whole.\<close>

lemma broadcast_frame:
  assumes "length (dh_mac d) = 6" "dh_send_type d \<noteq> 0"
  shows "fst (gateway_dhcp_broadcast d 342 now) = broadcast_mac @ dh_mac d @ put16 0x0800 @
    checked_header 328 (0, 0, 0, 0, 64) (if dh_valid d then lease_address d else 0) 0xffffffff @
    put16 68 @ put16 67 @ put16 308 @ [0, 0] @ packet_bytes d now"
proof -
  have l: "length (packet_bytes d now) = 300" by (rule packet_parts [OF assms(1), of now]) simp
  have r: "replicate 4 255 = put32 0xffffffff" by (simp add: put32_def zeros)
  have m: "dh_mac (snd (gateway_dhcp_packet d 300 now)) = dh_mac d" "dh_valid (snd (gateway_dhcp_packet d 300 now)) = dh_valid d"
    "lease_address (snd (gateway_dhcp_packet d 300 now)) = lease_address d" "fst (gateway_dhcp_packet d 300 now) = packet_bytes d now"
    using assms(2) by (simp_all add: gateway_dhcp_packet_def Let_def lease_address_def)
  have c: "342 - 42 = (300 :: nat)" "300 + 28 = (328 :: nat)" "300 + 8 = (308 :: nat)" "(342 :: nat) < 342 \<longleftrightarrow> False" "(300 :: nat) = 0 \<longleftrightarrow> False"
    by simp_all
  show ?thesis
    unfolding gateway_dhcp_broadcast_def Let_def split_beta c m l if_False fst_conv checked_header_def ip_header_def prod.case r
    by (simp only: append_assoc append_Cons append_Nil fst_conv snd_conv)
qed

section \<open>Address conflicts\<close>

lemma six: "length xs = 6 \<Longrightarrow> \<exists>a b c d e f. xs = [a, b, c, d, e, f]"
  by (auto simp: numeral_eq_Suc length_Suc_conv)

lemma arp_fields:
  assumes "gateway_ipv4_parse (dl_address (dh_lease d)) = Some a" "length (dh_mac d) = 6"
  shows "length (gateway_dhcp_arp d 42 announce) = 42" "get16 (drop 12 (gateway_dhcp_arp d 42 announce)) = 0x0806"
    "get16 (drop 14 (gateway_dhcp_arp d 42 announce)) = 1" "get16 (drop 16 (gateway_dhcp_arp d 42 announce)) = 0x0800"
    "gateway_dhcp_arp d 42 announce ! 18 = 6" "gateway_dhcp_arp d 42 announce ! 19 = 4"
    "get16 (drop 20 (gateway_dhcp_arp d 42 announce)) = 1" "take 6 (drop 22 (gateway_dhcp_arp d 42 announce)) = dh_mac d"
    "take 4 (drop 28 (gateway_dhcp_arp d 42 announce)) = (if announce then put32 a else replicate 4 0)"
    "take 4 (drop 38 (gateway_dhcp_arp d 42 announce)) = put32 a"
proof -
  obtain m0 m1 m2 m3 m4 m5 where m: "dh_mac d = [m0, m1, m2, m3, m4, m5]" using six [OF assms(2)] by blast
  obtain s0 s1 s2 s3 where s: "(if announce then put32 a else replicate 4 0) = [s0, s1, s2, s3]"
    by (cases announce) (auto simp: put32_def zeros)
  obtain p0 p1 p2 p3 where p: "put32 a = [p0, p1, p2, p3]" by (simp add: put32_def)
  have f: "gateway_dhcp_arp d 42 announce = [255, 255, 255, 255, 255, 255, m0, m1, m2, m3, m4, m5, 8, 6, 0, 1, 8, 0, 6, 4, 0, 1,
      m0, m1, m2, m3, m4, m5, s0, s1, s2, s3, 0, 0, 0, 0, 0, 0, p0, p1, p2, p3]"
    unfolding gateway_dhcp_arp_def assms(1) m option.case s unfolding p by (simp add: broadcast_mac_def put16_def zeros)
  show "length (gateway_dhcp_arp d 42 announce) = 42"
    "get16 (drop 12 (gateway_dhcp_arp d 42 announce)) = 0x0806"
    "get16 (drop 14 (gateway_dhcp_arp d 42 announce)) = 1"
    "get16 (drop 16 (gateway_dhcp_arp d 42 announce)) = 0x0800"
    "gateway_dhcp_arp d 42 announce ! 18 = 6"
    "gateway_dhcp_arp d 42 announce ! 19 = 4"
    "get16 (drop 20 (gateway_dhcp_arp d 42 announce)) = 1"
    "take 6 (drop 22 (gateway_dhcp_arp d 42 announce)) = dh_mac d"
    "take 4 (drop 28 (gateway_dhcp_arp d 42 announce)) = (if announce then put32 a else replicate 4 0)"
    unfolding s f m by (simp_all add: get16_def)
  show "take 4 (drop 38 (gateway_dhcp_arp d 42 announce)) = put32 a" unfolding p f by simp
qed

lemma put32_inject: "put32 a = put32 b \<longleftrightarrow> a = b"
  by (metis get_put32)

lemma put32_zero: "replicate 4 0 = put32 a \<longleftrightarrow> a = 0"
proof -
  have "put32 0 = replicate 4 0" by (simp add: put32_def zeros)
  then show ?thesis using put32_inject [of 0 a] by metis
qed

text \<open>
  C32. Of two stations with addresses, one notices the ARP frame the other sends, be it a probe or an announcement, exactly when
  both have the same address.
\<close>

theorem arp_frame_reveals_conflict:
  assumes "gateway_ipv4_parse (dl_address (dh_lease d)) = Some a" "gateway_ipv4_parse (dl_address (dh_lease e)) = Some b"
    "length (dh_mac e) = 6" "dh_mac e \<noteq> dh_mac d" "a \<noteq> 0"
  shows "gateway_dhcp_arp_conflict d (gateway_dhcp_arp e 42 announce) \<longleftrightarrow> a = b"
  using arp_fields [OF assms(2,3), of announce] assms(4,5)
  by (auto simp: gateway_dhcp_arp_conflict_def assms(1) put32_inject put32_zero)

definition station :: "u8 \<Rightarrow> gateway_dhcp_client" where
  "station n = (gateway_dhcp_start [2, 0, 0, 0, 0, n] 1 0)\<lparr>dh_lease := zero_lease\<lparr>dl_address := text16 ''192.168.1.2''\<rparr>\<rparr>"

theorem arp_frame_reveals_conflict_witness:
  "gateway_dhcp_arp_conflict (station 1) (gateway_dhcp_arp (station 2) 42 False) = True"
  using arp_frame_reveals_conflict [of "station 1" "0xc0a80102" "station 2" "0xc0a80102" False] sample_texts(1)
  by (simp add: station_def gateway_dhcp_start_def)

end
