(* ===== verification/Network_Owner.thy ===== *)
theory Network_Owner
  imports Dhcp_Wire
begin

text \<open>
  The owner of the network policy (\<open>src/network/gateway_network_owner.c\<close>): it observes the interfaces, runs a DHCP client
  on every LAN whose policy asks for one, probes leases, computes the target state and has it written by one job at a
  time. Its table of operations is a record of functions over a state \<open>'s\<close>. The two text functions it calls,
  \<open>gateway_network_profile_broadcast\<close> and \<open>gateway_network_resolver\<close>, are arguments, as they work on the vendor files.
\<close>

record gateway_lan_observation =
  lo_present :: u32
  lo_up :: u32
  lo_link :: u32
  lo_mac :: "u8 list"
  lo_address :: string
  lo_netmask :: string
  lo_broadcast :: string

record gateway_network_observation =
  ob_lan :: "gateway_lan_observation list"
  ob_unsupported :: u32
  ob_default_lan :: u32
  ob_default_routes :: u32
  ob_gateway :: string
  ob_dns :: "string list"

record gateway_network_profile =
  pf_settings :: gateway_network_settings
  pf_affinity :: "u32 list"
  pf_original_bind :: "string list"
  pf_interfaces :: string
  pf_resolver :: string

record 's gateway_network_owner_ops =
  ow_observe :: "'s \<Rightarrow> int \<times> gateway_network_observation \<times> 's"
  ow_open :: "'s \<Rightarrow> nat \<Rightarrow> int \<times> 's"
  ow_close :: "'s \<Rightarrow> nat \<Rightarrow> 's"
  ow_receive :: "'s \<Rightarrow> nat \<Rightarrow> nat \<Rightarrow> int \<times> u8 list \<times> 's"
  ow_send :: "'s \<Rightarrow> nat \<Rightarrow> gateway_dhcp_client \<Rightarrow> tick \<Rightarrow> int \<times> gateway_dhcp_client \<times> 's"
  ow_probe :: "'s \<Rightarrow> nat \<Rightarrow> gateway_dhcp_client \<Rightarrow> bool \<Rightarrow> int \<times> 's"
  ow_apply :: "'s \<Rightarrow> gateway_network_observation \<Rightarrow> string \<Rightarrow> int \<times> 's"
  ow_poll :: "'s \<Rightarrow> int \<times> 's"
  ow_cancel :: "'s \<Rightarrow> int \<times> 's"

text \<open>The functions on the vendor files: the code stored through the output pointer comes with the result.\<close>

record network_texts =
  broadcast_text :: "gateway_network_profile \<Rightarrow> nat \<Rightarrow> string \<Rightarrow> int \<times> string"
  resolver_text :: "string \<Rightarrow> string list \<Rightarrow> string \<Rightarrow> int \<times> string"

record 's gateway_network_owner =
  ow_ops :: "'s gateway_network_owner_ops"
  ow_context :: 's
  policy :: gateway_network_profile
  dhcp :: "gateway_dhcp_client list"
  observed :: gateway_network_observation
  ow_target :: gateway_network_observation
  writing :: gateway_network_observation
  resolver :: string
  next_observe :: tick
  ow_retry_at :: tick
  probe_at :: "tick list"
  job_deadline :: tick
  opened :: "bool list"
  ow_generation :: u32
  job_generation :: u32
  job :: bool
  canceling :: bool
  dirty :: bool
  ow_ready :: bool
  settled :: bool
  ow_error :: nat
  ow_active :: bool
  next_xid :: u32
  ow_stopping :: bool

section \<open>Texts and comparison\<close>

definition text_copy :: "string \<Rightarrow> string \<Rightarrow> string" where
  "text_copy src dst = c_string src @ [NUL] @ drop (length (c_string src) + 1) dst"

definition same_text :: "string \<Rightarrow> string \<Rightarrow> bool" where
  "same_text a b \<longleftrightarrow> c_string a = c_string b"

definition same_network :: "gateway_network_observation \<Rightarrow> gateway_network_observation \<Rightarrow> bool" where
  "same_network a b \<longleftrightarrow>
     list_all (\<lambda>i. let x = ob_lan a ! i; y = ob_lan b ! i in
        lo_up x = lo_up y \<and> same_text (lo_address x) (lo_address y) \<and> same_text (lo_netmask x) (lo_netmask y) \<and>
        same_text (lo_broadcast x) (lo_broadcast y)) [0, 1] \<and>
     ob_default_lan a = ob_default_lan b \<and> same_text (ob_gateway a) (ob_gateway b) \<and>
     same_text (ob_dns a ! 0) (ob_dns b ! 0) \<and> same_text (ob_dns a ! 1) (ob_dns b ! 1)"

section \<open>Start, policy and stop\<close>

definition zero_lan :: gateway_lan_observation where
  "zero_lan = \<lparr>lo_present = 0, lo_up = 0, lo_link = 0, lo_mac = replicate 6 0, lo_address = zero_text,
     lo_netmask = zero_text, lo_broadcast = zero_text\<rparr>"

definition zero_observation :: gateway_network_observation where
  "zero_observation = \<lparr>ob_lan = [zero_lan, zero_lan], ob_unsupported = 0, ob_default_lan = 0, ob_default_routes = 0,
     ob_gateway = zero_text, ob_dns = [zero_text, zero_text]\<rparr>"

definition zero_client :: gateway_dhcp_client where
  "zero_client = \<lparr>dh_state = GATEWAY_DHCP_OFF, dh_lease = zero_lease, dh_mac = replicate 6 0, dh_xid = 0, dh_server = 0,
     dh_requested_at = 0, dh_have_request = False, dh_started = 0, dh_renew_at = 0, dh_rebind_at = 0, dh_expires_at = 0,
     dh_next_send = 0, dh_retries = 0, dh_send_type = 0, dh_valid = False, dh_changed = False, dh_probes = 0, dh_error = 0\<rparr>"

definition gateway_network_owner_init ::
  "'s gateway_network_owner_ops \<Rightarrow> 's \<Rightarrow> u32 \<Rightarrow> 's gateway_network_owner" where
  "gateway_network_owner_init ops s seed = \<lparr>ow_ops = ops, ow_context = s,
     policy = \<lparr>pf_settings = gateway_network_settings_init, pf_affinity = replicate 8 0, pf_original_bind = replicate 8 zero_text,
       pf_interfaces = [], pf_resolver = []\<rparr>,
     dhcp = [zero_client, zero_client], observed = zero_observation, ow_target = zero_observation, writing = zero_observation,
     resolver = [], next_observe = 0, ow_retry_at = 0, probe_at = [0, 0], job_deadline = 0, opened = [False, False],
     ow_generation = 0, job_generation = 0, job = False, canceling = False, dirty = False, ow_ready = False,
     settled = False, ow_error = 0, ow_active = False, next_xid = (if seed \<noteq> 0 then seed else 1), ow_stopping = False\<rparr>"

text \<open>Stopping the client of a LAN and closing its sockets.\<close>

definition drop_client :: "nat \<Rightarrow> 's gateway_network_owner \<Rightarrow> 's gateway_network_owner" where
  "drop_client i o' =
     (let o' = o'\<lparr>dhcp := (dhcp o')[i := gateway_dhcp_stop (dhcp o' ! i)]\<rparr>;
          o' = (if opened o' ! i then o'\<lparr>ow_context := ow_close (ow_ops o') (ow_context o') i\<rparr> else o')
      in o'\<lparr>opened := (opened o')[i := False]\<rparr>)"

definition drop_changed :: "gateway_network_profile \<Rightarrow> 's gateway_network_owner \<Rightarrow> nat \<Rightarrow> 's gateway_network_owner" where
  "drop_changed p o' i =
     (if \<not> ow_active o' \<or> lan_mode (lan (pf_settings p) ! i) \<noteq> lan_mode (lan (pf_settings (policy o')) ! i)
      then drop_client i o' else o')"

definition gateway_network_owner_policy ::
  "'s gateway_network_owner \<Rightarrow> gateway_network_profile \<Rightarrow> tick \<Rightarrow> int \<times> 's gateway_network_owner" where
  "gateway_network_owner_policy o' p now =
     (if fst (gateway_network_settings_validate (Some (pf_settings p))) \<noteq> GATEWAY_NETWORK_SETTINGS_OK then (- 1, o')
      else
        let (r, s) = (if job o' \<and> \<not> canceling o' then ow_cancel (ow_ops o') (ow_context o') else (0, ow_context o'));
            asked = (job o' \<and> \<not> canceling o');
            o' = o'\<lparr>ow_context := s\<rparr> in
        if asked \<and> r \<noteq> 0 then (- 1, o')
        else
          let o' = (if asked then o'\<lparr>canceling := True\<rparr> else o');
              o' = foldl (drop_changed p) o' [0, 1]
          in (0, o'\<lparr>policy := p, ow_active := True, ow_stopping := False, ow_ready := False, settled := False, ow_error := 0,
                dirty := True, ow_generation := ow_generation o' + 1, next_observe := now, ow_retry_at := now\<rparr>))"

definition gateway_network_owner_stop :: "'s gateway_network_owner \<Rightarrow> 's gateway_network_owner" where
  "gateway_network_owner_stop o' =
     (let o' = foldl (\<lambda>o' i. drop_client i o') o' [0, 1];
          o' = (if job o' \<and> \<not> canceling o' then
                  let (r, s) = ow_cancel (ow_ops o') (ow_context o')
                  in if r = 0 then o'\<lparr>ow_context := s, canceling := True\<rparr> else o'\<lparr>ow_context := s\<rparr>
                else o')
      in o'\<lparr>ow_ready := False, settled := False, ow_stopping := True, dirty := True, ow_generation := ow_generation o' + 1\<rparr>)"

section \<open>The target\<close>

definition lan_of :: "'s gateway_network_owner \<Rightarrow> nat \<Rightarrow> gateway_lan_settings" where
  "lan_of o' i = lan (pf_settings (policy o')) ! i"

text \<open>One LAN of the target, from what was observed; the result is false where the code gives up.\<close>

definition target_lan ::
  "network_texts \<Rightarrow> 's gateway_network_owner \<Rightarrow> nat \<Rightarrow> gateway_lan_observation \<Rightarrow> bool \<times> gateway_lan_observation" where
  "target_lan tx o' i t =
     (if lo_present t = 0 then (False, t)
      else
        let t = t\<lparr>lo_up := 1\<rparr>; d = dhcp o' ! i in
        if lan_mode (lan_of o' i) = GATEWAY_LAN_STATIC then
          let t = t\<lparr>lo_address := text_copy (lan_address (lan_of o' i)) (lo_address t),
                    lo_netmask := text_copy (lan_netmask (lan_of o' i)) (lo_netmask t)\<rparr>;
              (r, b) = broadcast_text tx (policy o') i (lo_broadcast t)
          in (r = 0, t\<lparr>lo_broadcast := b\<rparr>)
        else if dh_valid d then
          (True, t\<lparr>lo_address := text_copy (dl_address (dh_lease d)) (lo_address t),
                   lo_netmask := text_copy (dl_netmask (dh_lease d)) (lo_netmask t),
                   lo_broadcast := text_copy (dl_broadcast (dh_lease d)) (lo_broadcast t)\<rparr>)
        else (True, t\<lparr>lo_address := zero_text, lo_netmask := zero_text, lo_broadcast := zero_text\<rparr>))"

definition target_lans ::
  "network_texts \<Rightarrow> 's gateway_network_owner \<Rightarrow> gateway_network_observation \<Rightarrow> bool \<times> gateway_network_observation" where
  "target_lans tx o' t =
     (case target_lan tx o' 0 (ob_lan t ! 0) of (ok, l) \<Rightarrow>
        let t = t\<lparr>ob_lan := (ob_lan t)[0 := l]\<rparr> in
        if \<not> ok then (False, t)
        else case target_lan tx o' 1 (ob_lan t ! 1) of (ok, l) \<Rightarrow> (ok, t\<lparr>ob_lan := (ob_lan t)[1 := l]\<rparr>))"

definition target_route :: "'s gateway_network_owner \<Rightarrow> gateway_network_observation \<Rightarrow> gateway_network_observation" where
  "target_route o' t =
     (let route = default_lan (pf_settings (policy o')); i = unat route - 1 in
      if route = 0 then t
      else
        let gw = (if lan_mode (lan_of o' i) = GATEWAY_LAN_STATIC then lan_gateway (lan_of o' i)
                  else if dh_valid (dhcp o' ! i) then dl_gateway (dh_lease (dhcp o' ! i)) else [NUL])
        in if gw ! 0 \<noteq> NUL then t\<lparr>ob_default_lan := route, ob_default_routes := 1, ob_gateway := text_copy gw (ob_gateway t)\<rparr>
           else t)"

text \<open>Name servers and the resolver file.\<close>

definition target_dns ::
  "network_texts \<Rightarrow> 's gateway_network_owner \<Rightarrow> gateway_network_observation \<Rightarrow> bool \<times> gateway_network_observation \<times> string" where
  "target_dns tx o' t =
     (let s = pf_settings (policy o') in
      if automatic_dns s \<noteq> 0 then
        let source = (if dns_lan s \<noteq> 0 then dns_lan s else default_lan s);
            d = dhcp o' ! (unat source - 1);
            t = t\<lparr>ob_dns := (if source \<noteq> 0 \<and> dh_valid d then dl_dns (dh_lease d) else [zero_text, zero_text])\<rparr>;
            (r, text) = resolver_text tx (pf_resolver (policy o')) (ob_dns t) (resolver o')
        in (r = 0, t, text)
      else (True, t\<lparr>ob_dns := ns_dns s\<rparr>, text_copy (pf_resolver (policy o')) (resolver o')))"

text \<open>The settings the target is checked as.\<close>

definition check_lan :: "gateway_lan_observation \<Rightarrow> gateway_lan_settings" where
  "check_lan l = (if lo_address l ! 0 \<noteq> NUL
     then \<lparr>lan_mode = GATEWAY_LAN_STATIC, lan_address = text_copy (lo_address l) zero_text,
            lan_netmask = text_copy (lo_netmask l) zero_text, lan_gateway = zero_text\<rparr>
     else \<lparr>lan_mode = GATEWAY_LAN_DHCP_CLIENT, lan_address = zero_text, lan_netmask = zero_text, lan_gateway = zero_text\<rparr>)"

definition check_settings :: "gateway_network_observation \<Rightarrow> gateway_network_settings" where
  "check_settings t =
     (let lans = [check_lan (ob_lan t ! 0), check_lan (ob_lan t ! 1)]; i = unat (ob_default_lan t) - 1;
          lans = (if ob_default_lan t \<noteq> 0 then lans[i := (lans ! i)\<lparr>lan_gateway := text_copy (ob_gateway t) zero_text\<rparr>] else lans)
      in gateway_network_settings_init\<lparr>lan := lans, default_lan := ob_default_lan t, ns_dns := ob_dns t\<rparr>)"

definition target_checks :: "gateway_network_observation \<Rightarrow> bool" where
  "target_checks t \<longleftrightarrow> fst (gateway_network_settings_validate (Some (check_settings t))) = GATEWAY_NETWORK_SETTINGS_OK"

definition target :: "network_texts \<Rightarrow> 's gateway_network_owner \<Rightarrow> bool \<times> 's gateway_network_owner" where
  "target tx o' =
     (let t = (observed o')\<lparr>ob_unsupported := 0, ob_default_lan := 0, ob_default_routes := 0, ob_gateway := zero_text\<rparr>;
          (ok, t) = target_lans tx o' t in
      if \<not> ok then (False, o'\<lparr>ow_target := t\<rparr>)
      else
        let t = target_route o' t; (ok, t, text) = target_dns tx o' t; o' = o'\<lparr>ow_target := t, resolver := text\<rparr> in
        (ok \<and> target_checks t, o'))"

section \<open>One step\<close>

text \<open>Leases past their expiry go first.\<close>

definition expire_lease :: "tick \<Rightarrow> 's gateway_network_owner \<Rightarrow> nat \<Rightarrow> 's gateway_network_owner" where
  "expire_lease now o' i =
     (let d = dhcp o' ! i in
      if dh_valid d \<and> due now (dh_expires_at d)
      then o'\<lparr>dhcp := (dhcp o')[i := gateway_dhcp_step d now True], dirty := True\<rparr> else o')"

definition observe_failed :: "'s gateway_network_owner \<Rightarrow> 's gateway_network_owner" where
  "observe_failed o' =
     (let o' = o'\<lparr>ow_error := 1\<rparr> in
      if job o' then
        let o' = (if \<not> canceling o' then
                    let (r, s) = ow_cancel (ow_ops o') (ow_context o')
                    in if r = 0 then o'\<lparr>ow_context := s, canceling := True\<rparr> else o'\<lparr>ow_context := s\<rparr>
                  else o');
            (r, s) = ow_poll (ow_ops o') (ow_context o'); o' = o'\<lparr>ow_context := s\<rparr>
        in if r \<noteq> 0 then o'\<lparr>job := False, canceling := False, dirty := True\<rparr> else o'
      else o')"

definition put_client :: "nat \<Rightarrow> gateway_dhcp_client \<Rightarrow> 's gateway_network_owner \<Rightarrow> 's gateway_network_owner" where
  "put_client i d o' = o'\<lparr>dhcp := (dhcp o')[i := d]\<rparr>"

text \<open>Up to \<open>n\<close> frames of a LAN.\<close>

primrec receive_frames :: "nat \<Rightarrow> nat \<Rightarrow> tick \<Rightarrow> 's gateway_network_owner \<Rightarrow> 's gateway_network_owner" where
  "receive_frames 0 i now o' = o'"
| "receive_frames (Suc n) i now o' =
     (let (result, bytes, s) = ow_receive (ow_ops o') (ow_context o') i 1514; o' = o'\<lparr>ow_context := s\<rparr>;
          d = dhcp o' ! i; frame = take (nat result) bytes in
      if result = 0 then o'
      else if result < 0 then
        let o' = put_client i (gateway_dhcp_stop d) (o'\<lparr>ow_error := 3\<rparr>)
        in o'\<lparr>ow_context := ow_close (ow_ops o') (ow_context o') i, opened := (opened o')[i := False]\<rparr>
      else
        let o' = (if gateway_dhcp_arp_conflict d frame then put_client i (gateway_dhcp_conflict d now) o'
                  else
                    let (r, d) = gateway_dhcp_frame d frame now; o' = put_client i d o'
                    in if r > 0 \<and> dh_state d = GATEWAY_DHCP_PROBING
                       then o'\<lparr>probe_at := (probe_at o')[i := now + dh_xid d mod 1000]\<rparr> else o')
        in receive_frames n i now o')"

definition send_pending :: "nat \<Rightarrow> tick \<Rightarrow> 's gateway_network_owner \<Rightarrow> 's gateway_network_owner" where
  "send_pending i now o' =
     (if dh_send_type (dhcp o' ! i) \<noteq> 0 then
        let (_, d, s) = ow_send (ow_ops o') (ow_context o') i (dhcp o' ! i) now
        in put_client i d (o'\<lparr>ow_context := s\<rparr>)
      else o')"

definition probe_lease :: "nat \<Rightarrow> tick \<Rightarrow> 's gateway_network_owner \<Rightarrow> 's gateway_network_owner" where
  "probe_lease i now o' =
     (let d = dhcp o' ! i in
      if dh_state d = GATEWAY_DHCP_PROBING \<and> due now (probe_at o' ! i) then
        if dh_probes d < 3 then
          let (r, s) = ow_probe (ow_ops o') (ow_context o') i d False; o' = o'\<lparr>ow_context := s\<rparr> in
          if r \<noteq> 0 then put_client i (gateway_dhcp_conflict d now) (o'\<lparr>ow_error := 4\<rparr>)
          else
            let d = d\<lparr>dh_probes := dh_probes d + 1\<rparr>
            in (put_client i d o')\<lparr>probe_at := (probe_at o')[i := now + (if dh_probes d = 3 then 2000 else 1000 + dh_xid d mod 1000)]\<rparr>
        else
          let (r, d) = gateway_dhcp_probed d now; o' = put_client i d o' in
          if r = 0 then o'\<lparr>ow_context := snd (ow_probe (ow_ops o') (ow_context o') i d True)\<rparr> else o'
      else o')"

text \<open>The part of the loop over the LANs after the client is open; the flag is what remains of \<open>eligible\<close>.\<close>

definition run_client :: "nat \<Rightarrow> tick \<Rightarrow> 's gateway_network_owner \<Rightarrow> bool \<times> 's gateway_network_owner" where
  "run_client i now o' =
     (let o' = put_client i (gateway_dhcp_step (dhcp o' ! i) now (lo_link (ob_lan (observed o') ! i) \<noteq> 0)) o';
          o' = receive_frames 4 i now o';
          o' = send_pending i now o';
          o' = probe_lease i now o';
          o' = put_client i ((dhcp o' ! i)\<lparr>dh_changed := False\<rparr>) o'
      in (dh_valid (dhcp o' ! i), o'))"

text \<open>The body of the loop: nothing where the whole step returns, else what remains of \<open>eligible\<close>.\<close>

definition serve_lan :: "nat \<Rightarrow> tick \<Rightarrow> 's gateway_network_owner \<Rightarrow> bool option \<times> 's gateway_network_owner" where
  "serve_lan i now o' =
     (if lan_mode (lan_of o' i) \<noteq> GATEWAY_LAN_DHCP_CLIENT \<or> ow_stopping o' then (Some True, o')
      else if \<not> opened o' ! i then
        if \<not> due now (ow_retry_at o') then (Some False, o')
        else
          let (r, s) = ow_open (ow_ops o') (ow_context o') i; o' = o'\<lparr>ow_context := s\<rparr> in
          if r \<noteq> 0 then (None, o'\<lparr>ow_error := 2, ow_retry_at := now + 1000\<rparr>)
          else
            let xid = next_xid o' + 1;
                o' = o'\<lparr>opened := (opened o')[i := True], next_xid := xid\<rparr>;
                (e, o') = run_client i now (put_client i (gateway_dhcp_start (lo_mac (ob_lan (observed o') ! i)) xid now) o')
            in (Some e, o')
      else (let (e, o') = run_client i now o' in (Some e, o')))"

definition conflict_lan :: "tick \<Rightarrow> 's gateway_network_owner \<Rightarrow> nat \<Rightarrow> 's gateway_network_owner" where
  "conflict_lan now o' i =
     (let d = dhcp o' ! i in
      if lan_mode (lan_of o' i) = GATEWAY_LAN_DHCP_CLIENT \<and> (dh_valid d \<or> dh_state d = GATEWAY_DHCP_PROBING)
      then put_client i (gateway_dhcp_conflict d now) o' else o')"

text \<open>The job that writes: waiting for it, replacing it, starting one.\<close>

definition job_obsolete :: "tick \<Rightarrow> 's gateway_network_owner \<Rightarrow> bool" where
  "job_obsolete now o' \<longleftrightarrow> job_generation o' \<noteq> ow_generation o' \<or> \<not> same_network (writing o') (ow_target o') \<or> due now (job_deadline o')"

definition poll_job :: "tick \<Rightarrow> 's gateway_network_owner \<Rightarrow> 's gateway_network_owner" where
  "poll_job now o' =
     (let (result, s) = ow_poll (ow_ops o') (ow_context o'); o' = o'\<lparr>ow_context := s\<rparr> in
      if result = 0 then o'
      else
        let o' = o'\<lparr>job := False, next_observe := now,
              dirty := canceling o' \<or> job_generation o' \<noteq> ow_generation o' \<or> \<not> same_network (writing o') (ow_target o')\<rparr> in
        if \<not> canceling o' \<and> result < 0 then o'\<lparr>ow_error := 7, ow_retry_at := now + 1000\<rparr>
        else o'\<lparr>canceling := False\<rparr>)"

definition step_job :: "tick \<Rightarrow> 's gateway_network_owner \<Rightarrow> 's gateway_network_owner" where
  "step_job now o' =
     (if job_obsolete now o' \<and> \<not> canceling o' then
        let (r, s) = ow_cancel (ow_ops o') (ow_context o'); o' = o'\<lparr>ow_context := s\<rparr>
        in if r \<noteq> 0 then o'\<lparr>ow_error := 6\<rparr> else poll_job now (o'\<lparr>canceling := True\<rparr>)
      else poll_job now o')"

definition step_apply :: "tick \<Rightarrow> bool \<Rightarrow> 's gateway_network_owner \<Rightarrow> 's gateway_network_owner" where
  "step_apply now eligible o' =
     (if (dirty o' \<or> \<not> same_network (observed o') (ow_target o')) \<and> due now (ow_retry_at o') then
        let (r, s) = ow_apply (ow_ops o') (ow_context o') (ow_target o') (resolver o'); o' = o'\<lparr>ow_context := s\<rparr> in
        if r \<noteq> 0 then o'\<lparr>ow_error := 8, ow_retry_at := now + 1000\<rparr>
        else o'\<lparr>writing := ow_target o', job_generation := ow_generation o', job := True, dirty := False, job_deadline := now + 1000\<rparr>
      else if same_network (observed o') (ow_target o') \<and> \<not> dirty o'
      then o'\<lparr>ow_error := 0, ow_ready := eligible, settled := True\<rparr> else o')"

text \<open>After the LANs: the target, and the job that brings it about.\<close>

definition step_target ::
  "network_texts \<Rightarrow> tick \<Rightarrow> bool \<Rightarrow> 's gateway_network_owner \<Rightarrow> bool option \<times> 's gateway_network_owner" where
  "step_target tx now eligible o' =
     (let (ok, o') = target tx o' in
      if ok then (Some eligible, o')
      else
        let o' = foldl (conflict_lan now) (o'\<lparr>ow_error := 5\<rparr>) [0, 1]; (ok, o') = target tx o' in
        if \<not> ok then (None, o') else (Some False, o'\<lparr>dirty := True\<rparr>))"

definition step_outcome :: "network_texts \<Rightarrow> tick \<Rightarrow> bool \<Rightarrow> 's gateway_network_owner \<Rightarrow> 's gateway_network_owner" where
  "step_outcome tx now eligible o' =
     (case step_target tx now eligible o' of
        (None, o') \<Rightarrow> o'
      | (Some eligible, o') \<Rightarrow>
          let s = pf_settings (policy o');
              eligible = (eligible \<and> \<not> (default_lan s \<noteq> 0 \<and> ob_default_lan (ow_target o') = 0) \<and>
                \<not> (automatic_dns s \<noteq> 0 \<and> ob_dns (ow_target o') ! 0 ! 0 = NUL))
          in if job o' then step_job now o' else step_apply now eligible o')"

definition step_lans :: "network_texts \<Rightarrow> tick \<Rightarrow> 's gateway_network_owner \<Rightarrow> 's gateway_network_owner" where
  "step_lans tx now o' =
     (case serve_lan 0 now o' of
        (None, o') \<Rightarrow> o'
      | (Some e0, o') \<Rightarrow> (case serve_lan 1 now o' of
            (None, o') \<Rightarrow> o'
          | (Some e1, o') \<Rightarrow> step_outcome tx now (e0 \<and> e1) o'))"

definition gateway_network_owner_step :: "network_texts \<Rightarrow> 's gateway_network_owner \<Rightarrow> tick \<Rightarrow> 's gateway_network_owner" where
  "gateway_network_owner_step tx o' now =
     (if \<not> ow_active o' then o'
      else
        let o' = foldl (expire_lease now) (o'\<lparr>ow_ready := False, settled := False\<rparr>) [0, 1] in
        if due now (next_observe o') then
          let (r, obs, s) = ow_observe (ow_ops o') (ow_context o'); o' = o'\<lparr>observed := obs, ow_context := s\<rparr>
          in if r \<noteq> 0 \<or> ob_unsupported obs \<noteq> 0 then observe_failed o'
             else step_lans tx now (o'\<lparr>next_observe := now + 250\<rparr>)
        else step_lans tx now o')"

end
