(* ===== verification/Owner_Writes.thy ===== *)
theory Owner_Writes
  imports Network_Owner
begin

text \<open>
  What the network owner guarantees, whatever the operations it is given do: at most one job writes at a time, only
  targets that pass the validation are written, and the owner is ready only when what it observes is what it wants.
\<close>

section \<open>Histories with a log of the jobs\<close>

datatype owner_event = Job_Started gateway_network_observation | Job_Reaped

definition logged_ops :: "'s gateway_network_owner_ops \<Rightarrow> ('s \<times> owner_event list) gateway_network_owner_ops" where
  "logged_ops ops =
     \<lparr>ow_observe = \<lambda>(s, es). let (r, obs, s) = ow_observe ops s in (r, obs, s, es),
      ow_open = \<lambda>(s, es) i. let (r, s) = ow_open ops s i in (r, s, es),
      ow_close = \<lambda>(s, es) i. (ow_close ops s i, es),
      ow_receive = \<lambda>(s, es) i cap. let (r, bytes, s) = ow_receive ops s i cap in (r, bytes, s, es),
      ow_send = \<lambda>(s, es) i d now. let (r, d, s) = ow_send ops s i d now in (r, d, s, es),
      ow_probe = \<lambda>(s, es) i d announce. let (r, s) = ow_probe ops s i d announce in (r, s, es),
      ow_apply = \<lambda>(s, es) t text. let (r, s) = ow_apply ops s t text in (r, s, if r = 0 then es @ [Job_Started t] else es),
      ow_poll = \<lambda>(s, es). let (r, s) = ow_poll ops s in (r, s, if r \<noteq> 0 then es @ [Job_Reaped] else es),
      ow_cancel = \<lambda>(s, es). let (r, s) = ow_cancel ops s in (r, s, es)\<rparr>"

datatype owner_op = Owner_Policy gateway_network_profile tick | Owner_Step tick | Owner_Stop

primrec owner_exec :: "network_texts \<Rightarrow> 's gateway_network_owner \<Rightarrow> owner_op \<Rightarrow> 's gateway_network_owner" where
  "owner_exec tx o' (Owner_Policy p now) = snd (gateway_network_owner_policy o' p now)"
| "owner_exec tx o' (Owner_Step now) = gateway_network_owner_step tx o' now"
| "owner_exec tx o' Owner_Stop = gateway_network_owner_stop o'"

definition owner_run :: "network_texts \<Rightarrow> owner_op list \<Rightarrow> 's gateway_network_owner \<Rightarrow> 's gateway_network_owner" where
  "owner_run tx os o' = foldl (owner_exec tx) o' os"

text \<open>Whether a job is under way after a log; nothing where jobs overlapped or one was reaped that was never started.\<close>

definition job_step :: "bool option \<Rightarrow> owner_event \<Rightarrow> bool option" where
  "job_step b e = (case e of Job_Started t \<Rightarrow> if b = Some False then Some True else None
     | Job_Reaped \<Rightarrow> if b = Some True then Some False else None)"

definition job_under_way :: "owner_event list \<Rightarrow> bool option" where
  "job_under_way es = foldl job_step (Some False) es"

definition sound_event :: "owner_event \<Rightarrow> bool" where
  "sound_event e = (case e of Job_Started t \<Rightarrow> target_checks t | Job_Reaped \<Rightarrow> True)"

section \<open>Everything but apply and poll leaves the log alone\<close>

type_synonym 's logged_owner = "('s \<times> owner_event list) gateway_network_owner"

definition quiet :: "'s logged_owner \<Rightarrow> 's logged_owner \<Rightarrow> bool" where
  "quiet a b \<longleftrightarrow> ow_ops b = ow_ops a \<and> snd (ow_context b) = snd (ow_context a) \<and> job b = job a"

definition logged :: "'s logged_owner \<Rightarrow> bool" where
  "logged a \<longleftrightarrow> (\<exists>ops. ow_ops a = logged_ops ops)"

lemma quiet_refl [simp]: "quiet a a"
  by (simp add: quiet_def)

lemma quiet_trans: "quiet a b \<Longrightarrow> quiet b c \<Longrightarrow> quiet a c"
  by (simp add: quiet_def)

lemma quiet_logged: "quiet a b \<Longrightarrow> logged a \<Longrightarrow> logged b"
  by (simp add: quiet_def logged_def)

lemma logged_calls [simp]:
  assumes "logged a"
  shows "snd (snd (snd (ow_observe (ow_ops a) x))) = snd x" "snd (snd (ow_open (ow_ops a) x i)) = snd x"
    "snd (ow_close (ow_ops a) x i) = snd x" "snd (snd (snd (ow_receive (ow_ops a) x i n))) = snd x"
    "snd (snd (snd (ow_send (ow_ops a) x i d now))) = snd x" "snd (snd (ow_probe (ow_ops a) x i d an)) = snd x"
    "snd (snd (ow_cancel (ow_ops a) x)) = snd x"
    "snd (snd (ow_apply (ow_ops a) x t text)) = (if fst (ow_apply (ow_ops a) x t text) = 0 then snd x @ [Job_Started t] else snd x)"
    "snd (snd (ow_poll (ow_ops a) x)) = (if fst (ow_poll (ow_ops a) x) \<noteq> 0 then snd x @ [Job_Reaped] else snd x)"
  using assms by (auto simp: logged_def logged_ops_def Let_def split_beta)

lemma owner_client_frame [simp]:
  "ow_ops (put_client i d a) = ow_ops a" "ow_context (put_client i d a) = ow_context a" "job (put_client i d a) = job a"
  by (simp_all add: put_client_def)

lemma quiet_parts:
  assumes "logged a"
  shows "quiet a (drop_client i a)" "quiet a (expire_lease now a i)" "quiet a (conflict_lan now a i)"
    "quiet a (send_pending i now a)" "quiet a (probe_lease i now a)" "quiet a (snd (target tx a))"
proof -
  show "quiet a (drop_client i a)" using assms by (simp add: quiet_def drop_client_def Let_def)
  show "quiet a (expire_lease now a i)" by (simp add: quiet_def expire_lease_def Let_def)
  show "quiet a (conflict_lan now a i)" by (simp add: quiet_def conflict_lan_def Let_def)
  show "quiet a (send_pending i now a)" using assms by (simp add: quiet_def send_pending_def Let_def split_beta)
  show "quiet a (probe_lease i now a)" using assms by (simp add: quiet_def probe_lease_def Let_def split_beta)
  show "quiet a (snd (target tx a))" by (simp add: quiet_def target_def Let_def split_beta)
qed

lemma quiet_frames: "logged a \<Longrightarrow> quiet a (receive_frames n i now a)"
proof (induction n arbitrary: a)
  case (Suc n)
  have q: "quiet a b \<Longrightarrow> quiet a (receive_frames n i now b)" for b
    using Suc.IH [of b] quiet_logged [OF _ Suc.prems] quiet_trans by blast
  show ?case
    using Suc.prems by (auto simp: Let_def split_beta intro!: q) (auto simp: quiet_def)
qed simp

lemma quiet_run_client:
  assumes "logged a"
  shows "quiet a (snd (run_client i now a))"
proof -
  define b where "b = put_client i (gateway_dhcp_step (dhcp a ! i) now (lo_link (ob_lan (observed a) ! i) \<noteq> 0)) a"
  define c where "c = receive_frames 4 i now b"
  define e where "e = probe_lease i now (send_pending i now c)"
  have b: "quiet a b" by (simp add: quiet_def b_def)
  have c: "quiet a c" unfolding c_def using quiet_trans [OF b quiet_frames] quiet_logged [OF b assms] by blast
  have s: "quiet a (send_pending i now c)" using quiet_trans [OF c quiet_parts(4)] quiet_logged [OF c assms] by blast
  have e: "quiet a e" unfolding e_def using quiet_trans [OF s quiet_parts(5)] quiet_logged [OF s assms] by blast
  have "snd (run_client i now a) = put_client i ((dhcp e ! i)\<lparr>dh_changed := False\<rparr>) e"
    by (simp add: run_client_def Let_def b_def c_def e_def)
  then show ?thesis using e by (simp add: quiet_def)
qed

lemma quiet_serve:
  assumes "logged a"
  shows "quiet a (snd (serve_lan i now a))"
proof -
  define b where "b = a\<lparr>ow_context := snd (ow_open (ow_ops a) (ow_context a) i)\<rparr>"
  define c where "c = put_client i (gateway_dhcp_start (lo_mac (ob_lan (observed b) ! i)) (next_xid b + 1) now)
    (b\<lparr>opened := (opened b)[i := True], next_xid := next_xid b + 1\<rparr>)"
  have b: "quiet a b" using assms by (simp add: quiet_def b_def)
  have c: "quiet a c" using assms by (simp add: quiet_def c_def b_def)
  have r: "quiet a (snd (run_client i now c))" using quiet_trans [OF c quiet_run_client] quiet_logged [OF c assms] by blast
  have f: "quiet a (b\<lparr>ow_error := 2, ow_retry_at := now + 1000\<rparr>)" using b by (simp add: quiet_def)
  show ?thesis
    unfolding serve_lan_def Let_def split_beta b_def [symmetric]
    using r f quiet_run_client [OF assms] by (simp add: c_def b_def)
qed

lemma quiet_step_target:
  assumes "logged a"
  shows "quiet a (snd (step_target tx now e a))"
proof -
  define b where "b = snd (target tx a)"
  define c where "c = conflict_lan now (conflict_lan now (b\<lparr>ow_error := 5\<rparr>) 0) 1"
  have b: "quiet a b" using quiet_parts(6) [OF assms] by (simp add: b_def)
  then have b5: "quiet a (b\<lparr>ow_error := 5\<rparr>)" by (simp add: quiet_def)
  have c: "quiet a c" unfolding c_def
    using quiet_trans [OF quiet_trans [OF b5 quiet_parts(3)] quiet_parts(3)] quiet_logged [OF b5 assms]
      quiet_logged [OF quiet_trans [OF b5 quiet_parts(3)] assms] by blast
  have d: "quiet a (snd (target tx c))" using quiet_trans [OF c quiet_parts(6)] quiet_logged [OF c assms] by blast
  have d1: "quiet a ((snd (target tx c))\<lparr>dirty := True\<rparr>)" using d by (simp add: quiet_def)
  show ?thesis
    unfolding step_target_def Let_def split_beta b_def [symmetric]
    using b d d1 by (simp add: c_def)
qed

text \<open>What the target step hands on passes the validation.\<close>

lemma target_checked: "fst (target tx a) \<Longrightarrow> target_checks (ow_target (snd (target tx a)))"
  by (auto simp: target_def Let_def split_beta split: if_splits)

lemma step_target_checked:
  "fst (step_target tx now e a) = Some e' \<Longrightarrow> target_checks (ow_target (snd (step_target tx now e a)))"
  unfolding step_target_def Let_def split_beta
  by (auto simp: target_checked split: if_splits)

section \<open>The jobs\<close>

definition jobs_ok :: "'s logged_owner \<Rightarrow> bool" where
  "jobs_ok a \<longleftrightarrow> logged a \<and> job_under_way (snd (ow_context a)) = Some (job a) \<and> list_all sound_event (snd (ow_context a))"

lemma jobs_quiet: "jobs_ok a \<Longrightarrow> quiet a b \<Longrightarrow> jobs_ok b"
  using quiet_logged by (auto simp: jobs_ok_def quiet_def)

lemma under_way_snoc [simp]: "job_under_way (es @ [e]) = job_step (job_under_way es) e" "job_under_way [] = Some False"
  by (simp_all add: job_under_way_def)

lemma poll_ok:
  assumes "jobs_ok a" "job a"
  shows "jobs_ok (poll_job now a)"
  using assms by (auto simp: jobs_ok_def poll_job_def Let_def split_beta job_step_def sound_event_def) (simp_all add: logged_def)

lemma step_job_ok:
  assumes "jobs_ok a" "job a"
  shows "jobs_ok (step_job now a)"
proof -
  define b where "b = a\<lparr>ow_context := snd (ow_cancel (ow_ops a) (ow_context a))\<rparr>"
  have l: "logged a" using assms(1) by (simp add: jobs_ok_def)
  have b: "quiet a (b\<lparr>ow_error := 6\<rparr>)" "quiet a (b\<lparr>canceling := True\<rparr>)" using l by (simp_all add: quiet_def b_def)
  have "jobs_ok (poll_job now (b\<lparr>canceling := True\<rparr>))"
    using jobs_quiet [OF assms(1) b(2)] assms(2) by (intro poll_ok) (simp_all add: b_def)
  then show ?thesis
    unfolding step_job_def Let_def split_beta b_def [symmetric]
    using jobs_quiet [OF assms(1) b(1)] poll_ok [OF assms] by simp
qed

lemma step_apply_ok:
  assumes "jobs_ok a" "\<not> job a" "target_checks (ow_target a)"
  shows "jobs_ok (step_apply now e a)"
  using assms by (auto simp: jobs_ok_def step_apply_def Let_def split_beta job_step_def sound_event_def) (simp_all add: logged_def)

lemma outcome_ok:
  assumes "jobs_ok a"
  shows "jobs_ok (step_outcome tx now e a)"
proof -
  obtain r b where r: "step_target tx now e a = (r, b)" by fastforce
  have b: "jobs_ok b" using jobs_quiet [OF assms quiet_step_target] r assms by (metis jobs_ok_def snd_conv)
  show ?thesis
  proof (cases r)
    case (Some e')
    then have "target_checks (ow_target b)" using step_target_checked [of tx now e a e'] r by simp
    then show ?thesis
      using Some r step_job_ok [OF b] step_apply_ok [OF b] by (simp add: step_outcome_def Let_def)
  qed (simp add: step_outcome_def r b)
qed

lemma lans_ok:
  assumes "jobs_ok a"
  shows "jobs_ok (step_lans tx now a)"
proof -
  obtain r b where r: "serve_lan 0 now a = (r, b)" by fastforce
  have b: "jobs_ok b" using jobs_quiet [OF assms quiet_serve] r assms by (metis jobs_ok_def snd_conv)
  obtain q c where q: "serve_lan 1 now b = (q, c)" by fastforce
  have c: "jobs_ok c" using jobs_quiet [OF b quiet_serve] q b by (metis jobs_ok_def snd_conv)
  show ?thesis using b c r q outcome_ok [OF c] by (simp add: step_lans_def split: option.split)
qed

lemma observe_failed_ok:
  assumes "jobs_ok a"
  shows "jobs_ok (observe_failed a)"
proof (cases "job a")
  case True
  define b where "b = (if \<not> canceling a then
      let (r, s) = ow_cancel (ow_ops a) (ow_context a)
      in if r = 0 then a\<lparr>ow_error := 1, ow_context := s, canceling := True\<rparr> else a\<lparr>ow_error := 1, ow_context := s\<rparr>
    else a\<lparr>ow_error := 1\<rparr>)"
  have l: "logged a" using assms by (simp add: jobs_ok_def)
  have b: "quiet a b" using l by (simp add: quiet_def b_def Let_def split_beta)
  have j: "jobs_ok b" "job b" using jobs_quiet [OF assms b] b True by (simp_all add: quiet_def)
  have "observe_failed a = (let (r, s) = ow_poll (ow_ops b) (ow_context b); o' = b\<lparr>ow_context := s\<rparr>
      in if r \<noteq> 0 then o'\<lparr>job := False, canceling := False, dirty := True\<rparr> else o')"
    using True by (simp add: observe_failed_def b_def Let_def split_beta)
  then show ?thesis
    using j by (auto simp: jobs_ok_def Let_def split_beta job_step_def sound_event_def) (simp_all add: logged_def)
next
  case False
  then have "quiet a (observe_failed a)" by (simp add: observe_failed_def quiet_def)
  then show ?thesis using jobs_quiet [OF assms] by blast
qed

lemma owner_step_ok:
  assumes "jobs_ok a"
  shows "jobs_ok (gateway_network_owner_step tx a now)"
proof (cases "ow_active a")
  case True
  define b where "b = foldl (expire_lease now) (a\<lparr>ow_ready := False, settled := False\<rparr>) [0, 1]"
  define c where "c = b\<lparr>observed := fst (snd (ow_observe (ow_ops b) (ow_context b))),
    ow_context := snd (snd (ow_observe (ow_ops b) (ow_context b)))\<rparr>"
  have l: "logged a" using assms by (simp add: jobs_ok_def)
  have b: "quiet a b" by (simp add: quiet_def b_def expire_lease_def Let_def)
  then have b': "jobs_ok b" "logged b" using jobs_quiet [OF assms] quiet_logged l by blast+
  have c: "quiet b c" "quiet b (c\<lparr>next_observe := now + 250\<rparr>)" using b'(2) by (simp_all add: quiet_def c_def)
  show ?thesis
    unfolding gateway_network_owner_step_def Let_def split_beta b_def [symmetric]
    using True lans_ok [OF b'(1)] observe_failed_ok [OF jobs_quiet [OF b'(1) c(1)]] lans_ok [OF jobs_quiet [OF b'(1) c(2)]]
    by (simp add: c_def)
qed (simp add: gateway_network_owner_step_def assms)

lemma quiet_fold:
  assumes "logged a" "\<And>b i. logged b \<Longrightarrow> quiet b (f b i)"
  shows "quiet a (foldl f a is)"
  using assms(1)
proof (induction "is" arbitrary: a)
  case (Cons i js)
  then show ?case using quiet_trans [OF assms(2) Cons.IH] quiet_logged [OF assms(2)] by simp
qed simp

lemma drop_fold:
  fixes a :: "'a logged_owner"
  assumes "logged a"
  shows "quiet a (foldl (drop_changed p) a is)" "quiet a (foldl (\<lambda>o' i. drop_client i o') a is)"
proof -
  have d: "quiet b (drop_client i b)" if "logged b" for b :: "'a logged_owner" and i by (rule quiet_parts(1) [OF that])
  show "quiet a (foldl (drop_changed p) a is)" by (rule quiet_fold [OF assms]) (simp add: drop_changed_def d)
  show "quiet a (foldl (\<lambda>o' i. drop_client i o') a is)" by (rule quiet_fold [OF assms]) (rule d)
qed

lemma owner_policy_ok:
  assumes "jobs_ok a"
  shows "jobs_ok (snd (gateway_network_owner_policy a p now))"
proof (cases "fst (gateway_network_settings_validate (Some (pf_settings p))) = GATEWAY_NETWORK_SETTINGS_OK")
  case True
  define asked where "asked = (job a \<and> \<not> canceling a)"
  define b where "b = (if asked then a\<lparr>ow_context := snd (ow_cancel (ow_ops a) (ow_context a))\<rparr> else a)"
  define c where "c = (if asked then b\<lparr>canceling := True\<rparr> else b)"
  define e where "e = foldl (drop_changed p) c [0, 1]"
  have l: "logged a" using assms by (simp add: jobs_ok_def)
  have b: "quiet a b" using l by (simp add: quiet_def b_def)
  have c: "quiet a c" using b by (simp add: quiet_def c_def)
  have e: "quiet a e" unfolding e_def by (rule quiet_trans [OF c drop_fold(1) [OF quiet_logged [OF c l]]])
  have "snd (gateway_network_owner_policy a p now) =
      (if asked \<and> fst (ow_cancel (ow_ops a) (ow_context a)) \<noteq> 0 then b
       else e\<lparr>policy := p, ow_active := True, ow_stopping := False, ow_ready := False, settled := False, ow_error := 0,
                dirty := True, ow_generation := ow_generation e + 1, next_observe := now, ow_retry_at := now\<rparr>)"
    using True unfolding gateway_network_owner_policy_def Let_def split_beta e_def c_def b_def asked_def
    by (simp del: foldl_Cons)
  then have "quiet a (snd (gateway_network_owner_policy a p now))" using b e by (simp add: quiet_def)
  then show ?thesis by (rule jobs_quiet [OF assms])
qed (simp add: gateway_network_owner_policy_def assms)

lemma owner_stop_ok:
  assumes "jobs_ok a"
  shows "jobs_ok (gateway_network_owner_stop a)"
proof -
  define b where "b = foldl (\<lambda>o' i. drop_client i o') a [0, 1]"
  have l: "logged a" using assms by (simp add: jobs_ok_def)
  have b: "quiet a b" unfolding b_def by (rule drop_fold(2) [OF l])
  have "quiet b (gateway_network_owner_stop a)"
    using quiet_logged [OF b l] unfolding gateway_network_owner_stop_def b_def [symmetric]
    by (simp add: quiet_def Let_def split_beta)
  then show ?thesis using jobs_quiet [OF assms quiet_trans [OF b]] by blast
qed

lemma owner_run_ok: "jobs_ok a \<Longrightarrow> jobs_ok (owner_run tx os a)"
proof (induction os arbitrary: a)
  case (Cons x os)
  then show ?case by (cases x) (simp_all add: owner_run_def owner_policy_ok owner_step_ok owner_stop_ok)
qed (simp add: owner_run_def)

text \<open>
  C17. Whatever the operations of the platform answer, over every history of policies, steps and stops: a write job is
  started only when none is under way, every start is matched by one reaped job, the owner knows at every moment whether
  a job is under way, and every state handed to a job passes the validation of the network settings.
\<close>

theorem writes_are_serialized:
  "let final = owner_run tx os (gateway_network_owner_init (logged_ops ops) (s, []) seed); log = snd (ow_context final)
   in job_under_way log = Some (job final) \<and> list_all sound_event log"
proof -
  have "jobs_ok (gateway_network_owner_init (logged_ops ops) (s, []) seed)"
    by (auto simp: jobs_ok_def gateway_network_owner_init_def logged_def)
  from owner_run_ok [OF this] show ?thesis by (simp add: jobs_ok_def Let_def)
qed

end
