(* ===== verification/Owner_Ready.thy ===== *)
theory Owner_Ready
  imports Owner_Writes
begin

text \<open>
  When the network owner says that it is ready (\<open>src/network/gateway_network_owner.c\<close>): the interfaces then show the
  addresses of the policy and of the leases, and what becomes of that report once the owner has been stopped.
\<close>

section \<open>Serving a LAN touches its own client only\<close>

definition beside :: "nat \<Rightarrow> 's gateway_network_owner \<Rightarrow> 's gateway_network_owner \<Rightarrow> bool" where
  "beside i a b \<longleftrightarrow> ow_ready b = ow_ready a \<and> policy b = policy a \<and> ow_stopping b = ow_stopping a \<and>
     observed b = observed a \<and> ow_active b = ow_active a \<and> (\<forall>j. j \<noteq> i \<longrightarrow> dhcp b ! j = dhcp a ! j)"

lemma beside_refl [simp]: "beside i a a"
  by (simp add: beside_def)

lemma beside_trans: "beside i a b \<Longrightarrow> beside i b c \<Longrightarrow> beside i a c"
  by (simp add: beside_def)

lemma beside_update [simp]:
  "beside i a (b\<lparr>ow_context := s\<rparr>) = beside i a b" "beside i a (b\<lparr>ow_error := n\<rparr>) = beside i a b"
  "beside i a (b\<lparr>probe_at := p\<rparr>) = beside i a b" "beside i a (b\<lparr>opened := v\<rparr>) = beside i a b"
  "beside i a (b\<lparr>ow_retry_at := r\<rparr>) = beside i a b" "beside i a (b\<lparr>next_xid := x\<rparr>) = beside i a b"
  "beside i a (put_client i d b) = beside i a b"
  by (simp_all add: beside_def put_client_def)

lemma beside_frames: "beside i a b \<Longrightarrow> beside i a (receive_frames n i now b)"
  by (induction n arbitrary: b) (simp_all add: Let_def split_beta)

lemma beside_run: "beside i a b \<Longrightarrow> beside i a (snd (run_client i now b))"
proof -
  assume b: "beside i a b"
  have s: "beside i a c \<Longrightarrow> beside i a (send_pending i now c)" for c by (simp add: send_pending_def Let_def split_beta)
  have p: "beside i a c \<Longrightarrow> beside i a (probe_lease i now c)" for c by (simp add: probe_lease_def Let_def split_beta)
  show ?thesis unfolding run_client_def Let_def using b by (simp add: s p beside_frames)
qed

lemma beside_serve: "beside i a (snd (serve_lan i now a))"
  unfolding serve_lan_def Let_def split_beta by (simp add: beside_run)

lemma served_lan:
  "fst (serve_lan i now a) = Some True \<Longrightarrow>
   lan_mode (lan_of a i) \<noteq> GATEWAY_LAN_DHCP_CLIENT \<or> ow_stopping a \<or> dh_valid (dhcp (snd (serve_lan i now a)) ! i)"
  unfolding serve_lan_def Let_def split_beta by (auto simp: run_client_def Let_def split: if_splits)

section \<open>The target is what the policy and the leases say\<close>

lemma c_string_copy [simp]: "c_string (text_copy src dst) = c_string src"
proof -
  have "takeWhile (\<lambda>c. c \<noteq> NUL) (takeWhile (\<lambda>c. c \<noteq> NUL) src @ NUL # rest) = takeWhile (\<lambda>c. c \<noteq> NUL) src" for rest
    by (induction src) auto
  then show ?thesis by (simp add: text_copy_def c_string_def)
qed

lemma c_string_zero [simp]: "c_string zero_text = []" "c_string [] = []"
  by (simp_all add: zero_text_def c_string_def)

definition lan_as_wanted :: "'s gateway_network_owner \<Rightarrow> nat \<Rightarrow> gateway_lan_observation \<Rightarrow> bool" where
  "lan_as_wanted a i l \<longleftrightarrow> lo_up l = 1 \<and>
     (if lan_mode (lan_of a i) = GATEWAY_LAN_STATIC
      then same_text (lo_address l) (lan_address (lan_of a i)) \<and> same_text (lo_netmask l) (lan_netmask (lan_of a i))
      else if dh_valid (dhcp a ! i)
      then same_text (lo_address l) (dl_address (dh_lease (dhcp a ! i))) \<and> same_text (lo_netmask l) (dl_netmask (dh_lease (dhcp a ! i)))
      else same_text (lo_address l) [] \<and> same_text (lo_netmask l) [])"

lemma wanted_update [simp]:
  "lan_as_wanted (a\<lparr>ow_target := t, resolver := x\<rparr>) i l = lan_as_wanted a i l"
  "lan_as_wanted (a\<lparr>ow_error := n, ow_ready := e, settled := q\<rparr>) i l = lan_as_wanted a i l"
  by (simp_all add: lan_as_wanted_def lan_of_def)

lemma target_lan_wanted:
  assumes "target_lan tx a i t = (True, l)"
  shows "lan_as_wanted a i l"
  using assms
  by (auto simp: target_lan_def lan_as_wanted_def same_text_def Let_def split_beta split: if_splits)

lemma target_lan_ob:
  assumes "target_lans tx a t = (True, t')" "length (ob_lan t) = 2" "i < 2"
  shows "lan_as_wanted a i (ob_lan t' ! i)"
proof -
  obtain k l where l: "target_lan tx a 0 (ob_lan t ! 0) = (k, l)" by fastforce
  obtain q m where m: "target_lan tx a 1 (ob_lan t ! 1) = (q, m)" by fastforce
  have k: "k" "q" "t' = t\<lparr>ob_lan := (ob_lan t)[0 := l, 1 := m]\<rparr>"
    using assms(1) l m by (auto simp: target_lans_def Let_def split: if_splits)
  have "lan_as_wanted a 0 l" "lan_as_wanted a 1 m" using l m k(1,2) target_lan_wanted by (metis (full_types))+
  then show ?thesis using assms(2,3) k(3) by (auto simp: less_2_cases_iff)
qed

lemma target_parts:
  assumes "target tx a = (True, b)" "length (ob_lan (observed a)) = 2" "i < 2"
  shows "lan_as_wanted b i (ob_lan (ow_target b) ! i)"
proof -
  define t0 where "t0 = (observed a)\<lparr>ob_unsupported := 0, ob_default_lan := 0, ob_default_routes := 0, ob_gateway := zero_text\<rparr>"
  obtain k t where t: "target_lans tx a t0 = (k, t)" by fastforce
  have "k" using assms(1) t by (cases k) (simp_all add: target_def Let_def t0_def [symmetric])
  then have w: "lan_as_wanted a i (ob_lan t ! i)" using target_lan_ob [of tx a t0 t i] t assms by (simp add: t0_def)
  have r: "ob_lan (target_route a u) = ob_lan u" for u by (simp add: target_route_def Let_def)
  have d: "ob_lan (fst (snd (target_dns tx a u))) = ob_lan u" for u by (simp add: target_dns_def Let_def split_beta)
  have "b = a\<lparr>ow_target := fst (snd (target_dns tx a (target_route a t))), resolver := snd (snd (target_dns tx a (target_route a t)))\<rparr>"
    using assms(1) t \<open>k\<close> by (simp add: target_def Let_def t0_def [symmetric] split_beta)
  then show ?thesis using w by (simp add: r d)
qed

lemma target_frame:
  "policy (snd (target tx a)) = policy a" "dhcp (snd (target tx a)) = dhcp a" "observed (snd (target tx a)) = observed a"
  "ow_ready (snd (target tx a)) = ow_ready a" "ow_stopping (snd (target tx a)) = ow_stopping a"
  "ow_active (snd (target tx a)) = ow_active a"
  by (simp_all add: target_def Let_def split_beta)

section \<open>Ready\<close>

definition lans_installed :: "'s gateway_network_owner \<Rightarrow> bool" where
  "lans_installed b \<longleftrightarrow> (\<forall>i \<in> {0, 1}. lan_as_wanted b i (ob_lan (observed b) ! i) \<and>
     (lan_mode (lan_of b i) = GATEWAY_LAN_DHCP_CLIENT \<longrightarrow> ow_stopping b \<or> dh_valid (dhcp b ! i)))"

definition ready_ok :: "'s gateway_network_owner \<Rightarrow> bool" where
  "ready_ok b \<longleftrightarrow> same_network (observed b) (ow_target b) \<and> target_checks (ow_target b) \<and> \<not> job b \<and> \<not> dirty b \<and>
     ow_active b \<and> ow_error b = 0 \<and> lans_installed b"

lemma same_as_wanted:
  assumes "lan_as_wanted b i (ob_lan (ow_target b) ! i)" "same_network (observed b) (ow_target b)" "i < 2"
  shows "lan_as_wanted b i (ob_lan (observed b) ! i)"
proof -
  define x y where "x = ob_lan (observed b) ! i" and "y = ob_lan (ow_target b) ! i"
  have "lo_up x = lo_up y" "same_text (lo_address x) (lo_address y)" "same_text (lo_netmask x) (lo_netmask y)"
    using assms(2,3) by (auto simp: same_network_def Let_def less_2_cases_iff x_def y_def)
  then show ?thesis using assms(1) unfolding x_def [symmetric] y_def [symmetric]
    by (auto simp: lan_as_wanted_def same_text_def split: if_splits)
qed

lemma installed_update [simp]: "lans_installed (b\<lparr>ow_error := n, ow_ready := e, settled := q\<rparr>) = lans_installed b"
  by (simp add: lans_installed_def lan_of_def)

lemma poll_not_ready: "ow_ready (poll_job now a) = ow_ready a"
  by (simp add: poll_job_def Let_def split_beta)

lemma step_job_not_ready: "ow_ready (step_job now a) = ow_ready a"
  by (simp add: step_job_def poll_not_ready Let_def split_beta)

lemma step_apply_ready:
  assumes "ow_ready (step_apply now e a)" "\<not> ow_ready a"
  shows "e" "same_network (observed a) (ow_target a)" "\<not> dirty a" "step_apply now e a = a\<lparr>ow_error := 0, ow_ready := e, settled := True\<rparr>"
proof -
  define w where "w = ((dirty a \<or> \<not> same_network (observed a) (ow_target a)) \<and> due now (ow_retry_at a))"
  define q where "q = (same_network (observed a) (ow_target a) \<and> \<not> dirty a)"
  have eq: "step_apply now e a =
      (if w then
         if fst (ow_apply (ow_ops a) (ow_context a) (ow_target a) (resolver a)) \<noteq> 0
         then a\<lparr>ow_context := snd (ow_apply (ow_ops a) (ow_context a) (ow_target a) (resolver a)), ow_error := 8, ow_retry_at := now + 1000\<rparr>
         else a\<lparr>ow_context := snd (ow_apply (ow_ops a) (ow_context a) (ow_target a) (resolver a)), writing := ow_target a,
           job_generation := ow_generation a, job := True, dirty := False, job_deadline := now + 1000\<rparr>
       else if q then a\<lparr>ow_error := 0, ow_ready := e, settled := True\<rparr> else a)"
    unfolding step_apply_def w_def q_def Let_def split_beta by (rule refl | simp)+
  have w: "\<not> w" using assms unfolding eq by (cases w) (simp_all split: if_splits)
  have q: "q" using assms w unfolding eq by (cases q) simp_all
  show "step_apply now e a = a\<lparr>ow_error := 0, ow_ready := e, settled := True\<rparr>" using w q by (simp add: eq)
  then show "e" using assms(1) by simp
  show "same_network (observed a) (ow_target a)" "\<not> dirty a" using q by (simp_all add: q_def)
qed

lemma conflict_not_ready: "ow_ready (conflict_lan now a i) = ow_ready a"
  by (simp add: conflict_lan_def put_client_def Let_def)

lemma outcome_ready:
  assumes "ow_ready (step_outcome tx now e a)" "\<not> ow_ready a" "ow_active a" "length (ob_lan (observed a)) = 2"
    and "\<And>i. i < 2 \<Longrightarrow> e \<Longrightarrow> lan_mode (lan_of a i) \<noteq> GATEWAY_LAN_DHCP_CLIENT \<or> ow_stopping a \<or> dh_valid (dhcp a ! i)"
  shows "ready_ok (step_outcome tx now e a)"
proof -
  obtain r b where r: "step_target tx now e a = (r, b)" by fastforce
  have b: "\<not> ow_ready b" using r assms(2)
    by (auto simp: step_target_def target_frame conflict_not_ready Let_def split_beta split: if_splits)
  obtain e' where e': "r = Some e'" using assms(1) b r by (cases r) (auto simp: step_outcome_def)
  define g where "g = (e' \<and> \<not> (default_lan (pf_settings (policy b)) \<noteq> 0 \<and> ob_default_lan (ow_target b) = 0) \<and>
    \<not> (automatic_dns (pf_settings (policy b)) \<noteq> 0 \<and> ob_dns (ow_target b) ! 0 ! 0 = NUL))"
  have o: "step_outcome tx now e a = (if job b then step_job now b else step_apply now g b)"
    by (simp add: step_outcome_def r e' g_def Let_def)
  then have j: "\<not> job b" "ow_ready (step_apply now g b)" using assms(1) b step_job_not_ready [of now b] by (auto split: if_splits)
  note y = step_apply_ready [OF j(2) b]
  have "e'" using y(1) by (simp add: g_def)
  then have t: "fst (target tx a)" "b = snd (target tx a)" "e"
    using r e' by (auto simp: step_target_def Let_def split_beta split: if_splits)
  have w: "lan_as_wanted b i (ob_lan (ow_target b) ! i)" if "i < 2" for i
    using target_parts [of tx a b i] t assms(4) that by (metis prod.collapse)
  have p: "observed b = observed a" "ow_active b = ow_active a" "target_checks (ow_target b)"
    using target_checked [OF t(1)] by (simp_all add: t(2) target_frame)
  have "lans_installed b"
    unfolding lans_installed_def using w [of 0] w [of 1] same_as_wanted [OF _ y(2)] assms(5) [of 0] assms(5) [of 1] t(3)
    by (auto simp: t(2) target_frame lan_of_def)
  then show ?thesis
    using y(2,3) j(1) assms(3) p by (simp add: ready_ok_def o y(4))
qed

lemma lans_ready:
  assumes "ow_ready (step_lans tx now a)" "\<not> ow_ready a" "ow_active a" "length (ob_lan (observed a)) = 2"
  shows "ready_ok (step_lans tx now a)"
proof -
  obtain r b where r: "serve_lan 0 now a = (r, b)" by fastforce
  obtain q c where q: "serve_lan 1 now b = (q, c)" by fastforce
  have b: "beside 0 a b" using beside_serve [of 0 a now] r by simp
  have c: "beside 1 b c" using beside_serve [of 1 b now] q by simp
  have nb: "\<not> ow_ready b" "\<not> ow_ready c" using b c assms(2) by (simp_all add: beside_def)
  obtain e0 where e0: "r = Some e0" using assms(1) nb r by (cases r) (auto simp: step_lans_def)
  obtain e1 where e1: "q = Some e1" using assms(1) nb r q e0 by (cases q) (auto simp: step_lans_def)
  have s: "step_lans tx now a = step_outcome tx now (e0 \<and> e1) c" using q by (simp add: step_lans_def r e0 e1)
  have "lan_mode (lan_of c i) \<noteq> GATEWAY_LAN_DHCP_CLIENT \<or> ow_stopping c \<or> dh_valid (dhcp c ! i)" if "i < 2" "e0 \<and> e1" for i
  proof -
    have "lan_mode (lan_of a 0) \<noteq> GATEWAY_LAN_DHCP_CLIENT \<or> ow_stopping a \<or> dh_valid (dhcp b ! 0)"
      using served_lan [of 0 now a] r e0 that(2) by simp
    moreover have "lan_mode (lan_of b 1) \<noteq> GATEWAY_LAN_DHCP_CLIENT \<or> ow_stopping b \<or> dh_valid (dhcp c ! 1)"
      using served_lan [of 1 now b] q e1 that(2) by simp
    ultimately show ?thesis using b c that(1) by (auto simp: beside_def lan_of_def less_2_cases_iff)
  qed
  then show ?thesis
    using outcome_ready [of tx now "e0 \<and> e1" c] s assms b c by (simp add: beside_def)
qed

lemma observe_failed_not_ready: "ow_ready (observe_failed a) = ow_ready a"
  by (simp add: observe_failed_def Let_def split_beta)

lemma expire_frame: "ow_ready (expire_lease now a i) = ow_ready a" "ow_active (expire_lease now a i) = ow_active a"
  "observed (expire_lease now a i) = observed a"
  by (simp_all add: expire_lease_def Let_def)

text \<open>
  C18. If a step leaves an active owner ready, then no job is under way, nothing is left to write, the error is cleared, what it
  observed passes as its target and that target passes the validation; every interface is up and shows exactly the
  address and mask of the policy where the LAN is static and of the lease in use where it runs DHCP, and every LAN that
  asks for DHCP has a lease in use, unless the owner has been stopped.
\<close>

theorem ready_means_installed:
  assumes "ow_active a" "ow_ready (gateway_network_owner_step tx a now)"
    and "length (ob_lan (observed a)) = 2" "length (ob_lan (fst (snd (ow_observe (ow_ops a) (ow_context a))))) = 2"
  shows "ready_ok (gateway_network_owner_step tx a now)"
proof -
  define b where "b = foldl (expire_lease now) (a\<lparr>ow_ready := False, settled := False\<rparr>) [0, 1]"
  define c where "c = b\<lparr>observed := fst (snd (ow_observe (ow_ops b) (ow_context b))),
    ow_context := snd (snd (ow_observe (ow_ops b) (ow_context b)))\<rparr>"
  define bad where "bad = (fst (ow_observe (ow_ops b) (ow_context b)) \<noteq> 0 \<or> ob_unsupported (observed c) \<noteq> 0)"
  have b: "\<not> ow_ready b" "ow_active b" "observed b = observed a" "ow_ops b = ow_ops a" "ow_context b = ow_context a"
    using assms(1) by (simp_all add: b_def expire_frame) (simp_all add: expire_lease_def Let_def)
  have eq: "gateway_network_owner_step tx a now =
      (if due now (next_observe b) then if bad then observe_failed c else step_lans tx now (c\<lparr>next_observe := now + 250\<rparr>)
       else step_lans tx now b)"
    using assms(1) unfolding gateway_network_owner_step_def Let_def split_beta b_def [symmetric] by (simp add: c_def bad_def)
  have c: "\<not> ow_ready c" "ow_active c" "length (ob_lan (observed c)) = 2" using b assms(4) by (simp_all add: c_def)
  have f: "\<not> ow_ready (observe_failed c)" using c(1) by (simp add: observe_failed_not_ready)
  show ?thesis
    using assms(2,3) b c f lans_ready [of tx now b] lans_ready [of tx now "c\<lparr>next_observe := now + 250\<rparr>"]
    unfolding eq by (auto split: if_splits)
qed

section \<open>An owner on an interface that keeps what is written\<close>

definition kernel_ops :: "gateway_network_observation gateway_network_owner_ops" where
  "kernel_ops = \<lparr>ow_observe = \<lambda>s. (0, s, s), ow_open = \<lambda>s i. (0, s), ow_close = \<lambda>s i. s,
     ow_receive = \<lambda>s i n. (0, [], s), ow_send = \<lambda>s i d now. (- 1, d, s), ow_probe = \<lambda>s i d an. (0, s),
     ow_apply = \<lambda>s t text. (0, t), ow_poll = \<lambda>s. (1, s), ow_cancel = \<lambda>s. (0, s)\<rparr>"

definition plain_texts :: network_texts where
  "plain_texts = \<lparr>broadcast_text = \<lambda>p i b. (0, if i = 0 then text16 ''192.168.1.255'' else text16 ''10.255.255.255''),
     resolver_text = \<lambda>r dns text. (0, r)\<rparr>"

definition plain_lan :: "string \<Rightarrow> string \<Rightarrow> string \<Rightarrow> gateway_lan_observation" where
  "plain_lan a m b = \<lparr>lo_present = 1, lo_up = 1, lo_link = 1, lo_mac = [2, 0, 0, 0, 0, 1], lo_address = a, lo_netmask = m,
     lo_broadcast = b\<rparr>"

definition dhcp_profile :: gateway_network_profile where
  "dhcp_profile = \<lparr>pf_settings = gateway_network_settings_init\<lparr>lan := replicate 2 \<lparr>lan_mode = GATEWAY_LAN_DHCP_CLIENT,
       lan_address = zero_text, lan_netmask = zero_text, lan_gateway = zero_text\<rparr>\<rparr>,
     pf_affinity = replicate 8 0, pf_original_bind = replicate 8 zero_text, pf_interfaces = [], pf_resolver = []\<rparr>"

text \<open>An owner with fixed addresses, on a network that shows them.\<close>

definition installed_network :: gateway_network_observation where
  "installed_network = \<lparr>ob_lan = [plain_lan (text16 ''192.168.1.2'') (text16 ''255.255.255.0'') (text16 ''192.168.1.255''),
       plain_lan (text16 ''10.0.0.2'') (text16 ''255.0.0.0'') (text16 ''10.255.255.255'')],
     ob_unsupported = 0, ob_default_lan = 1, ob_default_routes = 1, ob_gateway = text16 ''192.168.1.1'',
     ob_dns = [zero_text, zero_text]\<rparr>"

definition static_sample :: "gateway_network_observation gateway_network_owner" where
  "static_sample = (gateway_network_owner_init kernel_ops installed_network 1)
     \<lparr>policy := dhcp_profile\<lparr>pf_settings := sample_settings\<rparr>, observed := installed_network, ow_active := True\<rparr>"

lemma static_sample_active: "ow_active static_sample" "length (ob_lan (observed static_sample)) = 2"
    "length (ob_lan (fst (snd (ow_observe (ow_ops static_sample) (ow_context static_sample))))) = 2"
  by (simp_all add: static_sample_def installed_network_def gateway_network_owner_init_def kernel_ops_def)

lemma static_sample_ready: "ow_ready (gateway_network_owner_step plain_texts static_sample 0)"
  by code_simp

theorem ready_means_installed_witness: "ready_ok (gateway_network_owner_step plain_texts static_sample 0)"
  by (rule ready_means_installed [OF static_sample_active(1) static_sample_ready static_sample_active(2, 3)])

end
