(* ===== verification/Gateway_Coordinator.thy ===== *)
theory Gateway_Coordinator
  imports Gateway_Lifecycle
begin

text \<open>
  The coordinator of \<open>src/gateway/gateway_coordinator.c\<close>: the staged start-up of the gateway, one stage a step, its
  event ring and progress, the orderly shutdown, and the health report; with the settings and the safe mode of
  \<open>src/config/gateway_persistence.c\<close>. The functions it is given (configuration selection, binding provider,
  attachment, controller driver) are parameters with states of their own. \<open>long\<close> has 32 bits.
\<close>

abbreviation GATEWAY_STARTUP_PROGRESS_TOTAL :: nat where "GATEWAY_STARTUP_PROGRESS_TOTAL \<equiv> 14"
abbreviation GATEWAY_STARTUP_EVENT_CAPACITY :: nat where "GATEWAY_STARTUP_EVENT_CAPACITY \<equiv> 16"
abbreviation GATEWAY_COORDINATOR_SHUTDOWN_TIMEOUT :: tick where "GATEWAY_COORDINATOR_SHUTDOWN_TIMEOUT \<equiv> 2000"
abbreviation GATEWAY_NO_PORT :: u32 where "GATEWAY_NO_PORT \<equiv> 0xffffffff"

section \<open>The persistent configuration\<close>

record gateway_product_settings =
  web_protocol :: u32
  web_enabled :: u32
  web_interface :: u32
  backlight_on :: u32
  ntp_enabled :: int
  ntp_interval_hours :: u32
  ntp_server :: string

record gateway_persistent_config =
  schema_version :: u32
  product_settings :: gateway_product_settings
  config_ports :: "gateway_port_config list"

datatype gateway_config_result =
  GATEWAY_CONFIG_OK | GATEWAY_CONFIG_ABSENT | GATEWAY_CONFIG_INVALID | GATEWAY_CONFIG_UNSUPPORTED_VERSION
| GATEWAY_CONFIG_IO_ERROR | GATEWAY_CONFIG_UNCHANGED | GATEWAY_CONFIG_DURABILITY_UNCERTAIN

datatype gateway_config_source =
  GATEWAY_CONFIG_SOURCE_ACTIVE | GATEWAY_CONFIG_SOURCE_BACKUP | GATEWAY_CONFIG_SOURCE_DEFAULTS
| GATEWAY_CONFIG_SOURCE_SAFE_MODE

definition gateway_persistent_defaults :: gateway_persistent_config where
  "gateway_persistent_defaults = \<lparr>schema_version = 1,
     product_settings = \<lparr>web_protocol = 1, web_enabled = 0, web_interface = 0, backlight_on = 1, ntp_enabled = 0,
       ntp_interval_hours = 1, ntp_server = []\<rparr>,
     config_ports = gateway_configuration_defaults\<rparr>"

definition gateway_persistent_safe_mode :: gateway_persistent_config where
  "gateway_persistent_safe_mode = gateway_persistent_defaults\<lparr>
     config_ports := map (\<lambda>p. p\<lparr>gc_enabled := 0\<rparr>) (config_ports gateway_persistent_defaults)\<rparr>"

section \<open>The coordinator\<close>

datatype gateway_application_state =
  GATEWAY_APP_BOOTSTRAP | GATEWAY_APP_LOADING_CONFIGURATION | GATEWAY_APP_SELECTING_CONFIGURATION
| GATEWAY_APP_VALIDATING_CONFIGURATION | GATEWAY_APP_INITIALIZING_CONTROLLER | GATEWAY_APP_STARTING_PORTS
| GATEWAY_APP_CHECKING_HEALTH | GATEWAY_APP_READY | GATEWAY_APP_DEGRADED | GATEWAY_APP_SAFE_MODE
| GATEWAY_APP_SHUTTING_DOWN | GATEWAY_APP_STOPPED | GATEWAY_APP_FATAL_ERROR

datatype gateway_application_error =
  GATEWAY_APP_ERROR_NONE | GATEWAY_APP_ERROR_CONFIG_INVALID | GATEWAY_APP_ERROR_CONFIG_UNSUPPORTED
| GATEWAY_APP_ERROR_STORAGE_IO | GATEWAY_APP_ERROR_BINDING_INIT | GATEWAY_APP_ERROR_CONTROLLER_INIT
| GATEWAY_APP_ERROR_PORT_START | GATEWAY_APP_ERROR_SHUTDOWN_INCOMPLETE

datatype gateway_startup_event_result =
  GATEWAY_EVENT_BEGIN | GATEWAY_EVENT_OK | GATEWAY_EVENT_RECOVERED | GATEWAY_EVENT_SKIPPED | GATEWAY_EVENT_FAILED
| GATEWAY_EVENT_COMPLETE

record gateway_startup_event =
  ev_sequence :: u32
  ev_stage :: gateway_application_state
  ev_result :: gateway_startup_event_result
  ev_progress_numerator :: nat
  ev_progress_denominator :: nat
  ev_progress_percent :: nat
  ev_port_index :: u32
  ev_error :: gateway_application_error

record ('b, 'c, 't) gateway_controller_driver =
  dr_init :: "('b, 'c, 't) gateway_controller \<Rightarrow> gateway_port_config list \<Rightarrow> ('b, 'c, 't) gateway_port_binding list \<Rightarrow>
    int \<times> ('b, 'c, 't) gateway_controller"
  dr_start :: "('b, 'c, 't) gateway_controller \<Rightarrow> tick \<Rightarrow> ('b, 'c, 't) gateway_controller"
  dr_step :: "('b, 'c, 't) gateway_controller \<Rightarrow> tick \<Rightarrow> ('b, 'c, 't) gateway_controller"
  dr_shutdown :: "('b, 'c, 't) gateway_controller \<Rightarrow> tick \<Rightarrow> ('b, 'c, 't) gateway_controller"
  dr_health :: "('b, 'c, 't) gateway_controller \<Rightarrow> gateway_health"

text \<open>\<open>'x\<close> is the state behind \<open>select_context\<close>, \<open>'p\<close> the one behind \<open>binding_context\<close>.\<close>

record ('b, 'c, 't, 'x, 'p) gateway_coordinator =
  co_controller :: "('b, 'c, 't) gateway_controller"
  co_selected :: gateway_persistent_config
  co_bindings :: "('b, 'c, 't) gateway_port_binding list"
  co_state :: gateway_application_state
  co_error :: gateway_application_error
  co_config_source :: gateway_config_source
  co_persistence_result :: gateway_config_result
  select_configuration :: "'x \<Rightarrow> string \<Rightarrow> gateway_persistent_config \<times> gateway_config_source \<Rightarrow>
    gateway_config_result \<times> (gateway_persistent_config \<times> gateway_config_source) \<times> 'x"
  select_context :: 'x
  provide_bindings :: "'p \<Rightarrow> gateway_port_config list \<Rightarrow> int \<times> ('b, 'c, 't) gateway_port_binding list \<times> 'p"
  attach_bindings :: "('p \<Rightarrow> ('b, 'c, 't) gateway_controller \<Rightarrow> int \<times> ('b, 'c, 't) gateway_controller \<times> 'p) option"
  binding_context :: 'p
  controller_driver :: "('b, 'c, 't) gateway_controller_driver"
  run_control :: "bool option"
  configuration_directory :: string
  co_events :: "gateway_startup_event list"
  event_head :: nat
  event_count :: nat
  event_sequence :: u32
  progress_numerator :: nat
  startup_ports_complete :: u32
  controller_initialized :: bool
  controller_start_called :: bool
  controller_shutdown_called :: bool
  cleanup_complete :: bool
  started_at :: tick
  shutdown_deadline :: tick

definition percent :: "nat \<Rightarrow> nat" where
  "percent n = (if n \<ge> GATEWAY_STARTUP_PROGRESS_TOTAL then 100 else n * 100 div GATEWAY_STARTUP_PROGRESS_TOTAL)"

definition emit ::
  "('b, 'c, 't, 'x, 'p) gateway_coordinator \<Rightarrow> gateway_application_state \<Rightarrow> gateway_startup_event_result \<Rightarrow> u32 \<Rightarrow>
   gateway_application_error \<Rightarrow> ('b, 'c, 't, 'x, 'p) gateway_coordinator"
where
  "emit c stage result port err =
     (let (slot, c) = (if event_count c < GATEWAY_STARTUP_EVENT_CAPACITY
            then ((event_head c + event_count c) mod GATEWAY_STARTUP_EVENT_CAPACITY, c\<lparr>event_count := event_count c + 1\<rparr>)
            else (event_head c, c\<lparr>event_head := (event_head c + 1) mod GATEWAY_STARTUP_EVENT_CAPACITY\<rparr>));
          c = (if event_sequence c \<noteq> 0xffffffff then c\<lparr>event_sequence := event_sequence c + 1\<rparr> else c)
      in c\<lparr>co_events := (co_events c)[slot := \<lparr>ev_sequence = event_sequence c, ev_stage = stage, ev_result = result,
            ev_progress_numerator = progress_numerator c, ev_progress_denominator = GATEWAY_STARTUP_PROGRESS_TOTAL,
            ev_progress_percent = percent (progress_numerator c), ev_port_index = port, ev_error = err\<rparr>]\<rparr>)"

definition advance ::
  "('b, 'c, 't, 'x, 'p) gateway_coordinator \<Rightarrow> gateway_application_state \<Rightarrow> gateway_startup_event_result \<Rightarrow>
   ('b, 'c, 't, 'x, 'p) gateway_coordinator"
where
  "advance c next result =
     (let c = (if progress_numerator c < GATEWAY_STARTUP_PROGRESS_TOTAL
               then c\<lparr>progress_numerator := progress_numerator c + 1\<rparr> else c);
          c = c\<lparr>co_state := next\<rparr>
      in emit c next result GATEWAY_NO_PORT (co_error c))"

definition terminal_port :: "gateway_port_lifecycle \<Rightarrow> bool" where
  "terminal_port s \<longleftrightarrow> s = GATEWAY_PORT_READY \<or> s = GATEWAY_PORT_NETWORK_WAIT \<or> s = GATEWAY_PORT_DISABLED \<or>
     s = GATEWAY_PORT_DEGRADED \<or> s = GATEWAY_PORT_ERROR"

definition config_error :: "gateway_config_result \<Rightarrow> gateway_application_error" where
  "config_error r = (if r = GATEWAY_CONFIG_IO_ERROR then GATEWAY_APP_ERROR_STORAGE_IO
     else if r = GATEWAY_CONFIG_UNSUPPORTED_VERSION then GATEWAY_APP_ERROR_CONFIG_UNSUPPORTED
     else GATEWAY_APP_ERROR_CONFIG_INVALID)"

text \<open>The driver of the code; \<open>cs\<close> gives the states behind the completion contexts the controller is set up with.\<close>

definition default_driver :: "'c list \<Rightarrow> ('b, 'c, 't) gateway_controller_driver" where
  "default_driver cs = \<lparr>dr_init = \<lambda>c ports bindings. gateway_controller_init ports bindings cs,
     dr_start = gateway_controller_start, dr_step = gateway_controller_step, dr_shutdown = gateway_controller_shutdown,
     dr_health = gateway_controller_health\<rparr>"

definition gateway_run_control_request_stop ::
  "('b, 'c, 't, 'x, 'p) gateway_coordinator \<Rightarrow> ('b, 'c, 't, 'x, 'p) gateway_coordinator" where
  "gateway_run_control_request_stop c = c\<lparr>run_control := map_option (\<lambda>_. True) (run_control c)\<rparr>"

definition zero_startup_event :: gateway_startup_event where
  "zero_startup_event = \<lparr>ev_sequence = 0, ev_stage = GATEWAY_APP_BOOTSTRAP, ev_result = GATEWAY_EVENT_BEGIN,
     ev_progress_numerator = 0, ev_progress_denominator = 0, ev_progress_percent = 0, ev_port_index = 0,
     ev_error = GATEWAY_APP_ERROR_NONE\<rparr>"

definition zero_persistent :: gateway_persistent_config where
  "zero_persistent = \<lparr>schema_version = 0, product_settings = \<lparr>web_protocol = 0, web_enabled = 0, web_interface = 0,
     backlight_on = 0, ntp_enabled = 0, ntp_interval_hours = 0, ntp_server = []\<rparr>,
     config_ports = replicate GATEWAY_PORT_COUNT zero_config\<rparr>"

text \<open>\<open>ctl\<close> and \<open>bs\<close> stand for the cleared controller and bindings, which nothing reads before they are set up.\<close>

definition gateway_coordinator_init where
  "gateway_coordinator_init ctl bs directory control select sctx provide attach bctx driver now =
     (let c = \<lparr>co_controller = ctl, co_selected = zero_persistent, co_bindings = bs, co_state = GATEWAY_APP_BOOTSTRAP,
        co_error = GATEWAY_APP_ERROR_NONE, co_config_source = GATEWAY_CONFIG_SOURCE_SAFE_MODE,
        co_persistence_result = GATEWAY_CONFIG_INVALID, select_configuration = select, select_context = sctx,
        provide_bindings = provide, attach_bindings = attach, binding_context = bctx, controller_driver = driver,
        run_control = control, configuration_directory = directory,
        co_events = replicate GATEWAY_STARTUP_EVENT_CAPACITY zero_startup_event, event_head = 0, event_count = 0,
        event_sequence = 0, progress_numerator = 0, startup_ports_complete = 0, controller_initialized = False,
        controller_start_called = False, controller_shutdown_called = False, cleanup_complete = False,
        started_at = now, shutdown_deadline = 0\<rparr>
      in emit c (co_state c) GATEWAY_EVENT_BEGIN GATEWAY_NO_PORT GATEWAY_APP_ERROR_NONE)"

section \<open>Shutdown\<close>

definition begin_shutdown ::
  "('b, 'c, 't, 'x, 'p) gateway_coordinator \<Rightarrow> tick \<Rightarrow> ('b, 'c, 't, 'x, 'p) gateway_coordinator" where
  "begin_shutdown c now =
     (if co_state c = GATEWAY_APP_STOPPED \<or> co_state c = GATEWAY_APP_SHUTTING_DOWN then c
      else
        let c = c\<lparr>co_state := GATEWAY_APP_SHUTTING_DOWN, shutdown_deadline := now + GATEWAY_COORDINATOR_SHUTDOWN_TIMEOUT\<rparr>;
            c = emit c (co_state c) GATEWAY_EVENT_BEGIN GATEWAY_NO_PORT (co_error c);
            c = (if controller_initialized c \<and> \<not> controller_shutdown_called c
                 then c\<lparr>co_controller := dr_shutdown (controller_driver c) (co_controller c) now, controller_shutdown_called := True\<rparr>
                 else c)
        in if \<not> controller_initialized c
           then let c = c\<lparr>cleanup_complete := True, co_state := GATEWAY_APP_STOPPED\<rparr>
                in emit c (co_state c) GATEWAY_EVENT_COMPLETE GATEWAY_NO_PORT (co_error c)
           else c)"

definition gateway_coordinator_request_shutdown ::
  "('b, 'c, 't, 'x, 'p) gateway_coordinator \<Rightarrow> tick \<Rightarrow> ('b, 'c, 't, 'x, 'p) gateway_coordinator" where
  "gateway_coordinator_request_shutdown c now = begin_shutdown c now"

definition unfinished :: "('b, 'c, 't) gateway_controller \<Rightarrow> bool" where
  "unfinished ctl \<longleftrightarrow>
     list_ex (\<lambda>i. lifecycle (ctl_ports ctl ! i) = GATEWAY_PORT_STOPPING \<or> listener_owned (ctl_ports ctl ! i)) [0..<GATEWAY_PORT_COUNT]"

definition step_shutting_down ::
  "('b, 'c, 't, 'x, 'p) gateway_coordinator \<Rightarrow> tick \<Rightarrow> ('b, 'c, 't, 'x, 'p) gateway_coordinator" where
  "step_shutting_down c now =
     (let c = (if controller_initialized c then c\<lparr>co_controller := dr_step (controller_driver c) (co_controller c) now\<rparr> else c) in
      if \<not> unfinished (co_controller c) then
        let c = c\<lparr>cleanup_complete := True, co_state := GATEWAY_APP_STOPPED\<rparr>
        in emit c (co_state c) GATEWAY_EVENT_COMPLETE GATEWAY_NO_PORT (co_error c)
      else if now - shutdown_deadline c < 0x80000000 then
        let c = c\<lparr>co_error := GATEWAY_APP_ERROR_SHUTDOWN_INCOMPLETE, co_state := GATEWAY_APP_STOPPED\<rparr>
        in emit c (co_state c) GATEWAY_EVENT_FAILED GATEWAY_NO_PORT (co_error c)
      else c)"

section \<open>The stages of the start\<close>

definition fatal ::
  "('b, 'c, 't, 'x, 'p) gateway_coordinator \<Rightarrow> gateway_application_error \<Rightarrow> ('b, 'c, 't, 'x, 'p) gateway_coordinator" where
  "fatal c err =
     (let c = c\<lparr>co_error := err, co_state := GATEWAY_APP_FATAL_ERROR, progress_numerator := GATEWAY_STARTUP_PROGRESS_TOTAL\<rparr>
      in emit c (co_state c) GATEWAY_EVENT_FAILED GATEWAY_NO_PORT (co_error c))"

definition step_loading ::
  "('b, 'c, 't, 'x, 'p) gateway_coordinator \<Rightarrow> ('b, 'c, 't, 'x, 'p) gateway_coordinator" where
  "step_loading c =
     (let (r, (selected, source), x) =
            select_configuration c (select_context c) (configuration_directory c) (co_selected c, co_config_source c);
          c = c\<lparr>co_persistence_result := r, co_selected := selected, co_config_source := source, select_context := x\<rparr>;
          c = (if r \<noteq> GATEWAY_CONFIG_OK \<and> r \<noteq> GATEWAY_CONFIG_ABSENT
               then c\<lparr>co_error := config_error r, co_selected := gateway_persistent_safe_mode,
                      co_config_source := GATEWAY_CONFIG_SOURCE_SAFE_MODE\<rparr> else c)
      in advance c GATEWAY_APP_SELECTING_CONFIGURATION
           (if co_config_source c = GATEWAY_CONFIG_SOURCE_BACKUP then GATEWAY_EVENT_RECOVERED else GATEWAY_EVENT_OK))"

definition step_validating ::
  "('b, 'c, 't, 'x, 'p) gateway_coordinator \<Rightarrow> ('b, 'c, 't, 'x, 'p) gateway_coordinator" where
  "step_validating c =
     (let c = (if fst (gateway_configuration_validate (config_ports (co_selected c))) \<noteq> 0
               then c\<lparr>co_error := GATEWAY_APP_ERROR_CONFIG_INVALID, co_config_source := GATEWAY_CONFIG_SOURCE_SAFE_MODE,
                      co_selected := gateway_persistent_safe_mode\<rparr> else c)
      in advance c GATEWAY_APP_INITIALIZING_CONTROLLER
           (if co_config_source c = GATEWAY_CONFIG_SOURCE_SAFE_MODE then GATEWAY_EVENT_RECOVERED else GATEWAY_EVENT_OK))"

definition step_initializing ::
  "('b, 'c, 't, 'x, 'p) gateway_coordinator \<Rightarrow> tick \<Rightarrow> ('b, 'c, 't, 'x, 'p) gateway_coordinator" where
  "step_initializing c now =
     (let (r, bs, x) = provide_bindings c (binding_context c) (config_ports (co_selected c));
          c = c\<lparr>co_bindings := bs, binding_context := x\<rparr> in
      if r \<noteq> 0 then fatal c GATEWAY_APP_ERROR_BINDING_INIT
      else
        let (r, ctl) = dr_init (controller_driver c) (co_controller c) (config_ports (co_selected c)) bs;
            c = c\<lparr>co_controller := ctl\<rparr> in
        if r \<noteq> 0 then fatal c GATEWAY_APP_ERROR_CONTROLLER_INIT
        else
          let c = c\<lparr>controller_initialized := True\<rparr>;
              (r, ctl, x) = (case attach_bindings c of None \<Rightarrow> (0, co_controller c, binding_context c)
                             | Some attach \<Rightarrow> attach (binding_context c) (co_controller c));
              c = c\<lparr>co_controller := ctl, binding_context := x\<rparr> in
          if r \<noteq> 0 then fatal c GATEWAY_APP_ERROR_BINDING_INIT
          else advance (c\<lparr>co_controller := dr_start (controller_driver c) (co_controller c) now, controller_start_called := True\<rparr>)
                 GATEWAY_APP_STARTING_PORTS GATEWAY_EVENT_OK)"

text \<open>The loop over the ports that have come to rest for the first time.\<close>

definition startup_port ::
  "('b, 'c, 't, 'x, 'p) gateway_coordinator \<Rightarrow> nat \<Rightarrow> ('b, 'c, 't, 'x, 'p) gateway_coordinator" where
  "startup_port c i =
     (let lc = lifecycle (ctl_ports (co_controller c) ! i) in
      if \<not> bit (startup_ports_complete c) i \<and> terminal_port lc then
        let c = c\<lparr>startup_ports_complete := startup_ports_complete c OR push_bit i 1\<rparr>;
            c = (if progress_numerator c < 13 then c\<lparr>progress_numerator := progress_numerator c + 1\<rparr> else c)
        in emit c GATEWAY_APP_STARTING_PORTS
             (if lc = GATEWAY_PORT_READY then GATEWAY_EVENT_OK
              else if lc = GATEWAY_PORT_DISABLED then GATEWAY_EVENT_SKIPPED else GATEWAY_EVENT_FAILED)
             (of_nat i)
             (if lc = GATEWAY_PORT_ERROR \<or> lc = GATEWAY_PORT_DEGRADED then GATEWAY_APP_ERROR_PORT_START else GATEWAY_APP_ERROR_NONE)
      else c)"

definition startup_ports ::
  "('b, 'c, 't, 'x, 'p) gateway_coordinator \<Rightarrow> tick \<Rightarrow> ('b, 'c, 't, 'x, 'p) gateway_coordinator" where
  "startup_ports c now =
     (let c = c\<lparr>co_controller := dr_step (controller_driver c) (co_controller c) now\<rparr>;
          c = foldl startup_port c [0..<GATEWAY_PORT_COUNT]
      in if startup_ports_complete c = 0xff
         then let c = c\<lparr>co_state := GATEWAY_APP_CHECKING_HEALTH\<rparr>
              in emit c (co_state c) GATEWAY_EVENT_BEGIN GATEWAY_NO_PORT (co_error c)
         else c)"

definition step_checking ::
  "('b, 'c, 't, 'x, 'p) gateway_coordinator \<Rightarrow> ('b, 'c, 't, 'x, 'p) gateway_coordinator" where
  "step_checking c =
     (let h = dr_health (controller_driver c) (co_controller c);
          c = c\<lparr>progress_numerator := GATEWAY_STARTUP_PROGRESS_TOTAL\<rparr>;
          c = (if co_config_source c = GATEWAY_CONFIG_SOURCE_SAFE_MODE then c\<lparr>co_state := GATEWAY_APP_SAFE_MODE\<rparr>
               else if enabled_ports h = ready_ports h then c\<lparr>co_state := GATEWAY_APP_READY\<rparr>
               else c\<lparr>co_state := GATEWAY_APP_DEGRADED, co_error := GATEWAY_APP_ERROR_PORT_START\<rparr>)
      in emit c (co_state c) GATEWAY_EVENT_COMPLETE GATEWAY_NO_PORT (co_error c))"

definition gateway_coordinator_step ::
  "('b, 'c, 't, 'x, 'p) gateway_coordinator \<Rightarrow> tick \<Rightarrow> ('b, 'c, 't, 'x, 'p) gateway_coordinator" where
  "gateway_coordinator_step c now =
     (let c = (if run_control c = Some True then begin_shutdown c now else c) in
      case co_state c of
        GATEWAY_APP_BOOTSTRAP \<Rightarrow> advance c GATEWAY_APP_LOADING_CONFIGURATION GATEWAY_EVENT_OK
      | GATEWAY_APP_LOADING_CONFIGURATION \<Rightarrow> step_loading c
      | GATEWAY_APP_SELECTING_CONFIGURATION \<Rightarrow> advance c GATEWAY_APP_VALIDATING_CONFIGURATION GATEWAY_EVENT_OK
      | GATEWAY_APP_VALIDATING_CONFIGURATION \<Rightarrow> step_validating c
      | GATEWAY_APP_INITIALIZING_CONTROLLER \<Rightarrow> step_initializing c now
      | GATEWAY_APP_STARTING_PORTS \<Rightarrow> startup_ports c now
      | GATEWAY_APP_CHECKING_HEALTH \<Rightarrow> step_checking c
      | GATEWAY_APP_READY \<Rightarrow> c\<lparr>co_controller := dr_step (controller_driver c) (co_controller c) now\<rparr>
      | GATEWAY_APP_DEGRADED \<Rightarrow> c\<lparr>co_controller := dr_step (controller_driver c) (co_controller c) now\<rparr>
      | GATEWAY_APP_SAFE_MODE \<Rightarrow> c\<lparr>co_controller := dr_step (controller_driver c) (co_controller c) now\<rparr>
      | GATEWAY_APP_SHUTTING_DOWN \<Rightarrow> step_shutting_down c now
      | _ \<Rightarrow> c)"

text \<open>The event with the given number, oldest first.\<close>

definition gateway_coordinator_event ::
  "('b, 'c, 't, 'x, 'p) gateway_coordinator \<Rightarrow> nat \<Rightarrow> gateway_startup_event option" where
  "gateway_coordinator_event c index =
     (if index \<ge> event_count c then None
      else Some (co_events c ! ((event_head c + index) mod GATEWAY_STARTUP_EVENT_CAPACITY)))"

section \<open>Health\<close>

record coordinator_health =
  ch_state :: gateway_application_state
  ch_config_source :: gateway_config_source
  ch_persistence_result :: gateway_config_result
  ch_error :: gateway_application_error
  ch_progress_percent :: nat
  ch_enabled_ports :: u32
  ch_ready_ports :: u32
  ch_error_ports :: nat
  ch_disabled_ports :: nat
  ch_clients :: u32
  ch_accepted :: u32
  ch_completed :: u32
  ch_timeouts :: u32
  ch_recoveries :: u32
  ch_stale_responses :: u32
  ch_started_at :: tick
  ch_uptime :: tick
  ch_last_event :: gateway_startup_event
  ch_gateway :: "gateway_health option"
  ch_controller_initialized :: bool
  ch_cleanup_complete :: bool

definition add_port_health :: "coordinator_health \<Rightarrow> gateway_port_health \<Rightarrow> coordinator_health" where
  "add_port_health h p = h\<lparr>
     ch_disabled_ports := (if ph_lifecycle p = GATEWAY_PORT_DISABLED then ch_disabled_ports h + 1 else ch_disabled_ports h),
     ch_error_ports := (if ph_lifecycle p = GATEWAY_PORT_ERROR \<or> ph_lifecycle p = GATEWAY_PORT_DEGRADED
       then ch_error_ports h + 1 else ch_error_ports h),
     ch_timeouts := add_counter (ch_timeouts h) (timeouts (ph_transactions p)),
     ch_recoveries := add_counter (ch_recoveries h) (recoveries (ph_transactions p)),
     ch_stale_responses := add_counter (ch_stale_responses h) (stale_responses (ph_transactions p))\<rparr>"

text \<open>The report of the controller is \<open>None\<close> where the code leaves it cleared.\<close>

definition gateway_coordinator_health ::
  "('b, 'c, 't, 'x, 'p) gateway_coordinator \<Rightarrow> tick \<Rightarrow> coordinator_health" where
  "gateway_coordinator_health c now =
     (let last = (if event_count c \<noteq> 0 then gateway_coordinator_event c (event_count c - 1) else None);
          h = \<lparr>ch_state = co_state c, ch_config_source = co_config_source c, ch_persistence_result = co_persistence_result c,
            ch_error = co_error c, ch_progress_percent = percent (progress_numerator c), ch_enabled_ports = 0,
            ch_ready_ports = 0, ch_error_ports = 0, ch_disabled_ports = 0, ch_clients = 0, ch_accepted = 0,
            ch_completed = 0, ch_timeouts = 0, ch_recoveries = 0, ch_stale_responses = 0, ch_started_at = started_at c,
            ch_uptime = now - started_at c, ch_last_event = (case last of None \<Rightarrow> zero_startup_event | Some e \<Rightarrow> e),
            ch_gateway = None, ch_controller_initialized = controller_initialized c, ch_cleanup_complete = cleanup_complete c\<rparr>
      in if \<not> controller_initialized c then h
         else
           let g = dr_health (controller_driver c) (co_controller c) in
           foldl add_port_health
             (h\<lparr>ch_gateway := Some g, ch_enabled_ports := enabled_ports g, ch_ready_ports := ready_ports g,
                ch_clients := active_clients g, ch_accepted := accepted_transactions g, ch_completed := completed_transactions g\<rparr>)
             (map (\<lambda>i. health_ports g ! i) [0..<GATEWAY_PORT_COUNT]))"

end
