(* ===== verification/Coordinator_Startup.thy ===== *)
theory Coordinator_Startup
  imports Gateway_Coordinator
begin

text \<open>
  What the coordinator guarantees over all histories of steps, shutdown requests and stop signals: the stages follow each
  other, progress never falls back, a shutdown ends in time and leaves nothing behind unless it says so, and the
  controller of the code always accepts the configuration the coordinator settled on.
\<close>

section \<open>Histories\<close>

datatype coordinator_op = Coord_Step tick | Coord_Shutdown tick | Coord_Stop_Signal

primrec coord_exec ::
  "('b, 'c, 't, 'x, 'p) gateway_coordinator \<Rightarrow> coordinator_op \<Rightarrow> ('b, 'c, 't, 'x, 'p) gateway_coordinator" where
  "coord_exec c (Coord_Step now) = gateway_coordinator_step c now"
| "coord_exec c (Coord_Shutdown now) = gateway_coordinator_request_shutdown c now"
| "coord_exec c Coord_Stop_Signal = gateway_run_control_request_stop c"

definition coord_run ::
  "coordinator_op list \<Rightarrow> ('b, 'c, 't, 'x, 'p) gateway_coordinator \<Rightarrow> ('b, 'c, 't, 'x, 'p) gateway_coordinator" where
  "coord_run os c = foldl coord_exec c os"

section \<open>Emitting an event changes the event ring only\<close>

lemma emit_frame [simp]:
  "co_controller (emit c s r p e) = co_controller c" "co_selected (emit c s r p e) = co_selected c"
  "co_state (emit c s r p e) = co_state c" "co_error (emit c s r p e) = co_error c"
  "co_config_source (emit c s r p e) = co_config_source c" "controller_driver (emit c s r p e) = controller_driver c"
  "run_control (emit c s r p e) = run_control c" "progress_numerator (emit c s r p e) = progress_numerator c"
  "startup_ports_complete (emit c s r p e) = startup_ports_complete c"
  "controller_initialized (emit c s r p e) = controller_initialized c"
  "controller_start_called (emit c s r p e) = controller_start_called c"
  "controller_shutdown_called (emit c s r p e) = controller_shutdown_called c"
  "cleanup_complete (emit c s r p e) = cleanup_complete c" "shutdown_deadline (emit c s r p e) = shutdown_deadline c"
  by (simp_all add: emit_def Let_def split_beta)

lemma advance_frame [simp]:
  "co_controller (advance c s r) = co_controller c" "co_selected (advance c s r) = co_selected c"
  "co_state (advance c s r) = s" "co_error (advance c s r) = co_error c"
  "controller_driver (advance c s r) = controller_driver c"
  "run_control (advance c s r) = run_control c" "controller_initialized (advance c s r) = controller_initialized c"
  "controller_start_called (advance c s r) = controller_start_called c"
  "controller_shutdown_called (advance c s r) = controller_shutdown_called c"
  "cleanup_complete (advance c s r) = cleanup_complete c" "shutdown_deadline (advance c s r) = shutdown_deadline c"
  "progress_numerator (advance c s r) = (if progress_numerator c < 14 then progress_numerator c + 1 else progress_numerator c)"
  by (simp_all add: advance_def Let_def)

lemma startup_port_frame [simp]:
  "co_controller (startup_port c i) = co_controller c" "co_selected (startup_port c i) = co_selected c"
  "co_state (startup_port c i) = co_state c" "co_error (startup_port c i) = co_error c"
  "controller_driver (startup_port c i) = controller_driver c"
  "run_control (startup_port c i) = run_control c" "controller_initialized (startup_port c i) = controller_initialized c"
  "controller_start_called (startup_port c i) = controller_start_called c"
  "controller_shutdown_called (startup_port c i) = controller_shutdown_called c"
  "cleanup_complete (startup_port c i) = cleanup_complete c" "shutdown_deadline (startup_port c i) = shutdown_deadline c"
  by (simp_all add: startup_port_def Let_def)

lemma startup_loop_frame [simp]:
  "co_controller (foldl startup_port c is) = co_controller c" "co_selected (foldl startup_port c is) = co_selected c"
  "co_state (foldl startup_port c is) = co_state c" "co_error (foldl startup_port c is) = co_error c"
  "controller_driver (foldl startup_port c is) = controller_driver c"
  "run_control (foldl startup_port c is) = run_control c"
  "controller_initialized (foldl startup_port c is) = controller_initialized c"
  "controller_start_called (foldl startup_port c is) = controller_start_called c"
  "controller_shutdown_called (foldl startup_port c is) = controller_shutdown_called c"
  "cleanup_complete (foldl startup_port c is) = cleanup_complete c"
  "shutdown_deadline (foldl startup_port c is) = shutdown_deadline c"
  by (induction "is" arbitrary: c) simp_all

lemma startup_progress:
  "progress_numerator c \<le> progress_numerator (startup_port c i)"
  "progress_numerator c \<le> 14 \<Longrightarrow> progress_numerator (startup_port c i) \<le> 14"
  by (simp_all add: startup_port_def Let_def)

lemma startup_loop_progress:
  "progress_numerator c \<le> progress_numerator (foldl startup_port c is)"
  "progress_numerator c \<le> 14 \<Longrightarrow> progress_numerator (foldl startup_port c is) \<le> 14"
proof -
  show "progress_numerator c \<le> progress_numerator (foldl startup_port c is)"
    by (induction "is" arbitrary: c) (auto intro: order_trans [OF startup_progress(1)])
  show "progress_numerator c \<le> 14 \<Longrightarrow> progress_numerator (foldl startup_port c is) \<le> 14"
    by (induction "is" arbitrary: c) (simp_all add: startup_progress(2))
qed

section \<open>The invariant\<close>

definition stage_ok :: "('b, 'c, 't, 'x, 'p) gateway_coordinator \<Rightarrow> bool" where
  "stage_ok c \<longleftrightarrow>
     (let fresh = \<not> controller_initialized c \<and> \<not> controller_shutdown_called c \<and> \<not> cleanup_complete c;
          running = controller_initialized c \<and> controller_start_called c \<and> \<not> controller_shutdown_called c \<and> \<not> cleanup_complete c
      in case co_state c of
        GATEWAY_APP_BOOTSTRAP \<Rightarrow> fresh
      | GATEWAY_APP_LOADING_CONFIGURATION \<Rightarrow> fresh
      | GATEWAY_APP_SELECTING_CONFIGURATION \<Rightarrow> fresh
      | GATEWAY_APP_VALIDATING_CONFIGURATION \<Rightarrow> fresh
      | GATEWAY_APP_INITIALIZING_CONTROLLER \<Rightarrow> fresh \<and> fst (gateway_configuration_validate (config_ports (co_selected c))) = 0
      | GATEWAY_APP_STARTING_PORTS \<Rightarrow> running
      | GATEWAY_APP_CHECKING_HEALTH \<Rightarrow> running
      | GATEWAY_APP_READY \<Rightarrow> running
      | GATEWAY_APP_DEGRADED \<Rightarrow> running
      | GATEWAY_APP_SAFE_MODE \<Rightarrow> running
      | GATEWAY_APP_SHUTTING_DOWN \<Rightarrow> controller_initialized c \<and> controller_shutdown_called c \<and> \<not> cleanup_complete c
      | GATEWAY_APP_STOPPED \<Rightarrow>
          (if cleanup_complete c then (if controller_initialized c then controller_shutdown_called c \<and> \<not> unfinished (co_controller c) else True)
           else co_error c = GATEWAY_APP_ERROR_SHUTDOWN_INCOMPLETE)
      | GATEWAY_APP_FATAL_ERROR \<Rightarrow> \<not> controller_shutdown_called c \<and> \<not> cleanup_complete c)"

definition coord_wf :: "('b, 'c, 't, 'x, 'p) gateway_coordinator \<Rightarrow> bool" where
  "coord_wf c \<longleftrightarrow> progress_numerator c \<le> 14 \<and> stage_ok c"

lemma safe_mode_valid: "fst (gateway_configuration_validate (config_ports gateway_persistent_safe_mode)) = 0"
  by code_simp

lemma coord_shutdown_wf:
  assumes "coord_wf c"
  shows "coord_wf (begin_shutdown c now)"
proof (cases "co_state c = GATEWAY_APP_STOPPED \<or> co_state c = GATEWAY_APP_SHUTTING_DOWN")
  case True
  then show ?thesis using assms by (simp add: begin_shutdown_def)
next
  case False
  then have "\<not> controller_shutdown_called c" "\<not> cleanup_complete c"
    using assms by (cases "co_state c"; simp add: coord_wf_def stage_ok_def Let_def)+
  then have "co_state (begin_shutdown c now) = (if controller_initialized c then GATEWAY_APP_SHUTTING_DOWN else GATEWAY_APP_STOPPED)"
    "controller_initialized (begin_shutdown c now) = controller_initialized c"
    "controller_shutdown_called (begin_shutdown c now) = controller_initialized c"
    "cleanup_complete (begin_shutdown c now) = (\<not> controller_initialized c)"
    "progress_numerator (begin_shutdown c now) = progress_numerator c"
    using False by (simp_all add: begin_shutdown_def Let_def)
  then show ?thesis using assms by (simp add: coord_wf_def stage_ok_def)
qed

lemma coord_shutting_down_wf: "coord_wf c \<Longrightarrow> co_state c = GATEWAY_APP_SHUTTING_DOWN \<Longrightarrow> coord_wf (step_shutting_down c now)"
  by (simp add: coord_wf_def stage_ok_def step_shutting_down_def Let_def)

lemma coord_loading_wf: "coord_wf c \<Longrightarrow> co_state c = GATEWAY_APP_LOADING_CONFIGURATION \<Longrightarrow> coord_wf (step_loading c)"
  by (simp add: coord_wf_def stage_ok_def step_loading_def Let_def split_beta)

lemma coord_validating_wf: "coord_wf c \<Longrightarrow> co_state c = GATEWAY_APP_VALIDATING_CONFIGURATION \<Longrightarrow> coord_wf (step_validating c)"
  by (simp add: coord_wf_def stage_ok_def step_validating_def Let_def safe_mode_valid)

lemma coord_initializing_wf: "coord_wf c \<Longrightarrow> co_state c = GATEWAY_APP_INITIALIZING_CONTROLLER \<Longrightarrow> coord_wf (step_initializing c now)"
  by (simp add: coord_wf_def stage_ok_def step_initializing_def fatal_def Let_def split_beta split: option.split)

lemma coord_starting_wf:
  assumes "coord_wf c" "co_state c = GATEWAY_APP_STARTING_PORTS"
  shows "coord_wf (startup_ports c now)"
proof -
  define d where "d = foldl startup_port (c\<lparr>co_controller := dr_step (controller_driver c) (co_controller c) now\<rparr>) [0..<GATEWAY_PORT_COUNT]"
  have "progress_numerator d \<le> 14"
    unfolding d_def using assms(1) by (intro startup_loop_progress(2)) (simp add: coord_wf_def)
  moreover have "co_state d = GATEWAY_APP_STARTING_PORTS" "controller_initialized d = controller_initialized c"
    "controller_start_called d = controller_start_called c" "controller_shutdown_called d = controller_shutdown_called c"
    "cleanup_complete d = cleanup_complete c"
    unfolding d_def using assms(2) by (simp_all only: startup_loop_frame) simp_all
  ultimately show ?thesis
    using assms unfolding startup_ports_def Let_def d_def [symmetric] by (simp add: coord_wf_def stage_ok_def)
qed

lemma coord_checking_wf: "coord_wf c \<Longrightarrow> co_state c = GATEWAY_APP_CHECKING_HEALTH \<Longrightarrow> coord_wf (step_checking c)"
  by (simp add: coord_wf_def stage_ok_def step_checking_def Let_def)

lemma coord_step_wf:
  assumes "coord_wf c"
  shows "coord_wf (gateway_coordinator_step c now)"
proof -
  define e where "e = (if run_control c = Some True then begin_shutdown c now else c)"
  have e: "coord_wf e" using assms by (simp add: e_def coord_shutdown_wf)
  have a: "coord_wf (advance e GATEWAY_APP_LOADING_CONFIGURATION GATEWAY_EVENT_OK)" if "co_state e = GATEWAY_APP_BOOTSTRAP"
    using e that by (simp add: coord_wf_def stage_ok_def Let_def)
  have b: "coord_wf (advance e GATEWAY_APP_VALIDATING_CONFIGURATION GATEWAY_EVENT_OK)"
    if "co_state e = GATEWAY_APP_SELECTING_CONFIGURATION"
    using e that by (simp add: coord_wf_def stage_ok_def Let_def)
  have r: "coord_wf (e\<lparr>co_controller := x\<rparr>)" if "co_state e \<in> {GATEWAY_APP_READY, GATEWAY_APP_DEGRADED, GATEWAY_APP_SAFE_MODE}" for x
    using e that by (auto simp: coord_wf_def stage_ok_def)
  show ?thesis
    unfolding gateway_coordinator_step_def Let_def e_def [symmetric]
    using e a b r coord_loading_wf [OF e] coord_validating_wf [OF e] coord_initializing_wf [OF e] coord_starting_wf [OF e] coord_checking_wf [OF e] coord_shutting_down_wf [OF e]
    by (cases "co_state e") simp_all
qed

lemma coord_signal_wf: "coord_wf c \<Longrightarrow> coord_wf (gateway_run_control_request_stop c)"
  by (cases "co_state c") (simp_all add: coord_wf_def stage_ok_def gateway_run_control_request_stop_def Let_def)

lemma coord_exec_wf: "coord_wf c \<Longrightarrow> coord_wf (coord_exec c op)"
  by (cases op) (simp_all add: coord_step_wf coord_shutdown_wf coord_signal_wf gateway_coordinator_request_shutdown_def)

lemma coord_run_wf: "coord_wf c \<Longrightarrow> coord_wf (coord_run os c)"
  by (induction os arbitrary: c) (simp_all add: coord_run_def coord_exec_wf)

lemma coord_init_wf: "coord_wf (gateway_coordinator_init ctl bs dir rc sel sx prov att px drv now)"
  by (simp add: gateway_coordinator_init_def coord_wf_def stage_ok_def Let_def)

section \<open>The stages\<close>

text \<open>The edges of the start; and from everywhere the way out.\<close>

fun startup_edge :: "gateway_application_state \<Rightarrow> gateway_application_state \<Rightarrow> bool" where
  "startup_edge GATEWAY_APP_BOOTSTRAP t = (t = GATEWAY_APP_LOADING_CONFIGURATION)"
| "startup_edge GATEWAY_APP_LOADING_CONFIGURATION t = (t = GATEWAY_APP_SELECTING_CONFIGURATION)"
| "startup_edge GATEWAY_APP_SELECTING_CONFIGURATION t = (t = GATEWAY_APP_VALIDATING_CONFIGURATION)"
| "startup_edge GATEWAY_APP_VALIDATING_CONFIGURATION t = (t = GATEWAY_APP_INITIALIZING_CONTROLLER)"
| "startup_edge GATEWAY_APP_INITIALIZING_CONTROLLER t = (t = GATEWAY_APP_STARTING_PORTS \<or> t = GATEWAY_APP_FATAL_ERROR)"
| "startup_edge GATEWAY_APP_STARTING_PORTS t = (t = GATEWAY_APP_STARTING_PORTS \<or> t = GATEWAY_APP_CHECKING_HEALTH)"
| "startup_edge GATEWAY_APP_CHECKING_HEALTH t = (t = GATEWAY_APP_READY \<or> t = GATEWAY_APP_DEGRADED \<or> t = GATEWAY_APP_SAFE_MODE)"
| "startup_edge GATEWAY_APP_SHUTTING_DOWN t = (t = GATEWAY_APP_SHUTTING_DOWN)"
| "startup_edge s t = (s = t)"

definition way_out :: "gateway_application_state \<Rightarrow> gateway_application_state \<Rightarrow> bool" where
  "way_out s t \<longleftrightarrow> s \<noteq> GATEWAY_APP_STOPPED \<and> (t = GATEWAY_APP_SHUTTING_DOWN \<or> t = GATEWAY_APP_STOPPED)"

lemma shutdown_stages:
  "co_state (begin_shutdown c now) = (if co_state c = GATEWAY_APP_STOPPED \<or> co_state c = GATEWAY_APP_SHUTTING_DOWN then co_state c
     else if controller_initialized c then GATEWAY_APP_SHUTTING_DOWN else GATEWAY_APP_STOPPED)"
  "progress_numerator (begin_shutdown c now) = progress_numerator c"
  by (simp_all add: begin_shutdown_def Let_def)

lemma shutting_down_stages:
  "co_state c = GATEWAY_APP_SHUTTING_DOWN \<Longrightarrow>
     co_state (step_shutting_down c now) = GATEWAY_APP_SHUTTING_DOWN \<or> co_state (step_shutting_down c now) = GATEWAY_APP_STOPPED"
  "progress_numerator (step_shutting_down c now) = progress_numerator c"
  by (simp_all add: step_shutting_down_def Let_def)

lemma stage_edges:
  "co_state (step_loading c) = GATEWAY_APP_SELECTING_CONFIGURATION"
  "co_state (step_validating c) = GATEWAY_APP_INITIALIZING_CONTROLLER"
  "co_state (step_initializing c now) = GATEWAY_APP_STARTING_PORTS \<or> co_state (step_initializing c now) = GATEWAY_APP_FATAL_ERROR"
  "co_state (step_checking c) = GATEWAY_APP_READY \<or> co_state (step_checking c) = GATEWAY_APP_DEGRADED \<or>
     co_state (step_checking c) = GATEWAY_APP_SAFE_MODE"
  by (simp_all add: step_loading_def step_validating_def step_initializing_def step_checking_def fatal_def Let_def split_beta
      split: option.split)

lemma starting_edge:
  "co_state c = GATEWAY_APP_STARTING_PORTS \<Longrightarrow>
     co_state (startup_ports c now) = GATEWAY_APP_STARTING_PORTS \<or> co_state (startup_ports c now) = GATEWAY_APP_CHECKING_HEALTH"
  by (simp add: startup_ports_def Let_def del: foldl.simps upt_rec_numeral)

lemma stage_progress:
  "progress_numerator c \<le> progress_numerator (step_loading c)"
  "progress_numerator c \<le> progress_numerator (step_validating c)"
  "progress_numerator c \<le> 14 \<Longrightarrow> progress_numerator c \<le> progress_numerator (step_initializing c now)"
  "progress_numerator c \<le> 14 \<Longrightarrow> progress_numerator c \<le> progress_numerator (step_checking c)"
  by (simp_all add: step_loading_def step_validating_def step_initializing_def step_checking_def fatal_def Let_def split_beta
      split: option.split)

lemma starting_progress: "progress_numerator c \<le> progress_numerator (startup_ports c now)"
proof -
  define d where "d = foldl startup_port (c\<lparr>co_controller := dr_step (controller_driver c) (co_controller c) now\<rparr>) [0..<GATEWAY_PORT_COUNT]"
  have "progress_numerator c \<le> progress_numerator d"
    unfolding d_def using startup_loop_progress(1) [of "c\<lparr>co_controller := dr_step (controller_driver c) (co_controller c) now\<rparr>"] by simp
  then show ?thesis unfolding startup_ports_def Let_def d_def [symmetric] by simp
qed

lemma step_stages:
  assumes "progress_numerator c \<le> 14"
  shows "(startup_edge (co_state c) (co_state (gateway_coordinator_step c now)) \<or>
       way_out (co_state c) (co_state (gateway_coordinator_step c now))) \<and>
     progress_numerator c \<le> progress_numerator (gateway_coordinator_step c now)"
proof -
  define e where "e = (if run_control c = Some True then begin_shutdown c now else c)"
  have e: "co_state e = co_state c \<or> way_out (co_state c) (co_state e)" "progress_numerator e = progress_numerator c"
    by (auto simp: e_def shutdown_stages way_out_def)
  let ?f = "gateway_coordinator_step c now"
  have p: "progress_numerator e \<le> 14" using assms e(2) by simp
  have s: "startup_edge (co_state e) (co_state ?f) \<or> way_out (co_state e) (co_state ?f)"
    unfolding gateway_coordinator_step_def Let_def e_def [symmetric]
    using stage_edges(3) [of e now] stage_edges(4) [of e] starting_edge [of e now] shutting_down_stages(1) [of e now]
    by (cases "co_state e") (auto simp: stage_edges(1,2) way_out_def)
  have "progress_numerator e \<le> progress_numerator ?f"
    unfolding gateway_coordinator_step_def Let_def e_def [symmetric]
    using stage_progress(1,2) [of e] stage_progress(3) [OF p, of now] stage_progress(4) [OF p] starting_progress [of e now]
      shutting_down_stages(2) [of e now]
    by (cases "co_state e") simp_all
  moreover have "way_out (co_state c) (co_state ?f) \<or> co_state e = co_state c"
    using e(1) s by (auto simp: way_out_def)
  ultimately show ?thesis using e s by auto
qed

text \<open>
  C34. In every history, a step takes the coordinator to the next stage of the start, or leaves it where the
  stage waits for the ports, the shutdown or the owner, or takes the way out of a stop request; no stage is skipped or
  repeated, and the progress reported never falls and never exceeds its total.
\<close>

theorem stages_follow_each_other:
  "let c = coord_run os (gateway_coordinator_init ctl bs dir rc sel sx prov att px drv t); d = gateway_coordinator_step c now in
   (startup_edge (co_state c) (co_state d) \<or> way_out (co_state c) (co_state d)) \<and>
   progress_numerator c \<le> progress_numerator d \<and> progress_numerator d \<le> 14"
proof -
  define c where "c = coord_run os (gateway_coordinator_init ctl bs dir rc sel sx prov att px drv t)"
  have "coord_wf c" unfolding c_def by (rule coord_run_wf [OF coord_init_wf])
  then have "progress_numerator c \<le> 14" "progress_numerator (gateway_coordinator_step c now) \<le> 14"
    using coord_step_wf [of c now] by (simp_all add: coord_wf_def)
  then show ?thesis using step_stages [of c now] unfolding Let_def c_def [symmetric] by blast
qed

text \<open>
  C36. In every history, the clean-up is reported complete only when the coordinator has stopped and no port is stopping
  or owns a listener; a coordinator that stopped otherwise reports that its shutdown is incomplete.
\<close>

theorem stopped_is_clean_or_says_so:
  "let c = coord_run os (gateway_coordinator_init ctl bs dir rc sel sx prov att px drv t) in
   \<not> (cleanup_complete c \<and> co_state c \<noteq> GATEWAY_APP_STOPPED) \<and>
   \<not> (cleanup_complete c \<and> controller_initialized c \<and> (unfinished (co_controller c) \<or> controller_shutdown_called c = False)) \<and>
   \<not> (co_state c = GATEWAY_APP_STOPPED \<and> cleanup_complete c = False \<and> co_error c \<noteq> GATEWAY_APP_ERROR_SHUTDOWN_INCOMPLETE)"
proof -
  define c where "c = coord_run os (gateway_coordinator_init ctl bs dir rc sel sx prov att px drv t)"
  have "coord_wf c" unfolding c_def by (rule coord_run_wf [OF coord_init_wf])
  then have "stage_ok c" by (simp add: coord_wf_def)
  then show ?thesis unfolding Let_def c_def [symmetric] by (cases "co_state c") (auto simp: stage_ok_def Let_def split: if_splits)
qed

section \<open>The end of a shutdown\<close>

definition closing :: "tick \<Rightarrow> ('b, 'c, 't, 'x, 'p) gateway_coordinator \<Rightarrow> bool" where
  "closing deadline c \<longleftrightarrow> co_state c = GATEWAY_APP_STOPPED \<or>
     (co_state c = GATEWAY_APP_SHUTTING_DOWN \<and> shutdown_deadline c = deadline)"

lemma closing_stays: "closing deadline c \<Longrightarrow> closing deadline (coord_exec c op)"
  by (cases op) (auto simp: closing_def gateway_coordinator_step_def begin_shutdown_def gateway_coordinator_request_shutdown_def
      gateway_run_control_request_stop_def step_shutting_down_def Let_def)

lemma closing_run: "closing deadline c \<Longrightarrow> closing deadline (coord_run os c)"
  by (induction os arbitrary: c) (simp_all add: coord_run_def closing_stays)

text \<open>
  C35. Two seconds after a shutdown was asked for, the next step ends it, whatever the ports and the controller driver do
  and whatever was asked in between.
\<close>

theorem shutdown_ends:
  assumes "co_state c \<noteq> GATEWAY_APP_SHUTTING_DOWN"
    "now - t \<ge> GATEWAY_COORDINATOR_SHUTDOWN_TIMEOUT" "now - t - GATEWAY_COORDINATOR_SHUTDOWN_TIMEOUT < 0x80000000"
  shows "co_state (gateway_coordinator_step (coord_run os (gateway_coordinator_request_shutdown c t)) now) = GATEWAY_APP_STOPPED"
proof -
  define d where "d = coord_run os (gateway_coordinator_request_shutdown c t)"
  have "closing (t + GATEWAY_COORDINATOR_SHUTDOWN_TIMEOUT) (gateway_coordinator_request_shutdown c t)"
    using assms(1) by (auto simp: closing_def gateway_coordinator_request_shutdown_def begin_shutdown_def Let_def)
  then have d: "closing (t + GATEWAY_COORDINATOR_SHUTDOWN_TIMEOUT) d" unfolding d_def by (rule closing_run)
  have "now - (t + GATEWAY_COORDINATOR_SHUTDOWN_TIMEOUT) < 0x80000000" using assms(3) by (simp add: diff_diff_eq)
  then show ?thesis
    using d unfolding d_def [symmetric]
    by (auto simp: closing_def gateway_coordinator_step_def begin_shutdown_def step_shutting_down_def Let_def)
qed

definition sample_coordinator :: "(nat, unit, unit, unit, unit) gateway_coordinator" where
  "sample_coordinator = (gateway_coordinator_init sample_ports [] ''cfg'' None (\<lambda>x d s. (GATEWAY_CONFIG_OK, s, x)) ()
     (\<lambda>x ports. (0, [], x)) None () (default_driver []) 7)\<lparr>co_state := GATEWAY_APP_READY, controller_initialized := True,
     controller_start_called := True\<rparr>"

theorem shutdown_ends_witness:
  "co_state (gateway_coordinator_step (coord_run [Coord_Step 30, Coord_Stop_Signal]
     (gateway_coordinator_request_shutdown sample_coordinator 20)) 2050) = GATEWAY_APP_STOPPED"
  by (rule shutdown_ends) (simp_all add: sample_coordinator_def)

section \<open>The driver of the controller\<close>

text \<open>What the start relies on of a driver: a configuration that passes validation is accepted.\<close>

locale accepting_driver =
  fixes driver :: "('b, 'c, 't) gateway_controller_driver"
  assumes init_accepts: "fst (gateway_configuration_validate ports) = 0 \<Longrightarrow> fst (dr_init driver ctl ports bs) = 0"
begin

lemma no_init_error:
  assumes "coord_wf c" "controller_driver c = driver" "co_error c \<noteq> GATEWAY_APP_ERROR_CONTROLLER_INIT"
  shows "controller_driver (coord_exec c op) = driver \<and> co_error (coord_exec c op) \<noteq> GATEWAY_APP_ERROR_CONTROLLER_INIT"
proof -
  have b: "controller_driver (begin_shutdown e now) = controller_driver e" "co_error (begin_shutdown e now) = co_error e" for e now
    by (simp_all add: begin_shutdown_def Let_def)
  have s: "controller_driver (gateway_coordinator_step c now) = driver \<and>
      co_error (gateway_coordinator_step c now) \<noteq> GATEWAY_APP_ERROR_CONTROLLER_INIT" for now
  proof -
    define e where "e = (if run_control c = Some True then begin_shutdown c now else c)"
    have e: "coord_wf e" "controller_driver e = driver" "co_error e \<noteq> GATEWAY_APP_ERROR_CONTROLLER_INIT"
      using assms coord_shutdown_wf [OF assms(1)] by (simp_all add: e_def b)
    have v: "fst (dr_init driver ctl (config_ports (co_selected e)) bs) = 0" if "co_state e = GATEWAY_APP_INITIALIZING_CONTROLLER" for ctl bs
      using e(1) that by (intro init_accepts) (simp add: coord_wf_def stage_ok_def Let_def)
    show ?thesis
      unfolding gateway_coordinator_step_def Let_def e_def [symmetric]
      using e(2,3) v
      by (cases "co_state e")
        (simp_all add: step_loading_def config_error_def step_validating_def step_initializing_def fatal_def startup_ports_def
          step_checking_def step_shutting_down_def Let_def split_beta split: option.split del: foldl.simps upt_rec_numeral)
  qed
  show ?thesis using s assms by (cases op) (simp_all add: b gateway_coordinator_request_shutdown_def gateway_run_control_request_stop_def)
qed

lemma run_no_init_error:
  assumes "coord_wf c" "controller_driver c = driver" "co_error c \<noteq> GATEWAY_APP_ERROR_CONTROLLER_INIT"
  shows "co_error (coord_run os c) \<noteq> GATEWAY_APP_ERROR_CONTROLLER_INIT"
  using assms
proof (induction os arbitrary: c)
  case (Cons op os)
  then show ?case using no_init_error [OF Cons.prems, of op] coord_exec_wf [of c op] by (simp add: coord_run_def)
qed (simp add: coord_run_def)

end

interpretation gateway: accepting_driver "default_driver cs" for cs
  by unfold_locales (simp add: default_driver_def gateway_controller_init_def split_beta)

text \<open>
  The controller of the code never refuses the configuration the coordinator settled on: what the store delivers is
  validated first, and what fails validation is replaced by the safe mode, which passes it.
\<close>

theorem controller_accepts_configuration:
  fixes ctl :: "('b, 'c, 't) gateway_controller"
  shows "co_error (coord_run os (gateway_coordinator_init ctl bs dir rc sel sx prov att px (default_driver cs) t)) \<noteq>
    GATEWAY_APP_ERROR_CONTROLLER_INIT"
proof (rule gateway.run_no_init_error [OF coord_init_wf])
qed (simp_all add: gateway_coordinator_init_def emit_def Let_def)

end
