(* ===== verification/Config_Text.thy ===== *)
theory Config_Text
  imports Gateway_Coordinator Network_Settings "HOL-Library.Monad_Syntax"
begin

text \<open>
  The text of the persistent configuration (\<open>src/config/gateway_persistence.c\<close>): the validation of the product settings,
  the encoder, the decoder and the checksum. A text is a list of characters; the decoder works on a copy with a NUL after
  it, so that what it can reach is \<open>c_string\<close> of the input. \<open>unsigned long\<close> has the 32 bits of the target.
\<close>

abbreviation GATEWAY_CONFIG_MAX_BYTES :: nat where "GATEWAY_CONFIG_MAX_BYTES \<equiv> 4096"
abbreviation GATEWAY_NTP_SERVER_MAX :: nat where "GATEWAY_NTP_SERVER_MAX \<equiv> 64"

definition NL :: char where
  "NL = CHR 0x0A"

section \<open>What the code uses of the C library\<close>

text \<open>\<open>strtoul(s, &end, 10)\<close> with the two checks that every caller makes: no conversion and a value out of range are \<open>None\<close>.\<close>

definition strtoul :: "string \<Rightarrow> (u32 \<times> string) option" where
  "strtoul s =
     (let s = dropWhile blank s;
          negative = (s \<noteq> [] \<and> hd s = CHR ''-'');
          s = (if s \<noteq> [] \<and> (hd s = CHR ''-'' \<or> hd s = CHR ''+'') then tl s else s);
          n = digits_value (takeWhile is_digit s);
          v = (of_nat n :: u32)
      in if takeWhile is_digit s = [] \<or> n > 4294967295 then None
         else Some (if negative then - v else v, dropWhile is_digit s))"

definition starts_with :: "string \<Rightarrow> string \<Rightarrow> bool" where
  "starts_with p s \<longleftrightarrow> take (length p) s = p"

text \<open>\<open>strstr\<close>: the position of the first occurrence.\<close>

primrec find_text :: "string \<Rightarrow> string \<Rightarrow> nat option" where
  "find_text p [] = (if p = [] then Some 0 else None)"
| "find_text p (c # s) = (if starts_with p (c # s) then Some 0 else map_option Suc (find_text p s))"

definition char_at :: "string \<Rightarrow> nat \<Rightarrow> char" where
  "char_at s k = (if k < length s then s ! k else NUL)"

definition hex_value :: "char \<Rightarrow> nat option" where
  "hex_value c =
     (let n = of_char c in
      if 48 \<le> n \<and> n \<le> 57 then Some (n - 48)
      else if 65 \<le> n \<and> n \<le> 70 then Some (n - 55)
      else if 97 \<le> n \<and> n \<le> 102 then Some (n - 87) else None)"

definition is_hex :: "char \<Rightarrow> bool" where
  "is_hex c \<longleftrightarrow> hex_value c \<noteq> None"

definition hex_number :: "string \<Rightarrow> u32" where
  "hex_number ds = foldl (\<lambda>v c. v * 16 + of_nat (the (hex_value c))) 0 ds"

text \<open>\<open>%8lX\<close> of \<open>sscanf\<close>: blanks, then at most eight characters of a sign, a prefix \<open>0x\<close> and digits.\<close>

definition scan_hex8 :: "string \<Rightarrow> u32 option" where
  "scan_hex8 s =
     (let s = take 8 (dropWhile blank s);
          negative = (s \<noteq> [] \<and> hd s = CHR ''-'');
          s = (if s \<noteq> [] \<and> (hd s = CHR ''-'' \<or> hd s = CHR ''+'') then tl s else s);
          s = (if starts_with ''0x'' s \<or> starts_with ''0X'' s then drop 2 s else s);
          ds = takeWhile is_hex s
      in if ds = [] then None else Some (if negative then - hex_number ds else hex_number ds))"

definition hex_char :: "nat \<Rightarrow> char" where
  "hex_char n = char_of (if n < 10 then 48 + n else 55 + n)"

text \<open>\<open>%08lX\<close> of \<open>printf\<close>.\<close>

definition hex8 :: "u32 \<Rightarrow> string" where
  "hex8 v = map (\<lambda>k. hex_char (unat (drop_bit (4 * k) v AND 15))) [7, 6, 5, 4, 3, 2, 1, 0]"

section \<open>Checksum\<close>

definition crc32_bit :: "u32 \<Rightarrow> u32" where
  "crc32_bit c = (if c AND 1 \<noteq> 0 then drop_bit 1 c XOR 0xedb88320 else drop_bit 1 c)"

definition crc32_byte :: "u32 \<Rightarrow> char \<Rightarrow> u32" where
  "crc32_byte c x = (crc32_bit ^^ 8) (c XOR of_nat (of_char x))"

definition crc32_bytes :: "string \<Rightarrow> u32" where
  "crc32_bytes p = foldl crc32_byte 0xffffffff p XOR 0xffffffff"

section \<open>Product settings\<close>

definition host_char :: "char \<Rightarrow> bool" where
  "host_char c \<longleftrightarrow> (let n = (of_char c :: nat) in (48 \<le> n \<and> n \<le> 57) \<or> (65 \<le> n \<and> n \<le> 90) \<or> (97 \<le> n \<and> n \<le> 122)) \<or>
     c = CHR ''.'' \<or> c = CHR ''-''"

definition gateway_product_settings_validate :: "gateway_product_settings \<Rightarrow> bool" where
  "gateway_product_settings_validate s \<longleftrightarrow>
     \<not> (web_protocol s > 1 \<or> web_enabled s > 1 \<or> web_interface s > 2 \<or> backlight_on s > 1 \<or>
        (ntp_interval_hours s \<noteq> 1 \<and> ntp_interval_hours s \<noteq> 6 \<and> ntp_interval_hours s \<noteq> 24) \<or>
        (ntp_enabled s \<noteq> 0 \<and> ntp_enabled s \<noteq> 1)) \<and>
     \<not> (length (ntp_server s) \<ge> GATEWAY_NTP_SERVER_MAX \<or> (ntp_enabled s \<noteq> 0 \<and> length (ntp_server s) = 0)) \<and>
     list_all host_char (ntp_server s)"

section \<open>The encoder\<close>

definition known_version :: "u32 \<Rightarrow> bool" where
  "known_version v \<longleftrightarrow> v = 1 \<or> v = 2 \<or> v = 3"

definition unsigned_text :: "u32 \<Rightarrow> string" where
  "unsigned_text v = decimal (unat v)"

definition port_key :: "nat \<Rightarrow> string \<Rightarrow> string" where
  "port_key i name = ''port.'' @ decimal (i + 1) @ ''.'' @ name @ ''=''"

definition port_line :: "nat \<Rightarrow> string \<Rightarrow> u32 \<Rightarrow> string" where
  "port_line i name v = port_key i name @ unsigned_text v @ [NL]"

text \<open>One text for each call of \<open>snprintf\<close>, in order.\<close>

definition head_texts :: "gateway_persistent_config \<Rightarrow> string list" where
  "head_texts c = (let s = product_settings c in
     [''4VRS_GATEWAY_CONFIG'' @ [NL] @ ''schema='' @ unsigned_text (schema_version c) @ [NL] @
      ''time.ntp_enabled='' @ unsigned_text (of_int (ntp_enabled s)) @ [NL] @ ''time.ntp_server='' @ ntp_server s @ [NL] @
      ''time.ntp_interval_hours='' @ unsigned_text (ntp_interval_hours s) @ [NL]] @
     (if backlight_on s = 0 then [''display.backlight_on=0'' @ [NL]] else []) @
     (if schema_version c \<ge> 2 then [''web.enabled='' @ unsigned_text (web_enabled s) @ [NL] @
        ''web.interface='' @ unsigned_text (web_interface s) @ [NL]] else []) @
     (if schema_version c = 3 then [''web.protocol='' @ unsigned_text (web_protocol s) @ [NL]] else []))"

definition port_texts :: "nat \<Rightarrow> gateway_port_config \<Rightarrow> string list" where
  "port_texts i p =
     [port_line i ''enabled'' (of_int (gc_enabled p)), port_line i ''uart'' (gc_uart_index p), port_line i ''mode'' (gc_mode p),
      port_line i ''baud'' (gc_baud p), port_line i ''data_bits'' (gc_data_bits p), port_line i ''parity'' (gc_parity p),
      port_line i ''stop_bits'' (gc_stop_bits p), port_line i ''transport'' (gc_transport p),
      port_key i ''bind_address'' @ gc_bind_address p @ [NL]] @
     (if gc_bind_policy p \<noteq> 0 then [port_line i ''bind_policy'' (gc_bind_policy p)] else []) @
     [port_line i ''endpoint_port'' (gc_endpoint_port p), port_line i ''special_baud_enabled'' (of_int (gc_special_baud_enabled p)),
      port_line i ''special_baud'' (gc_special_baud p), port_line i ''revision'' (gc_revision p)]"

definition body_texts :: "gateway_persistent_config \<Rightarrow> string list" where
  "body_texts c = head_texts c @ concat (map (\<lambda>i. port_texts i (config_ports c ! i)) [0..<GATEWAY_PORT_COUNT])"

text \<open>A text is added where the buffer has room for it and a NUL.\<close>

definition append_text :: "nat \<Rightarrow> string option \<Rightarrow> string \<Rightarrow> string option" where
  "append_text cap used s =
     (case used of None \<Rightarrow> None | Some u \<Rightarrow> if length s \<ge> cap - length u then None else Some (u @ s))"

definition gateway_config_encode :: "gateway_persistent_config \<Rightarrow> nat \<Rightarrow> gateway_config_result + string" where
  "gateway_config_encode c cap =
     (let s = product_settings c in
      if cap > GATEWAY_CONFIG_MAX_BYTES \<or> cap < 64 then Inl GATEWAY_CONFIG_INVALID
      else if \<not> known_version (schema_version c) then Inl GATEWAY_CONFIG_UNSUPPORTED_VERSION
      else if (schema_version c < 3 \<and> web_protocol s \<noteq> 1) \<or>
         (schema_version c = 1 \<and> (web_enabled s \<noteq> 0 \<or> web_interface s \<noteq> 0)) \<or>
         \<not> gateway_product_settings_validate s \<or> fst (gateway_configuration_validate (config_ports c)) \<noteq> 0
      then Inl GATEWAY_CONFIG_INVALID
      else (case foldl (append_text cap) (Some []) (body_texts c) of
        None \<Rightarrow> Inl GATEWAY_CONFIG_INVALID
      | Some u \<Rightarrow> (case append_text cap (Some u) (''crc32='' @ hex8 (crc32_bytes u) @ [NL]) of
            None \<Rightarrow> Inl GATEWAY_CONFIG_INVALID | Some u \<Rightarrow> Inr u)))"

section \<open>The decoder\<close>

text \<open>The next line and what follows it.\<close>

definition cut_line :: "string \<Rightarrow> (string \<times> string) option" where
  "cut_line s = (if NL \<in> set s then Some (takeWhile (\<lambda>c. c \<noteq> NL) s, tl (dropWhile (\<lambda>c. c \<noteq> NL) s)) else None)"

definition line_value :: "string \<Rightarrow> string \<Rightarrow> u32 option" where
  "line_value line expected =
     (if \<not> starts_with expected line then None
      else case strtoul (drop (length expected) line) of
        None \<Rightarrow> None | Some (v, rest) \<Rightarrow> if rest = [] then Some v else None)"

type_synonym reading = "gateway_persistent_config \<times> string"

definition set_product :: "(gateway_product_settings \<Rightarrow> gateway_product_settings) \<Rightarrow> gateway_persistent_config \<Rightarrow> gateway_persistent_config" where
  "set_product f c = c\<lparr>product_settings := f (product_settings c)\<rparr>"

definition read_schema :: "reading \<Rightarrow> reading option" where
  "read_schema = (\<lambda>(c, next).
     do {
       (line, next) \<leftarrow> cut_line next;
       if line \<noteq> ''4VRS_GATEWAY_CONFIG'' then None
       else do {
         (line, next) \<leftarrow> cut_line next;
         v \<leftarrow> line_value line ''schema='';
         Some (c\<lparr>schema_version := v\<rparr>, next)
       }
     })"

definition read_ntp :: "reading \<Rightarrow> reading option" where
  "read_ntp = (\<lambda>(c, next).
     if \<not> starts_with ''time.ntp_enabled='' next then Some (c, next)
     else do {
       (line, next) \<leftarrow> cut_line next;
       v \<leftarrow> line_value line ''time.ntp_enabled='';
       (line, next) \<leftarrow> cut_line next;
       if \<not> starts_with ''time.ntp_server='' line \<or> length (drop 16 line) \<ge> GATEWAY_NTP_SERVER_MAX then None
       else Some (set_product (\<lambda>s. s\<lparr>ntp_enabled := sint v, ntp_server := drop 16 line\<rparr>) c, next)
     })"

definition read_interval :: "reading \<Rightarrow> reading option" where
  "read_interval = (\<lambda>(c, next).
     if \<not> starts_with ''time.ntp_interval_hours='' next then Some (c, next)
     else do {
       (line, next) \<leftarrow> cut_line next;
       if \<not> is_digit (char_at line 24) then None
       else do {
         v \<leftarrow> line_value line ''time.ntp_interval_hours='';
         if v \<noteq> 1 \<and> v \<noteq> 6 \<and> v \<noteq> 24 then None
         else Some (set_product (\<lambda>s. s\<lparr>ntp_interval_hours := v\<rparr>) c, next)
       }
     })"

definition read_backlight :: "reading \<Rightarrow> reading option" where
  "read_backlight = (\<lambda>(c, next).
     if \<not> starts_with ''display.backlight_on='' next then Some (c, next)
     else do {
       (line, next) \<leftarrow> cut_line next;
       if line \<noteq> ''display.backlight_on=0'' \<and> line \<noteq> ''display.backlight_on=1'' then None
       else Some (set_product (\<lambda>s. s\<lparr>backlight_on := of_nat (digit_value (char_at line 21))\<rparr>) c, next)
     })"

text \<open>A line that is a key and one digit up to \<open>hi\<close>.\<close>

definition read_digit :: "string \<Rightarrow> char \<Rightarrow> string \<Rightarrow> (u32 \<times> string) option" where
  "read_digit key hi next =
     do {
       (line, next) \<leftarrow> cut_line next;
       if \<not> starts_with key line \<or> length line \<noteq> length key + 1 \<or>
          of_char (char_at line (length key)) < (48 :: nat) \<or> of_char (char_at line (length key)) > (of_char hi :: nat) then None
       else Some (of_nat (digit_value (char_at line (length key))), next)
     }"

definition read_web :: "reading \<Rightarrow> reading option" where
  "read_web = (\<lambda>(c, next).
     if schema_version c \<ge> 2 then do {
       (v, next) \<leftarrow> read_digit ''web.enabled='' (CHR ''1'') next;
       (w, next) \<leftarrow> read_digit ''web.interface='' (CHR ''2'') next;
       Some (set_product (\<lambda>s. s\<lparr>web_enabled := v, web_interface := w\<rparr>) c, next)
     } else Some (c, next))"

definition read_protocol :: "reading \<Rightarrow> reading option" where
  "read_protocol = (\<lambda>(c, next).
     if schema_version c = 3 then do {
       (line, next) \<leftarrow> cut_line next;
       if line \<noteq> ''web.protocol=0'' \<and> line \<noteq> ''web.protocol=1'' then None
       else Some (set_product (\<lambda>s. s\<lparr>web_protocol := of_nat (digit_value (char_at line 13))\<rparr>) c, next)
     } else Some (c, next))"

text \<open>The fields of a port: thirteen lines, with the address and its optional policy as the ninth.\<close>

type_synonym port_reading = "gateway_port_config \<times> string"

definition read_field ::
  "nat \<Rightarrow> string \<Rightarrow> (u32 \<Rightarrow> gateway_port_config \<Rightarrow> gateway_port_config) \<Rightarrow> port_reading \<Rightarrow> port_reading option" where
  "read_field i name f = (\<lambda>(p, next).
     do {
       (line, next) \<leftarrow> cut_line next;
       v \<leftarrow> line_value line (port_key i name);
       Some (f v p, next)
     })"

definition read_policy :: "nat \<Rightarrow> port_reading \<Rightarrow> port_reading option" where
  "read_policy i = (\<lambda>(p, next).
     let key = port_key i ''bind_policy'' in
     if \<not> starts_with key next then Some (p, next)
     else do {
       (line, next) \<leftarrow> cut_line next;
       if of_char (char_at line (length key)) < (48 :: nat) \<or> of_char (char_at line (length key)) > (51 :: nat) \<or>
          char_at line (length key + 1) \<noteq> NUL then None
       else do {
         v \<leftarrow> line_value line key;
         if v > 3 then None else Some (p\<lparr>gc_bind_policy := v\<rparr>, next)
       }
     })"

definition read_address :: "nat \<Rightarrow> port_reading \<Rightarrow> port_reading option" where
  "read_address i = (\<lambda>(p, next).
     let key = port_key i ''bind_address'' in
     do {
       (line, next) \<leftarrow> cut_line next;
       if \<not> starts_with key line \<or> length (drop (length key) line) \<ge> GATEWAY_BIND_ADDRESS_LENGTH then None
       else read_policy i (p\<lparr>gc_bind_address := drop (length key) line\<rparr>, next)
     })"

definition read_port :: "nat \<Rightarrow> port_reading \<Rightarrow> port_reading option" where
  "read_port i r =
     do {
       r \<leftarrow> read_field i ''enabled'' (\<lambda>v p. p\<lparr>gc_enabled := sint v\<rparr>) r;
       r \<leftarrow> read_field i ''uart'' (\<lambda>v p. p\<lparr>gc_uart_index := v\<rparr>) r;
       r \<leftarrow> read_field i ''mode'' (\<lambda>v p. p\<lparr>gc_mode := v\<rparr>) r;
       r \<leftarrow> read_field i ''baud'' (\<lambda>v p. p\<lparr>gc_baud := v\<rparr>) r;
       r \<leftarrow> read_field i ''data_bits'' (\<lambda>v p. p\<lparr>gc_data_bits := v\<rparr>) r;
       r \<leftarrow> read_field i ''parity'' (\<lambda>v p. p\<lparr>gc_parity := v\<rparr>) r;
       r \<leftarrow> read_field i ''stop_bits'' (\<lambda>v p. p\<lparr>gc_stop_bits := v\<rparr>) r;
       r \<leftarrow> read_field i ''transport'' (\<lambda>v p. p\<lparr>gc_transport := v\<rparr>) r;
       r \<leftarrow> read_address i r;
       r \<leftarrow> read_field i ''endpoint_port'' (\<lambda>v p. p\<lparr>gc_endpoint_port := v\<rparr>) r;
       r \<leftarrow> read_field i ''special_baud_enabled'' (\<lambda>v p. p\<lparr>gc_special_baud_enabled := sint v\<rparr>) r;
       r \<leftarrow> read_field i ''special_baud'' (\<lambda>v p. p\<lparr>gc_special_baud := v\<rparr>) r;
       read_field i ''revision'' (\<lambda>v p. p\<lparr>gc_revision := v\<rparr>) r
     }"

definition zero_port :: gateway_port_config where
  "zero_port = \<lparr>gc_enabled = 0, gc_uart_index = 0, gc_mode = 0, gc_baud = 0, gc_data_bits = 0, gc_parity = 0, gc_stop_bits = 0,
     gc_transport = 0, gc_bind_address = [], gc_bind_policy = 0, gc_endpoint_port = 0, gc_special_baud_enabled = 0,
     gc_special_baud = 0, gc_revision = 0\<rparr>"

primrec read_ports :: "nat list \<Rightarrow> string \<Rightarrow> (gateway_port_config list \<times> string) option" where
  "read_ports [] next = Some ([], next)"
| "read_ports (i # is) next =
     do {
       (p, next) \<leftarrow> read_port i (zero_port, next);
       (ps, next) \<leftarrow> read_ports is next;
       Some (p # ps, next)
     }"

definition blank_config :: gateway_persistent_config where
  "blank_config = \<lparr>schema_version = 0,
     product_settings = \<lparr>web_protocol = 1, web_enabled = 0, web_interface = 0, backlight_on = 1, ntp_enabled = 0,
       ntp_interval_hours = 1, ntp_server = []\<rparr>,
     config_ports = replicate GATEWAY_PORT_COUNT zero_port\<rparr>"

definition read_body :: "string \<Rightarrow> gateway_persistent_config option" where
  "read_body body =
     do {
       r \<leftarrow> read_schema (blank_config, body);
       r \<leftarrow> read_ntp r;
       r \<leftarrow> read_interval r;
       r \<leftarrow> read_backlight r;
       r \<leftarrow> read_web r;
       (c, next) \<leftarrow> read_protocol r;
       (ps, next) \<leftarrow> read_ports [0..<GATEWAY_PORT_COUNT] next;
       let c = c\<lparr>config_ports := ps\<rparr> in
       if next \<noteq> [] \<or> \<not> gateway_product_settings_validate (product_settings c) \<or>
          fst (gateway_configuration_validate ps) \<noteq> 0 then None
       else Some c
     }"

text \<open>A version that this program does not know is told apart first.\<close>

definition foreign_version :: "string \<Rightarrow> bool" where
  "foreign_version b \<longleftrightarrow> (case find_text (NL # ''schema='') b of
      None \<Rightarrow> False
    | Some k \<Rightarrow> (case strtoul (drop (k + 8) b) of
        None \<Rightarrow> False | Some (v, rest) \<Rightarrow> char_at rest 0 = NL \<and> \<not> known_version v))"

definition gateway_config_decode :: "string \<Rightarrow> gateway_config_result + gateway_persistent_config" where
  "gateway_config_decode input =
     (let b = c_string input in
      if input = [] \<or> length input > GATEWAY_CONFIG_MAX_BYTES then Inl GATEWAY_CONFIG_INVALID
      else if foreign_version b then Inl GATEWAY_CONFIG_UNSUPPORTED_VERSION
      else (case find_text ''crc32='' b of
        None \<Rightarrow> Inl GATEWAY_CONFIG_INVALID
      | Some k \<Rightarrow>
          let trailer = drop k b; body = take k b in
          if k = 0 \<or> NL \<notin> set trailer \<or> k + 15 \<noteq> length input then Inl GATEWAY_CONFIG_INVALID
          else if scan_hex8 (drop 6 trailer) \<noteq> Some (crc32_bytes body) then Inl GATEWAY_CONFIG_INVALID
          else (case read_body body of None \<Rightarrow> Inl GATEWAY_CONFIG_INVALID | Some c \<Rightarrow> Inr c)))"

end
