(* ===== verification/Config_Roundtrip.thy ===== *)
theory Config_Roundtrip
  imports Config_Text "HOL-Library.Sublist"
begin

text \<open>
  The text of a configuration reads back as the configuration (\<open>src/config/gateway_persistence.c\<close>), and what the decoder
  accepts is a configuration the gateway can run.
\<close>

section \<open>Numbers, lines and keys\<close>

lemma decimal_digits: "list_all is_digit (decimal n)" "decimal n \<noteq> []" "digits_value (decimal n) = n"
  using decimal_numeral [of n] by (simp_all add: numeral_string_def)

lemma digit_plain: "is_digit c \<Longrightarrow> \<not> blank c \<and> c \<noteq> CHR ''-'' \<and> c \<noteq> CHR ''+'' \<and> c \<noteq> NL \<and> c \<noteq> NUL \<and> c \<noteq> CHR ''=''"
  by (auto simp: is_digit_def blank_def NL_def)

lemma strtoul_decimal:
  assumes "rest = [] \<or> \<not> is_digit (hd rest)"
  shows "strtoul (unsigned_text v @ rest) = Some (v, rest)"
proof -
  define ds where "ds = decimal (unat v)"
  have ds: "list_all is_digit ds" "ds \<noteq> []" "digits_value ds = unat v" by (simp_all add: ds_def decimal_digits)
  have h: "is_digit (hd ds)" using ds(1,2) by (cases ds) auto
  have t: "takeWhile is_digit (ds @ rest) = ds" "dropWhile is_digit (ds @ rest) = rest"
    using ds(1) assms by (cases rest; simp add: list_all_iff takeWhile_append2 dropWhile_append2)+
  have d: "dropWhile blank (ds @ rest) = ds @ rest" using ds(2) digit_plain [OF h] by (cases ds) auto
  have "unat v \<le> 4294967295" using unat_u32_less [of v] by simp
  then show ?thesis
    using ds(2) digit_plain [OF h] by (simp add: strtoul_def unsigned_text_def ds_def [symmetric] d t ds(3) Let_def)
qed

lemma starts_with_iff: "starts_with p s \<longleftrightarrow> prefix p s"
  by (auto simp: starts_with_def prefix_def) (metis append_take_drop_id)

lemma starts_with_simps [simp]:
  "starts_with [] s" "\<not> starts_with (c # p) []" "starts_with (c # p) (d # s) \<longleftrightarrow> c = d \<and> starts_with p s"
  "starts_with (p @ a) (p @ b) \<longleftrightarrow> starts_with a b" "starts_with p (p @ s)" "starts_with p p"
  by (auto simp: starts_with_iff)

lemma line_value_text: "line_value (key @ unsigned_text v) key = Some v"
  using strtoul_decimal [of "[]" v] by (simp add: line_value_def)

lemma cut_line_text: "NL \<notin> set l \<Longrightarrow> cut_line (l @ NL # next) = Some (l, next)"
  by (induction l) (auto simp: cut_line_def)

lemma number_plain: "c \<in> set (unsigned_text v) \<Longrightarrow> is_digit c"
  using decimal_digits(1) by (auto simp: unsigned_text_def list_all_iff)

lemma number_no: "NL \<notin> set (unsigned_text v)" "NUL \<notin> set (unsigned_text v)" "CHR ''='' \<notin> set (unsigned_text v)"
  using number_plain digit_plain by blast+

lemma key_no: "c \<notin> set name \<Longrightarrow> \<not> is_digit c \<Longrightarrow> c \<notin> set ''port.='' \<Longrightarrow> c \<notin> set (port_key i name)"
  using decimal_digits(1) [of "i + 1"] by (auto simp: port_key_def list_all_iff)

lemma key_no_NL [simp]: "NL \<notin> set name \<Longrightarrow> NL \<notin> set (port_key i name)"
  by (rule key_no) (auto simp: NL_def is_digit_def)

section \<open>One port\<close>

lemma read_field_line:
  "NL \<notin> set name \<Longrightarrow> read_field i name f (p, port_line i name v @ next) = Some (f v p, next)"
  using cut_line_text [of "port_key i name @ unsigned_text v" "next"]
  by (simp add: read_field_def port_line_def line_value_text number_no)

lemma small_numbers: "unsigned_text 0 = ''0''" "unsigned_text 1 = ''1''" "unsigned_text 2 = ''2''" "unsigned_text 3 = ''3''"
  by (simp_all add: unsigned_text_def decimal.simps char_of_def bit_0)

lemma read_policy_text:
  assumes "gc_bind_policy q \<le> 3" "gc_bind_policy p = 0"
  shows "read_policy i (p, concat (if gc_bind_policy q \<noteq> 0 then [port_line i ''bind_policy'' (gc_bind_policy q)] else []) @
      port_line i ''endpoint_port'' e @ next) =
    Some (p\<lparr>gc_bind_policy := gc_bind_policy q\<rparr>, port_line i ''endpoint_port'' e @ next)"
proof (cases "gc_bind_policy q = 0")
  case True
  have "\<not> starts_with (port_key i ''bind_policy'') (port_line i ''endpoint_port'' e @ next)"
    by (simp add: port_key_def port_line_def)
  then show ?thesis using True assms(2) by (simp add: read_policy_def Let_def)
next
  case False
  define k where "k = port_key i ''bind_policy''"
  define v where "v = gc_bind_policy q"
  have v: "v = 1 \<or> v = 2 \<or> v = 3"
  proof -
    have "unat v \<le> 3" "unat v \<noteq> 0" using assms(1) False by (simp_all add: v_def word_le_nat_alt unat_eq_0)
    then have "unat v = 1 \<or> unat v = 2 \<or> unat v = 3" by arith
    then show ?thesis by (auto simp: word_unat_eq_iff)
  qed
  have n: "NL \<notin> set k" by (simp add: k_def NL_def key_no [unfolded NL_def] is_digit_def)
  have c: "cut_line (k @ unsigned_text v @ NL # rest) = Some (k @ unsigned_text v, rest)" for rest
    using cut_line_text [of "k @ unsigned_text v" rest] n number_no by simp
  have "char_at (k @ unsigned_text v) (length k) = hd (unsigned_text v)" "char_at (k @ unsigned_text v) (length k + 1) = NUL"
    using v by (auto simp: char_at_def small_numbers nth_append)
  then show ?thesis
    using False v c n line_value_text [of k v] by (auto simp: read_policy_def port_line_def k_def [symmetric] v_def [symmetric] small_numbers Let_def)
qed

lemma sint_flag: "e = 0 \<or> e = 1 \<Longrightarrow> sint (of_int e :: u32) = e"
  by auto

text \<open>What a port needs for its text to be readable.\<close>

definition port_writable :: "gateway_port_config \<Rightarrow> bool" where
  "port_writable p \<longleftrightarrow> validate_one p = GATEWAY_ERROR_NONE \<and> NL \<notin> set (gc_bind_address p)"

lemma valid_port:
  assumes "validate_one p = GATEWAY_ERROR_NONE"
  shows "gc_enabled p = 0 \<or> gc_enabled p = 1" "gc_special_baud_enabled p = 0 \<or> gc_special_baud_enabled p = 1"
    "gc_bind_policy p \<le> 3" "length (gc_bind_address p) < GATEWAY_BIND_ADDRESS_LENGTH"
    "scan_quad 4 (gc_bind_address p) \<noteq> None"
  using assms by (auto simp: validate_one_def bind_address_valid_def split: if_splits option.splits)

lemma read_address_text:
  assumes "port_writable q" "gc_bind_policy p = 0"
  shows "read_address i (p, (port_key i ''bind_address'' @ gc_bind_address q @ [NL]) @
      concat (if gc_bind_policy q \<noteq> 0 then [port_line i ''bind_policy'' (gc_bind_policy q)] else []) @
      port_line i ''endpoint_port'' e @ next) =
    Some (p\<lparr>gc_bind_address := gc_bind_address q, gc_bind_policy := gc_bind_policy q\<rparr>, port_line i ''endpoint_port'' e @ next)"
proof -
  define k where "k = port_key i ''bind_address''"
  define rest where "rest = concat (if gc_bind_policy q \<noteq> 0 then [port_line i ''bind_policy'' (gc_bind_policy q)] else []) @
      port_line i ''endpoint_port'' e @ next"
  have "NL \<notin> set (k @ gc_bind_address q)" using assms(1) by (simp add: port_writable_def k_def NL_def key_no [unfolded NL_def] is_digit_def)
  then have c: "cut_line ((k @ gc_bind_address q) @ NL # rest) = Some (k @ gc_bind_address q, rest)" by (rule cut_line_text)
  have l: "length (gc_bind_address q) < GATEWAY_BIND_ADDRESS_LENGTH" using assms(1) valid_port by (auto simp: port_writable_def)
  have "read_policy i (p\<lparr>gc_bind_address := gc_bind_address q\<rparr>, rest) =
      Some (p\<lparr>gc_bind_address := gc_bind_address q, gc_bind_policy := gc_bind_policy q\<rparr>, port_line i ''endpoint_port'' e @ next)"
    unfolding rest_def using assms valid_port(3) by (subst read_policy_text) (auto simp: port_writable_def)
  then show ?thesis
    using c l unfolding k_def [symmetric] rest_def [symmetric] by (simp add: read_address_def k_def [symmetric] Let_def)
qed

lemma read_port_text:
  assumes "port_writable q"
  shows "read_port i (zero_port, concat (port_texts i q) @ next) = Some (q, next)"
proof -
  have t: "concat (port_texts i q) @ next =
    port_line i ''enabled'' (of_int (gc_enabled q)) @ port_line i ''uart'' (gc_uart_index q) @ port_line i ''mode'' (gc_mode q) @
    port_line i ''baud'' (gc_baud q) @ port_line i ''data_bits'' (gc_data_bits q) @ port_line i ''parity'' (gc_parity q) @
    port_line i ''stop_bits'' (gc_stop_bits q) @ port_line i ''transport'' (gc_transport q) @
    (port_key i ''bind_address'' @ gc_bind_address q @ [NL]) @
    concat (if gc_bind_policy q \<noteq> 0 then [port_line i ''bind_policy'' (gc_bind_policy q)] else []) @
    port_line i ''endpoint_port'' (gc_endpoint_port q) @ port_line i ''special_baud_enabled'' (of_int (gc_special_baud_enabled q)) @
    port_line i ''special_baud'' (gc_special_baud q) @ port_line i ''revision'' (gc_revision q) @ next"
    by (simp add: port_texts_def)
  have "sint (of_int (gc_enabled q) :: u32) = gc_enabled q" "sint (of_int (gc_special_baud_enabled q) :: u32) = gc_special_baud_enabled q"
    using assms valid_port(1,2) [of q] by (simp_all add: port_writable_def sint_flag)
  then show ?thesis
    unfolding t read_port_def
    by (simp add: read_field_line NL_def zero_port_def read_address_text [OF assms, unfolded NL_def] del: append_assoc)
qed

lemma read_ports_text:
  "list_all port_writable (map f is) \<Longrightarrow>
   read_ports is (concat (concat (map (\<lambda>i. port_texts i (f i)) is)) @ next) = Some (map f is, next)"
  by (induction "is") (simp_all add: read_port_text)

section \<open>The settings\<close>

text \<open>What an encoder accepts, apart from its room.\<close>

definition config_writable :: "gateway_persistent_config \<Rightarrow> bool" where
  "config_writable c \<longleftrightarrow> (let s = product_settings c in
     known_version (schema_version c) \<and> (schema_version c < 3 \<longrightarrow> web_protocol s = 1) \<and>
     (schema_version c = 1 \<longrightarrow> web_enabled s = 0 \<and> web_interface s = 0) \<and>
     gateway_product_settings_validate s \<and> length (config_ports c) = GATEWAY_PORT_COUNT \<and>
     fst (gateway_configuration_validate (config_ports c)) = 0 \<and> (\<forall>p \<in> set (config_ports c). NL \<notin> set (gc_bind_address p)))"

lemma host_char_no: "host_char c \<Longrightarrow> c \<noteq> NL \<and> c \<noteq> NUL \<and> c \<noteq> CHR ''=''"
  by (auto simp: host_char_def NL_def Let_def)

lemma small_u32: "v \<le> 1 \<longleftrightarrow> v = 0 \<or> v = 1" "v \<le> 2 \<longleftrightarrow> v = 0 \<or> v = 1 \<or> v = 2" for v :: u32
proof -
  have "unat v \<le> 1 \<longleftrightarrow> unat v = 0 \<or> unat v = 1" "unat v \<le> 2 \<longleftrightarrow> unat v = 0 \<or> unat v = 1 \<or> unat v = 2" by arith+
  then show "v \<le> 1 \<longleftrightarrow> v = 0 \<or> v = 1" "v \<le> 2 \<longleftrightarrow> v = 0 \<or> v = 1 \<or> v = 2"
    by (simp_all add: word_le_nat_alt word_unat_eq_iff)
qed

lemma valid_product:
  assumes "gateway_product_settings_validate s"
  shows "web_protocol s = 0 \<or> web_protocol s = 1" "web_enabled s = 0 \<or> web_enabled s = 1"
    "web_interface s = 0 \<or> web_interface s = 1 \<or> web_interface s = 2" "backlight_on s = 0 \<or> backlight_on s = 1"
    "ntp_interval_hours s = 1 \<or> ntp_interval_hours s = 6 \<or> ntp_interval_hours s = 24" "ntp_enabled s = 0 \<or> ntp_enabled s = 1"
    "length (ntp_server s) < GATEWAY_NTP_SERVER_MAX" "list_all host_char (ntp_server s)"
  using assms by (auto simp: gateway_product_settings_validate_def not_less small_u32)

lemma read_schema_text:
  "read_schema (c, ''4VRS_GATEWAY_CONFIG'' @ NL # ''schema='' @ unsigned_text v @ NL # next) = Some (c\<lparr>schema_version := v\<rparr>, next)"
proof -
  have a: "cut_line (''4VRS_GATEWAY_CONFIG'' @ NL # rest) = Some (''4VRS_GATEWAY_CONFIG'', rest)" for rest
    by (rule cut_line_text) (simp add: NL_def)
  have b: "cut_line ((''schema='' @ unsigned_text v) @ NL # next) = Some (''schema='' @ unsigned_text v, next)"
    by (rule cut_line_text) (use number_no in \<open>simp add: NL_def\<close>)
  show ?thesis using a b line_value_text [of "''schema=''" v] by (simp add: read_schema_def)
qed

lemma read_ntp_text:
  assumes "e = 0 \<or> e = 1" "length h < GATEWAY_NTP_SERVER_MAX" "list_all host_char h"
  shows "read_ntp (c, ''time.ntp_enabled='' @ unsigned_text (of_int e) @ NL # ''time.ntp_server='' @ h @ NL # next) =
    Some (set_product (\<lambda>s. s\<lparr>ntp_enabled := e, ntp_server := h\<rparr>) c, next)"
proof -
  have a: "cut_line ((''time.ntp_enabled='' @ unsigned_text v) @ NL # rest) = Some (''time.ntp_enabled='' @ unsigned_text v, rest)" for v rest
    by (rule cut_line_text) (use number_no in \<open>simp add: NL_def\<close>)
  have b: "cut_line ((''time.ntp_server='' @ h) @ NL # next) = Some (''time.ntp_server='' @ h, next)"
    by (rule cut_line_text) (use assms(3) host_char_no in \<open>auto simp: NL_def list_all_iff\<close>)
  show ?thesis
    using a b assms(2) sint_flag [OF assms(1)] line_value_text [of "''time.ntp_enabled=''" "of_int e"] by (simp add: read_ntp_def)
qed

lemma interval_numbers: "unsigned_text 6 = ''6''" "unsigned_text 24 = ''24''"
  by (simp_all add: unsigned_text_def decimal.simps char_of_def bit_0)

lemma read_interval_text:
  assumes "v = 1 \<or> v = 6 \<or> v = 24"
  shows "read_interval (c, ''time.ntp_interval_hours='' @ unsigned_text v @ NL # next) =
    Some (set_product (\<lambda>s. s\<lparr>ntp_interval_hours := v\<rparr>) c, next)"
proof -
  have a: "cut_line ((''time.ntp_interval_hours='' @ unsigned_text v) @ NL # next) = Some (''time.ntp_interval_hours='' @ unsigned_text v, next)"
    by (rule cut_line_text) (use number_no in \<open>simp add: NL_def\<close>)
  have "is_digit (char_at (''time.ntp_interval_hours='' @ unsigned_text v) 24)"
    using assms by (auto simp: char_at_def small_numbers interval_numbers is_digit_def)
  then show ?thesis using a assms line_value_text [of "''time.ntp_interval_hours=''" v] by (auto simp: read_interval_def)
qed

lemma read_backlight_text:
  assumes "\<not> starts_with ''display.backlight_on='' next" "backlight_on s = 0 \<or> backlight_on s = 1" "backlight_on (product_settings c) = 1"
  shows "read_backlight (c, concat (if backlight_on s = 0 then [''display.backlight_on=0'' @ [NL]] else []) @ next) =
    Some (set_product (\<lambda>t. t\<lparr>backlight_on := backlight_on s\<rparr>) c, next)"
proof (cases "backlight_on s = 0")
  case True
  have "cut_line (''display.backlight_on=0'' @ NL # next) = Some (''display.backlight_on=0'', next)"
    by (rule cut_line_text) (simp add: NL_def)
  then show ?thesis using True by (simp add: read_backlight_def char_at_def digit_value_def)
next
  case False
  then show ?thesis using assms by (cases c) (simp add: read_backlight_def set_product_def)
qed

lemma read_digit_text:
  assumes "NL \<notin> set key" "v = 0 \<or> v = 1 \<or> (hi = CHR ''2'' \<and> v = 2)" "hi = CHR ''1'' \<or> hi = CHR ''2''"
  shows "read_digit key hi (key @ unsigned_text v @ NL # next) = Some (v, next)"
proof -
  have a: "cut_line ((key @ unsigned_text v) @ NL # next) = Some (key @ unsigned_text v, next)"
    by (rule cut_line_text) (use assms(1) number_no in simp)
  show ?thesis using a assms(2,3) by (auto simp: read_digit_def small_numbers char_at_def nth_append digit_value_def)
qed

lemma read_web_text:
  assumes "web_enabled s = 0 \<or> web_enabled s = 1" "web_interface s = 0 \<or> web_interface s = 1 \<or> web_interface s = 2"
  shows "schema_version c \<ge> 2 \<Longrightarrow>
    read_web (c, ''web.enabled='' @ unsigned_text (web_enabled s) @ NL # ''web.interface='' @ unsigned_text (web_interface s) @ NL # next) =
    Some (set_product (\<lambda>t. t\<lparr>web_enabled := web_enabled s, web_interface := web_interface s\<rparr>) c, next)"
  using read_digit_text [of "''web.enabled=''" "web_enabled s" "CHR ''1''"]
    read_digit_text [of "''web.interface=''" "web_interface s" "CHR ''2''"] assms
  by (simp add: read_web_def NL_def)

lemma read_protocol_text:
  assumes "web_protocol s = 0 \<or> web_protocol s = 1"
  shows "schema_version c = 3 \<Longrightarrow> read_protocol (c, ''web.protocol='' @ unsigned_text (web_protocol s) @ NL # next) =
    Some (set_product (\<lambda>t. t\<lparr>web_protocol := web_protocol s\<rparr>) c, next)"
proof -
  assume v: "schema_version c = 3"
  have a: "cut_line ((''web.protocol='' @ unsigned_text (web_protocol s)) @ NL # next) =
      Some (''web.protocol='' @ unsigned_text (web_protocol s), next)"
    by (rule cut_line_text) (use number_no in \<open>simp add: NL_def\<close>)
  show ?thesis using a v assms by (auto simp: read_protocol_def small_numbers char_at_def digit_value_def)
qed

definition web_text :: "gateway_persistent_config \<Rightarrow> string" where
  "web_text c = (let s = product_settings c in
     (if schema_version c \<ge> 2 then ''web.enabled='' @ unsigned_text (web_enabled s) @ NL # ''web.interface='' @
        unsigned_text (web_interface s) @ [NL] else []) @
     (if schema_version c = 3 then ''web.protocol='' @ unsigned_text (web_protocol s) @ [NL] else []))"

lemma head_text: "concat (head_texts c) = (let s = product_settings c in
    ''4VRS_GATEWAY_CONFIG'' @ NL # ''schema='' @ unsigned_text (schema_version c) @ NL #
    ''time.ntp_enabled='' @ unsigned_text (of_int (ntp_enabled s)) @ NL # ''time.ntp_server='' @ ntp_server s @ NL #
    ''time.ntp_interval_hours='' @ unsigned_text (ntp_interval_hours s) @ NL #
    concat (if backlight_on s = 0 then [''display.backlight_on=0'' @ [NL]] else []) @ web_text c)"
  by (simp add: head_texts_def web_text_def Let_def)

lemma port_text_starts: "\<exists>t. concat (port_texts i p) = ''port.'' @ t"
  by (simp add: port_texts_def port_line_def port_key_def)

lemma web_text_starts: "\<not> starts_with ''display.backlight_on='' (web_text c @ ''port.'' @ t)"
  by (simp add: web_text_def Let_def)

lemma ports_valid:
  assumes "config_writable c" "i < GATEWAY_PORT_COUNT"
  shows "port_writable (config_ports c ! i)"
proof -
  have l: "length (config_ports c) = GATEWAY_PORT_COUNT" "fst (gateway_configuration_validate (config_ports c)) = 0"
    using assms(1) by (simp_all add: config_writable_def Let_def)
  have "\<forall>k < GATEWAY_PORT_COUNT. snd (gateway_configuration_validate (config_ports c)) ! k = GATEWAY_ERROR_NONE"
    using l validate_error(1) [OF l(1), of 0]
    by (auto simp: gateway_configuration_validate_def Let_def filter_empty_conv all_set_conv_all_nth)
  then have "validate_one (config_ports c ! i) = GATEWAY_ERROR_NONE" using validate_error(2) [OF l(1) assms(2)] assms(2) by simp
  then show ?thesis using assms l(1) by (simp add: port_writable_def config_writable_def Let_def)
qed

lemma read_web_parts:
  assumes "config_writable c" "schema_version d = schema_version c" "web_enabled (product_settings d) = 0"
    "web_interface (product_settings d) = 0" "web_protocol (product_settings d) = 1"
  shows "Option.bind (read_web (d, web_text c @ next)) read_protocol =
    Some (set_product (\<lambda>t. t\<lparr>web_enabled := web_enabled (product_settings c), web_interface := web_interface (product_settings c),
      web_protocol := web_protocol (product_settings c)\<rparr>) d, next)"
proof -
  define s where "s = product_settings c"
  have v: "schema_version c = 1 \<or> schema_version c = 2 \<or> schema_version c = 3"
    "schema_version c < 3 \<longrightarrow> web_protocol s = 1" "schema_version c = 1 \<longrightarrow> web_enabled s = 0 \<and> web_interface s = 0"
    "gateway_product_settings_validate s"
    using assms(1) by (simp_all add: config_writable_def known_version_def s_def Let_def)
  note p = valid_product [OF v(4)]
  have n: "\<not> (2 :: u32) \<le> 1" by (simp add: word_le_nat_alt)
  consider "schema_version c = 1" | "schema_version c = 2" | "schema_version c = 3" using v(1) by blast
  then show ?thesis
  proof cases
    case 1
    then show ?thesis using assms v n by (cases d; cases "product_settings d")
        (simp add: web_text_def read_web_def read_protocol_def set_product_def s_def Let_def)
  next
    case 2
    then have w: "read_web (d, web_text c @ next) =
        Some (set_product (\<lambda>t. t\<lparr>web_enabled := web_enabled s, web_interface := web_interface s\<rparr>) d, next)"
      using read_web_text [OF p(2,3), of d "next"] assms(2) by (simp add: web_text_def s_def Let_def)
    show ?thesis unfolding w using 2 assms v by (cases d; cases "product_settings d")
        (simp add: read_protocol_def set_product_def s_def Let_def)
  next
    case 3
    then have w: "read_web (d, web_text c @ next) =
        Some (set_product (\<lambda>t. t\<lparr>web_enabled := web_enabled s, web_interface := web_interface s\<rparr>) d,
          ''web.protocol='' @ unsigned_text (web_protocol s) @ NL # next)"
      using read_web_text [OF p(2,3), of d] assms(2) by (simp add: web_text_def s_def Let_def)
    show ?thesis unfolding w using 3 assms(2) read_protocol_text [OF p(1)]
      by (cases d; cases "product_settings d") (simp add: set_product_def s_def)
  qed
qed

lemma read_body_text:
  assumes "config_writable c"
  shows "read_body (concat (body_texts c)) = Some c"
proof -
  define s where "s = product_settings c"
  define ps where "ps = concat (concat (map (\<lambda>i. port_texts i (config_ports c ! i)) [0..<GATEWAY_PORT_COUNT]))"
  have ok: "gateway_product_settings_validate s" "length (config_ports c) = GATEWAY_PORT_COUNT"
      "fst (gateway_configuration_validate (config_ports c)) = 0"
    using assms by (simp_all add: config_writable_def s_def Let_def)
  note p = valid_product [OF ok(1)]
  obtain t where t: "ps = ''port.'' @ t"
    using port_text_starts [of 0 "config_ports c ! 0"] by (auto simp: ps_def upt_rec [of 0])
  have m: "map ((!) (config_ports c)) [0..<GATEWAY_PORT_COUNT] = config_ports c" using ok(2) by (metis map_nth)
  have "list_all port_writable (config_ports c)"
    using ports_valid [OF assms] ok(2) by (simp add: list_all_length)
  then have r: "read_ports [0..<GATEWAY_PORT_COUNT] ps = Some (config_ports c, [])"
    using read_ports_text [of "(!) (config_ports c)" "[0..<GATEWAY_PORT_COUNT]" "[]"] m by (simp add: ps_def)
  define d1 where "d1 = blank_config\<lparr>schema_version := schema_version c\<rparr>"
  define d2 where "d2 = set_product (\<lambda>t. t\<lparr>ntp_enabled := ntp_enabled s, ntp_server := ntp_server s\<rparr>) d1"
  define d3 where "d3 = set_product (\<lambda>t. t\<lparr>ntp_interval_hours := ntp_interval_hours s\<rparr>) d2"
  define d4 where "d4 = set_product (\<lambda>t. t\<lparr>backlight_on := backlight_on s\<rparr>) d3"
  note dd = d1_def d2_def d3_def d4_def set_product_def blank_config_def
  have b: "read_backlight (d3, concat (if backlight_on s = 0 then [''display.backlight_on=0'' @ [NL]] else []) @ web_text c @ ps) =
      Some (d4, web_text c @ ps)"
    unfolding d4_def using web_text_starts [of c t] p(4) t by (intro read_backlight_text) (simp_all add: dd)
  have w: "Option.bind (read_web (d4, web_text c @ ps)) read_protocol =
      Some (set_product (\<lambda>t. t\<lparr>web_enabled := web_enabled s, web_interface := web_interface s, web_protocol := web_protocol s\<rparr>) d4, ps)"
    unfolding s_def by (rule read_web_parts [OF assms]) (simp_all add: dd)
  define d5 where "d5 = set_product (\<lambda>t. t\<lparr>web_enabled := web_enabled s, web_interface := web_interface s, web_protocol := web_protocol s\<rparr>) d4"
  have c: "d5\<lparr>config_ports := config_ports c\<rparr> = c"
    by (cases c; cases "product_settings c") (simp add: d5_def dd s_def)
  have body: "concat (body_texts c) = ''4VRS_GATEWAY_CONFIG'' @ NL # ''schema='' @ unsigned_text (schema_version c) @ NL #
    ''time.ntp_enabled='' @ unsigned_text (of_int (ntp_enabled s)) @ NL # ''time.ntp_server='' @ ntp_server s @ NL #
    ''time.ntp_interval_hours='' @ unsigned_text (ntp_interval_hours s) @ NL #
    concat (if backlight_on s = 0 then [''display.backlight_on=0'' @ [NL]] else []) @ web_text c @ ps"
    unfolding body_texts_def concat_append head_text ps_def s_def Let_def by simp
  have pd: "product_settings d5 = s" using arg_cong [OF c, of product_settings] by (simp add: s_def)
  obtain q where q: "read_web (d4, web_text c @ ps) = Some q" "read_protocol q = Some (d5, ps)"
    using w unfolding d5_def [symmetric] by (auto simp: bind_eq_Some_conv)
  show ?thesis
    unfolding read_body_def body
    apply (subst read_schema_text) apply (subst Option.bind.simps) unfolding d1_def [symmetric]
    apply (subst read_ntp_text [OF p(6,7,8)]) apply (subst Option.bind.simps) unfolding d2_def [symmetric]
    apply (subst read_interval_text [OF p(5)]) apply (subst Option.bind.simps) unfolding d3_def [symmetric]
    apply (subst b) apply (subst Option.bind.simps)
    using c ok by (simp add: q r pd Let_def)
qed

section \<open>Where the checksum line is\<close>

lemma find_text_bound: "find_text p s = Some k \<Longrightarrow> k \<le> length s"
  by (induction s arbitrary: k) (auto split: if_splits)

lemma find_text_none: "find_text p s = None \<longleftrightarrow> (\<forall>a b. s \<noteq> a @ p @ b)"
proof (induction s)
  case (Cons c s)
  have "(\<exists>a b. c # s = a @ p @ b) \<longleftrightarrow> starts_with p (c # s) \<or> (\<exists>a b. s = a @ p @ b)"
    by (auto simp: starts_with_iff prefix_def Cons_eq_append_conv)
  then show ?case using Cons.IH by auto
qed auto

lemma find_text_line:
  assumes "find_text p l = None" "NL \<notin> set p" "p \<noteq> []"
  shows "find_text p (l @ NL # r) = map_option ((+) (length l + 1)) (find_text p r)"
  using assms(1)
proof (induction l)
  case Nil
  have "\<not> starts_with p (NL # r)" using assms(2,3) by (cases p) auto
  then show ?case by (simp add: map_option.compositionality comp_def)
next
  case (Cons c l)
  have n: "\<not> starts_with p (c # l)" "find_text p l = None" using Cons.prems by (auto split: if_splits)
  have "\<not> starts_with p ((c # l) @ NL # r)"
  proof
    assume "starts_with p ((c # l) @ NL # r)"
    then have "prefix p (c # l) \<or> prefix ((c # l) @ [NL]) p"
      by (auto simp: starts_with_iff) (metis append.assoc append_Cons append_Nil prefixI prefix_same_cases prefix_snoc strict_prefixI')
    then show False using n(1) assms(2) by (auto simp: starts_with_iff prefix_def)
  qed
  then show ?case using Cons.IH [OF n(2)] by (auto simp: map_option.compositionality comp_def)
qed

definition no_crc :: "string \<Rightarrow> bool" where
  "no_crc t \<longleftrightarrow> (\<forall>r. find_text ''crc32='' (t @ r) = map_option ((+) (length t)) (find_text ''crc32='' r))"

lemma no_crc_append: "no_crc a \<Longrightarrow> no_crc b \<Longrightarrow> no_crc (a @ b)"
  by (auto simp: no_crc_def map_option.compositionality comp_def add.assoc intro!: option.map_cong)

lemma no_crc_concat: "list_all no_crc ts \<Longrightarrow> no_crc (concat ts)"
proof (induction ts)
  case Nil
  have "(+) (0 :: nat) = id" by (simp add: fun_eq_iff)
  then show ?case by (simp add: no_crc_def option.map_id)
qed (simp add: no_crc_append)

lemma no_crc_line:
  assumes "find_text ''crc32='' l = None"
  shows "no_crc (l @ [NL])"
  using find_text_line [OF assms] by (simp add: no_crc_def NL_def)

lemma no_crc_plain: "CHR ''='' \<notin> set l \<Longrightarrow> no_crc (l @ [NL])"
  by (rule no_crc_line) (auto simp: find_text_none)

lemma no_crc_field:
  assumes "CHR ''='' \<notin> set k" "CHR ''='' \<notin> set v" "last k \<noteq> CHR ''2''"
  shows "no_crc ((k @ ''='' @ v) @ [NL])"
proof (rule no_crc_line, unfold find_text_none, intro allI notI)
  fix a b assume "k @ ''='' @ v = a @ ''crc32='' @ b"
  then have e: "k @ CHR ''='' # v = (a @ ''crc32'') @ CHR ''='' # b" by simp
  have "k = a @ ''crc32''" using iffD1 [OF append_Cons_eq_iff [OF assms(1,2)] e] by simp
  then show False using assms(3) by simp
qed

lemma no_crc_port_line:
  assumes "CHR ''='' \<notin> set name" "name \<noteq> []" "last name \<noteq> CHR ''2''"
  shows "no_crc (port_line i name v)"
proof -
  have d: "CHR ''='' \<notin> set (decimal (i + 1))" using decimal_digits(1) [of "i + 1"] digit_plain by (auto simp: list_all_iff)
  show ?thesis
    using no_crc_field [of "''port.'' @ decimal (i + 1) @ ''.'' @ name" "unsigned_text v"] assms d number_no
    by (simp add: port_line_def port_key_def)
qed

text \<open>Bind addresses are digits, dots, blanks and signs.\<close>

definition address_char :: "char \<Rightarrow> bool" where
  "address_char c \<longleftrightarrow> blank c \<or> decimal_digit c \<or> c = CHR ''.'' \<or> c = CHR ''-'' \<or> c = CHR ''+''"

lemma scan_unsigned_chars:
  assumes "scan_unsigned s = Some (v, r)"
  shows "\<forall>c \<in> set s. address_char c \<or> c \<in> set r"
proof -
  define t where "t = dropWhile blank s"
  define u where "u = (if t \<noteq> [] \<and> (hd t = CHR ''-'' \<or> hd t = CHR ''+'') then tl t else t)"
  have r: "r = dropWhile decimal_digit u"
    using assms by (auto simp: scan_unsigned_def Let_def t_def [symmetric] u_def split: if_splits)
  have "set s \<subseteq> {c. blank c} \<union> set t" unfolding t_def by (metis Un_iff mem_Collect_eq set_append set_takeWhileD subsetI takeWhile_dropWhile_id)
  moreover have "set t \<subseteq> {CHR ''-'', CHR ''+''} \<union> set u" by (cases t) (auto simp: u_def)
  moreover have "set u \<subseteq> {c. decimal_digit c} \<union> set r"
    unfolding r by (metis Un_iff mem_Collect_eq set_append set_takeWhileD subsetI takeWhile_dropWhile_id)
  ultimately show ?thesis by (auto simp: address_char_def)
qed

lemma scan_quad_chars: "scan_quad k s = Some vs \<Longrightarrow> c \<in> set s \<Longrightarrow> address_char c"
proof (induction k s arbitrary: vs rule: scan_quad.induct)
  case (2 k s)
  obtain v r where r: "scan_unsigned s = Some (v, r)" using "2.prems"(1) by (auto split: option.splits)
  have "c \<in> set r \<Longrightarrow> address_char c"
  proof (cases "k = 0")
    case True
    then show "c \<in> set r \<Longrightarrow> address_char c" using "2.prems"(1) r by (simp split: if_splits)
  next
    case False
    then obtain u ws where u: "scan_dot r = Some u" "scan_quad k u = Some ws"
      using "2.prems"(1) r by (auto split: option.splits)
    then have "set r \<subseteq> {CHR ''.''} \<union> set u" by (cases r) (auto simp: scan_dot_def split: if_splits)
    then show "c \<in> set r \<Longrightarrow> address_char c" using "2.IH" [OF r refl False u] by (auto simp: address_char_def)
  qed
  then show ?case using scan_unsigned_chars [OF r] "2.prems"(2) by blast
qed simp

lemma address_no:
  assumes "validate_one p = GATEWAY_ERROR_NONE"
  shows "CHR ''='' \<notin> set (gc_bind_address p)" "NUL \<notin> set (gc_bind_address p)"
proof -
  obtain vs where "scan_quad 4 (gc_bind_address p) = Some vs" using valid_port(5) [OF assms] by auto
  note c = scan_quad_chars [OF this]
  show "CHR ''='' \<notin> set (gc_bind_address p)" using c [of "CHR ''=''"] by (auto simp: address_char_def blank_def decimal_digit_def)
  show "NUL \<notin> set (gc_bind_address p)" using c [of NUL] by (auto simp: address_char_def blank_def decimal_digit_def)
qed

lemma no_crc_ports:
  assumes "validate_one p = GATEWAY_ERROR_NONE"
  shows "list_all no_crc (port_texts i p)"
proof -
  have d: "CHR ''='' \<notin> set (decimal (i + 1))" using decimal_digits(1) [of "i + 1"] digit_plain by (auto simp: list_all_iff)
  have "no_crc (port_key i ''bind_address'' @ gc_bind_address p @ [NL])"
    using no_crc_field [of "''port.'' @ decimal (i + 1) @ ''.'' @ ''bind_address''" "gc_bind_address p"] d address_no(1) [OF assms]
    by (simp add: port_key_def)
  then show ?thesis by (simp add: port_texts_def no_crc_port_line)
qed

lemma no_crc_head:
  assumes "list_all host_char (ntp_server (product_settings c))"
  shows "no_crc (concat (head_texts c))"
proof -
  have h: "CHR ''='' \<notin> set (ntp_server (product_settings c))" using assms host_char_no by (auto simp: list_all_iff)
  note f = no_crc_field [of "''schema''"] no_crc_field [of "''time.ntp_enabled''"] no_crc_field [of "''time.ntp_server''"]
    no_crc_field [of "''time.ntp_interval_hours''"] no_crc_field [of "''display.backlight_on''" "''0''"]
    no_crc_field [of "''web.enabled''"] no_crc_field [of "''web.interface''"] no_crc_field [of "''web.protocol''"]
  have l: "no_crc (''4VRS_GATEWAY_CONFIG'' @ [NL])" by (rule no_crc_plain) simp
  have "no_crc (concat [''4VRS_GATEWAY_CONFIG'' @ [NL], (''schema'' @ ''='' @ unsigned_text (schema_version c)) @ [NL],
      (''time.ntp_enabled'' @ ''='' @ unsigned_text (of_int (ntp_enabled (product_settings c)))) @ [NL],
      (''time.ntp_server'' @ ''='' @ ntp_server (product_settings c)) @ [NL],
      (''time.ntp_interval_hours'' @ ''='' @ unsigned_text (ntp_interval_hours (product_settings c))) @ [NL],
      if backlight_on (product_settings c) = 0 then (''display.backlight_on'' @ ''='' @ ''0'') @ [NL] else [],
      if schema_version c \<ge> 2 then (''web.enabled'' @ ''='' @ unsigned_text (web_enabled (product_settings c))) @ [NL] else [],
      if schema_version c \<ge> 2 then (''web.interface'' @ ''='' @ unsigned_text (web_interface (product_settings c))) @ [NL] else [],
      if schema_version c = 3 then (''web.protocol'' @ ''='' @ unsigned_text (web_protocol (product_settings c))) @ [NL] else []])"
    by (rule no_crc_concat) (use f l h number_no in \<open>simp add: no_crc_concat [of "[]", simplified]\<close>)
  then show ?thesis
    by (cases "schema_version c \<ge> 2"; cases "schema_version c = 3"; cases "backlight_on (product_settings c) = 0")
      (simp_all add: head_texts_def Let_def)
qed

section \<open>The checksum line\<close>

lemma nibble_less: "unat (x AND 15 :: u32) < 16"
proof -
  have "x AND 15 = take_bit 4 x" using take_bit_eq_mask [of 4 x] by (simp add: mask_eq_decr_exp and.commute)
  then show ?thesis using take_bit_nat_less_exp [of 4 "unat x"] by (simp add: unsigned_take_bit_eq)
qed

lemma hex_char_value: "n < 16 \<Longrightarrow> hex_value (hex_char n) = Some n"
  by (auto simp: hex_value_def hex_char_def Let_def of_char_of)

lemma hex_char_plain: "n < 16 \<Longrightarrow> \<not> blank (hex_char n) \<and> hex_char n \<notin> {CHR ''-'', CHR ''+'', CHR ''x'', CHR ''X'', NL, NUL, CHR ''=''}"
proof -
  assume n: "n < 16"
  have "of_char (hex_char n) = (if n < 10 then 48 + n else 55 + n)" using n by (simp add: hex_char_def of_char_of)
  then have "48 \<le> (of_char (hex_char n) :: nat)" "(of_char (hex_char n) :: nat) \<le> 70" "(of_char (hex_char n) :: nat) \<noteq> 61"
    using n by (simp_all split: if_splits)
  then show ?thesis by (auto simp: blank_def NL_def)
qed

lemma nibble_split: "(x :: u32) = drop_bit 4 x * 16 + (x AND 15)"
proof -
  have "x AND 15 = x mod 16" using take_bit_eq_mask [of 4 x] by (simp add: take_bit_eq_mod mask_eq_decr_exp and.commute)
  moreover have "drop_bit 4 x = x div 16" by (simp add: drop_bit_eq_div)
  ultimately show ?thesis by (metis div_mult_mod_eq)
qed

lemma hex_number_hex8: "hex_number (hex8 v) = v"
proof -
  define n where "n k = (drop_bit (4 * k) v AND 15 :: u32)" for k
  have s: "drop_bit (4 * k) v = drop_bit (4 * Suc k) v * 16 + n k" for k
    using nibble_split [of "drop_bit (4 * k) v"] by (simp add: n_def add.commute)
  have z: "drop_bit (4 * 8) v = 0" by (rule bit_word_eqI) (simp add: bit_drop_bit_eq)
  have h: "of_nat (the (hex_value (hex_char (unat (n k))))) = n k" for k
    using nibble_less by (simp add: hex_char_value n_def)
  have "hex_number (hex8 v) =
      (((((((0 * 16 + n 7) * 16 + n 6) * 16 + n 5) * 16 + n 4) * 16 + n 3) * 16 + n 2) * 16 + n 1) * 16 + n 0"
    by (simp add: hex_number_def hex8_def n_def [symmetric] h del: mult_Suc_right)
  also have "\<dots> = v"
    using s [of 0] s [of 1] s [of 2] s [of 3] s [of 4] s [of 5] s [of 6] s [of 7] z by simp
  finally show ?thesis .
qed

lemma hex8_digits: "length (hex8 v) = 8" "list_all (\<lambda>c. \<exists>n < 16. c = hex_char n) (hex8 v)"
  using nibble_less by (simp_all add: hex8_def) blast+

lemma hex8_chars: "c \<in> set (hex8 v) \<Longrightarrow> is_hex c \<and> \<not> blank c \<and> c \<notin> {CHR ''-'', CHR ''+'', CHR ''x'', CHR ''X'', NL, NUL, CHR ''=''}"
  using hex8_digits(2) [of v] hex_char_plain hex_char_value by (fastforce simp: list_all_iff is_hex_def)

lemma scan_hex8_text: "scan_hex8 (hex8 v @ [NL]) = Some v"
proof -
  obtain a b ds where h: "hex8 v = a # b # ds" using hex8_digits(1) [of v] by (cases "hex8 v"; cases "tl (hex8 v)") auto
  have a: "\<not> blank a" "a \<noteq> CHR ''-''" "a \<noteq> CHR ''+''" "b \<noteq> CHR ''x''" "b \<noteq> CHR ''X''"
    using hex8_chars [of a v] hex8_chars [of b v] h by simp_all
  have t: "takeWhile is_hex (hex8 v) = hex8 v" using hex8_chars by (simp add: takeWhile_eq_all_conv)
  have d: "take 8 (dropWhile blank (hex8 v @ [NL])) = hex8 v" using a(1) h hex8_digits(1) [of v] by simp
  have p: "\<not> starts_with ''0x'' (hex8 v)" "\<not> starts_with ''0X'' (hex8 v)" using h a by auto
  show ?thesis using a t h p hex_number_hex8 [of v] unfolding scan_hex8_def d by (simp add: Let_def)
qed

section \<open>The whole text\<close>

lemma append_texts:
  "foldl (append_text cap) (Some u) ts = Some r \<Longrightarrow> r = u @ concat ts"
proof (induction ts arbitrary: u)
  case (Cons t ts)
  have n: "foldl (append_text cap) None xs = None" for xs by (induction xs) (simp_all add: append_text_def)
  have "append_text cap (Some u) t = Some (u @ t)"
    using Cons.prems n [of ts] by (cases "length t \<ge> cap - length u") (simp_all add: append_text_def [of cap "Some u" t])
  then show ?case using Cons.prems Cons.IH [of "u @ t"] by simp
qed simp

lemma encoded_parts:
  assumes "gateway_config_encode c cap = Inr t"
  shows "t = concat (body_texts c) @ ''crc32='' @ hex8 (crc32_bytes (concat (body_texts c))) @ [NL]" "length t < cap" "cap \<le> GATEWAY_CONFIG_MAX_BYTES"
proof -
  obtain u where u: "foldl (append_text cap) (Some []) (body_texts c) = Some u"
      "append_text cap (Some u) (''crc32='' @ hex8 (crc32_bytes u) @ [NL]) = Some t" "cap \<le> GATEWAY_CONFIG_MAX_BYTES"
    using assms by (auto simp: gateway_config_encode_def Let_def split: if_splits option.splits)
  have c: "u = concat (body_texts c)" using append_texts [OF u(1)] by simp
  show "t = concat (body_texts c) @ ''crc32='' @ hex8 (crc32_bytes (concat (body_texts c))) @ [NL]"
    using u(2) by (auto simp: append_text_def c split: if_splits)
  show "length t < cap" using u(2) by (auto simp: append_text_def split: if_splits)
  show "cap \<le> GATEWAY_CONFIG_MAX_BYTES" by (rule u(3))
qed

lemma encoded_writable:
  assumes "gateway_config_encode c cap = Inr t" "length (config_ports c) = GATEWAY_PORT_COUNT"
    "\<forall>p \<in> set (config_ports c). NL \<notin> set (gc_bind_address p)"
  shows "config_writable c"
  using assms by (auto simp: gateway_config_encode_def config_writable_def Let_def split: if_splits)

lemma c_string_whole: "NUL \<notin> set t \<Longrightarrow> c_string t = t"
  by (induction t) (auto simp: c_string_def)

lemma NUL_free_port: "validate_one p = GATEWAY_ERROR_NONE \<Longrightarrow> NUL \<notin> set (concat (port_texts i p))"
proof -
  assume p: "validate_one p = GATEWAY_ERROR_NONE"
  have k: "NUL \<notin> set name \<Longrightarrow> NUL \<notin> set (port_key i name)" for name by (rule key_no) (auto simp: is_digit_def)
  then have l: "NUL \<notin> set name \<Longrightarrow> NUL \<notin> set (port_line i name v)" for name v
    using number_no by (simp add: port_line_def NL_def)
  show ?thesis using l k address_no(2) [OF p] by (auto simp: port_texts_def NL_def)
qed

lemma NUL_free_body:
  assumes "config_writable c"
  shows "NUL \<notin> set (concat (body_texts c))"
proof -
  have h: "NUL \<notin> set (ntp_server (product_settings c))"
    using assms valid_product(8) host_char_no by (fastforce simp: config_writable_def Let_def list_all_iff)
  have "NUL \<notin> set (concat (head_texts c))"
    using h number_no(2) by (auto simp: head_texts_def NL_def Let_def)
  moreover have "NUL \<notin> set (concat (port_texts i (config_ports c ! i)))" if "i < GATEWAY_PORT_COUNT" for i
    by (rule NUL_free_port) (use ports_valid [OF assms that] in \<open>simp add: port_writable_def\<close>)
  ultimately show ?thesis by (fastforce simp: body_texts_def)
qed

lemma body_no_crc:
  assumes "config_writable c"
  shows "no_crc (concat (body_texts c))"
proof -
  have "no_crc (concat (head_texts c))"
    by (rule no_crc_head, rule valid_product(8)) (use assms in \<open>simp add: config_writable_def Let_def\<close>)
  moreover have "list_all no_crc (concat (map (\<lambda>i. port_texts i (config_ports c ! i)) [0..<GATEWAY_PORT_COUNT]))"
    using ports_valid [OF assms] no_crc_ports unfolding list_all_iff port_writable_def by fastforce
  ultimately show ?thesis unfolding body_texts_def concat_append by (rule no_crc_append [OF _ no_crc_concat])
qed

lemma own_version:
  assumes "known_version (schema_version c)"
  shows "\<not> foreign_version (concat (body_texts c) @ rest)"
proof -
  obtain t where t: "concat (body_texts c) = ''4VRS_GATEWAY_CONFIG'' @ NL # ''schema='' @ unsigned_text (schema_version c) @ NL # t"
    unfolding body_texts_def concat_append head_text Let_def by auto
  have f: "find_text (NL # ''schema='') (concat (body_texts c) @ rest) = Some 19" by (simp add: t NL_def)
  have "drop (19 + 8) (concat (body_texts c) @ rest) = unsigned_text (schema_version c) @ NL # t @ rest" by (simp add: t)
  moreover have "\<not> is_digit NL" by (simp add: is_digit_def NL_def)
  ultimately show ?thesis using assms f strtoul_decimal [of "NL # t @ rest"] by (simp add: foreign_version_def char_at_def)
qed

lemma decode_encoded:
  assumes "gateway_config_encode c cap = Inr t" "length (config_ports c) = GATEWAY_PORT_COUNT"
    "\<forall>p \<in> set (config_ports c). NL \<notin> set (gc_bind_address p)"
  shows "gateway_config_decode t = Inr c"
proof -
  define b where "b = concat (body_texts c)"
  define tail where "tail = ''crc32='' @ hex8 (crc32_bytes b) @ [NL]"
  have w: "config_writable c" by (rule encoded_writable [OF assms])
  have t: "t = b @ tail" "length t < cap" "cap \<le> GATEWAY_CONFIG_MAX_BYTES" using encoded_parts [OF assms(1)] by (simp_all add: b_def tail_def)
  have "NUL \<notin> set tail" using hex8_chars by (fastforce simp: tail_def NL_def)
  then have c: "c_string t = t" using NUL_free_body [OF w] by (intro c_string_whole) (simp add: t b_def)
  have v: "\<not> foreign_version t" using own_version [of c tail] w by (simp add: t b_def config_writable_def Let_def)
  have f: "find_text ''crc32='' t = Some (length b)"
    using body_no_crc [OF w] by (simp add: no_crc_def t b_def [symmetric]) (simp add: tail_def)
  have l: "length tail = 15" "drop 6 tail = hex8 (crc32_bytes b) @ [NL]" "NL \<in> set tail" using hex8_digits(1) by (simp_all add: tail_def)
  have ne: "b \<noteq> []" unfolding b_def body_texts_def concat_append head_text Let_def by simp
  have le: "length t \<le> GATEWAY_CONFIG_MAX_BYTES" using t(2,3) by simp
  show ?thesis
    using v f l ne le unfolding gateway_config_decode_def c Let_def
    by (simp add: t(1) scan_hex8_text read_body_text [OF w, folded b_def])
qed

end
