(* ===== verification/Config_Accepted.thy ===== *)
theory Config_Accepted
  imports Config_Roundtrip
begin

text \<open>
  Every configuration that passes the validation fits into the text buffer and reads back, and every configuration the
  decoder of \<open>src/config/gateway_persistence.c\<close> accepts is one that can be run and written again.
\<close>

section \<open>Room\<close>

lemma decimal_digits_bound: "n < 10 ^ Suc k \<Longrightarrow> length (decimal n) \<le> Suc k"
proof (induction k arbitrary: n)
  case (Suc k)
  have "n div 10 < 10 ^ Suc k" using Suc.prems by (intro less_mult_imp_div_less) (simp add: mult.commute)
  then show ?case using Suc.IH [of "n div 10"] by (cases "n < 10") (simp_all add: decimal.simps [of n])
qed (simp add: decimal.simps)

lemma number_length: "length (unsigned_text v) \<le> 10"
  using decimal_digits_bound [of "unat v" 9] unat_u32_less [of v] by (simp add: unsigned_text_def)

lemma key_length: "i < GATEWAY_PORT_COUNT \<Longrightarrow> length (port_key i name) = length name + 8"
  by (simp add: port_key_def decimal.simps)

lemma line_length: "i < GATEWAY_PORT_COUNT \<Longrightarrow> length (port_line i name v) \<le> length name + 19"
  using number_length [of v] by (simp add: port_line_def key_length)

lemma port_length:
  assumes "port_writable p" "i < GATEWAY_PORT_COUNT"
  shows "length (concat (port_texts i p)) \<le> 430"
proof -
  have "length (gc_bind_address p) < GATEWAY_BIND_ADDRESS_LENGTH" using assms(1) valid_port(4) by (simp add: port_writable_def)
  then show ?thesis
    using line_length [OF assms(2), of "''enabled''" "of_int (gc_enabled p)"] line_length [OF assms(2), of "''uart''" "gc_uart_index p"]
      line_length [OF assms(2), of "''mode''" "gc_mode p"] line_length [OF assms(2), of "''baud''" "gc_baud p"]
      line_length [OF assms(2), of "''data_bits''" "gc_data_bits p"] line_length [OF assms(2), of "''parity''" "gc_parity p"]
      line_length [OF assms(2), of "''stop_bits''" "gc_stop_bits p"] line_length [OF assms(2), of "''transport''" "gc_transport p"]
      line_length [OF assms(2), of "''bind_policy''" "gc_bind_policy p"] line_length [OF assms(2), of "''endpoint_port''" "gc_endpoint_port p"]
      line_length [OF assms(2), of "''special_baud_enabled''" "of_int (gc_special_baud_enabled p)"]
      line_length [OF assms(2), of "''special_baud''" "gc_special_baud p"] line_length [OF assms(2), of "''revision''" "gc_revision p"]
    by (simp add: port_texts_def key_length [OF assms(2)])
qed

lemma ports_length:
  "\<forall>i \<in> set is. port_writable (f i) \<and> i < GATEWAY_PORT_COUNT \<Longrightarrow>
   length (concat (concat (map (\<lambda>i. port_texts i (f i)) is))) \<le> length is * 430"
proof (induction "is")
  case (Cons i js)
  then show ?case using port_length [of "f i" i] by simp
qed simp

lemma head_length:
  assumes "gateway_product_settings_validate (product_settings c)"
  shows "length (concat (head_texts c)) \<le> 300"
  using valid_product(7) [OF assms] number_length [of "schema_version c"] number_length [of 3] number_length [of "of_int (ntp_enabled (product_settings c))"]
    number_length [of "ntp_interval_hours (product_settings c)"] number_length [of "web_enabled (product_settings c)"]
    number_length [of "web_interface (product_settings c)"] number_length [of "web_protocol (product_settings c)"]
  by (simp add: head_texts_def Let_def)

lemma body_length:
  assumes "config_writable c"
  shows "length (concat (body_texts c)) \<le> 3740"
proof -
  have "length (concat (head_texts c)) \<le> 300"
    by (rule head_length) (use assms in \<open>simp add: config_writable_def Let_def\<close>)
  moreover have "length (concat (concat (map (\<lambda>i. port_texts i (config_ports c ! i)) [0..<GATEWAY_PORT_COUNT]))) \<le>
      length [0..<GATEWAY_PORT_COUNT] * 430"
    by (rule ports_length) (use ports_valid [OF assms] in simp)
  ultimately show ?thesis unfolding body_texts_def concat_append by simp
qed

lemma append_room:
  "length (u @ concat ts) < cap \<Longrightarrow> foldl (append_text cap) (Some u) ts = Some (u @ concat ts)"
proof (induction ts arbitrary: u)
  case (Cons t ts)
  have "append_text cap (Some u) t = Some (u @ t)" using Cons.prems by (simp add: append_text_def)
  then show ?case using Cons.IH [of "u @ t"] Cons.prems by simp
qed simp

lemma encode_writable:
  assumes "config_writable c"
  shows "gateway_config_encode c GATEWAY_CONFIG_MAX_BYTES =
    Inr (concat (body_texts c) @ ''crc32='' @ hex8 (crc32_bytes (concat (body_texts c))) @ [NL])"
proof -
  have l: "length (concat (body_texts c)) \<le> 3740" by (rule body_length [OF assms])
  have f: "foldl (append_text GATEWAY_CONFIG_MAX_BYTES) (Some []) (body_texts c) = Some (concat (body_texts c))"
    using append_room [of "[]" "body_texts c" GATEWAY_CONFIG_MAX_BYTES] l by simp
  have a: "append_text GATEWAY_CONFIG_MAX_BYTES (Some (concat (body_texts c))) (''crc32='' @ hex8 v @ [NL]) =
      Some (concat (body_texts c) @ ''crc32='' @ hex8 v @ [NL])" for v
    using l hex8_digits(1) [of v] by (simp add: append_text_def)
  show ?thesis using assms f a by (simp add: gateway_config_encode_def config_writable_def Let_def)
qed

lemma writable_reads_back:
  assumes "config_writable c"
  shows "\<exists>t. gateway_config_encode c GATEWAY_CONFIG_MAX_BYTES = Inr t \<and> length t < GATEWAY_CONFIG_MAX_BYTES \<and>
    gateway_config_decode t = Inr c"
proof (intro exI conjI)
  note e = encode_writable [OF assms]
  show "gateway_config_encode c GATEWAY_CONFIG_MAX_BYTES =
    Inr (concat (body_texts c) @ ''crc32='' @ hex8 (crc32_bytes (concat (body_texts c))) @ [NL])" by (rule e)
  show "length (concat (body_texts c) @ ''crc32='' @ hex8 (crc32_bytes (concat (body_texts c))) @ [NL]) < GATEWAY_CONFIG_MAX_BYTES"
    by (rule encoded_parts(2) [OF e])
  show "gateway_config_decode (concat (body_texts c) @ ''crc32='' @ hex8 (crc32_bytes (concat (body_texts c))) @ [NL]) = Inr c"
    by (rule decode_encoded [OF e]) (use assms in \<open>simp_all add: config_writable_def Let_def\<close>)
qed

section \<open>What the decoder accepts\<close>

lemma cut_line_parts: "cut_line s = Some (l, r) \<Longrightarrow> s = l @ NL # r \<and> NL \<notin> set l"
proof -
  assume a: "cut_line s = Some (l, r)"
  then have "NL \<in> set s" by (simp add: cut_line_def split: if_splits)
  then obtain x y where xy: "s = x @ NL # y" "NL \<notin> set x" by (auto dest: split_list_first)
  then show ?thesis using a cut_line_text [OF xy(2), of y] by simp
qed

lemma read_schema_parts:
  assumes "read_schema (c, body) = Some r"
  shows "\<exists>d v rest. body = ''4VRS_GATEWAY_CONFIG'' @ NL # ''schema='' @ d @ NL # rest \<and> strtoul d = Some (v, []) \<and>
    r = (c\<lparr>schema_version := v\<rparr>, rest)"
proof -
  obtain l a where a: "cut_line body = Some (l, a)" "l = ''4VRS_GATEWAY_CONFIG''"
    using assms by (auto simp: read_schema_def bind_eq_Some_conv split: if_splits)
  obtain m b v where b: "cut_line a = Some (m, b)" "line_value m ''schema='' = Some v" "r = (c\<lparr>schema_version := v\<rparr>, b)"
    using assms a by (auto simp: read_schema_def bind_eq_Some_conv)
  have m: "starts_with ''schema='' m" "strtoul (drop 7 m) = Some (v, [])"
    using b(2) by (auto simp: line_value_def numeral_eq_Suc split: if_splits option.splits)
  have "take 7 m = ''schema=''" using m(1) by (simp add: starts_with_def numeral_eq_Suc)
  then have "m = ''schema='' @ drop 7 m" using append_take_drop_id [of 7 m] by simp
  moreover have "body = l @ NL # m @ NL # b" using cut_line_parts [OF a(1)] cut_line_parts [OF b(1)] by blast
  ultimately have "body = ''4VRS_GATEWAY_CONFIG'' @ NL # ''schema='' @ drop 7 m @ NL # b" using a(2) by (metis append.assoc)
  then show ?thesis using b(3) m(2) by blast
qed

lemma strtoul_extend:
  assumes "strtoul d = Some (v, [])"
  shows "strtoul (d @ NL # r) = Some (v, NL # r)"
proof -
  define t where "t = dropWhile blank d"
  define u where "u = (if t \<noteq> [] \<and> (hd t = CHR ''-'' \<or> hd t = CHR ''+'') then tl t else t)"
  have u: "takeWhile is_digit u \<noteq> []" "dropWhile is_digit u = []"
    using assms by (auto simp: strtoul_def Let_def t_def [symmetric] u_def split: if_splits)
  have d: "takeWhile is_digit u = u" using u(2) by (metis append.right_neutral takeWhile_dropWhile_id)
  have t: "t \<noteq> []" using u(1) by (auto simp: u_def)
  have n: "\<not> is_digit NL" by (simp add: is_digit_def NL_def)
  have td: "dropWhile blank (d @ NL # r) = t @ NL # r"
    using t unfolding t_def by (metis dropWhile_append dropWhile_eq_Nil_conv)
  have "(if t @ NL # r \<noteq> [] \<and> (hd (t @ NL # r) = CHR ''-'' \<or> hd (t @ NL # r) = CHR ''+'') then tl (t @ NL # r) else t @ NL # r) = u @ NL # r"
    using t by (cases t) (simp_all add: u_def)
  moreover have "takeWhile is_digit (u @ NL # r) = u" "dropWhile is_digit (u @ NL # r) = NL # r"
    using d u(2) n by (auto simp: takeWhile_append dropWhile_append dest: set_takeWhileD)
  moreover have "hd (t @ NL # r) = hd t" using t by (cases t) simp_all
  ultimately show ?thesis
    using assms t d u unfolding strtoul_def td t_def [symmetric] by (simp add: Let_def u_def [symmetric] del: takeWhile_eq_all_conv split: if_splits)
qed

lemma read_frame:
  "read_ntp (c, s) = Some (d, r) \<Longrightarrow> schema_version d = schema_version c \<and> web_enabled (product_settings d) = web_enabled (product_settings c) \<and>
    web_interface (product_settings d) = web_interface (product_settings c) \<and> web_protocol (product_settings d) = web_protocol (product_settings c)"
  "read_interval (c, s) = Some (d, r) \<Longrightarrow> schema_version d = schema_version c \<and> web_enabled (product_settings d) = web_enabled (product_settings c) \<and>
    web_interface (product_settings d) = web_interface (product_settings c) \<and> web_protocol (product_settings d) = web_protocol (product_settings c)"
  "read_backlight (c, s) = Some (d, r) \<Longrightarrow> schema_version d = schema_version c \<and> web_enabled (product_settings d) = web_enabled (product_settings c) \<and>
    web_interface (product_settings d) = web_interface (product_settings c) \<and> web_protocol (product_settings d) = web_protocol (product_settings c)"
  by (auto simp: read_ntp_def read_interval_def read_backlight_def bind_eq_Some_conv set_product_def split: if_splits)

lemma read_web_frame:
  "read_web (c, s) = Some (d, r) \<Longrightarrow> schema_version d = schema_version c \<and> web_protocol (product_settings d) = web_protocol (product_settings c) \<and>
    (schema_version c < 2 \<longrightarrow> d = c)"
  "read_protocol (c, s) = Some (d, r) \<Longrightarrow> schema_version d = schema_version c \<and>
    web_enabled (product_settings d) = web_enabled (product_settings c) \<and> web_interface (product_settings d) = web_interface (product_settings c) \<and>
    (schema_version c \<noteq> 3 \<longrightarrow> d = c)"
  by (auto simp: read_web_def read_protocol_def bind_eq_Some_conv set_product_def split: if_splits)

lemma read_field_parts: "read_field i name f (p, n) = Some (q, r) \<Longrightarrow> \<exists>v. q = f v p"
  by (auto simp: read_field_def bind_eq_Some_conv)

lemma read_field_address:
  "read_field i name f a = Some b \<Longrightarrow> (\<And>v p. gc_bind_address (f v p) = gc_bind_address p) \<Longrightarrow>
   gc_bind_address (fst b) = gc_bind_address (fst a)"
  using read_field_parts [of i name f "fst a" "snd a" "fst b" "snd b"] by auto

lemma read_address_line: "read_address i (p, n) = Some (q, r) \<Longrightarrow> NL \<notin> set (gc_bind_address q)"
proof -
  assume a: "read_address i (p, n) = Some (q, r)"
  then obtain l m where l: "cut_line n = Some (l, m)"
      "read_policy i (p\<lparr>gc_bind_address := drop (length (port_key i ''bind_address'')) l\<rparr>, m) = Some (q, r)"
    by (auto simp: read_address_def bind_eq_Some_conv Let_def split: if_splits)
  have "gc_bind_address q = drop (length (port_key i ''bind_address'')) l"
    using l(2) by (auto simp: read_policy_def bind_eq_Some_conv Let_def split: if_splits)
  then show ?thesis using cut_line_parts [OF l(1)] by (metis in_set_dropD)
qed

lemma read_port_address:
  assumes "read_port i (p, n) = Some (q, r)"
  shows "NL \<notin> set (gc_bind_address q)"
proof -
  obtain a b c d e where s: "read_address i a = Some b" "read_field i ''endpoint_port'' (\<lambda>v p. p\<lparr>gc_endpoint_port := v\<rparr>) b = Some c"
      "read_field i ''special_baud_enabled'' (\<lambda>v p. p\<lparr>gc_special_baud_enabled := sint v\<rparr>) c = Some d"
      "read_field i ''special_baud'' (\<lambda>v p. p\<lparr>gc_special_baud := v\<rparr>) d = Some e"
      "read_field i ''revision'' (\<lambda>v p. p\<lparr>gc_revision := v\<rparr>) e = Some (q, r)"
    using assms by (auto simp: read_port_def bind_eq_Some_conv simp del: split_paired_Ex)
  have "gc_bind_address q = gc_bind_address (fst b)"
    using read_field_address [OF s(2)] read_field_address [OF s(3)] read_field_address [OF s(4)] read_field_address [OF s(5)] by simp
  then show ?thesis using read_address_line [of i "fst a" "snd a" "fst b" "snd b"] s(1) by simp
qed

lemma read_ports_parts:
  "read_ports is n = Some (ps, r) \<Longrightarrow> length ps = length is \<and> (\<forall>p \<in> set ps. NL \<notin> set (gc_bind_address p))"
  by (induction "is" arbitrary: n ps r) (auto simp: bind_eq_Some_conv dest!: read_port_address)

lemma read_body_parts:
  assumes "read_body body = Some c"
  shows "\<exists>d rest. body = ''4VRS_GATEWAY_CONFIG'' @ NL # ''schema='' @ d @ NL # rest \<and> strtoul d = Some (schema_version c, [])"
    "gateway_product_settings_validate (product_settings c)" "fst (gateway_configuration_validate (config_ports c)) = 0"
    "length (config_ports c) = GATEWAY_PORT_COUNT" "\<forall>p \<in> set (config_ports c). NL \<notin> set (gc_bind_address p)"
    "schema_version c \<noteq> 3 \<longrightarrow> web_protocol (product_settings c) = 1"
    "schema_version c < 2 \<longrightarrow> web_enabled (product_settings c) = 0 \<and> web_interface (product_settings c) = 0"
proof -
  obtain r1 r2 r3 r4 r5 c6 n6 ps where r: "read_schema (blank_config, body) = Some r1" "read_ntp r1 = Some r2" "read_interval r2 = Some r3"
      "read_backlight r3 = Some r4" "read_web r4 = Some r5" "read_protocol r5 = Some (c6, n6)"
      "read_ports [0..<GATEWAY_PORT_COUNT] n6 = Some (ps, [])" "c = c6\<lparr>config_ports := ps\<rparr>"
      "gateway_product_settings_validate (product_settings c)" "fst (gateway_configuration_validate ps) = 0"
    using assms by (auto simp: read_body_def bind_eq_Some_conv Let_def simp del: split_paired_Ex split: if_splits)
  obtain d v rest where d: "body = ''4VRS_GATEWAY_CONFIG'' @ NL # ''schema='' @ d @ NL # rest" "strtoul d = Some (v, [])"
      "r1 = (blank_config\<lparr>schema_version := v\<rparr>, rest)"
    using read_schema_parts [OF r(1)] by blast
  note f = read_frame(1) [of "fst r1" "snd r1" "fst r2" "snd r2"] read_frame(2) [of "fst r2" "snd r2" "fst r3" "snd r3"]
    read_frame(3) [of "fst r3" "snd r3" "fst r4" "snd r4"] read_web_frame(1) [of "fst r4" "snd r4" "fst r5" "snd r5"]
    read_web_frame(2) [of "fst r5" "snd r5" c6 n6]
  have g: "schema_version c6 = v" "v \<noteq> 3 \<longrightarrow> web_protocol (product_settings c6) = 1"
      "v < 2 \<longrightarrow> web_enabled (product_settings c6) = 0 \<and> web_interface (product_settings c6) = 0"
    using f r d(3) by (auto simp: blank_config_def)
  show "\<exists>d rest. body = ''4VRS_GATEWAY_CONFIG'' @ NL # ''schema='' @ d @ NL # rest \<and> strtoul d = Some (schema_version c, [])"
    using d g(1) r(8) by auto
  show "gateway_product_settings_validate (product_settings c)" "fst (gateway_configuration_validate (config_ports c)) = 0"
    using r(8-10) by simp_all
  show "length (config_ports c) = GATEWAY_PORT_COUNT" "\<forall>p \<in> set (config_ports c). NL \<notin> set (gc_bind_address p)"
    using read_ports_parts [OF r(7)] r(8) by simp_all
  show "schema_version c \<noteq> 3 \<longrightarrow> web_protocol (product_settings c) = 1"
    "schema_version c < 2 \<longrightarrow> web_enabled (product_settings c) = 0 \<and> web_interface (product_settings c) = 0"
    using g r(8) by simp_all
qed

lemma decode_parts:
  assumes "gateway_config_decode t = Inr c"
  shows "\<exists>k. read_body (take k (c_string t)) = Some c" "\<not> foreign_version (c_string t)"
  using assms by (auto simp: gateway_config_decode_def Let_def split: if_splits option.splits)

lemma decoded_writable:
  assumes "gateway_config_decode t = Inr c"
  shows "config_writable c"
proof -
  obtain k where k: "read_body (take k (c_string t)) = Some c" using decode_parts(1) [OF assms] by blast
  note p = read_body_parts [OF k]
  obtain d rest where d: "take k (c_string t) = ''4VRS_GATEWAY_CONFIG'' @ NL # ''schema='' @ d @ NL # rest"
      "strtoul d = Some (schema_version c, [])"
    using p(1) by blast
  define more where "more = rest @ drop k (c_string t)"
  have t: "c_string t = ''4VRS_GATEWAY_CONFIG'' @ NL # ''schema='' @ d @ NL # more"
    using append_take_drop_id [of k "c_string t"] by (simp add: d(1) more_def)
  have f: "find_text (NL # ''schema='') (c_string t) = Some 19" by (simp add: t NL_def)
  have "drop (19 + 8) (c_string t) = d @ NL # more" by (simp add: t)
  then have v: "known_version (schema_version c)"
    using decode_parts(2) [OF assms] f strtoul_extend [OF d(2), of more] by (simp add: foreign_version_def char_at_def)
  then have "schema_version c < 3 \<longrightarrow> schema_version c \<noteq> 3" "schema_version c = 1 \<longrightarrow> schema_version c < 2" by auto
  then show ?thesis using v p(2-7) by (simp add: config_writable_def Let_def)
qed

text \<open>
  C38. The text format loses nothing and lets nothing in. The configurations that some text decodes to are exactly
  those that pass the validations of the product settings and of the eight ports, have a schema version that can express
  them, and no line break in an address. And exactly these can be written, with their checksum, into the buffer of 4096
  bytes in a way that the decoder reads back as the same configuration.
\<close>

theorem config_text_roundtrip:
  "(config_writable c \<longleftrightarrow> (\<exists>t. gateway_config_decode t = Inr c)) \<and>
   (config_writable c \<longleftrightarrow> (\<exists>t. gateway_config_encode c GATEWAY_CONFIG_MAX_BYTES = Inr t \<and>
      length t < GATEWAY_CONFIG_MAX_BYTES \<and> gateway_config_decode t = Inr c))"
  using decoded_writable writable_reads_back by blast

text \<open>The defaults are such a configuration.\<close>

lemma defaults_writable: "config_writable gateway_persistent_defaults"
  by code_simp

end
