(* ===== verification/Config_Files.thy ===== *)
theory Config_Files
  imports Config_Accepted
begin

text \<open>
  The files of the persistent configuration (\<open>src/config/gateway_persistence.c\<close>): loading, the selection at the start,
  staging, promotion and saving. A directory is a map from paths to files; an operation returns its result and the
  successive states of the directory, one for each call that changes it, so that a power cut can be put anywhere.
  What the calls of the C library and of the system answer is an argument; \<open>rename\<close> and \<open>unlink\<close> change the
  directory in one piece, as POSIX has it, and a file that was written, flushed, synchronised and closed without an error holds
  what was written. Null arguments are left to the callers.
\<close>

abbreviation GATEWAY_CONFIG_PATH_MAX :: nat where "GATEWAY_CONFIG_PATH_MAX \<equiv> 256"
abbreviation GATEWAY_CONFIG_ACTIVE_NAME :: string where "GATEWAY_CONFIG_ACTIVE_NAME \<equiv> ''gateway.conf''"
abbreviation GATEWAY_CONFIG_BACKUP_NAME :: string where "GATEWAY_CONFIG_BACKUP_NAME \<equiv> ''gateway.conf.good''"
abbreviation GATEWAY_CONFIG_STAGED_NAME :: string where "GATEWAY_CONFIG_STAGED_NAME \<equiv> ''gateway.conf.tmp''"

datatype gateway_save_failpoint =
  GATEWAY_SAVE_FAIL_NONE | GATEWAY_SAVE_FAIL_WRITE | GATEWAY_SAVE_FAIL_FLUSH | GATEWAY_SAVE_FAIL_FILE_SYNC
| GATEWAY_SAVE_FAIL_BACKUP_RENAME | GATEWAY_SAVE_FAIL_PROMOTE_RENAME | GATEWAY_SAVE_FAIL_DIRECTORY_SYNC

text \<open>A file that cannot be opened because it does not exist, one that cannot be read for another reason, and the bytes of any other.\<close>

datatype stored_file = Missing | Unreadable | Stored string

type_synonym disk = "string \<Rightarrow> stored_file"

text \<open>
  What the calls of one save answer: \<open>fwrite\<close> the number of bytes, the others whether they succeed.
  \<open>left_behind\<close> is what the staged file holds while it is written and after a step of its writing failed. \<open>same_bytes\<close> is
  \<open>memcmp\<close> on two configurations, of which equal bytes mean equal configurations.
\<close>

record save_calls =
  can_open :: bool
  written :: nat
  can_flush :: bool
  can_sync :: bool
  can_close :: bool
  left_behind :: stored_file
  can_unlink :: bool
  can_back_up :: bool
  can_promote :: bool
  can_sync_directory :: bool
  same_bytes :: "gateway_persistent_config \<Rightarrow> gateway_persistent_config \<Rightarrow> bool"

definition path_join :: "string \<Rightarrow> string \<Rightarrow> string option" where
  "path_join d name = (let p = d @ ''/'' @ name in if length p < GATEWAY_CONFIG_PATH_MAX then Some p else None)"

section \<open>Loading and the selection at the start\<close>

definition gateway_config_load_file :: "disk \<Rightarrow> string \<Rightarrow> gateway_config_result + gateway_persistent_config" where
  "gateway_config_load_file s path =
     (case s path of
        Missing \<Rightarrow> Inl GATEWAY_CONFIG_ABSENT
      | Unreadable \<Rightarrow> Inl GATEWAY_CONFIG_IO_ERROR
      | Stored b \<Rightarrow> if length b > GATEWAY_CONFIG_MAX_BYTES then Inl GATEWAY_CONFIG_INVALID else gateway_config_decode b)"

text \<open>The result, and what the configuration and the source of the caller are afterwards.\<close>

definition gateway_config_startup_select ::
  "disk \<Rightarrow> string \<Rightarrow> gateway_persistent_config \<times> gateway_config_source \<Rightarrow>
   gateway_config_result \<times> (gateway_persistent_config \<times> gateway_config_source)"
where
  "gateway_config_startup_select s d x =
     (case (path_join d GATEWAY_CONFIG_ACTIVE_NAME, path_join d GATEWAY_CONFIG_BACKUP_NAME) of
        (Some a, Some g) \<Rightarrow>
          (case gateway_config_load_file s a of
             Inr c \<Rightarrow> (GATEWAY_CONFIG_OK, c, GATEWAY_CONFIG_SOURCE_ACTIVE)
           | Inl ar \<Rightarrow>
               (case gateway_config_load_file s g of
                  Inr c \<Rightarrow> (GATEWAY_CONFIG_OK, c, GATEWAY_CONFIG_SOURCE_BACKUP)
                | Inl br \<Rightarrow>
                    if ar = GATEWAY_CONFIG_ABSENT \<and> br = GATEWAY_CONFIG_ABSENT
                    then (GATEWAY_CONFIG_ABSENT, gateway_persistent_defaults, GATEWAY_CONFIG_SOURCE_DEFAULTS)
                    else
                      (if ar = GATEWAY_CONFIG_IO_ERROR \<or> br = GATEWAY_CONFIG_IO_ERROR then GATEWAY_CONFIG_IO_ERROR
                       else if ar = GATEWAY_CONFIG_UNSUPPORTED_VERSION then ar else GATEWAY_CONFIG_INVALID,
                       gateway_persistent_safe_mode, GATEWAY_CONFIG_SOURCE_SAFE_MODE)))
      | _ \<Rightarrow> (GATEWAY_CONFIG_INVALID, x))"

section \<open>Saving\<close>

definition gateway_config_stage ::
  "string \<Rightarrow> gateway_persistent_config \<Rightarrow> gateway_save_failpoint \<Rightarrow> save_calls \<Rightarrow> disk \<Rightarrow> gateway_config_result \<times> disk list"
where
  "gateway_config_stage d c fail k s =
     (case path_join d GATEWAY_CONFIG_STAGED_NAME of None \<Rightarrow> (GATEWAY_CONFIG_INVALID, [])
      | Some t \<Rightarrow>
          (case gateway_config_encode c GATEWAY_CONFIG_MAX_BYTES of Inl r \<Rightarrow> (r, [])
           | Inr b \<Rightarrow>
               if \<not> can_open k then (GATEWAY_CONFIG_IO_ERROR, [])
               else
                 let w = (if fail = GATEWAY_SAVE_FAIL_WRITE then length b div 2 else written k);
                     broken = (GATEWAY_CONFIG_IO_ERROR, [s(t := left_behind k)]) in
                 if w \<noteq> length b then broken
                 else if fail = GATEWAY_SAVE_FAIL_FLUSH \<or> \<not> can_flush k then broken
                 else if fail = GATEWAY_SAVE_FAIL_FILE_SYNC \<or> \<not> can_sync k then broken
                 else if \<not> can_close k then broken
                 else (GATEWAY_CONFIG_OK, [s(t := left_behind k), s(t := Stored b)])))"

definition gateway_config_promote ::
  "string \<Rightarrow> gateway_save_failpoint \<Rightarrow> save_calls \<Rightarrow> disk \<Rightarrow> gateway_config_result \<times> disk list"
where
  "gateway_config_promote d fail k s =
     (case (path_join d GATEWAY_CONFIG_ACTIVE_NAME, path_join d GATEWAY_CONFIG_BACKUP_NAME, path_join d GATEWAY_CONFIG_STAGED_NAME) of
        (Some a, Some g, Some t) \<Rightarrow>
          (case gateway_config_load_file s t of
             Inl r \<Rightarrow> (GATEWAY_CONFIG_INVALID, [])
           | Inr staged \<Rightarrow>
               let ar = gateway_config_load_file s a in
               if (case ar of Inr active \<Rightarrow> same_bytes k active staged | Inl r \<Rightarrow> False)
               then (GATEWAY_CONFIG_UNCHANGED, if can_unlink k then [s(t := Missing)] else [])
               else
                 let back_up = (\<not> isl ar) in
                 if back_up \<and> (fail = GATEWAY_SAVE_FAIL_BACKUP_RENAME \<or> \<not> can_back_up k) then (GATEWAY_CONFIG_IO_ERROR, [])
                 else
                   let h = (if back_up then [s(g := s a, a := Missing)] else []); s = last (s # h) in
                   if fail = GATEWAY_SAVE_FAIL_PROMOTE_RENAME \<or> \<not> can_promote k then (GATEWAY_CONFIG_IO_ERROR, h)
                   else
                     let h = h @ [s(a := s t, t := Missing)] in
                     if fail = GATEWAY_SAVE_FAIL_DIRECTORY_SYNC \<or> \<not> can_sync_directory k
                     then (GATEWAY_CONFIG_DURABILITY_UNCERTAIN, h)
                     else (GATEWAY_CONFIG_OK, h))
      | _ \<Rightarrow> (GATEWAY_CONFIG_INVALID, []))"

definition gateway_config_discard_staged :: "string \<Rightarrow> save_calls \<Rightarrow> disk \<Rightarrow> disk" where
  "gateway_config_discard_staged d k s =
     (case path_join d GATEWAY_CONFIG_STAGED_NAME of None \<Rightarrow> s | Some t \<Rightarrow> if can_unlink k then s(t := Missing) else s)"

definition gateway_config_save ::
  "string \<Rightarrow> gateway_persistent_config \<Rightarrow> gateway_save_failpoint \<Rightarrow> save_calls \<Rightarrow> disk \<Rightarrow> gateway_config_result \<times> disk list"
where
  "gateway_config_save d c fail k s =
     (case path_join d GATEWAY_CONFIG_ACTIVE_NAME of None \<Rightarrow> (GATEWAY_CONFIG_INVALID, [])
      | Some a \<Rightarrow>
          if (case gateway_config_load_file s a of Inr old \<Rightarrow> same_bytes k old c | Inl r \<Rightarrow> False) then (GATEWAY_CONFIG_UNCHANGED, [])
          else
            let (r, h) = gateway_config_stage d c fail k s in
            if r \<noteq> GATEWAY_CONFIG_OK then (r, h)
            else let (r, h') = gateway_config_promote d fail k (last (s # h)) in (r, h @ h'))"

section \<open>A save is atomic\<close>

text \<open>The configuration that a start would take from the files, if any.\<close>

definition in_force :: "string \<Rightarrow> disk \<Rightarrow> gateway_persistent_config option" where
  "in_force d s =
     (case gateway_config_startup_select s d (gateway_persistent_defaults, GATEWAY_CONFIG_SOURCE_DEFAULTS) of
        (r, c, _) \<Rightarrow> if r = GATEWAY_CONFIG_OK then Some c else None)"

lemma in_force_files:
  assumes "path_join d GATEWAY_CONFIG_ACTIVE_NAME = Some a" "path_join d GATEWAY_CONFIG_BACKUP_NAME = Some g"
  shows "in_force d s = (case gateway_config_load_file s a of Inr c \<Rightarrow> Some c
     | Inl r \<Rightarrow> (case gateway_config_load_file s g of Inr c \<Rightarrow> Some c | Inl r \<Rightarrow> None))"
  using assms by (simp add: in_force_def gateway_config_startup_select_def split: sum.split)

lemma load_cong: "s p = s' q \<Longrightarrow> gateway_config_load_file s p = gateway_config_load_file s' q"
  by (simp add: gateway_config_load_file_def)

lemma load_missing: "s p = Missing \<Longrightarrow> gateway_config_load_file s p = Inl GATEWAY_CONFIG_ABSENT"
  by (simp add: gateway_config_load_file_def)

lemma paths:
  assumes "path_join d GATEWAY_CONFIG_BACKUP_NAME \<noteq> None"
  obtains a g t where "path_join d GATEWAY_CONFIG_ACTIVE_NAME = Some a" "path_join d GATEWAY_CONFIG_BACKUP_NAME = Some g"
    "path_join d GATEWAY_CONFIG_STAGED_NAME = Some t" "a \<noteq> g" "a \<noteq> t" "g \<noteq> t"
  using assms by (auto simp: path_join_def Let_def split: if_splits)

lemma staged_ignored:
  assumes "path_join d GATEWAY_CONFIG_ACTIVE_NAME = Some a" "path_join d GATEWAY_CONFIG_BACKUP_NAME = Some g" "a \<noteq> t" "g \<noteq> t"
  shows "in_force d (s(t := x)) = in_force d s"
  using assms(3,4) load_cong [of "s(t := x)" a s a] load_cong [of "s(t := x)" g s g]
  by (simp add: in_force_files [OF assms(1,2)] split: sum.split)

lemma encode_refuses:
  "gateway_config_encode c cap = Inl r \<Longrightarrow> r = GATEWAY_CONFIG_INVALID \<or> r = GATEWAY_CONFIG_UNSUPPORTED_VERSION"
  by (auto simp: gateway_config_encode_def Let_def split: if_splits option.splits)

lemma stage_cases:
  assumes "path_join d GATEWAY_CONFIG_STAGED_NAME = Some t"
  obtains (staged) b where "gateway_config_encode c GATEWAY_CONFIG_MAX_BYTES = Inr b"
      "gateway_config_stage d c fail k s = (GATEWAY_CONFIG_OK, [s(t := left_behind k), s(t := Stored b)])"
    | (failed) r h where "gateway_config_stage d c fail k s = (r, h)" "h = [] \<or> h = [s(t := left_behind k)]"
      "r \<notin> {GATEWAY_CONFIG_OK, GATEWAY_CONFIG_UNCHANGED, GATEWAY_CONFIG_DURABILITY_UNCERTAIN}"
proof (cases "gateway_config_encode c GATEWAY_CONFIG_MAX_BYTES")
  case (Inl r)
  then show ?thesis using assms encode_refuses [OF Inl] by (intro failed [of r "[]"]) (auto simp: gateway_config_stage_def)
next
  case (Inr b)
  let ?bad = "(GATEWAY_CONFIG_IO_ERROR, [s(t := left_behind k)])"
  have "gateway_config_stage d c fail k s \<in>
      {(GATEWAY_CONFIG_IO_ERROR, []), ?bad, (GATEWAY_CONFIG_OK, [s(t := left_behind k), s(t := Stored b)])}"
    using assms Inr by (simp add: gateway_config_stage_def Let_def)
  then show ?thesis using staged [OF Inr] failed by blast
qed

text \<open>What can be written can be read back.\<close>

lemma encoded_decodes:
  assumes "gateway_config_encode c GATEWAY_CONFIG_MAX_BYTES = Inr b" "length (config_ports c) = GATEWAY_PORT_COUNT"
    "\<forall>p \<in> set (config_ports c). NL \<notin> set (gc_bind_address p)"
  shows "length b < GATEWAY_CONFIG_MAX_BYTES" "gateway_config_decode b = Inr c"
proof -
  have "config_writable c"
    using assms by (auto simp: gateway_config_encode_def config_writable_def Let_def split: if_splits)
  then show "length b < GATEWAY_CONFIG_MAX_BYTES" "gateway_config_decode b = Inr c"
    using writable_reads_back [of c] assms(1) by auto
qed

text \<open>The states that a promotion passes through, and the last one.\<close>

definition saves :: "string \<Rightarrow> gateway_persistent_config \<Rightarrow> disk \<Rightarrow> gateway_config_result \<times> disk list \<Rightarrow> bool" where
  "saves d c s = (\<lambda>(r, h).
     (\<forall>x \<in> set h. in_force d x \<in> {in_force d s, Some c}) \<and>
     in_force d (last (s # h)) =
       (if r \<in> {GATEWAY_CONFIG_OK, GATEWAY_CONFIG_UNCHANGED, GATEWAY_CONFIG_DURABILITY_UNCERTAIN} then Some c else in_force d s))"

lemma promote_saves:
  assumes "path_join d GATEWAY_CONFIG_ACTIVE_NAME = Some a" "path_join d GATEWAY_CONFIG_BACKUP_NAME = Some g"
    "path_join d GATEWAY_CONFIG_STAGED_NAME = Some t" "a \<noteq> g" "a \<noteq> t" "g \<noteq> t"
    "gateway_config_load_file s t = Inr c" "\<And>x y. same_bytes k x y \<Longrightarrow> x = y"
  shows "saves d c s (gateway_config_promote d fail k s)"
proof -
  note i = in_force_files [OF assms(1,2)]
  let ?ar = "gateway_config_load_file s a"
  define s1 where "s1 = (if isl ?ar then s else s(g := s a, a := Missing))"
  define s2 where "s2 = s1(a := s1 t, t := Missing)"
  have t1: "gateway_config_load_file s1 t = Inr c"
    using assms(5-7) load_cong [of s1 t s t] by (simp add: s1_def)
  have f1: "in_force d s1 = in_force d s"
  proof (cases ?ar)
    case (Inr x)
    then have "gateway_config_load_file s1 a = Inl GATEWAY_CONFIG_ABSENT" "gateway_config_load_file s1 g = Inr x"
      using assms(4) load_missing [of s1 a] load_cong [of s1 g s a] by (simp_all add: s1_def)
    then show ?thesis using Inr by (simp add: i)
  qed (simp add: s1_def)
  have f2: "in_force d s2 = Some c"
    using t1 assms(5) load_cong [of s2 a s1 t] by (simp add: i s2_def)
  have u: "in_force d (s(t := Missing)) = in_force d s" by (rule staged_ignored [OF assms(1,2,5,6)])
  have same: "in_force d s = Some c" if "?ar = Inr x" "same_bytes k x c" for x
    using that assms(8) by (simp add: i)
  show ?thesis
  proof (cases ?ar)
    case (Inl r)
    then have "s1 = s" by (simp add: s1_def)
    then show ?thesis using Inl assms(1-3,7) f2 unfolding saves_def s2_def
      by (simp add: gateway_config_promote_def Let_def)
  next
    case (Inr x)
    then have s1: "s1 = s(g := s a, a := Missing)" by (simp add: s1_def)
    show ?thesis
    proof (cases "same_bytes k x c")
      case True
      then show ?thesis using Inr assms(1-3,7) u same unfolding saves_def by (simp add: gateway_config_promote_def)
    next
      case False
      then show ?thesis using Inr assms(1-3,7) f1 f2 unfolding saves_def s2_def s1
        by (simp add: gateway_config_promote_def Let_def)
    qed
  qed
qed


definition willing_calls :: save_calls where
  "willing_calls = \<lparr>can_open = True, written = 2170, can_flush = True, can_sync = True, can_close = True, left_behind = Unreadable,
     can_unlink = True, can_back_up = True, can_promote = True, can_sync_directory = True, same_bytes = (=)\<rparr>"


end
