(* ===== verification/Spec2Isabelle.thy ===== *)
theory Spec2Isabelle
  imports Modbus_Serial Network_Manager Gateway_Adapter Tcp_Listener_Service Udp_Listener_Service Owner_Ready Coordinator_Startup
    Config_Files
begin

text \<open>
  A verification library for the gateway firmware under \<open>src/src\<close>: eight serial ports, each offered on the network as
  Modbus TCP, Modbus UDP, RTU over UDP or a raw byte stream, with the network settings and the DHCP client of the box.
  The program is C for a 32-bit target, one thread, cooperative: everything is a \<open>step\<close> function over explicit state,
  and so is the model.

  \<^bold>\<open>Parts and theories.\<close>

  \<^item> \<open>Gateway_Prelude\<close> and \<open>Deadline\<close>: type synonyms, hint collections and shared lemmas; ticks that wrap at
    \<open>2 ^ 32\<close>, deadlines and the monotonic accumulator (\<open>core/deadline.c\<close>, \<open>core/monotonic.h\<close>).
  \<^item> \<open>Fifo\<close>, \<open>Transaction\<close>: the locale of a bounded queue, and the ring of \<open>core/transaction.h\<close> that implements it.
  \<^item> \<open>Backend_Contract\<close>, \<open>Port_Runtime\<close> and \<open>Port_Invariant\<close>, \<open>Port_Legal\<close>, \<open>Port_Trail\<close>, \<open>Port_Properties\<close>: the port
    runtime of \<open>core/port_runtime.c\<close> over an arbitrary backend table and completion callback; its invariant, its state
    diagram, the trail of completions, and its properties.
  \<^item> \<open>Mock_Backend\<close>, \<open>Uart_Backend\<close>, \<open>Uart_Properties\<close>: the two backends (\<open>core/mock_backend.c\<close>, \<open>uart/uart_backend.c\<close>);
    both interpret the backend contract.
  \<^item> \<open>Modbus_Crc\<close>, \<open>Mbap_Stream\<close>, \<open>Modbus_Adapter\<close>, \<open>Modbus_Serial\<close>, \<open>Modbus_Dispatcher\<close>: checksum, stream parser,
    translation between MBAP and RTU, its composition with the serial backend, and the fair dispatcher (\<open>modbus/*.c\<close>).
  \<^item> \<open>Net_Sockets\<close>, \<open>Modbus_Tcp_Listener\<close>, \<open>Tcp_Listener_Properties\<close>, \<open>Tcp_Listener_Service\<close>, \<open>Modbus_Udp_Listener\<close>,
    \<open>Udp_Listener_Service\<close>, \<open>Raw_Serial_Listener\<close>, \<open>Raw_Session\<close>: the table of socket calls, and the three listeners of
    \<open>network/modbus_tcp_listener.c\<close>, \<open>network/modbus_udp_listener.c\<close> and \<open>network/raw_serial_listener.c\<close>.
  \<^item> \<open>Gateway_Config\<close>, \<open>Gateway_Controller\<close>, \<open>Gateway_Lifecycle\<close>, \<open>Gateway_Adapter\<close>: configurations and their validation
    (\<open>config/config_model.c\<close>), the lifecycle of the ports (\<open>gateway/gateway_controller.c\<close>) over arbitrary transports, and the
    adapter that puts backend and listeners under it (\<open>gateway/gateway_real_adapter.c\<close>).
  \<^item> \<open>Gateway_Coordinator\<close>, \<open>Coordinator_Startup\<close>: the staged start and the shutdown (\<open>gateway/gateway_coordinator.c\<close>),
    with the defaults and the safe mode of \<open>config/gateway_persistence.c\<close>.
  \<^item> \<open>Config_Text\<close>, \<open>Config_Roundtrip\<close>, \<open>Config_Accepted\<close>, \<open>Config_Files\<close>: the text format of the persistent configuration with
    its checksum (\<open>config/gateway_persistence.c\<close>), the encoder read back by the decoder, what the decoder accepts, and the
    files, which a save replaces in one piece.
  \<^item> \<open>Network_Settings\<close>, \<open>Network_Manager\<close>: address texts, the validation of the LAN settings, and the apply, confirm and
    roll back machine (\<open>network/gateway_network_settings.c\<close>, \<open>network/gateway_network_manager.c\<close>).
  \<^item> \<open>Dhcp_Client\<close>, \<open>Dhcp_Lease\<close>, \<open>Dhcp_Wire\<close>: the DHCP client and its frames (\<open>network/gateway_dhcp_client.c\<close>,
    \<open>network/gateway_dhcp_wire.c\<close>).
  \<^item> \<open>Network_Owner\<close>, \<open>Owner_Writes\<close>, \<open>Owner_Ready\<close>: the owner of the network policy (\<open>network/gateway_network_owner.c\<close>),
    which runs the two DHCP clients and has the addresses written by one job at a time.

  \<^bold>\<open>How the parts interact.\<close> The coordinator validates a configuration and drives the controller; the controller starts
  and stops, per port, a port runtime and a transport; the transport is a listener that submits requests to the runtime
  and is called back when they complete; the runtime drives the serial backend. Each of these boundaries is a table of
  functions in the code and a record of functions here; what one side relies on is a locale: \<open>backend_contract\<close> for the
  runtime, \<open>transport_contract\<close> for the controller, \<open>accepting_driver\<close> for the coordinator, the queue locale of \<open>Fifo\<close>. Each is
  interpreted on the model of the code that provides it.

  \<^bold>\<open>Conventions.\<close> A structure is a record, an enumeration a datatype, \<open>unsigned int\<close> and \<open>core_tick_t\<close> are \<open>32 word\<close>, bytes
  \<open>8 word\<close>, an array or buffer with its length a list, a null pointer or a missing function \<open>None\<close>. A pointer that two parts
  share is resolved by threading the state it points to: a listener is the completion context of its port. Counters that
  saturate are written out. Sizes that cannot wrap within the bounds of the code (positions in buffers, sums of at most
  1514 bytes) are natural numbers. System calls are fields of records of functions over a state of their own, so that
  theorems hold for every behaviour of the system; where a theorem needs the documented behaviour of a call (a read
  returns at most what was asked for), it is a named hypothesis with a witness.

  \<^bold>\<open>What the lemmas show.\<close> For the port: the invariant, the state diagram, completion of accepted requests once and in
  order, stale events ignored, recovery and reconfiguration end. For the serial line and the Modbus layers: an answer
  that reaches a client answers its request; streams are cut the same however they arrive; the dispatcher is fair and
  keeps each connection's order. For the listeners: who gets which answer, repeated datagrams, owners of a raw line,
  bytes carried in order, time limits that cannot be pushed forward. For the gateway: validation, whole configurations, a READY port is served by
  a started listener, the configuration text is read back and a save is atomic, the start proceeds by stages, the shutdown ends. Others show
  where the code does not do what it means to: respelled endpoints, a refused rollback, the clients of a cleared listener. For the network: exact parsing, usable settings and leases, commits
  only when confirmed, no expired lease in use, only whole datagrams taken, one write job at a time, ready only when the
  interfaces show what was asked for.

  \<^bold>\<open>Histories and bounds.\<close> The properties \<open>over all runs\<close> fold an execution function over arbitrary lists of operations,
  with arbitrary times. There is no fuel: loops of the code are structural recursion, or recursion with a termination
  proof (the digits of an address, the options of a reply, the carry of a checksum, the drain loop of the serial
  backend). Time bounds are stated with the tick arithmetic of the code, valid up to half its range.

  \<^bold>\<open>Not modelled.\<close> The profile, document,
  store, runtime, service and supervisor processes of \<open>network/\<close>; the application loop, panel, display, web server,
  installer, launcher, console and the tools: they are process, file, screen and library code around the parts above.
  Trace output, and the functions that only return the size of a structure, are left out everywhere. Two C features are
  outside the model: padding bytes compared by \<open>memcmp\<close>, and objects whose lifetime ends while a pointer remains.
\<close>

end
